(* ===== verification/Go_Prelude.thy ===== *)
theory Go_Prelude
  imports Main "HOL-Library.Word" "HOL-Library.Multiset" "HOL-Library.AList"
    "HOL-Library.Signed_Division"
begin

text \<open>
  The part of the Go language and of its standard library that the components share:
  fixed-width integer arithmetic with its wrap-around, \<^verbatim>\<open>map\<close> values with their
  unspecified iteration order, and \<^verbatim>\<open>sort.Sort\<close> over a user supplied
  \<^verbatim>\<open>Less\<close> method, together with the generic lemmas about them that the component
  theories use through the collections \<open>go_int\<close> and \<open>go_map\<close>.
\<close>

named_theorems go_int \<open>wrap-around arithmetic that stays in range\<close>
named_theorems go_map \<open>lookups in Go maps after an update\<close>

section \<open>Faults\<close>

text \<open>
  What can end a Go function other than a return: a run-time panic (an index out of range,
  a nil dereference), \<^verbatim>\<open>klog.Fatalf\<close>, which ends the process, and a loop that runs on
  past the number of rounds the model allows (\<open>Hang\<close>). \<open>Undefined\<close> is a write of embedded C code past
  the end of a buffer.
\<close>

datatype go_fault = Panic | Fatal | Hang | Undefined

section \<open>Integers\<close>

text \<open>
  \<^verbatim>\<open>int\<close> and \<^verbatim>\<open>int64\<close> values are integers in \<open>[-2^63, 2^63)\<close>,
  \<^verbatim>\<open>uint\<close> and \<^verbatim>\<open>uint64\<close> values integers in \<open>[0, 2^64)\<close>; the result of
  every operation and conversion whose operands are not bounded by the code is reduced by the
  functions below, as the Go specification prescribes. Division truncates towards zero
  (\<open>sdiv\<close>, \<open>smod\<close>).
\<close>

definition i64 :: "int \<Rightarrow> int" where
  "i64 x = (x + 2 ^ 63) mod 2 ^ 64 - 2 ^ 63"

definition u64 :: "int \<Rightarrow> int" where
  "u64 x = x mod 2 ^ 64"

definition i32 :: "int \<Rightarrow> int" where
  "i32 x = (x + 2 ^ 31) mod 2 ^ 32 - 2 ^ 31"

definition u32 :: "int \<Rightarrow> int" where
  "u32 x = x mod 2 ^ 32"

lemma i64_id [go_int]: "- (2 ^ 63) \<le> x \<Longrightarrow> x < 2 ^ 63 \<Longrightarrow> i64 x = x"
  by (simp add: i64_def)

lemma u64_id [go_int]: "0 \<le> x \<Longrightarrow> x < 2 ^ 64 \<Longrightarrow> u64 x = x"
  by (simp add: u64_def)

lemma i32_id [go_int]: "- (2 ^ 31) \<le> x \<Longrightarrow> x < 2 ^ 31 \<Longrightarrow> i32 x = x"
  by (simp add: i32_def)

lemma u32_id [go_int]: "0 \<le> x \<Longrightarrow> x < 2 ^ 32 \<Longrightarrow> u32 x = x"
  by (simp add: u32_def)

lemma i64_range: "- (2 ^ 63) \<le> i64 x \<and> i64 x < 2 ^ 63"
proof -
  have "0 \<le> (x + 2 ^ 63) mod 2 ^ 64 \<and> (x + 2 ^ 63) mod 2 ^ 64 < (2 ^ 64 :: int)"
    by simp
  then show ?thesis by (simp add: i64_def)
qed

lemma u64_range: "0 \<le> u64 x \<and> u64 x < 2 ^ 64"
  by (simp add: u64_def)

lemma i64_u64 [simp]: "u64 (i64 x) = u64 x"
  by (simp add: i64_def u64_def mod_diff_left_eq flip: mod_diff_left_eq [of "_ mod _"])

lemma sdiv_nonneg: "0 \<le> a \<Longrightarrow> 0 < b \<Longrightarrow> a sdiv b = a div (b :: int)"
  unfolding signed_divide_int_def by (cases "a = 0") simp_all

lemma smod_nonneg: "0 \<le> a \<Longrightarrow> 0 < b \<Longrightarrow> a smod b = a mod (b :: int)"
  unfolding signed_modulo_int_def by (cases "a = 0") simp_all

section \<open>Maps\<close>

text \<open>
  A Go map is an association list without duplicate keys. \<^verbatim>\<open>m[k] = v\<close> is
  \<open>AList.update\<close>, \<^verbatim>\<open>delete(m, k)\<close> is \<open>AList.delete\<close> and a lookup is
  \<open>map_of\<close>. The order in which \<^verbatim>\<open>for k, v := range m\<close> visits the entries is not
  specified by the language: it is a parameter \<open>ord\<close> of every definition that iterates,
  a function that arranges the keys in some order, constrained only by \<open>range_order\<close>.
\<close>

type_synonym ('k, 'v) gomap = "('k \<times> 'v) list"

definition range_order :: "('k list \<Rightarrow> 'k list) \<Rightarrow> bool" where
  "range_order ord \<longleftrightarrow> (\<forall>ks. mset (ord ks) = mset ks)"

definition gorange :: "('k list \<Rightarrow> 'k list) \<Rightarrow> ('k, 'v) gomap \<Rightarrow> ('k \<times> 'v) list" where
  "gorange ord m = map (\<lambda>k. (k, the (map_of m k))) (ord (map fst m))"

definition gomap_ok :: "('k, 'v) gomap \<Rightarrow> bool" where
  "gomap_ok m \<longleftrightarrow> distinct (map fst m)"

lemma gomap_ok_Nil [simp]: "gomap_ok []"
  by (simp add: gomap_ok_def)

lemma gomap_ok_update [simp]: "gomap_ok m \<Longrightarrow> gomap_ok (AList.update k v m)"
  by (simp add: gomap_ok_def distinct_update)

lemma gomap_ok_delete [simp]: "gomap_ok m \<Longrightarrow> gomap_ok (AList.delete k m)"
  by (simp add: gomap_ok_def distinct_delete)

lemma map_of_AList_update [go_map]:
  "map_of (AList.update k v m) k' = (if k' = k then Some v else map_of m k')"
  by (simp add: update_conv')

lemma map_of_AList_delete [go_map]:
  "map_of (AList.delete k m) k' = (if k' = k then None else map_of m k')"
  by (simp add: delete_conv')

lemma update_new: "k \<notin> fst ` set m \<Longrightarrow> AList.update k v m = m @ [(k, v)]"
  by (induction m) auto

lemma update_update_same: "AList.update k v (AList.update k w m) = AList.update k v m"
  by (induction m) auto

lemma set_update_subset: "set (AList.update k v m) \<subseteq> insert (k, v) (set m)"
  by (induction m) auto

lemma set_AList_delete: "set (AList.delete k m) = {p \<in> set m. fst p \<noteq> k}"
  by (auto simp: AList.delete_eq)

lemma range_order_id [simp]: "range_order (\<lambda>ks. ks)"
  by (simp add: range_order_def)

lemma range_order_set: "range_order ord \<Longrightarrow> set (ord ks) = set ks"
  by (metis range_order_def set_mset_mset)

lemma range_order_distinct: "range_order ord \<Longrightarrow> distinct (ord ks) = distinct ks"
  by (metis range_order_def mset_eq_imp_distinct_iff)

lemma range_order_length: "range_order ord \<Longrightarrow> length (ord ks) = length ks"
  by (metis range_order_def size_mset)

lemma mset_gorange:
  assumes "range_order ord" "gomap_ok m"
  shows "mset (gorange ord m) = mset m"
proof -
  have "mset (gorange ord m) = image_mset (\<lambda>k. (k, the (map_of m k))) (mset (map fst m))"
    using assms(1) by (simp add: gorange_def range_order_def)
  also have "\<dots> = mset (map (\<lambda>p. (fst p, the (map_of m (fst p)))) m)"
    by (simp add: multiset.map_comp comp_def)
  also have "map (\<lambda>p. (fst p, the (map_of m (fst p)))) m = m"
    using assms(2) by (intro map_idI) (auto simp: gomap_ok_def)
  finally show ?thesis .
qed

lemma set_gorange: "range_order ord \<Longrightarrow> gomap_ok m \<Longrightarrow> set (gorange ord m) = set m"
  by (metis mset_gorange set_mset_mset)

lemma mset_concat_map: "mset (concat (map f xs)) = (\<Sum>x\<in>#mset xs. mset (f x))"
  by (induction xs) auto

lemma mset_delete:
  assumes "gomap_ok m" "map_of m k = Some v"
  shows "mset m = add_mset (k, v) (mset (AList.delete k m))"
  using assms
proof (induction m)
  case (Cons p m)
  obtain k' v' where p: "p = (k', v')" by (cases p)
  show ?case
  proof (cases "k' = k")
    case True
    then have "k \<notin> fst ` set m" using Cons.prems p by (auto simp: gomap_ok_def)
    then have "AList.delete k m = m" by simp
    then show ?thesis using True Cons.prems p by simp
  next
    case False
    then show ?thesis using Cons p by (simp add: gomap_ok_def)
  qed
qed simp

lemma map_of_None_delete: "map_of m k = None \<Longrightarrow> AList.delete k m = m"
  by (simp add: map_of_eq_None_iff)

lemma list_all_update: "P (k, v) \<Longrightarrow> list_all P m \<Longrightarrow> list_all P (AList.update k v m)"
  by (induction m) auto

lemma foldl_nested: "foldl (\<lambda>s x. foldl g s (h x)) s xs = foldl g s (concat (map h xs))"
  by (induction xs arbitrary: s) auto

section \<open>Searching\<close>

lemma find_SomeD: "find P xs = Some b \<Longrightarrow> P b \<and> b \<in> set xs"
  by (induction xs) (auto split: if_splits)

lemma find_filter: "find P (filter Q xs) = find (\<lambda>x. Q x \<and> P x) xs"
  by (induction xs) auto

section \<open>sort.Sort\<close>

text \<open>
  \<^verbatim>\<open>sort.Sort(data)\<close> with \<open>lt x y\<close> for the method \<^verbatim>\<open>Less\<close> on two
  elements. For slices of at most twelve elements the library runs its insertion sort, whose
  inner loop moves the element at position \<open>i\<close> to the left while it is \<open>less\<close> than its left
  neighbour; \<open>go_sift\<close> is that inner loop on the reversed sorted prefix. For longer slices the
  library only promises a sorted permutation; \<open>sort_unique\<close> below shows that for a comparison
  that separates the elements every sorted permutation is this one.
\<close>

fun go_sift :: "('a \<Rightarrow> 'a \<Rightarrow> bool) \<Rightarrow> 'a \<Rightarrow> 'a list \<Rightarrow> 'a list" where
  "go_sift lt x [] = [x]"
| "go_sift lt x (z # zs) = (if lt x z then z # go_sift lt x zs else x # z # zs)"

definition go_sort :: "('a \<Rightarrow> 'a \<Rightarrow> bool) \<Rightarrow> 'a list \<Rightarrow> 'a list" where
  "go_sort lt xs = rev (foldl (\<lambda>acc x. go_sift lt x acc) [] xs)"

text \<open>
  The \<^verbatim>\<open>Less\<close> methods of the priority types compare by a list of criteria: the first
  criterion that separates the two elements decides, and the last one is returned as it is.
  The list is never empty, so its first element is an argument of its own.
\<close>

primrec multi_less ::
  "('a \<Rightarrow> 'a \<Rightarrow> bool) \<Rightarrow> ('a \<Rightarrow> 'a \<Rightarrow> bool) list \<Rightarrow> 'a \<Rightarrow> 'a \<Rightarrow> bool" where
  "multi_less l [] = l"
| "multi_less l (m # ms) =
     (\<lambda>a b. if l a b then True else if l b a then False else multi_less m ms a b)"

definition strict_weak :: "('a \<Rightarrow> 'a \<Rightarrow> bool) \<Rightarrow> bool" where
  "strict_weak lt \<longleftrightarrow> (\<forall>x y. lt x y \<longrightarrow> \<not> lt y x)
     \<and> (\<forall>x y z. \<not> lt y x \<longrightarrow> \<not> lt z y \<longrightarrow> \<not> lt z x)"

lemma mset_go_sift: "mset (go_sift lt x zs) = add_mset x (mset zs)"
  by (induction zs) auto

lemma mset_foldl_go_sift:
  "mset (foldl (\<lambda>acc x. go_sift lt x acc) acc xs) = mset acc + mset xs"
  by (induction xs arbitrary: acc) (auto simp: mset_go_sift)

lemma mset_go_sort [simp]: "mset (go_sort lt xs) = mset xs"
  by (simp add: go_sort_def mset_foldl_go_sift)

lemma set_go_sort [simp]: "set (go_sort lt xs) = set xs"
  by (metis mset_go_sort set_mset_mset)

lemma length_go_sort [simp]: "length (go_sort lt xs) = length xs"
  by (metis mset_go_sort size_mset)

lemma distinct_go_sort [simp]: "distinct (go_sort lt xs) = distinct xs"
  by (metis mset_go_sort mset_eq_imp_distinct_iff)

lemma go_sort_Nil_iff [simp]: "go_sort lt xs = [] \<longleftrightarrow> xs = []"
  by (metis length_go_sort length_0_conv)

lemma strict_weak_key: "strict_weak (\<lambda>a b. (f a :: 'k :: linorder) < f b)"
  by (auto simp: strict_weak_def)

lemma strict_weak_multi_less:
  "strict_weak l \<Longrightarrow> list_all strict_weak ms \<Longrightarrow> strict_weak (multi_less l ms)"
proof (induction ms arbitrary: l)
  case (Cons m ms)
  then have "strict_weak l" and "strict_weak (multi_less m ms)" by auto
  then show ?case unfolding strict_weak_def multi_less.simps by (smt (verit))
qed simp

text \<open>
  The contract of \<^verbatim>\<open>sort.Interface\<close>: \<open>le\<close> is the order the result follows. A strict
  comparison gives \<open>le x y\<close> as \<open>\<not> lt y x\<close>; a non-strict one gives itself.
\<close>

locale sort_contract =
  fixes lt :: "'a \<Rightarrow> 'a \<Rightarrow> bool" and le :: "'a \<Rightarrow> 'a \<Rightarrow> bool"
  assumes le_trans: "le x y \<Longrightarrow> le y z \<Longrightarrow> le x z"
    and less_le: "lt x y \<Longrightarrow> le x y"
    and not_less_le: "\<not> lt x y \<Longrightarrow> le y x"
begin

lemma sift_sorted:
  "sorted_wrt (\<lambda>a b. le b a) zs \<Longrightarrow> sorted_wrt (\<lambda>a b. le b a) (go_sift lt x zs)"
proof (induction zs)
  case (Cons z zs)
  have "set (go_sift lt x zs) = insert x (set zs)"
    by (metis mset_go_sift set_mset_add_mset_insert set_mset_mset)
  with Cons show ?case
    by (auto intro: less_le dest: not_less_le le_trans)
qed simp

lemma sort_sorted: "sorted_wrt le (go_sort lt xs)"
proof -
  have "sorted_wrt (\<lambda>a b. le b a) (foldl (\<lambda>acc x. go_sift lt x acc) acc xs)"
    if "sorted_wrt (\<lambda>a b. le b a) acc" for acc
    using that by (induction xs arbitrary: acc) (auto intro: sift_sorted)
  then show ?thesis by (simp add: go_sort_def sorted_wrt_rev)
qed

lemma le_refl: "le x x"
  using less_le not_less_le by blast

lemma sort_hd_le: "xs \<noteq> [] \<Longrightarrow> y \<in> set xs \<Longrightarrow> le (hd (go_sort lt xs)) y"
  using sort_sorted [of xs] le_refl
  by (cases "go_sort lt xs") (auto simp flip: set_go_sort [of lt xs])

lemma sort_unique:
  assumes "mset ys = mset xs" "sorted_wrt le ys"
    and "\<And>x y. x \<in> set xs \<Longrightarrow> y \<in> set xs \<Longrightarrow> le x y \<Longrightarrow> le y x \<Longrightarrow> x = y"
  shows "ys = go_sort lt xs"
proof -
  have "ys = zs" if "mset ys = mset zs" "sorted_wrt le ys" "sorted_wrt le zs"
    "\<And>x y. x \<in> set zs \<Longrightarrow> y \<in> set zs \<Longrightarrow> le x y \<Longrightarrow> le y x \<Longrightarrow> x = y" for ys zs
    using that
  proof (induction zs arbitrary: ys)
    case (Cons z zs)
    then obtain y ys' where ys: "ys = y # ys'" by (cases ys) auto
    have eq: "set ys = set (z # zs)" using Cons.prems(1) by (metis set_mset_mset)
    then have "z \<in> set ys" "y \<in> set (z # zs)" using ys by auto
    then have "le y z" "le z y"
      using Cons.prems(2,3) ys le_refl by auto
    then have "y = z" using Cons.prems(4) \<open>y \<in> set (z # zs)\<close> by auto
    with Cons ys show ?case by simp
  qed simp
  from this [of ys "go_sort lt xs"] assms show ?thesis
    by (simp add: sort_sorted)
qed

end

lemma strict_weak_sort_contract:
  "strict_weak lt \<Longrightarrow> sort_contract lt (\<lambda>x y. \<not> lt y x)"
  unfolding strict_weak_def by unfold_locales blast+

end
