(* ===== verification/Go_Strings.thy ===== *)
theory Go_Strings
  imports Go_Prelude
begin

text \<open>
  The functions of the packages \<^verbatim>\<open>strings\<close>, \<^verbatim>\<open>strconv\<close> and
  \<^verbatim>\<open>path/filepath\<close> that the program calls, on strings of bytes. A separator or
  substring argument is a non-empty constant in every call of the program. The lemmas give the
  decimal round trip and the split/join round trip the components rest on.
\<close>

section \<open>Package strings\<close>

definition hasPrefix :: "string \<Rightarrow> string \<Rightarrow> bool" where
  "hasPrefix s p \<longleftrightarrow> take (length p) s = p"

definition hasSuffix :: "string \<Rightarrow> string \<Rightarrow> bool" where
  "hasSuffix s p \<longleftrightarrow> length p \<le> length s \<and> drop (length s - length p) s = p"

definition trimPrefix :: "string \<Rightarrow> string \<Rightarrow> string" where
  "trimPrefix s p = (if hasPrefix s p then drop (length p) s else s)"

definition trimSuffix :: "string \<Rightarrow> string \<Rightarrow> string" where
  "trimSuffix s p = (if hasSuffix s p then take (length s - length p) s else s)"

text \<open>\<^verbatim>\<open>strings.Index\<close>, with \<open>None\<close> for the result \<open>-1\<close>.\<close>

primrec indexOf :: "string \<Rightarrow> string \<Rightarrow> nat option" where
  "indexOf [] p = (if p = [] then Some 0 else None)"
| "indexOf (c # cs) p =
     (if hasPrefix (c # cs) p then Some 0 else map_option Suc (indexOf cs p))"

definition containsStr :: "string \<Rightarrow> string \<Rightarrow> bool" where
  "containsStr s p \<longleftrightarrow> indexOf s p \<noteq> None"

text \<open>\<^verbatim>\<open>strings.LastIndex(s, c)\<close> for a one-byte substring.\<close>

primrec lastIndexChar :: "string \<Rightarrow> char \<Rightarrow> nat option" where
  "lastIndexChar [] c = None"
| "lastIndexChar (x # xs) c =
     (case lastIndexChar xs c of
        Some i \<Rightarrow> Some (Suc i)
      | None \<Rightarrow> if x = c then Some 0 else None)"

lemma indexOf_bound: "indexOf s p = Some i \<Longrightarrow> i + length p \<le> length s"
proof (induction s arbitrary: i)
  case (Cons c s)
  have "length p \<le> Suc (length s)" if "hasPrefix (c # s) p"
    using that unfolding hasPrefix_def by (metis length_Cons length_take min.cobounded2 min_def nat_le_linear)
  with Cons show ?case by (auto split: if_splits)
qed (auto split: if_splits)

text \<open>\<^verbatim>\<open>strings.Split(s, sep)\<close>, \<open>sep\<close> not empty.\<close>

function splitStr :: "string \<Rightarrow> string \<Rightarrow> string list" where
  "splitStr s sep =
     (if sep = [] then [s]
      else case indexOf s sep of
             None \<Rightarrow> [s]
           | Some i \<Rightarrow> take i s # splitStr (drop (i + length sep) s) sep)"
  by pat_completeness auto
termination
proof (relation "measure (\<lambda>(s, sep). length s)")
  fix s sep i
  assume "sep \<noteq> []" "indexOf s sep = Some (i :: nat)"
  then have "0 < length s" using indexOf_bound [of s sep i] by (cases sep) auto
  with \<open>sep \<noteq> []\<close> show "((drop (i + length sep) s, sep), s, sep) \<in> measure (\<lambda>(s, sep). length s)"
    by auto
qed simp

declare splitStr.simps [simp del]

text \<open>\<^verbatim>\<open>strings.SplitN(s, sep, 2)\<close>.\<close>

definition splitStr2 :: "string \<Rightarrow> string \<Rightarrow> string list" where
  "splitStr2 s sep =
     (case indexOf s sep of None \<Rightarrow> [s] | Some i \<Rightarrow> [take i s, drop (i + length sep) s])"

fun joinStr :: "string list \<Rightarrow> string \<Rightarrow> string" where
  "joinStr [] sep = []"
| "joinStr [s] sep = s"
| "joinStr (s # ss) sep = s @ sep @ joinStr ss sep"

text \<open>\<^verbatim>\<open>strings.Replace(s, a, b, -1)\<close> and \<^verbatim>\<open>strings.ReplaceAll\<close> for one-byte
  \<open>a\<close> and \<open>b\<close>.\<close>

definition replaceChar :: "string \<Rightarrow> char \<Rightarrow> char \<Rightarrow> string" where
  "replaceChar s a b = map (\<lambda>c. if c = a then b else c) s"

definition toUpperChar :: "char \<Rightarrow> char" where
  "toUpperChar c =
     (let n = of_char c :: nat in if 97 \<le> n \<and> n \<le> 122 then char_of (n - 32) else c)"

definition toLowerChar :: "char \<Rightarrow> char" where
  "toLowerChar c =
     (let n = of_char c :: nat in if 65 \<le> n \<and> n \<le> 90 then char_of (n + 32) else c)"

definition toUpper :: "string \<Rightarrow> string" where
  "toUpper s = map toUpperChar s"

definition toLower :: "string \<Rightarrow> string" where
  "toLower s = map toLowerChar s"

text \<open>\<^verbatim>\<open>strings.TrimSpace\<close> and \<^verbatim>\<open>strings.TrimRight(s, cutset)\<close>, on ASCII.\<close>

definition isSpace :: "char \<Rightarrow> bool" where
  "isSpace c = (let n = of_char c :: nat in n = 32 \<or> (9 \<le> n \<and> n \<le> 13))"

definition trimRight :: "string \<Rightarrow> (char \<Rightarrow> bool) \<Rightarrow> string" where
  "trimRight s P = rev (dropWhile P (rev s))"

definition trimSpace :: "string \<Rightarrow> string" where
  "trimSpace s = trimRight (dropWhile isSpace s) isSpace"

section \<open>Package strconv\<close>

definition digitChar :: "nat \<Rightarrow> char" where
  "digitChar d = char_of (48 + d)"

definition isDigit :: "char \<Rightarrow> bool" where
  "isDigit c = (let n = of_char c :: nat in 48 \<le> n \<and> n \<le> 57)"

definition digitVal :: "char \<Rightarrow> nat" where
  "digitVal c = of_char c - 48"

fun natStr :: "nat \<Rightarrow> string" where
  "natStr n = (if n < 10 then [digitChar n] else natStr (n div 10) @ [digitChar (n mod 10)])"

declare natStr.simps [simp del]

text \<open>\<^verbatim>\<open>fmt.Sprintf("%d", n)\<close>, \<^verbatim>\<open>strconv.Itoa\<close>.\<close>

definition itoa :: "int \<Rightarrow> string" where
  "itoa i = (if i < 0 then CHR ''-'' # natStr (nat (- i)) else natStr (nat i))"

definition digitsVal :: "string \<Rightarrow> nat" where
  "digitsVal s = foldl (\<lambda>n c. 10 * n + digitVal c) 0 s"

text \<open>
  \<^verbatim>\<open>strconv.ParseInt(s, 10, bits)\<close>: the value and whether the error is nil. On a syntax
  error the value is 0; out of range it is the nearest bound.
\<close>

definition parseInt :: "nat \<Rightarrow> string \<Rightarrow> int \<times> bool" where
  "parseInt bits s =
     (let (neg, ds) = (case s of [] \<Rightarrow> (False, []) | c # cs \<Rightarrow>
            if c = CHR ''-'' then (True, cs) else if c = CHR ''+'' then (False, cs) else (False, s))
      in if ds = [] \<or> \<not> list_all isDigit ds then (0, False)
         else let v = int (digitsVal ds); bound = 2 ^ (bits - 1)
              in if \<not> neg \<and> bound \<le> v then (bound - 1, False)
                 else if neg \<and> bound < v then (- bound, False)
                 else (if neg then - v else v, True))"

text \<open>\<^verbatim>\<open>strconv.ParseUint(s, 10, 64)\<close>.\<close>

definition parseUint64 :: "string \<Rightarrow> int \<times> bool" where
  "parseUint64 s =
     (if s = [] \<or> \<not> list_all isDigit s then (0, False)
      else let v = int (digitsVal s)
           in if 2 ^ 64 \<le> v then (2 ^ 64 - 1, False) else (v, True))"

definition formatBool :: "bool \<Rightarrow> string" where
  "formatBool b = (if b then ''true'' else ''false'')"

section \<open>Lemmas\<close>

lemma digitChar_inverse: "d < 10 \<Longrightarrow> digitVal (digitChar d) = d"
  by (simp add: digitVal_def digitChar_def)

lemma digitChar_isDigit: "d < 10 \<Longrightarrow> isDigit (digitChar d)"
  by (simp add: isDigit_def digitChar_def)

lemma digitsVal_append: "digitsVal (s @ [c]) = 10 * digitsVal s + digitVal c"
  by (simp add: digitsVal_def)

lemma digitsVal_natStr [simp]: "digitsVal (natStr n) = n"
proof (induction n rule: natStr.induct)
  case (1 n)
  show ?case
  proof (cases "n < 10")
    case True
    then show ?thesis
      by (simp add: natStr.simps [of n] digitsVal_def digitChar_inverse)
  next
    case False
    with 1 show ?thesis
      by (simp add: natStr.simps [of n] digitsVal_append digitChar_inverse)
  qed
qed

lemma natStr_digits [simp]: "list_all isDigit (natStr n)"
proof (induction n rule: natStr.induct)
  case (1 n)
  then show ?case
    by (cases "n < 10") (simp_all add: natStr.simps [of n] digitChar_isDigit)
qed

lemma natStr_nonempty [simp]: "natStr n \<noteq> []"
  by (simp add: natStr.simps [of n])

lemma natStr_inj: "natStr m = natStr n \<longleftrightarrow> m = n"
  by (metis digitsVal_natStr)

lemma isDigit_not_sign: "isDigit c \<Longrightarrow> c \<noteq> CHR ''-'' \<and> c \<noteq> CHR ''+''"
  by (auto simp: isDigit_def)

lemma natStr_hd: "isDigit (hd (natStr n))"
  using natStr_digits [of n] by (cases "natStr n") auto

lemma itoa_inj: "itoa i = itoa j \<longleftrightarrow> i = j"
proof
  assume eq: "itoa i = itoa j"
  have "i < 0 \<longleftrightarrow> j < 0"
    using eq natStr_hd [of "nat i"] natStr_hd [of "nat j"] isDigit_not_sign
    by (auto simp: itoa_def split: if_splits) (metis list.sel(1))+
  with eq show "i = j"
    by (auto simp: itoa_def natStr_inj split: if_splits)
qed simp

lemma parseInt_natStr:
  assumes "n < 2 ^ (bits - 1)"
  shows "parseInt bits (natStr n) = (int n, True)"
proof -
  obtain c cs where s: "natStr n = c # cs" by (cases "natStr n") auto
  have d: "isDigit c" "list_all isDigit cs" using natStr_digits [of n] s by auto
  have "int n < 2 ^ (bits - 1)" using assms by (metis of_nat_less_iff of_nat_numeral of_nat_power)
  with d show ?thesis
    using isDigit_not_sign [OF d(1)] digitsVal_natStr [of n] s
    by (simp add: parseInt_def)
qed

text \<open>
  Code equations for evaluation: the digits are computed on binary integers.
\<close>

fun intDigits :: "int \<Rightarrow> string" where
  "intDigits n =
     (if n < 10 then [digitChar (nat n)]
      else intDigits (n div 10) @ [digitChar (nat (n mod 10))])"

declare intDigits.simps [simp del]

definition digitsValInt :: "string \<Rightarrow> int" where
  "digitsValInt s = foldl (\<lambda>n c. 10 * n + of_char c - 48) 0 s"

lemma intDigits_eq: "0 \<le> n \<Longrightarrow> intDigits n = natStr (nat n)"
proof (induction n rule: intDigits.induct)
  case (1 n)
  then show ?case
    by (cases "n < 10")
      (simp_all add: intDigits.simps [of n] natStr.simps [of "nat n"] nat_div_distrib nat_mod_distrib)
qed

lemma itoa_code [code]:
  "itoa i = (if i < 0 then CHR ''-'' # intDigits (- i) else intDigits i)"
  by (simp add: itoa_def intDigits_eq)

lemma digitsValInt_eq: "list_all isDigit s \<Longrightarrow> int (digitsVal s) = digitsValInt s"
proof (induction s rule: rev_induct)
  case (snoc c s)
  then have "(48 :: nat) \<le> of_char c" by (simp add: isDigit_def Let_def)
  with snoc show ?case
    by (simp add: digitsVal_append digitsValInt_def digitVal_def of_nat_diff of_nat_of_char)
qed (simp add: digitsVal_def digitsValInt_def)

lemma parseInt_code [code]:
  "parseInt bits s =
     (let (neg, ds) = (case s of [] \<Rightarrow> (False, []) | c # cs \<Rightarrow>
            if c = CHR ''-'' then (True, cs) else if c = CHR ''+'' then (False, cs) else (False, s))
      in if ds = [] \<or> \<not> list_all isDigit ds then (0, False)
         else let v = digitsValInt ds; bound = 2 ^ (bits - 1)
              in if \<not> neg \<and> bound \<le> v then (bound - 1, False)
                 else if neg \<and> bound < v then (- bound, False)
                 else (if neg then - v else v, True))"
  by (auto simp: parseInt_def digitsValInt_eq split: prod.splits list.splits)

lemma parseUint64_code [code]:
  "parseUint64 s =
     (if s = [] \<or> \<not> list_all isDigit s then (0, False)
      else let v = digitsValInt s
           in if 2 ^ 64 \<le> v then (2 ^ 64 - 1, False) else (v, True))"
  by (auto simp: parseUint64_def digitsValInt_eq)

end
