(* ===== verification/Nvidia_Node.thy ===== *)
theory Nvidia_Node
  imports Go_Strings
begin

text \<open>
  The data of package \<^verbatim>\<open>pkg/device/nvidia\<close> and the methods of
  \<^verbatim>\<open>node.go\<close> and \<^verbatim>\<open>sort.go\<close>. The nodes of the topology tree are shared
  mutable objects (a node is reached from the leaves, from its children and from its parent, and
  every operation writes the masks of shared ancestors), so they live in an explicit heap: a node
  is an address into the list \<open>heap\<close> of the tree, a pointer field is an address or
  \<open>None\<close> for nil, and allocation appends to the heap.
\<close>

unbundle bit_operations_syntax

section \<open>Data\<close>

type_synonym addr = nat

record SchedulerCache =
  Cores :: int
  Memory :: int

record DeviceMeta =
  ID :: int
  MinorID :: int
  UsedMemory :: int
  TotalMemory :: int
  Pids :: "int list"
  BusId :: string
  Utilization :: int
  DevName :: string
  UUID :: string

record NvidiaNode =
  Meta :: DeviceMeta
  AllocatableMeta :: SchedulerCache
  Parent :: "addr option"
  Children :: "addr list"
  Mask :: "32 word"
  pendingReset :: bool
  vchildren :: "(int, addr) gomap"
  ntype :: int

text \<open>
  \<^verbatim>\<open>NvidiaTree\<close>. The package variable \<^verbatim>\<open>nodeIndex\<close>, which numbers the
  nodes that are created, and the heap are kept beside the fields of the struct; the field
  \<^verbatim>\<open>tree\<close> of a node always points to the one tree that owns it and is left out.
\<close>

record NvidiaTree =
  heap :: "NvidiaNode list"
  root :: "addr option"
  leaves :: "addr list"
  realMode :: bool
  query :: "(string, addr) gomap"
  treeIndex :: int
  samplePeriod :: int
  nodeIndex :: int

text \<open>The levels of \<^verbatim>\<open>nvml.GpuTopologyLevel\<close>, as the NVML interface numbers them.\<close>

definition TOPOLOGY_INTERNAL :: int where "TOPOLOGY_INTERNAL = 0"
definition TOPOLOGY_SINGLE :: int where "TOPOLOGY_SINGLE = 10"
definition TOPOLOGY_MULTIPLE :: int where "TOPOLOGY_MULTIPLE = 20"
definition TOPOLOGY_HOSTBRIDGE :: int where "TOPOLOGY_HOSTBRIDGE = 30"
definition TOPOLOGY_CPU :: int where "TOPOLOGY_CPU = 40"
definition TOPOLOGY_SYSTEM :: int where "TOPOLOGY_SYSTEM = 50"

lemmas topology_levels = TOPOLOGY_INTERNAL_def TOPOLOGY_SINGLE_def TOPOLOGY_MULTIPLE_def
  TOPOLOGY_HOSTBRIDGE_def TOPOLOGY_CPU_def TOPOLOGY_SYSTEM_def

definition HundredCore :: int where "HundredCore = 100"

definition MemoryBlockSize :: int where "MemoryBlockSize = 1048576"

definition levelStep :: int where "levelStep = 10"

abbreviation nodeAt :: "NvidiaTree \<Rightarrow> addr \<Rightarrow> NvidiaNode" where
  "nodeAt t a \<equiv> heap t ! a"

definition updNode :: "NvidiaTree \<Rightarrow> addr \<Rightarrow> (NvidiaNode \<Rightarrow> NvidiaNode) \<Rightarrow> NvidiaTree" where
  "updNode t a f = t\<lparr>heap := (heap t)[a := f (heap t ! a)]\<rparr>"

section \<open>node.go\<close>

text \<open>The zero values of the structs, and a node as \<^verbatim>\<open>NewNvidiaNode\<close> initialises it.\<close>

definition zeroMeta :: DeviceMeta where
  "zeroMeta = \<lparr>ID = 0, MinorID = 0, UsedMemory = 0, TotalMemory = 0, Pids = [], BusId = [],
     Utilization = 0, DevName = [], UUID = []\<rparr>"

definition freshNode :: "int \<Rightarrow> NvidiaNode" where
  "freshNode i = \<lparr>Meta = zeroMeta\<lparr>ID := i\<rparr>, AllocatableMeta = \<lparr>Cores = 0, Memory = 0\<rparr>,
     Parent = None, Children = [], Mask = 0, pendingReset = False, vchildren = [], ntype = 60\<rparr>"

definition NewNvidiaNode :: "NvidiaTree \<Rightarrow> NvidiaTree \<times> addr" where
  "NewNvidiaNode t =
     (t\<lparr>heap := heap t @ [freshNode (nodeIndex t)], nodeIndex := nodeIndex t + 1\<rparr>,
      length (heap t))"

definition setParent :: "NvidiaTree \<Rightarrow> addr \<Rightarrow> addr \<Rightarrow> NvidiaTree" where
  "setParent t n p =
     (let t = updNode t n (\<lambda>x. x\<lparr>Parent := Some p\<rparr>)
      in updNode t p (\<lambda>x. x\<lparr>vchildren := AList.update (ID (Meta (nodeAt t n))) n (vchildren x)\<rparr>))"

definition NvidiaDevicePrefix :: string where
  "NvidiaDevicePrefix = ''/dev/nvidia''"

definition minorPath :: "int \<Rightarrow> string" where
  "minorPath i = NvidiaDevicePrefix @ itoa i"

definition MinorName :: "NvidiaNode \<Rightarrow> string" where
  "MinorName n = minorPath (MinorID (Meta n))"

definition NodeType :: "NvidiaNode \<Rightarrow> int" where
  "NodeType n = ntype n"

text \<open>\<^verbatim>\<open>bits.OnesCount32\<close> and \<^verbatim>\<open>bits.TrailingZeros32\<close>.\<close>

definition onesCount32 :: "32 word \<Rightarrow> nat" where
  "onesCount32 m = length (filter (bit m) [0..<32])"

definition trailingZeros32 :: "32 word \<Rightarrow> nat" where
  "trailingZeros32 m = (case find (bit m) [0..<32] of None \<Rightarrow> 32 | Some i \<Rightarrow> i)"

definition Available :: "NvidiaNode \<Rightarrow> int" where
  "Available n = int (onesCount32 (Mask n))"

lemma find_filter_Cons:
  "distinct xs \<Longrightarrow> find P xs = Some y \<Longrightarrow> filter P xs = y # filter (\<lambda>x. P x \<and> x \<noteq> y) xs"
proof (induction xs)
  case (Cons x xs)
  then have "filter P xs = filter (\<lambda>z. P z \<and> z \<noteq> x) xs"
    by (intro filter_cong) auto
  with Cons show ?case by (auto split: if_splits)
qed simp

lemma filter_bits_clear_lowest:
  fixes m :: "32 word"
  assumes "m \<noteq> 0"
  shows "trailingZeros32 m < 32"
    and "filter (bit m) [0..<32] =
      trailingZeros32 m # filter (bit (m XOR push_bit (trailingZeros32 m) 1)) [0..<32]"
proof -
  have "\<exists>i < 32. bit m i"
  proof (rule ccontr)
    assume "\<not> (\<exists>i < 32. bit m i)"
    then have "m = 0" by (intro bit_word_eqI) simp
    with assms show False by simp
  qed
  then obtain i where "i \<in> set [0..<32]" "bit m i" by auto
  then obtain y where y: "find (bit m) [0..<32] = Some y"
    by (metis find_None_iff not_None_eq)
  then have tz: "trailingZeros32 m = y" by (simp add: trailingZeros32_def)
  from y have "y < 32" "bit m y" by (auto simp: find_Some_iff)
  then show "trailingZeros32 m < 32" using tz by simp
  have "filter (bit m) [0..<32] = y # filter (\<lambda>x. bit m x \<and> x \<noteq> y) [0..<32]"
    using y by (intro find_filter_Cons) auto
  also have "filter (\<lambda>x. bit m x \<and> x \<noteq> y) [0..<32] = filter (bit (m XOR push_bit y 1)) [0..<32]"
    using \<open>bit m y\<close> by (intro filter_cong) (auto simp: bit_xor_iff bit_exp_iff possible_bit_word)
  finally show "filter (bit m) [0..<32] =
      trailingZeros32 m # filter (bit (m XOR push_bit (trailingZeros32 m) 1)) [0..<32]"
    using tz by simp
qed

text \<open>
  The loop of \<^verbatim>\<open>GetAvailableLeaves\<close>: while bits remain, take the lowest one, append the
  leaf it stands for (a panic when there is no such leaf) and clear it.
\<close>

function pickLeaves :: "addr list \<Rightarrow> 32 word \<Rightarrow> go_fault + addr list" where
  "pickLeaves ls m =
     (if m = 0 then Inr []
      else let i = trailingZeros32 m in
           if i < length ls
           then (case pickLeaves ls (m XOR push_bit i 1) of
                   Inl e \<Rightarrow> Inl e
                 | Inr rest \<Rightarrow> Inr (ls ! i # rest))
           else Inl Panic)"
  by pat_completeness auto
termination
proof (relation "measure (\<lambda>(ls, m). onesCount32 m)")
  fix ls :: "addr list" and m :: "32 word" and i
  assume "m \<noteq> 0" "i = trailingZeros32 m"
  then show "((ls, m XOR push_bit i 1), ls, m) \<in> measure (\<lambda>(ls, m). onesCount32 m)"
    using filter_bits_clear_lowest(2) [of m] by (simp add: onesCount32_def)
qed simp

declare pickLeaves.simps [simp del]

definition GetAvailableLeaves :: "NvidiaTree \<Rightarrow> addr \<Rightarrow> go_fault + addr list" where
  "GetAvailableLeaves t n = pickLeaves (leaves t) (Mask (nodeAt t n))"

definition NodeString :: "NvidiaNode \<Rightarrow> string" where
  "NodeString n =
     (if ntype n = TOPOLOGY_INTERNAL then ''GPU'' @ itoa (ID (Meta n))
      else if ntype n = TOPOLOGY_SINGLE then ''PIX''
      else if ntype n = TOPOLOGY_MULTIPLE then ''PXB''
      else if ntype n = TOPOLOGY_HOSTBRIDGE then ''PHB''
      else if ntype n = TOPOLOGY_SYSTEM then ''SYS''
      else ''ROOT'')"

section \<open>sort.go\<close>

text \<open>The comparison functions, on nodes.\<close>

definition ByType :: "NvidiaNode \<Rightarrow> NvidiaNode \<Rightarrow> bool" where
  "ByType p1 p2 \<longleftrightarrow> NodeType p1 < NodeType p2"

definition ByAvailable :: "NvidiaNode \<Rightarrow> NvidiaNode \<Rightarrow> bool" where
  "ByAvailable p1 p2 \<longleftrightarrow> Available p1 < Available p2"

definition ByID :: "NvidiaNode \<Rightarrow> NvidiaNode \<Rightarrow> bool" where
  "ByID p1 p2 \<longleftrightarrow> ID (Meta p1) < ID (Meta p2)"

definition ByMinorID :: "NvidiaNode \<Rightarrow> NvidiaNode \<Rightarrow> bool" where
  "ByMinorID p1 p2 \<longleftrightarrow> MinorID (Meta p1) < MinorID (Meta p2)"

definition ByMemory :: "NvidiaNode \<Rightarrow> NvidiaNode \<Rightarrow> bool" where
  "ByMemory p1 p2 \<longleftrightarrow> UsedMemory (Meta p1) < UsedMemory (Meta p2)"

definition ByPids :: "NvidiaNode \<Rightarrow> NvidiaNode \<Rightarrow> bool" where
  "ByPids p1 p2 \<longleftrightarrow> length (Pids (Meta p1)) < length (Pids (Meta p2))"

definition ByAllocatableCores :: "NvidiaNode \<Rightarrow> NvidiaNode \<Rightarrow> bool" where
  "ByAllocatableCores p1 p2 \<longleftrightarrow> Cores (AllocatableMeta p1) < Cores (AllocatableMeta p2)"

definition ByAllocatableMemory :: "NvidiaNode \<Rightarrow> NvidiaNode \<Rightarrow> bool" where
  "ByAllocatableMemory p1 p2 \<longleftrightarrow>
     Memory (AllocatableMeta p1) sdiv MemoryBlockSize < Memory (AllocatableMeta p2) sdiv MemoryBlockSize"

text \<open>\<^verbatim>\<open>printSort.Less\<close> for \<^verbatim>\<open>PrintSorter\<close>, and its \<^verbatim>\<open>Sort\<close> on a
  slice of nodes.\<close>

definition printLess :: "NvidiaNode \<Rightarrow> NvidiaNode \<Rightarrow> bool" where
  "printLess = multi_less ByType [ByAvailable, ByMinorID]"

definition sortNodes :: "(NvidiaNode \<Rightarrow> NvidiaNode \<Rightarrow> bool) \<Rightarrow> NvidiaTree \<Rightarrow> addr list \<Rightarrow> addr list" where
  "sortNodes lt t as = go_sort (\<lambda>a b. lt (nodeAt t a) (nodeAt t b)) as"

section \<open>Lemmas\<close>

lemma pickLeaves_eq:
  "pickLeaves ls m =
     (if list_all (\<lambda>i. i < length ls) (filter (bit m) [0..<32])
      then Inr (map ((!) ls) (filter (bit m) [0..<32])) else Inl Panic)"
proof (induction ls m rule: pickLeaves.induct)
  case (1 ls m)
  show ?case
  proof (cases "m = 0")
    case True
    then show ?thesis by (simp add: pickLeaves.simps [of ls 0])
  next
    case False
    let ?i = "trailingZeros32 m"
    have bits: "filter (bit m) [0..<32] = ?i # filter (bit (m XOR push_bit ?i 1)) [0..<32]"
      using filter_bits_clear_lowest(2) [OF False] .
    show ?thesis
    proof (cases "?i < length ls")
      case True
      with False 1 show ?thesis
        unfolding pickLeaves.simps [of ls m] bits by (simp add: Let_def)
    next
      case out: False
      with False show ?thesis
        unfolding pickLeaves.simps [of ls m] bits by (simp add: Let_def)
    qed
  qed
qed

lemma strict_weak_by:
  "strict_weak ByType" "strict_weak ByAvailable" "strict_weak ByMinorID" "strict_weak ByPids"
  "strict_weak ByAllocatableCores" "strict_weak ByAllocatableMemory"
  by (simp_all add: strict_weak_def ByType_def ByAvailable_def ByMinorID_def ByPids_def
      ByAllocatableCores_def ByAllocatableMemory_def)

lemma strict_weak_on_nodes:
  "strict_weak lt \<Longrightarrow> strict_weak (\<lambda>a b. lt (f a) (f b))"
  unfolding strict_weak_def by blast

lemma set_sortNodes [simp]: "set (sortNodes lt t as) = set as"
  by (simp add: sortNodes_def)

lemma mset_sortNodes [simp]: "mset (sortNodes lt t as) = mset as"
  by (simp add: sortNodes_def)

lemma distinct_sortNodes [simp]: "distinct (sortNodes lt t as) = distinct as"
  by (simp add: sortNodes_def)

lemma sortNodes_Nil_iff [simp]: "sortNodes lt t as = [] \<longleftrightarrow> as = []"
  by (simp add: sortNodes_def)

lemma minorPath_inj [simp]: "minorPath i = minorPath j \<longleftrightarrow> i = j"
  by (simp add: minorPath_def itoa_inj)

lemma heap_updNode [simp]: "heap (updNode t a f) = (heap t)[a := f (heap t ! a)]"
  by (simp add: updNode_def)

lemma nodeAt_updNode:
  "a < length (heap t) \<Longrightarrow> nodeAt (updNode t b f) a = (if a = b then f (nodeAt t b) else nodeAt t a)"
  by simp

lemma updNode_fields [simp]:
  "root (updNode t a f) = root t" "leaves (updNode t a f) = leaves t"
  "realMode (updNode t a f) = realMode t" "query (updNode t a f) = query t"
  "treeIndex (updNode t a f) = treeIndex t" "samplePeriod (updNode t a f) = samplePeriod t"
  "nodeIndex (updNode t a f) = nodeIndex t"
  by (simp_all add: updNode_def)

end
