(* ===== verification/Nvml.thy ===== *)
theory Nvml
  imports Go_Strings
begin

text \<open>
  The NVIDIA management library is not part of the repository: what the program calls of it is a
  parameter of the model, a value of the record \<open>nvml\<close> that gives the answer of each call
  during one operation. A device handle is the index it was obtained with. Return codes are
  integers and \<open>NVML_SUCCESS\<close> is the code the wrapper names \<^verbatim>\<open>nvml.SUCCESS\<close>. No law
  about the answers is assumed.
\<close>

record process_sample =
  psPid :: int
  psMemUtil :: int
  psSmUtil :: int

record nvml =
  nvInit :: int
  nvDeviceGetCount :: "int \<times> int"
  nvDeviceGetHandleByIndex :: "int \<Rightarrow> int"
  nvMemoryTotal :: "int \<Rightarrow> int \<times> int"
  nvPciBusId :: "int \<Rightarrow> int list \<times> int"
  nvMinorNumber :: "int \<Rightarrow> int \<times> int"
  nvUUID :: "int \<Rightarrow> string \<times> int"
  nvName :: "int \<Rightarrow> string \<times> int"
  nvTopologyCommonAncestor :: "int \<Rightarrow> int \<Rightarrow> int \<times> int"
  nvMultiGpuBoard :: "int \<Rightarrow> int \<times> int"
  nvProcessUtilization :: "int \<Rightarrow> process_sample list \<times> int"
  nvSetComputeModeDefault :: "int \<Rightarrow> int"
  nvEccMode :: "int \<Rightarrow> int \<times> int"
  nvClearEccVolatile :: "int \<Rightarrow> int"
  nvClearEccAggregate :: "int \<Rightarrow> int"
  nvMigMode :: "int \<Rightarrow> int \<times> int"
  nvErrorString :: "int \<Rightarrow> string"

definition NVML_SUCCESS :: int where "NVML_SUCCESS = 0"
definition NVML_FEATURE_ENABLED :: int where "NVML_FEATURE_ENABLED = 1"
definition NVML_DEVICE_MIG_ENABLE :: int where "NVML_DEVICE_MIG_ENABLE = 1"

end
