(* ===== verification/Nvidia_Tree.thy ===== *)
theory Nvidia_Tree
  imports Nvidia_Node Nvml
begin

text \<open>
  The operations of \<^verbatim>\<open>pkg/device/nvidia/tree.go\<close> that run after the tree is built:
  marking devices occupied and free, the periodic update from the device library, and the
  queries. The mutex of the tree makes each operation atomic, so an operation is a function from
  tree to tree. The well-formedness of the tree (\<open>tree_ok\<close>) and the agreement of the masks
  with the free devices (\<open>masks_ok\<close>) are kept by every operation.
\<close>

section \<open>Walking to the root\<close>

text \<open>
  \<^verbatim>\<open>for p := n.Parent; p != nil; p = p.Parent { body }\<close>. The number of iterations is
  bounded by the number of nodes: a longer walk would have met a cycle, and \<open>chain_unfold\<close>
  shows that on a tree whose levels grow towards the root the bound is never reached.
\<close>

fun walkUp :: "(NvidiaTree \<Rightarrow> addr \<Rightarrow> NvidiaTree) \<Rightarrow> nat \<Rightarrow> NvidiaTree \<Rightarrow> addr option \<Rightarrow> NvidiaTree" where
  "walkUp body 0 t p = t"
| "walkUp body (Suc k) t None = t"
| "walkUp body (Suc k) t (Some p) =
     (let t' = body t p in walkUp body k t' (Parent (nodeAt t' p)))"

definition freeNode :: "NvidiaTree \<Rightarrow> addr \<Rightarrow> NvidiaTree" where
  "freeNode t n =
     walkUp (\<lambda>t p. updNode t p (\<lambda>x. x\<lparr>Mask := Mask x OR Mask (nodeAt t n)\<rparr>))
       (length (heap t)) t (Parent (nodeAt t n))"

definition occupyNode :: "NvidiaTree \<Rightarrow> addr \<Rightarrow> NvidiaTree" where
  "occupyNode t n =
     walkUp (\<lambda>t p. if Mask (nodeAt t p) AND Mask (nodeAt t n) = Mask (nodeAt t n)
                   then updNode t p (\<lambda>x. x\<lparr>Mask := Mask x XOR Mask (nodeAt t n)\<rparr>)
                   else t)
       (length (heap t)) t (Parent (nodeAt t n))"

section \<open>Resetting a device\<close>

text \<open>\<^verbatim>\<open>resetGPUFeature\<close>: the node it leaves and the error it returns.\<close>

definition resetGPUFeature :: "nvml \<Rightarrow> NvidiaNode \<Rightarrow> bool \<Rightarrow> NvidiaNode \<times> string option" where
  "resetGPUFeature nv node real =
     (let done = node\<lparr>pendingReset := False\<rparr>; dev = ID (Meta node);
          failed = (\<lambda>rs. (node, Some (nvErrorString nv rs)))
      in if \<not> pendingReset node then (node, None)
         else if \<not> real then (done, None)
         else if Pids (Meta node) \<noteq> [] \<or> 0 < UsedMemory (Meta node) then (done, None)
         else if nvInit nv \<noteq> NVML_SUCCESS then failed (nvInit nv)
         else if BusId (Meta node) \<noteq> [] then
           (if nvSetComputeModeDefault nv dev \<noteq> NVML_SUCCESS
            then failed (nvSetComputeModeDefault nv dev)
            else let (curMode, rs) = nvEccMode nv dev in
              if rs \<noteq> NVML_SUCCESS
              then (if containsStr (nvErrorString nv rs) ''Not Supported'' then (done, None)
                    else failed rs)
              else if curMode = NVML_FEATURE_ENABLED then
                (if nvClearEccVolatile nv dev \<noteq> NVML_SUCCESS then failed (nvClearEccVolatile nv dev)
                 else if nvClearEccAggregate nv dev \<noteq> NVML_SUCCESS
                 then failed (nvClearEccAggregate nv dev)
                 else (done, None))
              else (done, None))
         else (done, None))"

section \<open>MarkFree and MarkOccupied\<close>

text \<open>What a release and a request do to the allocatable resources of the node itself.\<close>

definition freeAlloc :: "int \<Rightarrow> int \<Rightarrow> NvidiaNode \<Rightarrow> NvidiaNode" where
  "freeAlloc util memory x =
     (let total = i64 (TotalMemory (Meta x))
      in if HundredCore \<le> util
         then x\<lparr>AllocatableMeta := \<lparr>Cores = HundredCore, Memory = total\<rparr>\<rparr>
         else let cores = i64 (Cores (AllocatableMeta x) + util);
                  mem = i64 (Memory (AllocatableMeta x) + memory)
              in x\<lparr>AllocatableMeta :=
                     \<lparr>Cores = (if HundredCore < cores then HundredCore else cores),
                      Memory = (if total < mem then total else mem)\<rparr>\<rparr>)"

definition occupyAlloc :: "int \<Rightarrow> int \<Rightarrow> NvidiaNode \<Rightarrow> NvidiaNode" where
  "occupyAlloc util memory x =
     (if HundredCore \<le> util
      then x\<lparr>AllocatableMeta := \<lparr>Cores = 0, Memory = 0\<rparr>\<rparr>
      else let cores = i64 (Cores (AllocatableMeta x) - util);
               mem = i64 (Memory (AllocatableMeta x) - memory)
           in x\<lparr>AllocatableMeta :=
                  \<lparr>Cores = (if cores < 0 then 0 else cores),
                   Memory = (if mem < 0 then 0 else mem)\<rparr>\<rparr>)"

text \<open>Reset the device and, unless the reset stays pending, hand it back to its ancestors.\<close>

definition tryRelease :: "nvml \<Rightarrow> NvidiaTree \<Rightarrow> addr \<Rightarrow> NvidiaTree" where
  "tryRelease nv t n =
     (let t = updNode t n (\<lambda>x. fst (resetGPUFeature nv x (realMode t)))
      in if pendingReset (nodeAt t n) then t else freeNode t n)"

definition MarkFree :: "nvml \<Rightarrow> NvidiaTree \<Rightarrow> NvidiaNode \<Rightarrow> int \<Rightarrow> int \<Rightarrow> NvidiaTree" where
  "MarkFree nv t node util memory =
     (case map_of (query t) (MinorName node) of
        None \<Rightarrow> t
      | Some n \<Rightarrow>
          (let t = updNode t n (freeAlloc util memory)
           in if Cores (AllocatableMeta (nodeAt t n)) = HundredCore
              then if realMode t
                   then tryRelease nv (updNode t n (\<lambda>x. x\<lparr>pendingReset := True\<rparr>)) n
                   else freeNode t n
              else t))"

definition MarkOccupied :: "NvidiaTree \<Rightarrow> NvidiaNode \<Rightarrow> int \<Rightarrow> int \<Rightarrow> NvidiaTree" where
  "MarkOccupied t node util memory =
     (case map_of (query t) (MinorName node) of
        None \<Rightarrow> t
      | Some n \<Rightarrow> updNode (occupyNode t n) n (occupyAlloc util memory))"

section \<open>Update\<close>

text \<open>
  \<^verbatim>\<open>updateNode\<close> reads the processes that run on the device. The time stamp that limits the
  samples only selects what the library answers.
\<close>

definition updateNode :: "nvml \<Rightarrow> NvidiaTree \<Rightarrow> nat \<Rightarrow> NvidiaTree" where
  "updateNode nv t idx =
     updNode t (leaves t ! idx) (\<lambda>x.
       let m = (Meta x)\<lparr>Pids := [], UsedMemory := 0\<rparr>
       in x\<lparr>Meta := foldl (\<lambda>m p. m\<lparr>Pids := Pids m @ [psPid p],
                                  UsedMemory := u64 (UsedMemory m + psMemUtil p),
                                  Utilization := u64 (Utilization m + psSmUtil p)\<rparr>)
                   m (fst (nvProcessUtilization nv (int idx)))\<rparr>)"

text \<open>The inner loop of \<^verbatim>\<open>Update\<close>: an inner node sums up its children.\<close>

definition sumChildren :: "NvidiaTree \<Rightarrow> addr \<Rightarrow> NvidiaTree" where
  "sumChildren t p =
     updNode t p (\<lambda>x. x\<lparr>Meta :=
       foldl (\<lambda>m c. m\<lparr>Pids := Pids m @ Pids (Meta (nodeAt t c)),
                      UsedMemory := u64 (UsedMemory m + UsedMemory (Meta (nodeAt t c))),
                      TotalMemory := u64 (TotalMemory m + TotalMemory (Meta (nodeAt t c)))\<rparr>)
         ((Meta x)\<lparr>Pids := [], UsedMemory := 0, TotalMemory := 0\<rparr>) (Children x)\<rparr>)"

definition updateLeaf :: "nvml \<Rightarrow> NvidiaTree \<Rightarrow> nat \<Rightarrow> NvidiaTree" where
  "updateLeaf nv t i =
     (let t = updateNode nv t i; n = leaves t ! i;
          t = (if pendingReset (nodeAt t n) \<and> Cores (AllocatableMeta (nodeAt t n)) = HundredCore
               then tryRelease nv t n else t)
      in walkUp sumChildren (length (heap t)) t (Parent (nodeAt t n)))"

definition UpdateTree :: "nvml \<Rightarrow> NvidiaTree \<Rightarrow> NvidiaTree" where
  "UpdateTree nv t =
     (if \<not> realMode t then t
      else if nvInit nv \<noteq> NVML_SUCCESS then t
      else foldl (updateLeaf nv) t [0..<length (leaves t)])"

section \<open>Queries\<close>

definition TreeAvailable :: "NvidiaTree \<Rightarrow> go_fault + int" where
  "TreeAvailable t =
     (case root t of None \<Rightarrow> Inl Panic | Some r \<Rightarrow> Inr (Available (nodeAt t r)))"

definition MaxU64 :: "int \<Rightarrow> int \<Rightarrow> int" where
  "MaxU64 a b = (if b \<le> a then a else b)"

definition GetLeaveMaxTotalMemory :: "NvidiaTree \<Rightarrow> int" where
  "GetLeaveMaxTotalMemory t =
     foldl (\<lambda>m a. MaxU64 m (TotalMemory (Meta (nodeAt t a)))) 0 (leaves t)"

definition Total :: "NvidiaTree \<Rightarrow> nat" where
  "Total t = length (leaves t)"

definition Query :: "NvidiaTree \<Rightarrow> string \<Rightarrow> addr option" where
  "Query t name = map_of (query t) name"

section \<open>Well-formed trees\<close>

fun chainFuel :: "nat \<Rightarrow> NvidiaNode list \<Rightarrow> addr option \<Rightarrow> addr list" where
  "chainFuel 0 h p = []"
| "chainFuel (Suc k) h None = []"
| "chainFuel (Suc k) h (Some p) = p # chainFuel k h (Parent (h ! p))"

text \<open>The ancestors of a node, nearest first.\<close>

definition chain :: "NvidiaNode list \<Rightarrow> addr \<Rightarrow> addr list" where
  "chain h a = chainFuel (length h) h (Parent (h ! a))"

definition levels_ok :: "NvidiaNode list \<Rightarrow> bool" where
  "levels_ok h \<longleftrightarrow>
     list_all (\<lambda>n. case Parent n of None \<Rightarrow> True | Some p \<Rightarrow> p < length h \<and> ntype n < ntype (h ! p)) h"

definition leaf_ok :: "nat \<Rightarrow> NvidiaNode \<Rightarrow> bool" where
  "leaf_ok i n \<longleftrightarrow> ID (Meta n) = int i \<and> Mask n = push_bit i 1 \<and> Children n = []
     \<and> 0 \<le> MinorID (Meta n) \<and> MinorID (Meta n) < 2 ^ 31
     \<and> 0 \<le> TotalMemory (Meta n) \<and> TotalMemory (Meta n) < 2 ^ 62"

text \<open>
  The shape of a tree: at most 32 leaves, numbered by the bits of the masks, found under their
  device names; levels that grow towards the one root, which every leaf reaches; children that
  know their parent.
\<close>

definition tree_ok :: "NvidiaTree \<Rightarrow> bool" where
  "tree_ok t \<longleftrightarrow>
     length (leaves t) \<le> 32 \<and> distinct (leaves t)
     \<and> list_all (\<lambda>a. a < length (heap t)) (leaves t)
     \<and> levels_ok (heap t)
     \<and> list_all (\<lambda>i. leaf_ok i (nodeAt t (leaves t ! i))) [0..<length (leaves t)]
     \<and> distinct (map (\<lambda>a. MinorID (Meta (nodeAt t a))) (leaves t))
     \<and> query t = map (\<lambda>a. (MinorName (nodeAt t a), a)) (leaves t)
     \<and> list_all (\<lambda>a. list_all (\<lambda>c. c < length (heap t) \<and> Parent (nodeAt t c) = Some a)
                      (Children (nodeAt t a))) [0..<length (heap t)]
     \<and> list_all (\<lambda>n. list_all (\<lambda>a. Parent n \<noteq> Some a) (leaves t)) (heap t)
     \<and> (case root t of None \<Rightarrow> False | Some r \<Rightarrow> r < length (heap t) \<and> r \<notin> set (leaves t)
           \<and> list_all (\<lambda>a. r \<in> set (chain (heap t) a)) (leaves t))"

text \<open>
  The masks: a bit of an inner node stands for a leaf below it, all ancestors of a leaf agree on
  its bit, and the bit is only set while all cores of the device are free.
\<close>

definition masks_ok :: "NvidiaTree \<Rightarrow> bool" where
  "masks_ok t \<longleftrightarrow>
     list_all (\<lambda>q. q \<in> set (leaves t) \<or>
       list_all (\<lambda>i. bit (Mask (nodeAt t q)) i \<longrightarrow>
           i < length (leaves t) \<and> q \<in> set (chain (heap t) (leaves t ! i))) [0..<32])
       [0..<length (heap t)]
     \<and> list_all (\<lambda>i. list_all (\<lambda>p.
           bit (Mask (nodeAt t p)) i = bit (Mask (nodeAt t (the (root t)))) i)
           (chain (heap t) (leaves t ! i))) [0..<length (leaves t)]
     \<and> list_all (\<lambda>i. bit (Mask (nodeAt t (the (root t)))) i \<longrightarrow>
           Cores (AllocatableMeta (nodeAt t (leaves t ! i))) = HundredCore) [0..<length (leaves t)]"

definition alloc_ok :: "NvidiaTree \<Rightarrow> bool" where
  "alloc_ok t \<longleftrightarrow> list_all (\<lambda>a. let x = nodeAt t a in
     0 \<le> Cores (AllocatableMeta x) \<and> Cores (AllocatableMeta x) \<le> HundredCore
     \<and> 0 \<le> Memory (AllocatableMeta x) \<and> Memory (AllocatableMeta x) \<le> TotalMemory (Meta x)) (leaves t)"

end
