(* ===== verification/Tree_Laws.thy ===== *)
theory Tree_Laws
  imports Nvidia_Tree
begin

text \<open>
  The laws of the topology tree: what a walk to the root changes, that every operation keeps the
  shape of the tree and the agreement of the masks, and the refinement of the operations to an
  abstract pool of devices.
\<close>

section \<open>Ancestors\<close>

lemma levels_okD:
  "levels_ok h \<Longrightarrow> a < length h \<Longrightarrow> Parent (h ! a) = Some p \<Longrightarrow> p < length h \<and> ntype (h ! a) < ntype (h ! p)"
  by (force simp: levels_ok_def list_all_length)

lemma levels_okI:
  "(\<And>a p. a < length h \<Longrightarrow> Parent (h ! a) = Some p \<Longrightarrow> p < length h \<and> ntype (h ! a) < ntype (h ! p))
     \<Longrightarrow> levels_ok h"
  by (simp add: levels_ok_def list_all_length split: option.split)

lemma levels_ok_cong:
  assumes "levels_ok h" "length h' = length h"
    and "\<And>a. a < length h \<Longrightarrow> Parent (h' ! a) = Parent (h ! a) \<and> ntype (h' ! a) = ntype (h ! a)"
  shows "levels_ok h'"
  by (rule levels_okI) (metis assms levels_okD)

lemma chainFuel_range:
  "levels_ok h \<Longrightarrow> pred_option (\<lambda>a. a < length h) p \<Longrightarrow> q \<in> set (chainFuel k h p) \<Longrightarrow> q < length h"
proof (induction k h p rule: chainFuel.induct)
  case (3 k h p)
  then have "pred_option (\<lambda>a. a < length h) (Parent (h ! p))"
    by (cases "Parent (h ! p)") (auto dest: levels_okD)
  with 3 show ?case by auto
qed auto

lemma chainFuel_levels:
  "levels_ok h \<Longrightarrow> p < length h \<Longrightarrow> q \<in> set (chainFuel k h (Parent (h ! p))) \<Longrightarrow>
     ntype (h ! p) < ntype (h ! q)"
proof (induction k arbitrary: p)
  case (Suc k)
  show ?case
  proof (cases "Parent (h ! p)")
    case (Some r)
    with Suc.prems have r: "r < length h" "ntype (h ! p) < ntype (h ! r)"
      by (auto dest: levels_okD)
    from Suc.prems Some consider "q = r" | "q \<in> set (chainFuel k h (Parent (h ! r)))" by auto
    then show ?thesis using Suc.IH [of r] Suc.prems(1) r by cases auto
  qed (use Suc.prems in simp)
qed simp

text \<open>The number of nodes above the level of \<open>a\<close> bounds the length of its chain.\<close>

definition above :: "NvidiaNode list \<Rightarrow> addr \<Rightarrow> nat" where
  "above h a = card {b. b < length h \<and> ntype (h ! a) < ntype (h ! b)}"

lemma above_parent:
  assumes "levels_ok h" "a < length h" "Parent (h ! a) = Some p"
  shows "above h p < above h a"
proof -
  have p: "p < length h" "ntype (h ! a) < ntype (h ! p)" using assms by (auto dest: levels_okD)
  have "{b. b < length h \<and> ntype (h ! p) < ntype (h ! b)}
      \<subset> {b. b < length h \<and> ntype (h ! a) < ntype (h ! b)}"
    using p by (auto intro!: psubsetI)
  then show ?thesis unfolding above_def by (intro psubset_card_mono) auto
qed

lemma above_less: "a < length h \<Longrightarrow> above h a < length h"
proof -
  assume "a < length h"
  then have "{b. b < length h \<and> ntype (h ! a) < ntype (h ! b)} \<subset> {..<length h}" by auto
  then have "above h a < card {..<length h}" unfolding above_def by (intro psubset_card_mono) auto
  then show ?thesis by simp
qed

lemma chainFuel_enough:
  "levels_ok h \<Longrightarrow> a < length h \<Longrightarrow> above h a \<le> k \<Longrightarrow> above h a \<le> k' \<Longrightarrow>
     chainFuel k h (Parent (h ! a)) = chainFuel k' h (Parent (h ! a))"
proof (induction "above h a" arbitrary: a k k' rule: less_induct)
  case less
  show ?case
  proof (cases "Parent (h ! a)")
    case None
    then show ?thesis by (cases k; cases k') auto
  next
    case (Some p)
    have p: "p < length h" "above h p < above h a"
      using less.prems Some by (auto dest: levels_okD intro: above_parent)
    then obtain m m' where "k = Suc m" "k' = Suc m'" "above h p \<le> m" "above h p \<le> m'"
      using less.prems by (cases k; cases k') auto
    with less.hyps [of p m m'] less.prems p Some show ?thesis by simp
  qed
qed

lemma chain_unfold:
  assumes "levels_ok h" "a < length h"
  shows "chain h a = (case Parent (h ! a) of None \<Rightarrow> [] | Some p \<Rightarrow> p # chain h p)"
proof (cases "Parent (h ! a)")
  case None
  then show ?thesis by (cases "length h") (auto simp: chain_def)
next
  case (Some p)
  have p: "p < length h" "above h p < above h a"
    using assms Some by (auto dest: levels_okD intro: above_parent)
  obtain m where m: "length h = Suc m" using assms(2) by (cases "length h") auto
  then have "above h p \<le> m" using p above_less [OF assms(2)] by simp
  then have "chainFuel m h (Parent (h ! p)) = chain h p"
    unfolding chain_def
    by (intro chainFuel_enough [OF assms(1) p(1)]) (use above_less [OF p(1)] in simp_all)
  moreover have "chain h a = p # chainFuel m h (Parent (h ! p))"
    unfolding chain_def m Some by simp
  ultimately show ?thesis using Some by simp
qed

lemma chain_range: "levels_ok h \<Longrightarrow> a < length h \<Longrightarrow> q \<in> set (chain h a) \<Longrightarrow> q < length h"
  unfolding chain_def
  by (rule chainFuel_range) (auto simp: pred_option_def split: option.splits dest: levels_okD)

lemma chain_not_self: "levels_ok h \<Longrightarrow> a < length h \<Longrightarrow> a \<notin> set (chain h a)"
  unfolding chain_def by (auto dest: chainFuel_levels)

lemma chain_parent: "levels_ok h \<Longrightarrow> a < length h \<Longrightarrow> q \<in> set (chain h a) \<Longrightarrow>
  \<exists>c < length h. Parent (h ! c) = Some q"
proof (induction "above h a" arbitrary: a rule: less_induct)
  case less
  then obtain p where p: "Parent (h ! a) = Some p" "q = p \<or> q \<in> set (chain h p)"
    by (cases "Parent (h ! a)") (simp_all add: chain_unfold [of h a])
  have "above h p < above h a" "p < length h"
    using less.prems p(1) by (auto intro: above_parent dest: levels_okD)
  then show ?case using less p by blast
qed

lemma chainFuel_cong:
  assumes "levels_ok h" and par: "\<And>a. a < length h \<Longrightarrow> Parent (h' ! a) = Parent (h ! a)"
    and "b < length h"
  shows "chainFuel k h' (Parent (h' ! b)) = chainFuel k h (Parent (h ! b))"
  using assms(3)
proof (induction k arbitrary: b)
  case (Suc k)
  then show ?case
    using par [of b] levels_okD [OF assms(1), of b] by (cases "Parent (h ! b)") auto
qed simp

lemma chain_cong:
  "levels_ok h \<Longrightarrow> length h' = length h \<Longrightarrow> (\<And>a. a < length h \<Longrightarrow> Parent (h' ! a) = Parent (h ! a)) \<Longrightarrow>
     a < length h \<Longrightarrow> chain h' a = chain h a"
  unfolding chain_def using chainFuel_cong [of h h' a "length h"] by simp

section \<open>What a walk changes\<close>

definition setMasks :: "(32 word \<Rightarrow> 32 word) \<Rightarrow> addr list \<Rightarrow> NvidiaTree \<Rightarrow> NvidiaTree" where
  "setMasks f as t = t\<lparr>heap := map (\<lambda>a. if a \<in> set as
     then (nodeAt t a)\<lparr>Mask := f (Mask (nodeAt t a))\<rparr> else nodeAt t a) [0..<length (heap t)]\<rparr>"

lemma setMasks_fields [simp]:
  "root (setMasks f as t) = root t" "leaves (setMasks f as t) = leaves t"
  "realMode (setMasks f as t) = realMode t" "query (setMasks f as t) = query t"
  "length (heap (setMasks f as t)) = length (heap t)"
  by (simp_all add: setMasks_def)

lemma nodeAt_setMasks:
  "a < length (heap t) \<Longrightarrow> nodeAt (setMasks f as t) a =
     (if a \<in> set as then (nodeAt t a)\<lparr>Mask := f (Mask (nodeAt t a))\<rparr> else nodeAt t a)"
  by (simp add: setMasks_def)

lemma setMasks_Cons:
  assumes "p \<notin> set as" "p < length (heap t)"
  shows "setMasks f as (updNode t p (\<lambda>x. x\<lparr>Mask := f (Mask x)\<rparr>)) = setMasks f (p # as) t"
  using assms by (auto simp: setMasks_def updNode_def nth_list_update)

lemma setMasks_Nil [simp]: "setMasks f [] t = t"
  by (simp add: setMasks_def map_nth)

lemma walkUp_setMasks_fuel:
  assumes body: "\<And>t' p. Mask (nodeAt t' n) = lm \<Longrightarrow>
      body t' p = updNode t' p (\<lambda>x. x\<lparr>Mask := f (Mask x)\<rparr>)"
  shows "levels_ok (heap t) \<Longrightarrow> a < length (heap t) \<Longrightarrow> Mask (nodeAt t n) = lm \<Longrightarrow>
     n \<notin> set (chainFuel k (heap t) (Parent (nodeAt t a))) \<Longrightarrow>
     walkUp body k t (Parent (nodeAt t a)) = setMasks f (chainFuel k (heap t) (Parent (nodeAt t a))) t"
proof (induction k arbitrary: t a)
  case (Suc k)
  show ?case
  proof (cases "Parent (nodeAt t a)")
    case (Some p)
    let ?t = "updNode t p (\<lambda>x. x\<lparr>Mask := f (Mask x)\<rparr>)"
    have p: "p < length (heap t)" using Suc.prems Some by (auto dest: levels_okD)
    have par: "Parent (nodeAt ?t b) = Parent (nodeAt t b)" for b
      by (cases "b < length (heap t)"; cases "b = p") (auto simp: nth_list_update list_update_beyond)
    have lev: "levels_ok (heap ?t)"
      using p by (intro levels_ok_cong [OF Suc.prems(1)]) (auto simp: nth_list_update)
    have cong: "chainFuel k (heap ?t) (Parent (nodeAt ?t p)) = chainFuel k (heap t) (Parent (nodeAt t p))"
      using chainFuel_cong [OF Suc.prems(1) _ p, of "heap ?t"] par by blast
    have notin: "p \<notin> set (chainFuel k (heap t) (Parent (nodeAt t p)))"
      using chainFuel_levels [OF Suc.prems(1) p] by blast
    have n: "n \<noteq> p" "n \<notin> set (chainFuel k (heap t) (Parent (nodeAt t p)))"
      using Suc.prems(4) Some by auto
    have "walkUp body (Suc k) t (Some p) = walkUp body k ?t (Parent (nodeAt ?t p))"
      using body [OF Suc.prems(3)] by (simp add: Let_def)
    also have "\<dots> = setMasks f (chainFuel k (heap t) (Parent (nodeAt t p))) ?t"
      using Suc.IH [of ?t p] lev p n Suc.prems(3) unfolding cong by simp
    also have "\<dots> = setMasks f (p # chainFuel k (heap t) (Parent (nodeAt t p))) t"
      using setMasks_Cons [OF notin p] .
    finally show ?thesis using Some by simp
  qed simp
qed simp

lemma walkUp_setMasks:
  assumes "\<And>t' p. Mask (nodeAt t' n) = Mask (nodeAt t n) \<Longrightarrow>
      body t' p = updNode t' p (\<lambda>x. x\<lparr>Mask := f (Mask x)\<rparr>)"
    and "levels_ok (heap t)" "n < length (heap t)"
  shows "walkUp body (length (heap t)) t (Parent (nodeAt t n)) = setMasks f (chain (heap t) n) t"
  using walkUp_setMasks_fuel [of n "Mask (nodeAt t n)" body f t n "length (heap t)"] assms
    chain_not_self [OF assms(2,3)] unfolding chain_def by blast

lemma freeNode_eq:
  "levels_ok (heap t) \<Longrightarrow> n < length (heap t) \<Longrightarrow>
     freeNode t n = setMasks (\<lambda>m. m OR Mask (nodeAt t n)) (chain (heap t) n) t"
  unfolding freeNode_def by (rule walkUp_setMasks) auto

lemma occupyNode_eq:
  "levels_ok (heap t) \<Longrightarrow> n < length (heap t) \<Longrightarrow>
     occupyNode t n = setMasks (\<lambda>m. if m AND Mask (nodeAt t n) = Mask (nodeAt t n)
       then m XOR Mask (nodeAt t n) else m) (chain (heap t) n) t"
  unfolding occupyNode_def by (rule walkUp_setMasks) (auto simp: updNode_def)

section \<open>Trees of the same shape\<close>

definition same_shape :: "NvidiaTree \<Rightarrow> NvidiaTree \<Rightarrow> bool" where
  "same_shape t t' \<longleftrightarrow> length (heap t') = length (heap t) \<and> root t' = root t \<and> leaves t' = leaves t
     \<and> query t' = query t \<and> realMode t' = realMode t
     \<and> (\<forall>a < length (heap t). Parent (nodeAt t' a) = Parent (nodeAt t a)
          \<and> ntype (nodeAt t' a) = ntype (nodeAt t a)
          \<and> set (Children (nodeAt t' a)) = set (Children (nodeAt t a))
          \<and> ID (Meta (nodeAt t' a)) = ID (Meta (nodeAt t a))
          \<and> MinorID (Meta (nodeAt t' a)) = MinorID (Meta (nodeAt t a))
          \<and> DevName (Meta (nodeAt t' a)) = DevName (Meta (nodeAt t a)))
     \<and> (\<forall>a \<in> set (leaves t). Mask (nodeAt t' a) = Mask (nodeAt t a)
          \<and> TotalMemory (Meta (nodeAt t' a)) = TotalMemory (Meta (nodeAt t a)))"

lemma same_shape_refl [simp]: "same_shape t t"
  by (simp add: same_shape_def)

lemma same_shape_trans: "same_shape t t' \<Longrightarrow> same_shape t' t'' \<Longrightarrow> same_shape t t''"
  unfolding same_shape_def by simp

lemma same_shape_chain:
  assumes "same_shape t t'" "levels_ok (heap t)" "a < length (heap t)"
  shows "chain (heap t') a = chain (heap t) a"
  using assms unfolding same_shape_def by (intro chain_cong) auto

lemma same_shape_levels: "same_shape t t' \<Longrightarrow> levels_ok (heap t) \<Longrightarrow> levels_ok (heap t')"
  unfolding same_shape_def by (rule levels_ok_cong [of "heap t"]) simp_all

lemma tree_okD:
  assumes "tree_ok t"
  shows "length (leaves t) \<le> 32" "distinct (leaves t)" "levels_ok (heap t)"
    and "\<And>a. a \<in> set (leaves t) \<Longrightarrow> a < length (heap t)"
    and "\<And>i. i < length (leaves t) \<Longrightarrow> leaf_ok i (nodeAt t (leaves t ! i))"
    and "distinct (map (\<lambda>a. MinorID (Meta (nodeAt t a))) (leaves t))"
    and "query t = map (\<lambda>a. (MinorName (nodeAt t a), a)) (leaves t)"
    and "\<And>a c. a < length (heap t) \<Longrightarrow> c \<in> set (Children (nodeAt t a)) \<Longrightarrow>
           c < length (heap t) \<and> Parent (nodeAt t c) = Some a"
    and "\<And>a c. a \<in> set (leaves t) \<Longrightarrow> c < length (heap t) \<Longrightarrow> Parent (nodeAt t c) \<noteq> Some a"
  using assms unfolding tree_ok_def list_all_iff by (auto dest: nth_mem)

lemma tree_ok_root:
  assumes "tree_ok t"
  obtains r where "root t = Some r" "r < length (heap t)" "r \<notin> set (leaves t)"
    "\<And>a. a \<in> set (leaves t) \<Longrightarrow> r \<in> set (chain (heap t) a)"
  using assms unfolding tree_ok_def list_all_iff by (auto split: option.splits)

lemma tree_ok_leaf_not_inner:
  "tree_ok t \<Longrightarrow> a < length (heap t) \<Longrightarrow> q \<in> set (chain (heap t) a) \<Longrightarrow> q \<notin> set (leaves t)"
  using chain_parent [OF tree_okD(3)] tree_okD(9) by blast

lemma tree_ok_same_shape:
  assumes "same_shape t t'" "tree_ok t"
  shows "tree_ok t'"
proof -
  note shape = assms(1) [unfolded same_shape_def]
  obtain r where r: "root t = Some r" "r < length (heap t)" "r \<notin> set (leaves t)"
    "\<And>a. a \<in> set (leaves t) \<Longrightarrow> r \<in> set (chain (heap t) a)"
    using tree_ok_root [OF assms(2)] by blast
  have range: "\<And>a. a \<in> set (leaves t) \<Longrightarrow> a < length (heap t)" using tree_okD(4) [OF assms(2)] .
  have "map (\<lambda>a. MinorID (Meta (nodeAt t' a))) (leaves t)
      = map (\<lambda>a. MinorID (Meta (nodeAt t a))) (leaves t)"
    using shape range by simp
  then have minor: "distinct (map (\<lambda>a. MinorID (Meta (nodeAt t' a))) (leaves t'))"
    using tree_okD(6) [OF assms(2)] shape by metis
  have "map (\<lambda>a. (MinorName (nodeAt t' a), a)) (leaves t)
      = map (\<lambda>a. (MinorName (nodeAt t a), a)) (leaves t)"
    using shape range by (simp add: MinorName_def)
  then have name: "query t' = map (\<lambda>a. (MinorName (nodeAt t' a), a)) (leaves t')"
    using tree_okD(7) [OF assms(2)] shape by metis
  have leaf: "leaf_ok i (nodeAt t' (leaves t ! i))" if "i < length (leaves t)" for i
  proof -
    have "leaves t ! i \<in> set (leaves t)" using that by simp
    with tree_okD(5) [OF assms(2) that] range shape show ?thesis
      unfolding leaf_ok_def by (metis empty_iff list.set(1) neq_Nil_conv list.set_intros(1))
  qed
  have chain: "chain (heap t') a = chain (heap t) a" if "a \<in> set (leaves t)" for a
    using same_shape_chain [OF assms(1) tree_okD(3) [OF assms(2)] range [OF that]] .
  have child: "c < length (heap t) \<and> Parent (nodeAt t' c) = Some a"
    if "a < length (heap t)" "c \<in> set (Children (nodeAt t' a))" for a c
    using that shape tree_okD(8) [OF assms(2)] by metis
  have inner: "Parent n \<noteq> Some a" if "n \<in> set (heap t')" "a \<in> set (leaves t)" for n a
    using that shape tree_okD(9) [OF assms(2)] by (metis in_set_conv_nth)
  have "leaves t' = leaves t" "length (heap t') = length (heap t)" "root t' = Some r"
    using shape r by simp_all
  with minor name show ?thesis
    unfolding tree_ok_def list_all_iff
    using r tree_okD(1,2) [OF assms(2)] range leaf chain child inner
      same_shape_levels [OF assms(1) tree_okD(3) [OF assms(2)]]
    by simp
qed

section \<open>Steps on one device\<close>

lemma bit_one: "bit (push_bit i 1 :: 32 word) j \<longleftrightarrow> j = i \<and> j < 32"
  by (auto simp: bit_exp_iff possible_bit_word)

lemma bit_clear:
  assumes "i < 32"
  shows "bit (if m AND push_bit i 1 = push_bit i 1 then m XOR push_bit i 1 else m :: 32 word) j
     \<longleftrightarrow> bit m j \<and> j \<noteq> i"
proof -
  have "m AND push_bit i 1 = push_bit i 1 \<longleftrightarrow> bit m i"
  proof
    assume "m AND push_bit i 1 = push_bit i 1"
    then have "bit (m AND push_bit i 1) i = bit (push_bit i 1 :: 32 word) i" by simp
    then show "bit m i" using assms unfolding bit_and_iff bit_one by simp
  next
    assume "bit m i"
    then show "m AND push_bit i 1 = push_bit i 1"
      by (intro bit_word_eqI) (auto simp: bit_and_iff bit_one simp del: push_bit_of_1)
  qed
  then show ?thesis
    using assms by (auto simp: bit_xor_iff bit_one dest: bit_imp_le_length simp del: push_bit_of_1)
qed

text \<open>
  \<open>dev_step t t' i v\<close>: the tree \<open>t'\<close> differs from \<open>t\<close> in what concerns device
  \<open>i\<close> alone, and its bit is \<open>v\<close> in the masks of all its ancestors.
\<close>

definition dev_step :: "NvidiaTree \<Rightarrow> NvidiaTree \<Rightarrow> nat \<Rightarrow> bool \<Rightarrow> bool" where
  "dev_step t t' i v \<longleftrightarrow> same_shape t t'
     \<and> (\<forall>q < length (heap t). q \<notin> set (leaves t) \<longrightarrow> (\<forall>j. bit (Mask (nodeAt t' q)) j =
          (if j = i \<and> q \<in> set (chain (heap t) (leaves t ! i)) then v else bit (Mask (nodeAt t q)) j)))
     \<and> (\<forall>j < length (leaves t). j \<noteq> i \<longrightarrow>
          AllocatableMeta (nodeAt t' (leaves t ! j)) = AllocatableMeta (nodeAt t (leaves t ! j))
          \<and> Pids (Meta (nodeAt t' (leaves t ! j))) = Pids (Meta (nodeAt t (leaves t ! j))))"

lemma dev_step_shape: "dev_step t t' i v \<Longrightarrow> same_shape t t'"
  by (simp add: dev_step_def)

lemma dev_step_trans:
  assumes "tree_ok t" "i < length (leaves t)" "dev_step t t' i u" "dev_step t' t'' i v"
  shows "dev_step t t'' i v"
proof -
  have "chain (heap t') (leaves t ! i) = chain (heap t) (leaves t ! i)"
    using assms by (intro same_shape_chain) (auto simp: dev_step_def intro: tree_okD)
  moreover have "same_shape t t''"
    using assms same_shape_trans by (auto simp: dev_step_def)
  moreover have "length (heap t') = length (heap t)" "leaves t' = leaves t"
    using assms(3) by (auto simp: dev_step_def same_shape_def)
  ultimately show ?thesis using assms(3,4) unfolding dev_step_def by simp
qed

lemma masks_okD:
  assumes "masks_ok t"
  shows "\<And>q i. q < length (heap t) \<Longrightarrow> q \<notin> set (leaves t) \<Longrightarrow> bit (Mask (nodeAt t q)) i \<Longrightarrow>
           i < length (leaves t) \<and> q \<in> set (chain (heap t) (leaves t ! i))"
    and "\<And>i p. i < length (leaves t) \<Longrightarrow> p \<in> set (chain (heap t) (leaves t ! i)) \<Longrightarrow>
           bit (Mask (nodeAt t p)) i = bit (Mask (nodeAt t (the (root t)))) i"
    and "\<And>i. i < length (leaves t) \<Longrightarrow> bit (Mask (nodeAt t (the (root t)))) i \<Longrightarrow>
           Cores (AllocatableMeta (nodeAt t (leaves t ! i))) = HundredCore"
  using assms bit_imp_le_length unfolding masks_ok_def list_all_iff by fastforce+

lemma masks_okI:
  assumes "\<And>q i. q < length (heap t) \<Longrightarrow> q \<notin> set (leaves t) \<Longrightarrow> bit (Mask (nodeAt t q)) i \<Longrightarrow>
           i < length (leaves t) \<and> q \<in> set (chain (heap t) (leaves t ! i))"
    and "\<And>i p. i < length (leaves t) \<Longrightarrow> p \<in> set (chain (heap t) (leaves t ! i)) \<Longrightarrow>
           bit (Mask (nodeAt t p)) i = bit (Mask (nodeAt t (the (root t)))) i"
    and "\<And>i. i < length (leaves t) \<Longrightarrow> bit (Mask (nodeAt t (the (root t)))) i \<Longrightarrow>
           Cores (AllocatableMeta (nodeAt t (leaves t ! i))) = HundredCore"
  shows "masks_ok t"
  using assms unfolding masks_ok_def list_all_iff by auto

lemma dev_step_root_bit:
  assumes "tree_ok t" "i < length (leaves t)" "dev_step t t' i v"
  shows "bit (Mask (nodeAt t' (the (root t')))) j =
    (if j = i then v else bit (Mask (nodeAt t (the (root t)))) j)"
proof -
  obtain r where "root t = Some r" "r < length (heap t)" "r \<notin> set (leaves t)"
    "r \<in> set (chain (heap t) (leaves t ! i))"
    using tree_ok_root [OF assms(1)] assms(2) by (metis nth_mem)
  moreover have "root t' = root t" using assms(3) by (simp add: dev_step_def same_shape_def)
  ultimately show ?thesis using assms(3) by (simp add: dev_step_def)
qed

lemma dev_step_masks_ok:
  assumes ok: "tree_ok t" "masks_ok t" and i: "i < length (leaves t)"
    and step: "dev_step t t' i v"
    and full: "v \<Longrightarrow> Cores (AllocatableMeta (nodeAt t' (leaves t ! i))) = HundredCore"
  shows "masks_ok t'"
proof -
  have sh: "length (heap t') = length (heap t)" "leaves t' = leaves t" "root t' = root t"
    using step by (auto simp: dev_step_def same_shape_def)
  have ch: "chain (heap t') (leaves t ! j) = chain (heap t) (leaves t ! j)" if "j < length (leaves t)" for j
    using step that ok by (intro same_shape_chain) (auto simp: dev_step_def intro: tree_okD)
  have bits: "bit (Mask (nodeAt t' q)) j = (if j = i \<and> q \<in> set (chain (heap t) (leaves t ! i))
      then v else bit (Mask (nodeAt t q)) j)"
    if "q < length (heap t)" "q \<notin> set (leaves t)" for q j
    using step that by (simp add: dev_step_def)
  have rootbit: "bit (Mask (nodeAt t' (the (root t)))) j =
      (if j = i then v else bit (Mask (nodeAt t (the (root t)))) j)" for j
    using dev_step_root_bit [OF ok(1) i step] sh by simp
  have inner: "p < length (heap t) \<and> p \<notin> set (leaves t)"
    if "j < length (leaves t)" "p \<in> set (chain (heap t) (leaves t ! j))" for j p
    using that ok(1) chain_range [OF tree_okD(3) [OF ok(1)]] tree_okD(4) [OF ok(1)]
      tree_ok_leaf_not_inner [OF ok(1)] by (meson nth_mem)
  show ?thesis
  proof (rule masks_okI, unfold sh)
    fix q j
    assume "q < length (heap t)" "q \<notin> set (leaves t)" "bit (Mask (nodeAt t' q)) j"
    then show "j < length (leaves t) \<and> q \<in> set (chain (heap t') (leaves t ! j))"
      using bits [of q j] i ch masks_okD(1) [OF ok(2), of q j] by (auto split: if_splits)
  next
    fix j p
    assume j: "j < length (leaves t)" and "p \<in> set (chain (heap t') (leaves t ! j))"
    then have p: "p \<in> set (chain (heap t) (leaves t ! j))" using ch by simp
    show "bit (Mask (nodeAt t' p)) j = bit (Mask (nodeAt t' (the (root t)))) j"
      using bits [of p j] inner [OF j p] rootbit [of j] masks_okD(2) [OF ok(2) j p] p by auto
  next
    fix j
    assume "j < length (leaves t)" "bit (Mask (nodeAt t' (the (root t)))) j"
    then show "Cores (AllocatableMeta (nodeAt t' (leaves t ! j))) = HundredCore"
      using rootbit [of j] full masks_okD(3) [OF ok(2), of j] step
      by (cases "j = i") (auto simp: dev_step_def)
  qed
qed

lemma leaf_facts:
  assumes "tree_ok t" "i < length (leaves t)"
  shows "leaves t ! i < length (heap t)" "leaves t ! i \<in> set (leaves t)" "i < 32"
    "Mask (nodeAt t (leaves t ! i)) = push_bit i 1"
    "set (chain (heap t) (leaves t ! i)) \<inter> set (leaves t) = {}"
proof -
  show lt: "leaves t ! i < length (heap t)" and "leaves t ! i \<in> set (leaves t)" and "i < 32"
    using assms tree_okD(1,4) [OF assms(1)] by auto
  show "Mask (nodeAt t (leaves t ! i)) = push_bit i 1"
    using tree_okD(5) [OF assms] unfolding leaf_ok_def by blast
  show "set (chain (heap t) (leaves t ! i)) \<inter> set (leaves t) = {}"
    using tree_ok_leaf_not_inner [OF assms(1) lt] by blast
qed

lemma dev_step_freeNode:
  assumes "tree_ok t" "i < length (leaves t)"
  shows "dev_step t (freeNode t (leaves t ! i)) i True"
proof -
  note leaf = leaf_facts [OF assms]
  have eq: "freeNode t (leaves t ! i) = setMasks (\<lambda>m. m OR push_bit i 1) (chain (heap t) (leaves t ! i)) t"
    using freeNode_eq [OF tree_okD(3) [OF assms(1)] leaf(1)] leaf(4) by simp
  have notin: "b \<notin> set (chain (heap t) (leaves t ! i))" if "b \<in> set (leaves t)" for b
    using leaf(5) that by blast
  show ?thesis
    unfolding dev_step_def same_shape_def eq
    using notin leaf(3) tree_okD(4) [OF assms(1)]
    by (auto simp: nodeAt_setMasks bit_or_iff bit_one simp del: push_bit_of_1)
qed

lemma dev_step_occupyNode:
  assumes "tree_ok t" "i < length (leaves t)"
  shows "dev_step t (occupyNode t (leaves t ! i)) i False"
proof -
  note leaf = leaf_facts [OF assms]
  have eq: "occupyNode t (leaves t ! i) = setMasks (\<lambda>m. if m AND push_bit i 1 = push_bit i 1
      then m XOR push_bit i 1 else m) (chain (heap t) (leaves t ! i)) t"
    using occupyNode_eq [OF tree_okD(3) [OF assms(1)] leaf(1)] unfolding leaf(4) .
  have notin: "b \<notin> set (chain (heap t) (leaves t ! i))" if "b \<in> set (leaves t)" for b
    using leaf(5) that by blast
  show ?thesis
    unfolding dev_step_def same_shape_def eq
    using notin leaf(3) tree_okD(4) [OF assms(1)]
    by (auto simp: nodeAt_setMasks bit_clear simp del: push_bit_of_1)
qed

end
