(* ===== verification/Tree_Ops.thy ===== *)
theory Tree_Ops
  imports Tree_Laws
begin

text \<open>
  The operations of the tree seen from outside: \<^verbatim>\<open>MarkOccupied\<close>, \<^verbatim>\<open>MarkFree\<close> and
  \<^verbatim>\<open>Update\<close> refine an abstract pool of devices, in which a device is its free flag, its free
  cores and its free memory, and they keep the invariants of the tree.
\<close>

section \<open>Devices by name\<close>

lemma query_Some:
  assumes "tree_ok t" "map_of (query t) nm = Some a"
  obtains i where "i < length (leaves t)" "a = leaves t ! i" "nm = MinorName (nodeAt t a)"
proof -
  have "(nm, a) \<in> set (query t)" using assms(2) by (rule map_of_SomeD)
  then have "a \<in> set (leaves t)" "nm = MinorName (nodeAt t a)"
    using tree_okD(7) [OF assms(1)] by auto
  then show ?thesis using that by (metis in_set_conv_nth)
qed

lemma query_leaf:
  assumes "tree_ok t" "i < length (leaves t)"
  shows "map_of (query t) (MinorName (nodeAt t (leaves t ! i))) = Some (leaves t ! i)"
proof -
  have "map fst (query t) = map minorPath (map (\<lambda>a. MinorID (Meta (nodeAt t a))) (leaves t))"
    unfolding tree_okD(7) [OF assms(1)] by (simp add: MinorName_def)
  then have "distinct (map fst (query t))"
    using tree_okD(6) [OF assms(1)] by (simp add: distinct_map inj_on_def)
  moreover have "(MinorName (nodeAt t (leaves t ! i)), leaves t ! i) \<in> set (query t)"
    using assms(2) unfolding tree_okD(7) [OF assms(1)] by auto
  ultimately show ?thesis by simp
qed

section \<open>The abstract pool\<close>

record dev_view =
  dvFree :: bool
  dvCores :: int
  dvMemory :: int

definition rootBit :: "NvidiaTree \<Rightarrow> nat \<Rightarrow> bool" where
  "rootBit t i \<longleftrightarrow> bit (Mask (nodeAt t (the (root t)))) i"

definition devView :: "NvidiaTree \<Rightarrow> nat \<Rightarrow> dev_view" where
  "devView t i = \<lparr>dvFree = rootBit t i, dvCores = Cores (AllocatableMeta (nodeAt t (leaves t ! i))),
     dvMemory = Memory (AllocatableMeta (nodeAt t (leaves t ! i)))\<rparr>"

definition devTotal :: "NvidiaTree \<Rightarrow> nat \<Rightarrow> int" where
  "devTotal t i = TotalMemory (Meta (nodeAt t (leaves t ! i)))"

definition occupySpec :: "int \<Rightarrow> int \<Rightarrow> dev_view \<Rightarrow> dev_view" where
  "occupySpec util memory v =
     (if 100 \<le> util then \<lparr>dvFree = False, dvCores = 0, dvMemory = 0\<rparr>
      else \<lparr>dvFree = False, dvCores = max 0 (dvCores v - util), dvMemory = max 0 (dvMemory v - memory)\<rparr>)"

text \<open>A release, \<open>released\<close> telling whether the device needed no reset or was reset.\<close>

definition freeSpec :: "bool \<Rightarrow> int \<Rightarrow> int \<Rightarrow> int \<Rightarrow> dev_view \<Rightarrow> dev_view" where
  "freeSpec released tot util memory v =
     (let c = (if 100 \<le> util then 100 else min 100 (dvCores v + util));
          m = (if 100 \<le> util then tot else min tot (dvMemory v + memory))
      in \<lparr>dvFree = dvFree v \<or> (c = 100 \<and> released), dvCores = c, dvMemory = m\<rparr>)"

definition resets :: "nvml \<Rightarrow> NvidiaTree \<Rightarrow> nat \<Rightarrow> bool" where
  "resets nv t i \<longleftrightarrow> \<not> realMode t \<or>
     \<not> pendingReset (fst (resetGPUFeature nv ((nodeAt t (leaves t ! i))\<lparr>pendingReset := True\<rparr>) True))"

section \<open>Writing a leaf\<close>

definition leaf_write :: "(NvidiaNode \<Rightarrow> NvidiaNode) \<Rightarrow> bool" where
  "leaf_write f \<longleftrightarrow> (\<forall>x. Parent (f x) = Parent x \<and> ntype (f x) = ntype x \<and> Children (f x) = Children x
     \<and> Mask (f x) = Mask x \<and> ID (Meta (f x)) = ID (Meta x) \<and> MinorID (Meta (f x)) = MinorID (Meta x)
     \<and> DevName (Meta (f x)) = DevName (Meta x) \<and> TotalMemory (Meta (f x)) = TotalMemory (Meta x))"

lemma dev_step_leaf_write:
  assumes "tree_ok t" "masks_ok t" "i < length (leaves t)" "leaf_write f"
  shows "dev_step t (updNode t (leaves t ! i) f) i (rootBit t i)"
proof -
  let ?a = "leaves t ! i"
  have other: "?a \<noteq> leaves t ! j" if "j < length (leaves t)" "j \<noteq> i" for j
    using nth_eq_iff_index_eq [OF tree_okD(2) [OF assms(1)]] that assms(3) by blast
  have "same_shape t (updNode t ?a f)"
    using assms(4) tree_okD(4) [OF assms(1)] unfolding same_shape_def leaf_write_def
    by (simp add: nodeAt_updNode del: heap_updNode) simp
  moreover have "bit (Mask (nodeAt (updNode t ?a f) q)) j =
      (if j = i \<and> q \<in> set (chain (heap t) ?a) then rootBit t i else bit (Mask (nodeAt t q)) j)"
    if "q < length (heap t)" "q \<notin> set (leaves t)" for q j
    using that assms(4) masks_okD(2) [OF assms(2,3), of q] leaf_facts(2) [OF assms(1,3)]
    by (auto simp: nodeAt_updNode leaf_write_def rootBit_def simp del: heap_updNode)
  ultimately show ?thesis
    using other unfolding dev_step_def by simp
qed

lemma leaf_write_alloc:
  "leaf_write (occupyAlloc util memory)" "leaf_write (freeAlloc util memory)"
  "leaf_write (\<lambda>x. x\<lparr>pendingReset := b\<rparr>)"
  by (simp_all add: leaf_write_def occupyAlloc_def freeAlloc_def Let_def)

lemma resetGPUFeature_cases:
  "fst (resetGPUFeature nv x r) = x \<or> fst (resetGPUFeature nv x r) = x\<lparr>pendingReset := False\<rparr>"
proof -
  define P where "P = (\<lambda>r :: NvidiaNode \<times> string option. fst r = x \<or> fst r = x\<lparr>pendingReset := False\<rparr>)"
  have branch: "P (if c then a else b)" if "P a" "P b" for c a b using that by simp
  have "P (resetGPUFeature nv x r)"
    unfolding resetGPUFeature_def Let_def case_prod_unfold
    by (intro branch) (simp_all add: P_def)
  then show ?thesis by (simp add: P_def)
qed

lemma leaf_write_reset: "leaf_write (\<lambda>x. fst (resetGPUFeature nv x r))"
proof (unfold leaf_write_def, intro allI)
  fix x
  show "Parent (fst (resetGPUFeature nv x r)) = Parent x \<and> ntype (fst (resetGPUFeature nv x r)) = ntype x
     \<and> Children (fst (resetGPUFeature nv x r)) = Children x \<and> Mask (fst (resetGPUFeature nv x r)) = Mask x
     \<and> ID (Meta (fst (resetGPUFeature nv x r))) = ID (Meta x)
     \<and> MinorID (Meta (fst (resetGPUFeature nv x r))) = MinorID (Meta x)
     \<and> DevName (Meta (fst (resetGPUFeature nv x r))) = DevName (Meta x)
     \<and> TotalMemory (Meta (fst (resetGPUFeature nv x r))) = TotalMemory (Meta x)"
    using resetGPUFeature_cases [of nv x r] by (elim disjE) simp_all
qed

lemma reset_alloc [simp]: "AllocatableMeta (fst (resetGPUFeature nv x r)) = AllocatableMeta x"
  using resetGPUFeature_cases [of nv x r] by (elim disjE) simp_all

lemma reset_ignores_alloc:
  "pendingReset (fst (resetGPUFeature nv (x\<lparr>AllocatableMeta := m\<rparr>) r)) =
     pendingReset (fst (resetGPUFeature nv x r))"
proof -
  define R where "R = (\<lambda>(a :: NvidiaNode \<times> string option) (b :: NvidiaNode \<times> string option). pendingReset (fst a) = pendingReset (fst b))"
  have branch: "R (if c then a else b) (if c then a' else b')" if "R a a'" "R b b'" for c a a' b b'
    using that by simp
  have same: "pendingReset (x\<lparr>AllocatableMeta := m\<rparr>) = pendingReset x" "Meta (x\<lparr>AllocatableMeta := m\<rparr>) = Meta x"
    by simp_all
  have "R (resetGPUFeature nv (x\<lparr>AllocatableMeta := m\<rparr>) r) (resetGPUFeature nv x r)"
    unfolding resetGPUFeature_def Let_def case_prod_unfold same
    by (intro branch) (simp_all add: R_def)
  then show ?thesis by (simp add: R_def)
qed

section \<open>Whole operations as steps on one device\<close>

text \<open>
  \<open>dev_op t t' i\<close>: an operation on device \<open>i\<close> led from \<open>t\<close> to \<open>t'\<close>. It keeps the
  invariants of the tree, and the pool changes at \<open>i\<close> only.
\<close>

definition dev_op :: "NvidiaTree \<Rightarrow> NvidiaTree \<Rightarrow> nat \<Rightarrow> bool" where
  "dev_op t t' i \<longleftrightarrow> same_shape t t' \<and> tree_ok t' \<and> masks_ok t'
     \<and> (\<forall>j < length (leaves t). j \<noteq> i \<longrightarrow> devView t' j = devView t j
          \<and> Pids (Meta (nodeAt t' (leaves t ! j))) = Pids (Meta (nodeAt t (leaves t ! j))))"

lemma dev_step_op:
  assumes "tree_ok t" "masks_ok t" "i < length (leaves t)" "dev_step t t' i v"
    and "v \<Longrightarrow> Cores (AllocatableMeta (nodeAt t' (leaves t ! i))) = HundredCore"
  shows "dev_op t t' i" "rootBit t' i = v"
proof -
  have sh: "same_shape t t'" using assms(4) by (rule dev_step_shape)
  have "devView t' j = devView t j" if "j < length (leaves t)" "j \<noteq> i" for j
    using assms(4) that dev_step_root_bit [OF assms(1,3,4), of j] sh
    by (simp add: devView_def rootBit_def dev_step_def same_shape_def)
  then show "dev_op t t' i"
    using sh tree_ok_same_shape [OF sh assms(1)] dev_step_masks_ok [OF assms] assms(4)
    by (simp add: dev_op_def dev_step_def)
  show "rootBit t' i = v"
    using dev_step_root_bit [OF assms(1,3,4), of i] by (simp add: rootBit_def)
qed

lemma dev_op_refl: "tree_ok t \<Longrightarrow> masks_ok t \<Longrightarrow> dev_op t t i"
  by (simp add: dev_op_def)

lemma dev_op_trans: "dev_op t t' i \<Longrightarrow> dev_op t' t'' i \<Longrightarrow> dev_op t t'' i"
  unfolding dev_op_def using same_shape_trans by (auto simp: same_shape_def)

lemma dev_opD:
  assumes "dev_op t t' i"
  shows "tree_ok t'" "masks_ok t'" "leaves t' = leaves t" "length (heap t') = length (heap t)"
    "realMode t' = realMode t" "query t' = query t" "root t' = root t"
  using assms by (auto simp: dev_op_def same_shape_def)

lemma write_op:
  assumes "tree_ok t" "masks_ok t" "i < length (leaves t)" "leaf_write f"
    and "rootBit t i \<Longrightarrow> Cores (AllocatableMeta (f (nodeAt t (leaves t ! i)))) = HundredCore"
  shows "dev_op t (updNode t (leaves t ! i) f) i" "rootBit (updNode t (leaves t ! i) f) i = rootBit t i"
  using dev_step_op [OF assms(1-3) dev_step_leaf_write [OF assms(1-4)]] assms(5)
    leaf_facts(1) [OF assms(1,3)] by simp_all

lemma full_if_free:
  "masks_ok t \<Longrightarrow> i < length (leaves t) \<Longrightarrow> rootBit t i \<Longrightarrow>
     Cores (AllocatableMeta (nodeAt t (leaves t ! i))) = HundredCore"
  using masks_okD(3) by (simp add: rootBit_def)

lemma masks_only:
  assumes "tree_ok t" "i < length (leaves t)" "a < length (heap t)"
  shows "AllocatableMeta (nodeAt (freeNode t (leaves t ! i)) a) = AllocatableMeta (nodeAt t a)"
    "AllocatableMeta (nodeAt (occupyNode t (leaves t ! i)) a) = AllocatableMeta (nodeAt t a)"
    "Meta (nodeAt (freeNode t (leaves t ! i)) a) = Meta (nodeAt t a)"
    "Meta (nodeAt (occupyNode t (leaves t ! i)) a) = Meta (nodeAt t a)"
    "pendingReset (nodeAt (freeNode t (leaves t ! i)) a) = pendingReset (nodeAt t a)"
    "pendingReset (nodeAt (occupyNode t (leaves t ! i)) a) = pendingReset (nodeAt t a)"
  using assms(3) leaf_facts(1) [OF assms(1,2)] tree_okD(3) [OF assms(1)]
  by (simp_all add: freeNode_eq occupyNode_eq nodeAt_setMasks)

lemma free_op:
  assumes "tree_ok t" "masks_ok t" "i < length (leaves t)"
    "Cores (AllocatableMeta (nodeAt t (leaves t ! i))) = HundredCore"
  shows "dev_op t (freeNode t (leaves t ! i)) i" "rootBit (freeNode t (leaves t ! i)) i"
  using dev_step_op [OF assms(1-3) dev_step_freeNode [OF assms(1,3)]]
    assms(4) masks_only(1) [OF assms(1,3) leaf_facts(1) [OF assms(1,3)]] by auto

lemma occupy_op:
  assumes "tree_ok t" "masks_ok t" "i < length (leaves t)"
  shows "dev_op t (occupyNode t (leaves t ! i)) i" "\<not> rootBit (occupyNode t (leaves t ! i)) i"
  using dev_step_op [OF assms dev_step_occupyNode [OF assms(1,3)]] by auto

lemma release_op:
  assumes "tree_ok t" "masks_ok t" "i < length (leaves t)"
    "Cores (AllocatableMeta (nodeAt t (leaves t ! i))) = HundredCore"
  shows "dev_op t (tryRelease nv t (leaves t ! i)) i"
    "rootBit (tryRelease nv t (leaves t ! i)) i \<longleftrightarrow> rootBit t i \<or>
       \<not> pendingReset (fst (resetGPUFeature nv (nodeAt t (leaves t ! i)) (realMode t)))"
    "AllocatableMeta (nodeAt (tryRelease nv t (leaves t ! i)) (leaves t ! i)) =
       AllocatableMeta (nodeAt t (leaves t ! i))"
proof -
  let ?a = "leaves t ! i" and ?r = "\<lambda>x. fst (resetGPUFeature nv x (realMode t))"
  let ?t = "updNode t ?a ?r"
  have lt: "?a < length (heap t)" using leaf_facts(1) [OF assms(1,3)] .
  have w: "dev_op t ?t i" "rootBit ?t i = rootBit t i"
    using write_op [OF assms(1-3) leaf_write_reset] assms(4) by simp_all
  have f: "dev_op ?t (freeNode ?t ?a) i" "rootBit (freeNode ?t ?a) i"
    "AllocatableMeta (nodeAt (freeNode ?t ?a) ?a) = AllocatableMeta (nodeAt t ?a)"
    using free_op [of ?t i] masks_only(1) [of ?t i ?a] dev_opD(1,2) [OF w(1)] assms(3,4) lt
    by simp_all
  show "dev_op t (tryRelease nv t ?a) i"
    using w(1) dev_op_trans [OF w(1) f(1)] by (simp add: tryRelease_def Let_def)
  show "rootBit (tryRelease nv t ?a) i \<longleftrightarrow> rootBit t i \<or> \<not> pendingReset (?r (nodeAt t ?a))"
    using w(2) f(2) lt by (simp add: tryRelease_def Let_def)
  show "AllocatableMeta (nodeAt (tryRelease nv t ?a) ?a) = AllocatableMeta (nodeAt t ?a)"
    using f(3) lt by (simp add: tryRelease_def Let_def)
qed

section \<open>MarkOccupied and MarkFree refine the pool\<close>

definition devices :: "NvidiaTree \<Rightarrow> nat" where
  "devices t = length (leaves t)"

text \<open>The bounds under which the 64-bit arithmetic of a request or a release does not wrap.\<close>

definition req_ok :: "int \<Rightarrow> int \<Rightarrow> bool" where
  "req_ok util memory \<longleftrightarrow> 0 \<le> util \<and> util < 2 ^ 62 \<and> 0 \<le> memory \<and> memory < 2 ^ 62"

lemma alloc_okD:
  assumes "tree_ok t" "alloc_ok t" "i < length (leaves t)"
  shows "0 \<le> Cores (AllocatableMeta (nodeAt t (leaves t ! i)))"
    "Cores (AllocatableMeta (nodeAt t (leaves t ! i))) \<le> 100"
    "0 \<le> Memory (AllocatableMeta (nodeAt t (leaves t ! i)))"
    "Memory (AllocatableMeta (nodeAt t (leaves t ! i))) \<le> devTotal t i"
    "0 \<le> devTotal t i" "devTotal t i < 2 ^ 62"
proof -
  have "leaves t ! i \<in> set (leaves t)" using assms(3) by simp
  then show "0 \<le> Cores (AllocatableMeta (nodeAt t (leaves t ! i)))"
    "Cores (AllocatableMeta (nodeAt t (leaves t ! i))) \<le> 100"
    "0 \<le> Memory (AllocatableMeta (nodeAt t (leaves t ! i)))"
    "Memory (AllocatableMeta (nodeAt t (leaves t ! i))) \<le> devTotal t i"
    using assms(2) unfolding alloc_ok_def list_all_iff Let_def devTotal_def HundredCore_def
    by blast+
  show "0 \<le> devTotal t i" "devTotal t i < 2 ^ 62"
    using tree_okD(5) [OF assms(1,3)] unfolding leaf_ok_def devTotal_def by blast+
qed

text \<open>The state of all devices, in the order of the leaves.\<close>

definition pool :: "NvidiaTree \<Rightarrow> dev_view list" where
  "pool t = map (devView t) [0..<devices t]"

lemma nth_list_update_if: "j < length xs \<Longrightarrow> xs[i := x] ! j = (if i = j then x else xs ! j)"
  by simp

lemma pool_dev_op:
  assumes "dev_op t t' i"
  shows "pool t' = (pool t)[i := devView t' i]"
  using assms dev_opD(3) [OF assms]
  by (intro nth_equalityI) (auto simp: pool_def devices_def dev_op_def nth_list_update_if)

lemma mark_occupied_op:
  assumes "tree_ok t" "masks_ok t" "i < devices t"
    and "MinorName node = MinorName (nodeAt t (leaves t ! i))"
  shows "dev_op t (MarkOccupied t node util memory) i" "\<not> rootBit (MarkOccupied t node util memory) i"
    "nodeAt (MarkOccupied t node util memory) (leaves t ! i) =
       occupyAlloc util memory (nodeAt (occupyNode t (leaves t ! i)) (leaves t ! i))"
proof -
  let ?a = "leaves t ! i"
  have i: "i < length (leaves t)" using assms(3) by (simp add: devices_def)
  note o = occupy_op [OF assms(1,2) i] note lt = leaf_facts(1) [OF assms(1) i]
  have eq: "MarkOccupied t node util memory = updNode (occupyNode t ?a) ?a (occupyAlloc util memory)"
    using query_leaf [OF assms(1) i] assms(4) by (simp add: MarkOccupied_def)
  have w: "dev_op (occupyNode t ?a) (MarkOccupied t node util memory) i"
    "\<not> rootBit (MarkOccupied t node util memory) i"
    using write_op [OF dev_opD(1,2) [OF o(1)], of i, OF _ leaf_write_alloc(1)] o(2) i
    unfolding eq dev_opD(3) [OF o(1)] by auto
  show "dev_op t (MarkOccupied t node util memory) i" using dev_op_trans [OF o(1) w(1)] .
  show "\<not> rootBit (MarkOccupied t node util memory) i" using w(2) .
  show "nodeAt (MarkOccupied t node util memory) ?a =
      occupyAlloc util memory (nodeAt (occupyNode t ?a) ?a)"
    unfolding eq using lt dev_opD(4) [OF o(1)] by simp
qed

lemma mark_occupied_view:
  assumes "tree_ok t" "masks_ok t" "alloc_ok t" "i < devices t" "req_ok util memory"
    and "MinorName node = MinorName (nodeAt t (leaves t ! i))"
  shows "devView (MarkOccupied t node util memory) i = occupySpec util memory (devView t i)"
proof -
  have i: "i < length (leaves t)" using assms(4) by (simp add: devices_def)
  note m = mark_occupied_op [OF assms(1,2,4,6), of util memory]
  note a = alloc_okD [OF assms(1,3) i] masks_only(2) [OF assms(1) i leaf_facts(1) [OF assms(1) i]]
  show ?thesis
    using m(2) a assms(5)
    by (simp add: devView_def dev_opD(3) [OF m(1)] m(3) occupyAlloc_def occupySpec_def
        HundredCore_def Let_def req_ok_def go_int max_def)
qed

lemma freeAlloc_view:
  assumes "tree_ok t" "alloc_ok t" "i < devices t" "req_ok util memory"
  shows "AllocatableMeta (freeAlloc util memory (nodeAt t (leaves t ! i))) =
     \<lparr>Cores = dvCores (freeSpec r (devTotal t i) util memory (devView t i)),
      Memory = dvMemory (freeSpec r (devTotal t i) util memory (devView t i))\<rparr>"
proof -
  have i: "i < length (leaves t)" using assms(3) by (simp add: devices_def)
  show ?thesis
    using alloc_okD [OF assms(1,2) i] assms(4)
    by (simp add: freeAlloc_def freeSpec_def devView_def devTotal_def HundredCore_def Let_def
        req_ok_def go_int min_def)
qed

lemma mark_free_op:
  assumes "tree_ok t" "masks_ok t" "alloc_ok t" "i < devices t" "req_ok util memory"
    and "MinorName node = MinorName (nodeAt t (leaves t ! i))"
  shows "dev_op t (MarkFree nv t node util memory) i"
    "devView (MarkFree nv t node util memory) i =
       freeSpec (resets nv t i) (devTotal t i) util memory (devView t i)"
proof -
  let ?a = "leaves t ! i" and ?P = "\<lambda>x :: NvidiaNode. x\<lparr>pendingReset := True\<rparr>"
  let ?t = "updNode t ?a (freeAlloc util memory)"
  have i: "i < length (leaves t)" using assms(4) by (simp add: devices_def)
  have lt: "?a < length (heap t)" using leaf_facts(1) [OF assms(1) i] .
  note spec = freeAlloc_view [OF assms(1,3,4,5)]
  have full: "Cores (AllocatableMeta (freeAlloc util memory (nodeAt t ?a))) = HundredCore" if "rootBit t i"
    using full_if_free [OF assms(2) i that] spec [of True] assms(5)
    by (auto simp: freeSpec_def devView_def HundredCore_def Let_def req_ok_def)
  note w = write_op [OF assms(1,2) i leaf_write_alloc(2) full, simplified]
  have ok: "tree_ok ?t" "masks_ok ?t" using dev_opD(1,2) [OF w(1)] .
  have eq: "MarkFree nv t node util memory =
      (if Cores (AllocatableMeta (nodeAt ?t ?a)) = HundredCore
       then if realMode t then tryRelease nv (updNode ?t ?a ?P) ?a else freeNode ?t ?a else ?t)"
    using query_leaf [OF assms(1) i] assms(6) by (simp add: MarkFree_def Let_def)
  have cores: "Cores (AllocatableMeta (nodeAt ?t ?a)) =
      dvCores (freeSpec (resets nv t i) (devTotal t i) util memory (devView t i))"
    "Memory (AllocatableMeta (nodeAt ?t ?a)) =
      dvMemory (freeSpec (resets nv t i) (devTotal t i) util memory (devView t i))"
    using spec [of "resets nv t i"] lt by simp_all
  have flag: "dvFree (freeSpec (resets nv t i) (devTotal t i) util memory (devView t i)) \<longleftrightarrow>
      rootBit t i \<or> (Cores (AllocatableMeta (nodeAt ?t ?a)) = HundredCore \<and> resets nv t i)"
    unfolding cores by (simp add: freeSpec_def Let_def devView_def HundredCore_def)
  have goal: "dev_op t t' i \<and> devView t' i = freeSpec (resets nv t i) (devTotal t i) util memory (devView t i)"
    if "dev_op ?t t' i" "AllocatableMeta (nodeAt t' ?a) = AllocatableMeta (nodeAt ?t ?a)"
      "rootBit t' i \<longleftrightarrow> rootBit t i \<or> (Cores (AllocatableMeta (nodeAt ?t ?a)) = HundredCore \<and> resets nv t i)"
    for t'
    using dev_op_trans [OF w(1) that(1)] that(2,3) cores flag dev_opD(3) [OF that(1)]
    by (simp add: devView_def)
  have "dev_op t (MarkFree nv t node util memory) i \<and> devView (MarkFree nv t node util memory) i =
      freeSpec (resets nv t i) (devTotal t i) util memory (devView t i)"
  proof (cases "Cores (AllocatableMeta (nodeAt ?t ?a)) = HundredCore")
    case False
    then show ?thesis using goal [of ?t] dev_op_refl [OF ok, of i] w(2) eq by simp
  next
    case full: True
    show ?thesis
    proof (cases "realMode t")
      case False
      have "resets nv t i" using False by (simp add: resets_def)
      then show ?thesis
        using goal [of "freeNode ?t ?a"] free_op [OF ok, of i] masks_only(1) [OF ok(1), of i ?a]
          full False i lt eq by simp
    next
      case True
      let ?u = "updNode ?t ?a ?P"
      have p: "dev_op ?t ?u i" "rootBit ?u i = rootBit t i"
        using write_op [OF ok, of i, OF _ leaf_write_alloc(3)] full i w(2) by simp_all
      have "nodeAt ?u ?a = ((nodeAt t ?a)\<lparr>pendingReset := True\<rparr>)
          \<lparr>AllocatableMeta := AllocatableMeta (freeAlloc util memory (nodeAt t ?a))\<rparr>"
        using lt by (simp add: freeAlloc_def Let_def)
      then have "pendingReset (fst (resetGPUFeature nv (nodeAt ?u ?a) True)) \<longleftrightarrow> \<not> resets nv t i"
        using True reset_ignores_alloc [of nv _ _ True] by (simp add: resets_def)
      moreover have "AllocatableMeta (nodeAt ?u ?a) = AllocatableMeta (nodeAt ?t ?a)"
        using lt by simp
      moreover note release_op [OF dev_opD(1,2) [OF p(1)], of i nv]
      ultimately show ?thesis
        using goal [of "tryRelease nv ?u ?a"] dev_op_trans [OF p(1)] full i True p(2) eq by simp
    qed
  qed
  then show "dev_op t (MarkFree nv t node util memory) i"
    "devView (MarkFree nv t node util memory) i =
       freeSpec (resets nv t i) (devTotal t i) util memory (devView t i)"
    by simp_all
qed
section \<open>Update keeps the pool\<close>

text \<open>
  \<open>upd_ok t t'\<close>: the invariants and the free resources of all devices are as before; a device
  whose reset was pending may have become free.
\<close>

definition upd_ok :: "NvidiaTree \<Rightarrow> NvidiaTree \<Rightarrow> bool" where
  "upd_ok t t' \<longleftrightarrow> same_shape t t' \<and> tree_ok t' \<and> masks_ok t'
     \<and> (\<forall>j < devices t. dvCores (devView t' j) = dvCores (devView t j)
          \<and> dvMemory (devView t' j) = dvMemory (devView t j)
          \<and> (dvFree (devView t j) \<longrightarrow> dvFree (devView t' j)))"

lemma upd_ok_refl: "tree_ok t \<Longrightarrow> masks_ok t \<Longrightarrow> upd_ok t t"
  by (simp add: upd_ok_def)

lemma upd_ok_trans: "upd_ok t t' \<Longrightarrow> upd_ok t' t'' \<Longrightarrow> upd_ok t t''"
  unfolding upd_ok_def using same_shape_trans by (auto simp: same_shape_def devices_def)

lemma upd_ok_dev_op:
  assumes "dev_op t t' i" "i < devices t"
    and "AllocatableMeta (nodeAt t' (leaves t ! i)) = AllocatableMeta (nodeAt t (leaves t ! i))"
    and "rootBit t i \<Longrightarrow> rootBit t' i"
  shows "upd_ok t t'"
proof -
  have "devView t' j = devView t j" if "j < devices t" "j \<noteq> i" for j
    using assms(1) that by (simp add: dev_op_def devices_def)
  moreover have "dvCores (devView t' i) = dvCores (devView t i)" "dvMemory (devView t' i) = dvMemory (devView t i)"
    "dvFree (devView t i) \<longrightarrow> dvFree (devView t' i)"
    using assms(3,4) dev_opD(3) [OF assms(1)] by (simp_all add: devView_def)
  ultimately show ?thesis
    using assms(1) unfolding upd_ok_def dev_op_def by metis
qed

text \<open>What the walk of \<^verbatim>\<open>Update\<close> changes: the summaries of inner nodes.\<close>

definition sums_only :: "NvidiaTree \<Rightarrow> NvidiaTree \<Rightarrow> bool" where
  "sums_only t t' \<longleftrightarrow> same_shape t t'
     \<and> (\<forall>a < length (heap t). Mask (nodeAt t' a) = Mask (nodeAt t a)
          \<and> AllocatableMeta (nodeAt t' a) = AllocatableMeta (nodeAt t a)
          \<and> (a \<in> set (leaves t) \<longrightarrow> nodeAt t' a = nodeAt t a))"

lemma sums_only_trans: "sums_only t t' \<Longrightarrow> sums_only t' t'' \<Longrightarrow> sums_only t t''"
  unfolding sums_only_def using same_shape_trans by (auto simp: same_shape_def)

lemma foldl_sum_meta:
  "ID (foldl (\<lambda>m c. m\<lparr>Pids := P m c, UsedMemory := U m c, TotalMemory := T m c\<rparr>) m cs) = ID m"
  "MinorID (foldl (\<lambda>m c. m\<lparr>Pids := P m c, UsedMemory := U m c, TotalMemory := T m c\<rparr>) m cs) = MinorID m"
  "DevName (foldl (\<lambda>m c. m\<lparr>Pids := P m c, UsedMemory := U m c, TotalMemory := T m c\<rparr>) m cs) = DevName m"
  by (induction cs arbitrary: m) auto

lemma sums_only_sumChildren:
  assumes "tree_ok t" "p < length (heap t)" "p \<notin> set (leaves t)"
  shows "sums_only t (sumChildren t p)"
proof -
  have "a \<noteq> p" if "a \<in> set (leaves t)" for a using that assms(3) by blast
  then show ?thesis
    using tree_okD(4) [OF assms(1)]
    unfolding sums_only_def same_shape_def sumChildren_def
    by (simp add: nodeAt_updNode foldl_sum_meta del: heap_updNode) simp
qed

lemma sums_only_walk:
  "tree_ok t \<Longrightarrow> pred_option (\<lambda>q. q < length (heap t) \<and> q \<notin> set (leaves t)) p \<Longrightarrow>
     sums_only t (walkUp sumChildren k t p)"
proof (induction k arbitrary: t p)
  case (Suc k)
  show ?case
  proof (cases p)
    case (Some q)
    let ?t = "sumChildren t q"
    have s: "sums_only t ?t" using Suc.prems Some by (intro sums_only_sumChildren) simp_all
    then have ok: "tree_ok ?t" using Suc.prems(1) tree_ok_same_shape by (auto simp: sums_only_def)
    have "Parent (nodeAt ?t q) = Some r \<Longrightarrow> r < length (heap ?t) \<and> r \<notin> set (leaves ?t)" for r
      using Suc.prems(2) Some tree_okD(9) [OF ok, of r q] levels_okD [OF tree_okD(3) [OF ok], of q r] s
      by (auto simp: sums_only_def same_shape_def)
    then have "pred_option (\<lambda>r. r < length (heap ?t) \<and> r \<notin> set (leaves ?t)) (Parent (nodeAt ?t q))"
      by (cases "Parent (nodeAt ?t q)") simp_all
    then show ?thesis
      using sums_only_trans [OF s Suc.IH [OF ok]] Some by (simp add: Let_def)
  qed (simp add: sums_only_def)
qed (simp add: sums_only_def)

lemma masks_ok_same_masks:
  assumes "tree_ok t" "masks_ok t" "sums_only t t'"
  shows "masks_ok t'"
proof -
  have sh: "same_shape t t'" and eq: "length (heap t') = length (heap t)" "leaves t' = leaves t" "root t' = root t"
    using assms(3) by (auto simp: sums_only_def same_shape_def)
  obtain r where r: "root t = Some r" "r < length (heap t)" using tree_ok_root [OF assms(1)] by blast
  have ch: "chain (heap t') (leaves t ! i) = chain (heap t) (leaves t ! i)" if "i < length (leaves t)" for i
    using same_shape_chain [OF sh tree_okD(3) [OF assms(1)]] leaf_facts(1) [OF assms(1) that] .
  have node: "Mask (nodeAt t' a) = Mask (nodeAt t a)" "AllocatableMeta (nodeAt t' a) = AllocatableMeta (nodeAt t a)"
    if "a < length (heap t)" for a using assms(3) that by (auto simp: sums_only_def)
  show ?thesis
  proof (rule masks_okI, unfold eq r option.sel)
    fix q i assume "q < length (heap t)" "q \<notin> set (leaves t)" "bit (Mask (nodeAt t' q)) i"
    then show "i < length (leaves t) \<and> q \<in> set (chain (heap t') (leaves t ! i))"
      using masks_okD(1) [OF assms(2), of q i] ch node by simp
  next
    fix i p assume i: "i < length (leaves t)" and "p \<in> set (chain (heap t') (leaves t ! i))"
    then have p: "p \<in> set (chain (heap t) (leaves t ! i))" using ch by simp
    then have "p < length (heap t)"
      using chain_range [OF tree_okD(3) [OF assms(1)] leaf_facts(1) [OF assms(1) i]] by blast
    then show "bit (Mask (nodeAt t' p)) i = bit (Mask (nodeAt t' r)) i"
      using masks_okD(2) [OF assms(2) i p] node r by simp
  next
    fix i assume i: "i < length (leaves t)" "bit (Mask (nodeAt t' r)) i"
    then show "Cores (AllocatableMeta (nodeAt t' (leaves t ! i))) = HundredCore"
      using masks_okD(3) [OF assms(2), of i] node r leaf_facts(1) [OF assms(1) i(1)] by simp
  qed
qed

lemma upd_ok_sums:
  assumes "tree_ok t" "masks_ok t" "sums_only t t'"
  shows "upd_ok t t'"
proof -
  have sh: "same_shape t t'" using assms(3) by (simp add: sums_only_def)
  obtain r where r: "root t = Some r" "r < length (heap t)" using tree_ok_root [OF assms(1)] by blast
  have "devView t' j = devView t j" if "j < devices t" for j
    using assms(3) r leaf_facts(1) [OF assms(1), of j] that
    by (simp add: devView_def rootBit_def sums_only_def same_shape_def devices_def)
  then show ?thesis
    using sh tree_ok_same_shape [OF sh assms(1)] masks_ok_same_masks [OF assms]
    by (simp add: upd_ok_def)
qed

lemma leaf_write_meta:
  "leaf_write (\<lambda>x. x\<lparr>Meta := foldl (\<lambda>m p. m\<lparr>Pids := P m p, UsedMemory := U m p, Utilization := V m p\<rparr>)
     ((Meta x)\<lparr>Pids := ps, UsedMemory := u\<rparr>) l\<rparr>)"
proof -
  have "ID (foldl (\<lambda>m p. m\<lparr>Pids := P m p, UsedMemory := U m p, Utilization := V m p\<rparr>) m l) = ID m \<and>
    MinorID (foldl (\<lambda>m p. m\<lparr>Pids := P m p, UsedMemory := U m p, Utilization := V m p\<rparr>) m l) = MinorID m \<and>
    DevName (foldl (\<lambda>m p. m\<lparr>Pids := P m p, UsedMemory := U m p, Utilization := V m p\<rparr>) m l) = DevName m \<and>
    TotalMemory (foldl (\<lambda>m p. m\<lparr>Pids := P m p, UsedMemory := U m p, Utilization := V m p\<rparr>) m l) = TotalMemory m"
    for m by (induction l arbitrary: m) auto
  then show ?thesis by (simp add: leaf_write_def)
qed

lemma upd_ok_updateLeaf:
  assumes "tree_ok t" "masks_ok t" "i < length (leaves t)"
  shows "upd_ok t (updateLeaf nv t i)"
proof -
  let ?a = "leaves t ! i" and ?t = "updateNode nv t i"
  have lt: "?a < length (heap t)" using leaf_facts(1) [OF assms(1,3)] .
  have w: "dev_op t ?t i" "rootBit ?t i = rootBit t i"
    "AllocatableMeta (nodeAt ?t ?a) = AllocatableMeta (nodeAt t ?a)"
    using write_op [OF assms leaf_write_meta] full_if_free [OF assms(2,3)] lt
    by (simp_all add: updateNode_def Let_def)
  note d = dev_opD [OF w(1)]
  have u1: "upd_ok t ?t" using upd_ok_dev_op [OF w(1)] w assms(3) by (simp add: devices_def)
  define t2 where "t2 = (if pendingReset (nodeAt ?t ?a) \<and> Cores (AllocatableMeta (nodeAt ?t ?a)) = HundredCore
    then tryRelease nv ?t ?a else ?t)"
  have u2: "upd_ok ?t t2"
    using release_op [OF d(1,2), of i nv] upd_ok_dev_op [of ?t "tryRelease nv ?t ?a" i] assms(3) d(3)
      upd_ok_refl [OF d(1,2)] by (auto simp: t2_def devices_def)
  then have ok: "tree_ok t2" "masks_ok t2" and sh: "length (heap t2) = length (heap t)" "leaves t2 = leaves t"
    using d(3,4) by (auto simp: upd_ok_def same_shape_def)
  have "Parent (nodeAt t2 ?a) = Some r \<Longrightarrow> r < length (heap t2) \<and> r \<notin> set (leaves t2)" for r
    using tree_okD(9) [OF ok(1), of r ?a] levels_okD [OF tree_okD(3) [OF ok(1)], of ?a r] lt sh by auto
  then have "pred_option (\<lambda>r. r < length (heap t2) \<and> r \<notin> set (leaves t2)) (Parent (nodeAt t2 ?a))"
    by (cases "Parent (nodeAt t2 ?a)") simp_all
  then have "upd_ok t2 (walkUp sumChildren (length (heap t2)) t2 (Parent (nodeAt t2 ?a)))"
    using upd_ok_sums [OF ok sums_only_walk [OF ok(1)]] by blast
  moreover have "updateLeaf nv t i = walkUp sumChildren (length (heap t2)) t2 (Parent (nodeAt t2 ?a))"
    unfolding updateLeaf_def Let_def t2_def d(3) ..
  ultimately show ?thesis using upd_ok_trans [OF u1 upd_ok_trans [OF u2]] by simp
qed

lemma upd_ok_UpdateTree:
  assumes "tree_ok t" "masks_ok t"
  shows "upd_ok t (UpdateTree nv t)"
proof -
  have "upd_ok t (foldl (updateLeaf nv) t' is)"
    if "upd_ok t t'" "set is \<subseteq> {..<length (leaves t)}" for t' "is"
    using that
  proof (induction "is" arbitrary: t')
    case (Cons i "is")
    then have ok: "tree_ok t'" "masks_ok t'" "i < length (leaves t')"
      by (auto simp: upd_ok_def same_shape_def)
    show ?case
      using Cons.IH [OF upd_ok_trans [OF Cons.prems(1) upd_ok_updateLeaf [OF ok]]] Cons.prems(2) by simp
  qed simp
  from this [OF upd_ok_refl [OF assms], of "[0..<length (leaves t)]"]
  have "upd_ok t (foldl (updateLeaf nv) t [0..<length (leaves t)])" by fastforce
  then show ?thesis using upd_ok_refl [OF assms] by (simp add: UpdateTree_def)
qed

end
