(* ===== verification/Device_Ledger.thy ===== *)
theory Device_Ledger
  imports Tree_Ops
begin

text \<open>
  The contract between the allocator and the device tree. The locale \<open>device_pool\<close> states what
  an occupation and a release promise; inside it, a ledger of outstanding grants is related to the
  free resources the pool shows, once for every pool. The tree of the program is an
  interpretation.
\<close>

section \<open>Grants\<close>

text \<open>A grant: the device, the cores and the memory that were asked for.\<close>

type_synonym grant = "nat \<times> int \<times> int"

definition grantCores :: "int \<Rightarrow> int" where
  "grantCores c = min c 100"

definition grantMemory :: "int \<Rightarrow> int \<Rightarrow> int \<Rightarrow> int" where
  "grantMemory tot c m = (if 100 \<le> c then tot else m)"

definition usedCores :: "grant list \<Rightarrow> nat \<Rightarrow> int" where
  "usedCores L i = sum_list (map (\<lambda>(d, c, m). if d = i then grantCores c else 0) L)"

definition usedMemory :: "int \<Rightarrow> grant list \<Rightarrow> nat \<Rightarrow> int" where
  "usedMemory tot L i = sum_list (map (\<lambda>(d, c, m). if d = i then grantMemory tot c m else 0) L)"

definition grants_ok :: "nat \<Rightarrow> grant list \<Rightarrow> bool" where
  "grants_ok n L \<longleftrightarrow> list_all (\<lambda>(d, c, m). d < n \<and> req_ok c m) L"

lemma used_Nil [simp]: "usedCores [] i = 0" "usedMemory tot [] i = 0"
  by (simp_all add: usedCores_def usedMemory_def)

lemma used_Cons [simp]:
  "usedCores ((d, c, m) # L) i = (if d = i then grantCores c else 0) + usedCores L i"
  "usedMemory tot ((d, c, m) # L) i = (if d = i then grantMemory tot c m else 0) + usedMemory tot L i"
  by (simp_all add: usedCores_def usedMemory_def)

lemma used_remove1:
  assumes "(d, c, m) \<in> set L"
  shows "usedCores (remove1 (d, c, m) L) i = usedCores L i - (if d = i then grantCores c else 0)"
    "usedMemory tot (remove1 (d, c, m) L) i = usedMemory tot L i - (if d = i then grantMemory tot c m else 0)"
  unfolding usedCores_def usedMemory_def
  by (simp_all add: sum_list_map_remove1 [OF assms])

lemma grants_ok_remove1: "grants_ok n L \<Longrightarrow> grants_ok n (remove1 g L)"
  unfolding grants_ok_def list_all_iff by (meson notin_set_remove1 in_mono set_remove1_subset)

lemma used_nonneg:
  assumes "grants_ok n L" "0 \<le> tot"
  shows "0 \<le> usedCores L i" "0 \<le> usedMemory tot L i"
proof -
  have "0 \<le> grantCores c" "0 \<le> grantMemory tot c m" if "(d, c, m) \<in> set L" for d c m
    using assms that by (auto simp: grants_ok_def list_all_iff req_ok_def grantCores_def grantMemory_def)
  then show "0 \<le> usedCores L i" "0 \<le> usedMemory tot L i"
    unfolding usedCores_def usedMemory_def by (auto intro!: sum_list_nonneg split: if_splits)
qed

section \<open>The contract\<close>

locale device_pool =
  fixes pok :: "'s \<Rightarrow> bool" and pcount :: "'s \<Rightarrow> nat" and pview :: "'s \<Rightarrow> nat \<Rightarrow> dev_view"
    and ptotal :: "'s \<Rightarrow> nat \<Rightarrow> int"
    and poccupy :: "'s \<Rightarrow> nat \<Rightarrow> int \<Rightarrow> int \<Rightarrow> 's" and pfree :: "'s \<Rightarrow> nat \<Rightarrow> int \<Rightarrow> int \<Rightarrow> 's"
  assumes view_range: "pok s \<Longrightarrow> i < pcount s \<Longrightarrow>
      0 \<le> dvCores (pview s i) \<and> dvCores (pview s i) \<le> 100
      \<and> 0 \<le> dvMemory (pview s i) \<and> dvMemory (pview s i) \<le> ptotal s i"
    and occupy_ok: "pok s \<Longrightarrow> i < pcount s \<Longrightarrow> req_ok c m \<Longrightarrow> pok (poccupy s i c m)"
    and occupy_frame: "pok s \<Longrightarrow> i < pcount s \<Longrightarrow> req_ok c m \<Longrightarrow>
      pcount (poccupy s i c m) = pcount s \<and> (\<forall>j < pcount s. ptotal (poccupy s i c m) j = ptotal s j)"
    and occupy_view: "pok s \<Longrightarrow> i < pcount s \<Longrightarrow> req_ok c m \<Longrightarrow> j < pcount s \<Longrightarrow>
      pview (poccupy s i c m) j = (if j = i then occupySpec c m (pview s i) else pview s j)"
    and free_ok: "pok s \<Longrightarrow> i < pcount s \<Longrightarrow> req_ok c m \<Longrightarrow> pok (pfree s i c m)"
    and free_frame: "pok s \<Longrightarrow> i < pcount s \<Longrightarrow> req_ok c m \<Longrightarrow>
      pcount (pfree s i c m) = pcount s \<and> (\<forall>j < pcount s. ptotal (pfree s i c m) j = ptotal s j)"
    and free_view: "pok s \<Longrightarrow> i < pcount s \<Longrightarrow> req_ok c m \<Longrightarrow> j < pcount s \<Longrightarrow> \<exists>r.
      pview (pfree s i c m) j = (if j = i then freeSpec r (ptotal s i) c m (pview s i) else pview s j)"
begin

text \<open>The ledger accounts for all resources that are not free.\<close>

definition ledger :: "'s \<Rightarrow> grant list \<Rightarrow> bool" where
  "ledger s L \<longleftrightarrow> pok s \<and> grants_ok (pcount s) L \<and> (\<forall>i < pcount s.
     dvCores (pview s i) = 100 - usedCores L i
     \<and> dvMemory (pview s i) = ptotal s i - usedMemory (ptotal s i) L i)"

definition fits :: "'s \<Rightarrow> nat \<Rightarrow> int \<Rightarrow> int \<Rightarrow> bool" where
  "fits s i c m \<longleftrightarrow> grantCores c \<le> dvCores (pview s i) \<and> grantMemory (ptotal s i) c m \<le> dvMemory (pview s i)"

lemma ledger_bounds:
  assumes "ledger s L" "i < pcount s"
  shows "usedCores L i \<le> 100" "usedMemory (ptotal s i) L i \<le> ptotal s i"
  using assms view_range [of s i] unfolding ledger_def by force+

lemma ledger_occupy:
  assumes "ledger s L" "i < pcount s" "req_ok c m" "fits s i c m"
  shows "ledger (poccupy s i c m) ((i, c, m) # L)"
proof -
  have ok: "pok s" and g: "grants_ok (pcount s) L" using assms(1) by (auto simp: ledger_def)
  note fr = occupy_frame [OF ok assms(2,3)]
  have "dvCores (pview (poccupy s i c m) j) = 100 - usedCores ((i, c, m) # L) j"
    "dvMemory (pview (poccupy s i c m) j) = ptotal s j - usedMemory (ptotal s j) ((i, c, m) # L) j"
    if "j < pcount s" for j
    using occupy_view [OF ok assms(2,3) that] assms(1,4) that view_range [OF ok assms(2)]
    by (auto simp: ledger_def fits_def occupySpec_def grantCores_def grantMemory_def max_def min_def
        split: if_splits)
  then show ?thesis
    using occupy_ok [OF ok assms(2,3)] fr g assms(2,3) by (simp add: ledger_def grants_ok_def)
qed

lemma ledger_free:
  assumes "ledger s L" "(i, c, m) \<in> set L"
  shows "ledger (pfree s i c m) (remove1 (i, c, m) L)"
proof -
  let ?R = "remove1 (i, c, m) L"
  have ok: "pok s" and g: "grants_ok (pcount s) L" using assms(1) by (auto simp: ledger_def)
  then have i: "i < pcount s" and req: "req_ok c m"
    using assms(2) by (auto simp: grants_ok_def list_all_iff)
  note fr = free_frame [OF ok i req] and rg = grants_ok_remove1 [OF g, of "(i, c, m)"]
  have "dvCores (pview (pfree s i c m) j) = 100 - usedCores ?R j
      \<and> dvMemory (pview (pfree s i c m) j) = ptotal s j - usedMemory (ptotal s j) ?R j"
    if j: "j < pcount s" for j
  proof (cases "j = i")
    case False
    then show ?thesis
      using free_view [OF ok i req j] assms(1) j used_remove1 [OF assms(2)] by (auto simp: ledger_def)
  next
    case True
    have nn: "0 \<le> usedCores ?R i" "0 \<le> usedMemory (ptotal s i) ?R i"
      using used_nonneg [OF rg] view_range [OF ok i] by auto
    obtain r where v: "pview (pfree s i c m) i = freeSpec r (ptotal s i) c m (pview s i)"
      using free_view [OF ok i req i] by auto
    have eqs: "dvCores (pview s i) = 100 - (usedCores ?R i + grantCores c)"
      "dvMemory (pview s i) = ptotal s i - (usedMemory (ptotal s i) ?R i + grantMemory (ptotal s i) c m)"
      using assms(1) i used_remove1 [OF assms(2)] by (auto simp: ledger_def)
    show ?thesis
      using nn eqs view_range [OF ok i] req unfolding True v
      by (auto simp: freeSpec_def Let_def grantCores_def grantMemory_def min_def req_ok_def
          split: if_splits)
  qed
  then show ?thesis using free_ok [OF ok i req] fr rg by (simp add: ledger_def)
qed

text \<open>Replaying a list of grants that fits on each device rebuilds the ledger.\<close>

definition replay :: "grant list \<Rightarrow> 's \<Rightarrow> 's" where
  "replay G s = foldl (\<lambda>s (d, c, m). poccupy s d c m) s G"

lemma ledger_replay:
  assumes "ledger s L" "grants_ok (pcount s) G"
    and "\<And>i. i < pcount s \<Longrightarrow> usedCores (rev G @ L) i \<le> 100
      \<and> usedMemory (ptotal s i) (rev G @ L) i \<le> ptotal s i"
  shows "ledger (replay G s) (rev G @ L)"
  using assms
proof (induction G arbitrary: s L)
  case (Cons g G)
  obtain d c m where g: "g = (d, c, m)" by (cases g)
  have ok: "pok s" and d: "d < pcount s" and req: "req_ok c m"
    using Cons.prems g by (auto simp: ledger_def grants_ok_def)
  have rg: "grants_ok (pcount s) (rev G)" using Cons.prems(2) by (simp add: grants_ok_def list_all_iff)
  have app: "usedCores (A @ B) i = usedCores A i + usedCores B i"
    "usedMemory t (A @ B) i = usedMemory t A i + usedMemory t B i" for A B i t
    by (simp_all add: usedCores_def usedMemory_def)
  have "grantCores c + usedCores L d \<le> 100"
    "grantMemory (ptotal s d) c m + usedMemory (ptotal s d) L d \<le> ptotal s d"
    using Cons.prems(3) [OF d] used_nonneg [OF rg, of "ptotal s d" d] view_range [OF ok d]
    by (auto simp: app g)
  then have "fits s d c m" using Cons.prems(1) d by (auto simp: fits_def ledger_def)
  note l = ledger_occupy [OF Cons.prems(1) d req this] and fr = occupy_frame [OF ok d req]
  have "ledger (replay G (poccupy s d c m)) (rev G @ (d, c, m) # L)"
    using Cons.prems(2,3) fr g by (intro Cons.IH [OF l]) (auto simp: grants_ok_def)
  then show ?case by (simp add: replay_def g)
qed (simp add: replay_def)

end

section \<open>The tree is a device pool\<close>

definition pool_ok :: "NvidiaTree \<Rightarrow> bool" where
  "pool_ok t \<longleftrightarrow> tree_ok t \<and> masks_ok t \<and> alloc_ok t"

lemma alloc_ok_views:
  "alloc_ok t \<longleftrightarrow> (\<forall>i < devices t. 0 \<le> dvCores (devView t i) \<and> dvCores (devView t i) \<le> 100
     \<and> 0 \<le> dvMemory (devView t i) \<and> dvMemory (devView t i) \<le> devTotal t i)"
  by (simp add: alloc_ok_def list_all_length devices_def devView_def devTotal_def HundredCore_def Let_def)

lemma devTotal_same_shape:
  "same_shape t t' \<Longrightarrow> i < devices t \<Longrightarrow> devTotal t' i = devTotal t i"
  by (simp add: same_shape_def devTotal_def devices_def)

lemma pool_ok_dev_op:
  assumes "pool_ok t" "dev_op t t' i" "i < devices t"
    and "0 \<le> dvCores (devView t' i)" "dvCores (devView t' i) \<le> 100"
    and "0 \<le> dvMemory (devView t' i)" "dvMemory (devView t' i) \<le> devTotal t i"
  shows "pool_ok t'"
proof -
  have "devices t' = devices t" using dev_opD(3) [OF assms(2)] by (simp add: devices_def)
  moreover have "devView t' j = devView t j" if "j < devices t" "j \<noteq> i" for j
    using assms(2) that by (simp add: dev_op_def devices_def)
  moreover have "devTotal t' j = devTotal t j" if "j < devices t" for j
    using assms(2) that devTotal_same_shape by (simp add: dev_op_def)
  moreover have "alloc_ok t" using assms(1) by (simp add: pool_ok_def)
  ultimately have "alloc_ok t'"
    using assms(4-7) unfolding alloc_ok_views by metis
  then show ?thesis using dev_opD(1,2) [OF assms(2)] by (simp add: pool_ok_def)
qed

lemma occupySpec_range:
  assumes "req_ok u m" "0 \<le> dvCores v" "dvCores v \<le> 100" "0 \<le> dvMemory v" "dvMemory v \<le> tot"
  shows "0 \<le> dvCores (occupySpec u m v)" "dvCores (occupySpec u m v) \<le> 100"
    "0 \<le> dvMemory (occupySpec u m v)" "dvMemory (occupySpec u m v) \<le> tot"
  using assms by (auto simp: occupySpec_def req_ok_def)

lemma freeSpec_range:
  assumes "req_ok u m" "0 \<le> dvCores v" "dvCores v \<le> 100" "0 \<le> dvMemory v" "dvMemory v \<le> tot"
  shows "0 \<le> dvCores (freeSpec r tot u m v)" "dvCores (freeSpec r tot u m v) \<le> 100"
    "0 \<le> dvMemory (freeSpec r tot u m v)" "dvMemory (freeSpec r tot u m v) \<le> tot"
  using assms by (auto simp: freeSpec_def Let_def req_ok_def)

lemma view_range_tree:
  "pool_ok t \<Longrightarrow> i < devices t \<Longrightarrow> 0 \<le> dvCores (devView t i) \<and> dvCores (devView t i) \<le> 100
     \<and> 0 \<le> dvMemory (devView t i) \<and> dvMemory (devView t i) \<le> devTotal t i"
  by (simp add: pool_ok_def alloc_ok_views)

text \<open>The operations on a device given by its index; a caller names the device by any node that
  carries its minor number.\<close>

definition occupyDev :: "NvidiaTree \<Rightarrow> nat \<Rightarrow> int \<Rightarrow> int \<Rightarrow> NvidiaTree" where
  "occupyDev t i util memory = MarkOccupied t (nodeAt t (leaves t ! i)) util memory"

definition freeDev :: "nvml \<Rightarrow> NvidiaTree \<Rightarrow> nat \<Rightarrow> int \<Rightarrow> int \<Rightarrow> NvidiaTree" where
  "freeDev nv t i util memory = MarkFree nv t (nodeAt t (leaves t ! i)) util memory"

lemma occupyDev_laws:
  assumes "pool_ok t" "i < devices t" "req_ok c m"
  shows "dev_op t (occupyDev t i c m) i" "devView (occupyDev t i c m) i = occupySpec c m (devView t i)"
    "pool_ok (occupyDev t i c m)"
proof -
  have ok: "tree_ok t" "masks_ok t" "alloc_ok t" using assms(1) by (auto simp: pool_ok_def)
  show d: "dev_op t (occupyDev t i c m) i"
    unfolding occupyDev_def by (rule mark_occupied_op(1) [OF ok(1,2) assms(2)]) simp
  show v: "devView (occupyDev t i c m) i = occupySpec c m (devView t i)"
    unfolding occupyDev_def by (rule mark_occupied_view [OF ok assms(2,3)]) simp
  note r = view_range_tree [OF assms(1,2)]
  show "pool_ok (occupyDev t i c m)"
    using pool_ok_dev_op [OF assms(1) d assms(2)] occupySpec_range [OF assms(3), of "devView t i"] r
    unfolding v by blast
qed

lemma freeDev_laws:
  assumes "pool_ok t" "i < devices t" "req_ok c m"
  shows "dev_op t (freeDev nv t i c m) i"
    "devView (freeDev nv t i c m) i = freeSpec (resets nv t i) (devTotal t i) c m (devView t i)"
    "pool_ok (freeDev nv t i c m)"
proof -
  have ok: "tree_ok t" "masks_ok t" "alloc_ok t" using assms(1) by (auto simp: pool_ok_def)
  show d: "dev_op t (freeDev nv t i c m) i"
    unfolding freeDev_def by (rule mark_free_op(1) [OF ok assms(2,3)]) simp
  show v: "devView (freeDev nv t i c m) i = freeSpec (resets nv t i) (devTotal t i) c m (devView t i)"
    unfolding freeDev_def by (rule mark_free_op(2) [OF ok assms(2,3)]) simp
  note r = view_range_tree [OF assms(1,2)]
  show "pool_ok (freeDev nv t i c m)"
    using pool_ok_dev_op [OF assms(1) d assms(2)] freeSpec_range [OF assms(3), of "devView t i"] r
    unfolding v by blast
qed

lemma dev_op_frame:
  "dev_op t t' i \<Longrightarrow> devices t' = devices t \<and> (\<forall>j < devices t. devTotal t' j = devTotal t j)"
  using devTotal_same_shape by (auto simp: dev_op_def same_shape_def devices_def)

lemma dev_op_view: "dev_op t t' i \<Longrightarrow> j < devices t \<Longrightarrow> j \<noteq> i \<Longrightarrow> devView t' j = devView t j"
  by (simp add: dev_op_def devices_def)

interpretation tp: device_pool pool_ok devices devView devTotal occupyDev "freeDev nv" for nv
proof unfold_locales
  fix t i c m j
  assume a: "pool_ok t" "i < devices t"
  show "0 \<le> dvCores (devView t i) \<and> dvCores (devView t i) \<le> 100 \<and> 0 \<le> dvMemory (devView t i)
      \<and> dvMemory (devView t i) \<le> devTotal t i"
    using view_range_tree [OF a] .
  assume r: "req_ok c m"
  note o = occupyDev_laws [OF a r] and f = freeDev_laws [OF a r, of nv]
  show "pool_ok (occupyDev t i c m)" "pool_ok (freeDev nv t i c m)" using o(3) f(3) .
  show "devices (occupyDev t i c m) = devices t \<and> (\<forall>j < devices t. devTotal (occupyDev t i c m) j = devTotal t j)"
    "devices (freeDev nv t i c m) = devices t \<and> (\<forall>j < devices t. devTotal (freeDev nv t i c m) j = devTotal t j)"
    using dev_op_frame [OF o(1)] dev_op_frame [OF f(1)] .
  assume j: "j < devices t"
  show "devView (occupyDev t i c m) j = (if j = i then occupySpec c m (devView t i) else devView t j)"
    using o(2) dev_op_view [OF o(1) j] by simp
  show "\<exists>r. devView (freeDev nv t i c m) j =
      (if j = i then freeSpec r (devTotal t i) c m (devView t i) else devView t j)"
    using f(2) dev_op_view [OF f(1) j] by auto
qed

text \<open>The ledger of the tree, executable.\<close>

definition tree_ledger :: "NvidiaTree \<Rightarrow> grant list \<Rightarrow> bool" where
  "tree_ledger t L \<longleftrightarrow> pool_ok t \<and> grants_ok (devices t) L \<and> list_all (\<lambda>i.
     dvCores (devView t i) = 100 - usedCores L i
     \<and> dvMemory (devView t i) = devTotal t i - usedMemory (devTotal t i) L i) [0..<devices t]"

lemma tree_ledger_eq: "tree_ledger t L \<longleftrightarrow> tp.ledger t L"
  by (auto simp: tree_ledger_def tp.ledger_def list_all_iff)

lemma MarkFree_cong: "MinorName n = MinorName n' \<Longrightarrow> MarkFree nv t n u m = MarkFree nv t n' u m"
  by (simp add: MarkFree_def)

lemma MarkOccupied_cong: "MinorName n = MinorName n' \<Longrightarrow> MarkOccupied t n u m = MarkOccupied t n' u m"
  by (simp add: MarkOccupied_def)

lemma tree_ledger_upd:
  assumes "tree_ledger t L" "upd_ok t t'"
  shows "tree_ledger t' L"
proof -
  have sh: "same_shape t t'" and d: "devices t' = devices t"
    using assms(2) by (auto simp: upd_ok_def same_shape_def devices_def)
  have v: "dvCores (devView t' j) = dvCores (devView t j)" "dvMemory (devView t' j) = dvMemory (devView t j)"
    "devTotal t' j = devTotal t j" if "j < devices t" for j
    using assms(2) that devTotal_same_shape [OF sh that] by (auto simp: upd_ok_def)
  then have "pool_ok t'"
    using assms d unfolding tree_ledger_def pool_ok_def alloc_ok_views upd_ok_def by simp
  then show ?thesis using assms(1) v d by (simp add: tree_ledger_def list_all_iff)
qed

end
