(* ===== verification/Tree_Build.thy ===== *)
theory Tree_Build
  imports Tree_Ops
begin

text \<open>
  The construction of the topology tree (\<^verbatim>\<open>tree.go\<close>: \<^verbatim>\<open>Init\<close>,
  \<^verbatim>\<open>parseFromLibrary\<close>, \<^verbatim>\<open>parseFromString\<close>, \<^verbatim>\<open>join\<close>,
  \<^verbatim>\<open>buildTree\<close>; \<^verbatim>\<open>tree_util.go\<close>) and its printing. The order in which Go visits
  the map \<^verbatim>\<open>vchildren\<close> is the parameter \<open>ord\<close>. An index out of range is the value
  \<open>Panic\<close> and \<^verbatim>\<open>klog.Fatalf\<close> the value \<open>Fatal\<close>.
\<close>

section \<open>tree_util.go\<close>

definition parseToGpuTopologyLevel :: "string \<Rightarrow> int" where
  "parseToGpuTopologyLevel str =
     (if str = ''PIX'' then TOPOLOGY_SINGLE
      else if str = ''PXB'' then TOPOLOGY_MULTIPLE
      else if str = ''PHB'' then TOPOLOGY_HOSTBRIDGE
      else if str = ''SOC'' then TOPOLOGY_CPU
      else if hasPrefix str ''GPU'' then TOPOLOGY_INTERNAL
      else 60)"

definition B2S :: "int list \<Rightarrow> string" where
  "B2S bs = map (\<lambda>v. char_of (nat (v mod 256))) bs"

text \<open>An error of the library before the mode is read counts as MIG, an error of the mode query
  itself does not.\<close>

definition IsMig :: "nvml \<Rightarrow> int \<Rightarrow> bool" where
  "IsMig nv index =
     (if nvInit nv \<noteq> NVML_SUCCESS then True
      else if nvDeviceGetHandleByIndex nv index \<noteq> NVML_SUCCESS then True
      else let (currentMode, rs) = nvMigMode nv index in
           if rs \<noteq> NVML_SUCCESS then False else currentMode = NVML_DEVICE_MIG_ENABLE)"

section \<open>Creating nodes\<close>

type_synonym LevelMap = "(int, addr list) gomap"

definition levelNodes :: "LevelMap \<Rightarrow> int \<Rightarrow> addr list" where
  "levelNodes nodes l = (case map_of nodes l of None \<Rightarrow> [] | Some ns \<Rightarrow> ns)"

definition newNvidiaTree :: "int option \<Rightarrow> int \<Rightarrow> NvidiaTree" where
  "newNvidiaTree cfg idx =
     \<lparr>heap = [], root = None, leaves = [], realMode = False, query = [], treeIndex = 0,
      samplePeriod = (case cfg of None \<Rightarrow> 0 | Some p \<Rightarrow> p), nodeIndex = idx\<rparr>"

definition allocateNode :: "NvidiaTree \<Rightarrow> nat \<Rightarrow> NvidiaTree \<times> addr" where
  "allocateNode t index =
     (let (t, a) = NewNvidiaNode t
      in (updNode t a (\<lambda>x. x\<lparr>ntype := TOPOLOGY_INTERNAL, Meta := (Meta x)\<lparr>ID := int index\<rparr>,
                            Mask := push_bit index 1\<rparr>), a))"

text \<open>The entry of \<^verbatim>\<open>leaves\<close> that is written always exists.\<close>

definition addNode :: "NvidiaTree \<Rightarrow> addr \<Rightarrow> NvidiaTree" where
  "addNode t a = t\<lparr>query := AList.update (MinorName (nodeAt t a)) a (query t),
                   leaves := (leaves t)[nat (ID (Meta (nodeAt t a))) := a]\<rparr>"

definition trimEmpty :: "string list \<Rightarrow> string list" where
  "trimEmpty splits = filter (\<lambda>s. length s \<noteq> 0) splits"

text \<open>\<^verbatim>\<open>join\<close>: the tree it leaves and the node it returns, if any.\<close>

definition join :: "NvidiaTree \<Rightarrow> LevelMap \<Rightarrow> int \<Rightarrow> nat \<Rightarrow> nat \<Rightarrow> go_fault + NvidiaTree \<times> addr option" where
  "join t nodes ty indexA indexB =
     (if length (leaves t) \<le> indexA \<or> length (leaves t) \<le> indexB then Inl Panic
      else let mask = Mask (nodeAt t (leaves t ! indexA)) OR Mask (nodeAt t (leaves t ! indexB))
           in case find (\<lambda>n. Mask (nodeAt t n) AND mask \<noteq> 0) (levelNodes nodes ty) of
                Some n \<Rightarrow> Inr (updNode t n (\<lambda>x. x\<lparr>Mask := Mask x OR mask\<rparr>), None)
              | None \<Rightarrow> let (t, a) = NewNvidiaNode t
                        in Inr (updNode t a (\<lambda>x. x\<lparr>Mask := mask, ntype := ty\<rparr>), Some a))"

text \<open>Both parsers append the new node to its level.\<close>

definition joinInto ::
  "NvidiaTree \<times> LevelMap \<Rightarrow> int \<Rightarrow> nat \<Rightarrow> nat \<Rightarrow> go_fault + NvidiaTree \<times> LevelMap" where
  "joinInto s ty indexA indexB =
     (case join (fst s) (snd s) ty indexA indexB of
        Inl e \<Rightarrow> Inl e
      | Inr (t, None) \<Rightarrow> Inr (t, snd s)
      | Inr (t, Some a) \<Rightarrow> Inr (t, AList.update ty (levelNodes (snd s) ty @ [a]) (snd s)))"

section \<open>buildTree\<close>

text \<open>The values of \<^verbatim>\<open>level\<close> on the way up, from \<^verbatim>\<open>TOPOLOGY_SINGLE\<close> in steps of
  \<^verbatim>\<open>levelStep\<close> to \<^verbatim>\<open>TOPOLOGY_SYSTEM\<close>.\<close>

definition upLevels :: "int list" where
  "upLevels = map (\<lambda>k. TOPOLOGY_SINGLE + int k * levelStep) [0..<5]"

definition connectLevel :: "LevelMap \<Rightarrow> NvidiaTree \<times> addr \<Rightarrow> int \<Rightarrow> NvidiaTree \<times> addr" where
  "connectLevel nodes s level =
     (let (t, self) = s
      in case find (\<lambda>u. Mask (nodeAt t u) AND Mask (nodeAt t self) \<noteq> 0) (levelNodes nodes level) of
           None \<Rightarrow> (t, self)
         | Some u \<Rightarrow> (setParent t self u, u))"

definition connectLeaf :: "LevelMap \<Rightarrow> NvidiaTree \<Rightarrow> addr \<Rightarrow> NvidiaTree" where
  "connectLeaf nodes t cur = fst (foldl (connectLevel nodes) (t, cur) upLevels)"

definition rootAdopt :: "addr \<Rightarrow> NvidiaTree \<Rightarrow> addr \<Rightarrow> NvidiaTree" where
  "rootAdopt r t n =
     setParent (updNode t r (\<lambda>x. x\<lparr>Mask := Mask x OR Mask (nodeAt t n)\<rparr>)) n r"

definition fillChildren :: "(int list \<Rightarrow> int list) \<Rightarrow> NvidiaTree \<Rightarrow> addr \<Rightarrow> NvidiaTree" where
  "fillChildren ord t cur =
     (if Children (nodeAt t cur) = []
      then updNode t cur (\<lambda>x. x\<lparr>Children := map snd (gorange ord (vchildren x))\<rparr>)
      else t)"

definition buildTree :: "(int list \<Rightarrow> int list) \<Rightarrow> NvidiaTree \<Rightarrow> LevelMap \<Rightarrow> go_fault + NvidiaTree" where
  "buildTree ord t nodes =
     (let t = foldl (connectLeaf nodes) t (leaves t);
          (t, r) = NewNvidiaNode t;
          t = t\<lparr>root := Some r\<rparr>
      in case find (\<lambda>l. levelNodes nodes l \<noteq> []) (rev upLevels) of
           None \<Rightarrow>
             (case leaves t of
                [leaf] \<Rightarrow> Inr (updNode (rootAdopt r t leaf) r (\<lambda>x. x\<lparr>Children := Children x @ [leaf]\<rparr>))
              | _ \<Rightarrow> Inl Fatal)
         | Some l \<Rightarrow>
             (let t = foldl (rootAdopt r) t (levelNodes nodes l)
              in Inr (foldl (\<lambda>t n. walkUp (fillChildren ord) (length (heap t)) t (Parent (nodeAt t n)))
                        t (leaves t))))"

section \<open>parseFromLibrary\<close>

definition libraryLeaf :: "nvml \<Rightarrow> NvidiaTree \<Rightarrow> nat \<Rightarrow> NvidiaTree" where
  "libraryLeaf nv t i =
     (let d = int i; (t, n) = allocateNode t i;
          mem = fst (nvMemoryTotal nv d)
      in addNode (updNode t n (\<lambda>x. x\<lparr>AllocatableMeta := \<lparr>Cores = HundredCore, Memory = i64 mem\<rparr>,
           Meta := (Meta x)\<lparr>TotalMemory := mem, BusId := B2S (fst (nvPciBusId nv d)),
             MinorID := fst (nvMinorNumber nv d), UUID := fst (nvUUID nv d),
             DevName := fst (nvName nv d)\<rparr>\<rparr>)) n)"

text \<open>
  The pairs of cards in the order of the nested loops. The loop ends at the first error; what was
  joined until then stays.
\<close>

definition cardPairs :: "nat \<Rightarrow> (nat \<times> nat) list" where
  "cardPairs n = concat (map (\<lambda>a. map (Pair a) [a + 1..<n]) [0..<n])"

fun joinPairs ::
  "nvml \<Rightarrow> NvidiaTree \<times> LevelMap \<Rightarrow> (nat \<times> nat) list \<Rightarrow> go_fault + (NvidiaTree \<times> LevelMap) \<times> string option" where
  "joinPairs nv s [] = Inr (s, None)"
| "joinPairs nv s ((a, b) # ps) =
     (let (ty, rs) = nvTopologyCommonAncestor nv (int a) (int b) in
      if rs \<noteq> NVML_SUCCESS then Inr (s, Some (nvErrorString nv rs))
      else let (multi, rs) = nvMultiGpuBoard nv (int a) in
      if rs \<noteq> NVML_SUCCESS then Inr (s, Some (nvErrorString nv rs))
      else let ty = (if 0 < multi \<and> ty = TOPOLOGY_INTERNAL then TOPOLOGY_SINGLE else ty) in
      case joinInto s ty a b of
        Inl e \<Rightarrow> Inl e
      | Inr s \<Rightarrow> joinPairs nv s ps)"

text \<open>The fresh slice of \<open>num\<close> leaves is overwritten entry by entry before it is read.\<close>

definition parseFromLibrary ::
  "nvml \<Rightarrow> (int list \<Rightarrow> int list) \<Rightarrow> NvidiaTree \<Rightarrow> go_fault + NvidiaTree \<times> string option" where
  "parseFromLibrary nv ord t =
     (if nvInit nv \<noteq> NVML_SUCCESS then Inr (t, Some (nvErrorString nv (nvInit nv)))
      else let (num, rs) = nvDeviceGetCount nv in
      if rs \<noteq> NVML_SUCCESS then Inr (t, Some (nvErrorString nv rs))
      else if num < 0 then Inl Panic
      else let n = nat num;
               t = foldl (libraryLeaf nv) (t\<lparr>leaves := replicate n 0\<rparr>) [0..<n]
      in case joinPairs nv (t, []) (cardPairs n) of
           Inl e \<Rightarrow> Inl e
         | Inr (s, Some err) \<Rightarrow> Inr (fst s, Some err)
         | Inr (s, None) \<Rightarrow> map_sum id (\<lambda>t. (t, None)) (buildTree ord (fst s) (snd s)))"

section \<open>parseFromString\<close>

text \<open>
  \<^verbatim>\<open>bufio.Scanner\<close> cuts the input at newlines and drops a carriage return at the end of a
  line; an empty last line is not a token. \<^verbatim>\<open>regexp.Split\<close> cuts at maximal runs of blanks.
\<close>

definition scanLines :: "string \<Rightarrow> string list" where
  "scanLines input =
     (let ls = splitStr input [CHR 0x0A];
          ls = (if last ls = [] then butlast ls else ls)
      in map (\<lambda>l. trimSuffix l [CHR 0x0D]) ls)"

definition isBlank :: "char \<Rightarrow> bool" where
  "isBlank c \<longleftrightarrow> c = CHR '' '' \<or> c = CHR 0x09"

function splitBlanks :: "string \<Rightarrow> string list" where
  "splitBlanks s =
     (case dropWhile (\<lambda>c. \<not> isBlank c) s of
        [] \<Rightarrow> [s]
      | c # rest \<Rightarrow> takeWhile (\<lambda>c. \<not> isBlank c) s # splitBlanks (dropWhile isBlank rest))"
  by pat_completeness auto
termination
proof (relation "measure length")
  fix s c and rest :: string
  assume "dropWhile (\<lambda>c. \<not> isBlank c) s = c # rest"
  then have "Suc (length rest) \<le> length s" by (metis length_Cons length_dropWhile_le)
  then show "(dropWhile isBlank rest, s) \<in> measure length"
    using length_dropWhile_le [of isBlank rest] by simp
qed simp

declare splitBlanks.simps [simp del]

definition textLeaf :: "NvidiaTree \<Rightarrow> nat \<Rightarrow> NvidiaTree" where
  "textLeaf t i =
     (let (t, n) = allocateNode t i
      in addNode (updNode t n (\<lambda>x. x\<lparr>Meta := (Meta x)\<lparr>MinorID := int i\<rparr>\<rparr>)) n)"

text \<open>One row of the matrix: \<open>cnt\<close> is the number of the line.\<close>

fun textRow ::
  "nat \<Rightarrow> NvidiaTree \<times> LevelMap \<Rightarrow> (nat \<times> string) list \<Rightarrow> go_fault + NvidiaTree \<times> LevelMap" where
  "textRow cnt s [] = Inr s"
| "textRow cnt s ((i, str) # rest) =
     (if i = 0 \<or> i = cnt then textRow cnt s rest
      else case joinInto s (parseToGpuTopologyLevel str) (cnt - 1) (i - 1) of
             Inl e \<Rightarrow> Inl e
           | Inr s \<Rightarrow> textRow cnt s rest)"

fun textRows ::
  "nat \<Rightarrow> NvidiaTree \<times> LevelMap \<Rightarrow> string list \<Rightarrow> go_fault + NvidiaTree \<times> LevelMap" where
  "textRows cnt s [] = Inr s"
| "textRows cnt s (text # rest) =
     (case textRow cnt s (enumerate 0 (trimEmpty (splitBlanks text))) of
        Inl e \<Rightarrow> Inl e
      | Inr s \<Rightarrow> textRows (cnt + 1) s rest)"

definition parseFromString ::
  "(int list \<Rightarrow> int list) \<Rightarrow> NvidiaTree \<Rightarrow> string \<Rightarrow> go_fault + NvidiaTree \<times> string option" where
  "parseFromString ord t input =
     (if input = [] then Inr (t, Some ''no input'')
      else let ls = scanLines input;
               s0 = (case ls of [] \<Rightarrow> t
                     | header # _ \<Rightarrow>
                         let num = length (trimEmpty (splitBlanks header))
                         in foldl textLeaf (t\<lparr>leaves := replicate num 0\<rparr>) [0..<num])
           in case textRows 1 (s0, []) (drop 1 ls) of
                Inl e \<Rightarrow> Inl e
              | Inr s \<Rightarrow> map_sum id (\<lambda>t. (t, None)) (buildTree ord (fst s) (snd s)))"

definition Init :: "nvml \<Rightarrow> (int list \<Rightarrow> int list) \<Rightarrow> NvidiaTree \<Rightarrow> string \<Rightarrow> go_fault + NvidiaTree" where
  "Init nv ord t input =
     (case parseFromLibrary nv ord t of
        Inl e \<Rightarrow> Inl e
      | Inr (t, None) \<Rightarrow> Inr (t\<lparr>realMode := True\<rparr>)
      | Inr (t, Some err) \<Rightarrow>
          (case parseFromString ord t input of
             Inl e \<Rightarrow> Inl e
           | Inr (t, None) \<Rightarrow> Inr t
           | Inr (t, Some err) \<Rightarrow> Inl Fatal))"

section \<open>PrintGraph\<close>

definition pidsStr :: "int list \<Rightarrow> string" where
  "pidsStr ps = ''['' @ joinStr (map itoa ps) '' '' @ '']''"

definition printNode :: "NvidiaNode \<Rightarrow> string" where
  "printNode x =
     (let m = Meta x; a = AllocatableMeta x;
          body = ''pids: '' @ pidsStr (Pids m) @ '', usedMemory: '' @ itoa (UsedMemory m)
            @ '', totalMemory: '' @ itoa (TotalMemory m) @ '', allocatableCores: '' @ itoa (Cores a)
            @ '', allocatableMemory: '' @ itoa (Memory a) @ '')'' @ [CHR 0x0A]
      in if ntype x \<noteq> TOPOLOGY_INTERNAL
         then NodeString x @ '' (aval: '' @ itoa (Available x) @ '', '' @ body
         else NodeString x @ '' ('' @ body)"

text \<open>
  \<^verbatim>\<open>printIter\<close> sorts the children of every node in place before it descends. The depth of
  the recursion is bounded by the number of nodes.
\<close>

fun printIter :: "nat \<Rightarrow> NvidiaTree \<Rightarrow> addr \<Rightarrow> int \<Rightarrow> NvidiaTree \<times> string" where
  "printIter 0 t n level = (t, [])"
| "printIter (Suc k) t n level =
     (let indent = concat (replicate (nat ((level - 1) sdiv levelStep)) ''|   '');
          line = (if 0 < level then ''|---'' @ printNode (nodeAt t n) else []);
          t = updNode t n (\<lambda>x. x\<lparr>Children := sortNodes printLess t (Children x)\<rparr>)
      in foldl (\<lambda>(t, w) next. let (t, w') = printIter k t next (level + levelStep) in (t, w @ w'))
           (t, indent @ line) (Children (nodeAt t n)))"

definition PrintGraph :: "NvidiaTree \<Rightarrow> go_fault + NvidiaTree \<times> string" where
  "PrintGraph t =
     (case root t of
        None \<Rightarrow> Inl Panic
      | Some r \<Rightarrow>
          (let head = NodeString (nodeAt t r) @ '':'' @ itoa (Available (nodeAt t r)) @ [CHR 0x0A];
               (t, w) = printIter (length (heap t)) t r TOPOLOGY_INTERNAL
           in Inr (t, head @ w)))"

end
