(* ===== verification/Tree_Theorems.thy ===== *)
theory Tree_Theorems
  imports Device_Ledger Tree_Build
begin

text \<open>
  The theorems about the device tree: the refinement of the pool, what the masks count, the
  safety of any sequence of grants and releases, and that updating and printing the tree do not
  disturb it. The sample machine at the beginning has four cards, two and two on a common switch;
  the witnesses evaluate the definitions on the tree that \<^verbatim>\<open>Init\<close> builds for it.
\<close>

section \<open>A sample machine\<close>

definition sampleNvml :: nvml where
  "sampleNvml = \<lparr>nvInit = 0, nvDeviceGetCount = (4, 0), nvDeviceGetHandleByIndex = (\<lambda>i. 0),
     nvMemoryTotal = (\<lambda>i. (17179869184, 0)), nvPciBusId = (\<lambda>i. ([48, 48 + i], 0)),
     nvMinorNumber = (\<lambda>i. (i, 0)), nvUUID = (\<lambda>i. (''GPU-'' @ itoa i, 0)),
     nvName = (\<lambda>i. (if i < 2 then ''V100'' else ''T4'', 0)),
     nvTopologyCommonAncestor = (\<lambda>a b. (if a sdiv 2 = b sdiv 2 then 10 else 30, 0)),
     nvMultiGpuBoard = (\<lambda>i. (0, 0)), nvProcessUtilization = (\<lambda>i. ([], 0)),
     nvSetComputeModeDefault = (\<lambda>i. 0), nvEccMode = (\<lambda>i. (0, 0)), nvClearEccVolatile = (\<lambda>i. 0),
     nvClearEccAggregate = (\<lambda>i. 0), nvMigMode = (\<lambda>i. (0, 0)), nvErrorString = (\<lambda>rs. ''error'')\<rparr>"

definition sampleLeaf :: "int \<Rightarrow> addr \<Rightarrow> string \<Rightarrow> NvidiaNode" where
  "sampleLeaf i p nm = \<lparr>Meta = zeroMeta\<lparr>ID := i, MinorID := i, TotalMemory := 17179869184,
       BusId := B2S [48, 48 + i], DevName := nm, UUID := ''GPU-'' @ itoa i\<rparr>,
     AllocatableMeta = \<lparr>Cores = 100, Memory = 17179869184\<rparr>, Parent = Some p, Children = [],
     Mask = push_bit (nat i) 1, pendingReset = False, vchildren = [], ntype = 0\<rparr>"

definition sampleInner :: "int \<Rightarrow> addr option \<Rightarrow> addr list \<Rightarrow> 32 word \<Rightarrow> int \<Rightarrow> NvidiaNode" where
  "sampleInner i p cs m ty = \<lparr>Meta = zeroMeta\<lparr>ID := i\<rparr>, AllocatableMeta = \<lparr>Cores = 0, Memory = 0\<rparr>,
     Parent = p, Children = cs, Mask = m, pendingReset = False, vchildren = map (\<lambda>c. (int c, c)) cs,
     ntype = ty\<rparr>"

definition sampleTree :: NvidiaTree where
  "sampleTree = \<lparr>heap = [sampleLeaf 0 4 ''V100'', sampleLeaf 1 4 ''V100'', sampleLeaf 2 6 ''T4'',
       sampleLeaf 3 6 ''T4'', sampleInner 4 (Some 5) [0, 1] 3 10, sampleInner 5 (Some 7) [4, 6] 15 30,
       sampleInner 6 (Some 5) [2, 3] 12 10, sampleInner 7 None [5] 15 60],
     root = Some 7, leaves = [0, 1, 2, 3], realMode = True,
     query = map (\<lambda>a. (minorPath (int a), a)) [0, 1, 2, 3],
     treeIndex = 0, samplePeriod = 0, nodeIndex = 8\<rparr>"

lemma sample_pool_ok: "pool_ok sampleTree"
  by code_simp

lemma sample_ledger: "tree_ledger sampleTree []"
  by code_simp

lemma sample_devices: "devices sampleTree = 4"
  by code_simp

section \<open>Printing\<close>

lemma sums_only_refl [simp]: "sums_only t t"
  by (simp add: sums_only_def)

lemma sums_only_sortChildren:
  assumes "tree_ok t" "n < length (heap t)"
  shows "sums_only t (updNode t n (\<lambda>x. x\<lparr>Children := sortNodes lt t (Children x)\<rparr>))"
proof -
  have "Children (nodeAt t a) = []" if "a \<in> set (leaves t)" for a
    using that tree_okD(5) [OF assms(1)] by (metis in_set_conv_nth leaf_ok_def)
  then have "(nodeAt t a)\<lparr>Children := sortNodes lt t (Children (nodeAt t a))\<rparr> = nodeAt t a"
    if "a \<in> set (leaves t)" for a
    using that by (simp add: sortNodes_def go_sort_def)
  then show ?thesis
    using tree_okD(4) [OF assms(1)] unfolding sums_only_def same_shape_def
    by (simp add: nodeAt_updNode del: heap_updNode) simp
qed

lemma sums_only_printIter:
  "tree_ok t \<Longrightarrow> n < length (heap t) \<Longrightarrow> sums_only t (fst (printIter k t n level))"
proof (induction k arbitrary: t n level)
  case (Suc k)
  let ?t = "updNode t n (\<lambda>x. x\<lparr>Children := sortNodes printLess t (Children x)\<rparr>)"
  let ?f = "\<lambda>(t, w) next. let (t, w') = printIter k t next (level + levelStep) in (t, w @ w')"
  have s: "sums_only t ?t" using Suc.prems by (rule sums_only_sortChildren)
  have step: "sums_only t (fst (foldl ?f (t', w) cs))"
    if "sums_only t t'" "\<forall>c \<in> set cs. c < length (heap t)" for t' w cs
    using that
  proof (induction cs arbitrary: t' w)
    case (Cons c cs)
    have ok: "tree_ok t'" "c < length (heap t')"
      using Cons.prems tree_ok_same_shape [OF _ Suc.prems(1)] by (auto simp: sums_only_def same_shape_def)
    obtain u v where uv: "printIter k t' c (level + levelStep) = (u, v)" by fastforce
    have "sums_only t u"
      using sums_only_trans [OF Cons.prems(1) Suc.IH [OF ok, of "level + levelStep"]] uv by simp
    then show ?case using Cons.IH Cons.prems(2) uv by simp
  qed simp
  have "c < length (heap t)" if "c \<in> set (Children (nodeAt ?t n))" for c
    using that Suc.prems tree_okD(8) [OF Suc.prems(1)] by auto
  then have "sums_only t (fst (foldl ?f (?t, w) (Children (nodeAt ?t n))))" for w
    using step [OF s] by blast
  then show ?case unfolding printIter.simps Let_def .
qed simp

lemma PrintGraph_ok:
  assumes "tree_ok t" "masks_ok t"
  obtains t' w where "PrintGraph t = Inr (t', w)" "upd_ok t t'"
proof -
  obtain r where r: "root t = Some r" "r < length (heap t)" using tree_ok_root [OF assms(1)] by blast
  obtain t' w where p: "printIter (length (heap t)) t r TOPOLOGY_INTERNAL = (t', w)" by fastforce
  then have "upd_ok t t'"
    using upd_ok_sums [OF assms] sums_only_printIter [OF assms(1) r(2)] by (metis fst_conv)
  then show ?thesis using that r p by (simp add: PrintGraph_def Let_def)
qed

section \<open>What the root mask counts\<close>

lemma rootBit_range: "tree_ok t \<Longrightarrow> masks_ok t \<Longrightarrow> rootBit t i \<Longrightarrow> i < devices t"
proof -
  assume a: "tree_ok t" "masks_ok t" "rootBit t i"
  obtain r where "root t = Some r" "r < length (heap t)" "r \<notin> set (leaves t)"
    using tree_ok_root [OF a(1)] by blast
  then show ?thesis using a(3) masks_okD(1) [OF a(2)] by (simp add: rootBit_def devices_def)
qed

lemma root_bits:
  assumes "tree_ok t" "masks_ok t" "root t = Some r"
  shows "filter (bit (Mask (nodeAt t r))) [0..<32] = filter (\<lambda>i. dvFree (devView t i)) [0..<devices t]"
proof -
  have le: "devices t \<le> 32" using tree_okD(1) [OF assms(1)] by (simp add: devices_def)
  have "filter (rootBit t) [0..<32] = filter (rootBit t) ([0..<devices t] @ [devices t..<32])"
    using upt_add_eq_append [of 0 "devices t" "32 - devices t"] le by simp
  also have "\<dots> = filter (rootBit t) [0..<devices t]"
    using rootBit_range [OF assms(1,2)] by (fastforce simp: filter_empty_conv)
  finally show ?thesis using assms(3) by (simp add: devView_def rootBit_def [abs_def])
qed

section \<open>Sequences of operations\<close>

text \<open>
  The steps the allocator takes on the tree, with the ledger of what is granted: a grant that fits,
  the release of a grant, a periodic update, and printing.
\<close>

definition fitsDev :: "NvidiaTree \<Rightarrow> nat \<Rightarrow> int \<Rightarrow> int \<Rightarrow> bool" where
  "fitsDev t i c m \<longleftrightarrow> grantCores c \<le> dvCores (devView t i)
     \<and> grantMemory (devTotal t i) c m \<le> dvMemory (devView t i)"

inductive tree_step :: "NvidiaTree \<times> grant list \<Rightarrow> NvidiaTree \<times> grant list \<Rightarrow> bool" where
  grant: "i < devices t \<Longrightarrow> req_ok c m \<Longrightarrow> fitsDev t i c m \<Longrightarrow>
     MinorName node = MinorName (nodeAt t (leaves t ! i)) \<Longrightarrow>
     tree_step (t, L) (MarkOccupied t node c m, (i, c, m) # L)"
| release: "(i, c, m) \<in> set L \<Longrightarrow> MinorName node = MinorName (nodeAt t (leaves t ! i)) \<Longrightarrow>
     tree_step (t, L) (MarkFree nv t node c m, remove1 (i, c, m) L)"
| update: "tree_step (t, L) (UpdateTree nv t, L)"
| print: "PrintGraph t = Inr (t', w) \<Longrightarrow> tree_step (t, L) (t', L)"

inductive_cases tree_stepE: "tree_step s s'"

lemma grant_ledger:
  assumes "tree_ledger t L" "i < devices t" "req_ok c m" "fitsDev t i c m"
    "MinorName node = MinorName (nodeAt t (leaves t ! i))"
  shows "tree_ledger (MarkOccupied t node c m) ((i, c, m) # L)"
  using tp.ledger_occupy [of t L i c m] assms(1-4) MarkOccupied_cong [OF assms(5)]
  by (simp add: tree_ledger_eq tp.fits_def fitsDev_def occupyDev_def)

lemma release_ledger:
  assumes "tree_ledger t L" "(i, c, m) \<in> set L" "MinorName node = MinorName (nodeAt t (leaves t ! i))"
  shows "tree_ledger (MarkFree nv t node c m) (remove1 (i, c, m) L)"
  using tp.ledger_free [of t L i c m nv] assms(1,2) MarkFree_cong [OF assms(3)]
  by (simp add: tree_ledger_eq freeDev_def)

lemma ledger_invs: "tree_ledger t L \<Longrightarrow> tree_ok t \<and> masks_ok t"
  by (simp add: tree_ledger_def pool_ok_def)

lemma tree_step_ledger:
  assumes "tree_step (t, L) (t', L')" "tree_ledger t L"
  shows "tree_ledger t' L'"
  using assms(1)
proof (cases rule: tree_step.cases)
  case (print w)
  then show ?thesis
    using PrintGraph_ok [of t] ledger_invs [OF assms(2)] tree_ledger_upd [OF assms(2)]
    by (metis Inr_inject Pair_inject)
qed (use assms(2) ledger_invs [OF assms(2)] grant_ledger release_ledger tree_ledger_upd upd_ok_UpdateTree
     in auto)

lemma tree_steps_ledger:
  "tree_step\<^sup>*\<^sup>* s s' \<Longrightarrow> tree_ledger (fst s) (snd s) \<Longrightarrow> tree_ledger (fst s') (snd s')"
  by (induction rule: rtranclp_induct) (auto intro: tree_step_ledger)

section \<open>The theorems\<close>

text \<open>Claim C10: \<^verbatim>\<open>MarkOccupied\<close> refines the occupation of the abstract pool: only the named
  device changes, it is no longer free, its cores and memory drop by the request and stop at zero
  (a request of a hundred cores or more takes all), and the invariants of the tree are kept.\<close>

theorem MarkOccupied_refines_pool:
  assumes "pool_ok t" "i < devices t" "req_ok util memory"
    and "MinorName node = MinorName (nodeAt t (leaves t ! i))"
  shows "pool (MarkOccupied t node util memory) = (pool t)[i := occupySpec util memory (pool t ! i)]
     \<and> pool_ok (MarkOccupied t node util memory)"
  using occupyDev_laws [OF assms(1-3)] pool_dev_op assms(2) MarkOccupied_cong [OF assms(4)]
  by (simp add: occupyDev_def pool_def)

theorem MarkOccupied_refines_pool_witness:
  "pool (MarkOccupied sampleTree (nodeAt sampleTree (leaves sampleTree ! 1)) 30 1048576) =
     (pool sampleTree)[1 := occupySpec 30 1048576 (pool sampleTree ! 1)]"
  using MarkOccupied_refines_pool [OF sample_pool_ok, of 1 30 1048576] sample_devices
  by (simp add: req_ok_def)

text \<open>Claim C11: \<^verbatim>\<open>MarkFree\<close> refines the release of the abstract pool: the cores and the memory
  grow and stop at a hundred and at the memory of the card, and a card whose cores are all free
  again is handed back to its ancestors unless its reset stays pending.\<close>

theorem MarkFree_refines_pool:
  assumes "pool_ok t" "i < devices t" "req_ok util memory"
    and "MinorName node = MinorName (nodeAt t (leaves t ! i))"
  shows "pool (MarkFree nv t node util memory) =
      (pool t)[i := freeSpec (resets nv t i) (devTotal t i) util memory (pool t ! i)]
     \<and> pool_ok (MarkFree nv t node util memory)"
  using freeDev_laws [OF assms(1-3), of nv] pool_dev_op assms(2) MarkFree_cong [OF assms(4)]
  by (simp add: freeDev_def pool_def)

theorem MarkFree_refines_pool_witness:
  "pool (MarkFree sampleNvml sampleTree (nodeAt sampleTree (leaves sampleTree ! 2)) 30 1048576) =
     (pool sampleTree)[2 := freeSpec (resets sampleNvml sampleTree 2) (devTotal sampleTree 2) 30 1048576
       (pool sampleTree ! 2)]"
  using MarkFree_refines_pool [OF sample_pool_ok, of 2 30 1048576] sample_devices
  by (simp add: req_ok_def)

text \<open>A grant that fits is undone by its release: after \<^verbatim>\<open>MarkOccupied\<close> and
  \<^verbatim>\<open>MarkFree\<close> with the same arguments all devices show the same free cores and memory, and a
  device that was free is free again when its reset succeeds.\<close>

lemma occupy_free_roundtrip:
  assumes "pool_ok t" "i < devices t" "req_ok util memory" "fitsDev t i util memory"
    and "node = nodeAt t (leaves t ! i)" "t' = MarkOccupied t node util memory" "resets nv t' i"
    and "dvFree (devView t i) \<or> dvCores (devView t i) < 100"
  shows "pool (MarkFree nv t' node util memory) = pool t"
proof -
  note o = occupyDev_laws [OF assms(1-3), folded assms(5,6)]
  have t': "t' = occupyDev t i util memory" using assms(5,6) by (simp add: occupyDev_def)
  have fr: "devices t' = devices t" "devTotal t' i = devTotal t i"
    using dev_op_frame [OF o(1)] t' assms(2) by auto
  have same: "same_shape t t'" using o(1) t' by (simp add: dev_op_def)
  have "MinorName node = MinorName (nodeAt t' (leaves t' ! i))"
    using same assms(2,5) leaf_facts(1) [of t i] assms(1)
    by (simp add: same_shape_def MinorName_def devices_def pool_ok_def)
  then have mf: "MarkFree nv t' node util memory = freeDev nv t' i util memory"
    unfolding freeDev_def by (rule MarkFree_cong)
  note f = freeDev_laws [of t' i util memory nv]
  have ok': "pool_ok t'" "i < devices t'" using o(3) t' fr assms(2) by auto
  have "freeSpec True (devTotal t i) util memory (occupySpec util memory (devView t i)) = devView t i"
    using assms(3,4,8) view_range_tree [OF assms(1,2)]
      full_if_free [of t i] assms(1,2)
    by (cases "devView t i")
      (auto simp: freeSpec_def occupySpec_def fitsDev_def grantCores_def grantMemory_def req_ok_def
        Let_def max_def min_def devView_def pool_ok_def devices_def HundredCore_def split: if_splits)
  then have "devView (freeDev nv t' i util memory) i = devView t i"
    using f(2) [OF ok' assms(3)] assms(7) fr o(2) t' by simp
  moreover have "pool (freeDev nv t' i util memory) =
      (pool t) [i := devView t' i, i := devView (freeDev nv t' i util memory) i]"
    using pool_dev_op [OF f(1) [OF ok' assms(3)]] pool_dev_op [OF o(1)] t' by simp
  ultimately show ?thesis using mf assms(2) by (simp add: pool_def list_update_same_conv)
qed

text \<open>The counters of the tree are exact: \<^verbatim>\<open>Available\<close> of the tree is the number of
  free devices, and \<^verbatim>\<open>GetAvailableLeaves\<close> of the root returns the leaves of exactly the free
  devices, in order, without an index panic.\<close>

lemma Available_counts_free:
  assumes "pool_ok t" "root t = Some r"
  shows "TreeAvailable t = Inr (int (length (filter dvFree (pool t))))
    \<and> GetAvailableLeaves t r =
        Inr (map ((!) (leaves t)) (filter (\<lambda>i. dvFree (devView t i)) [0..<devices t]))"
proof -
  have ok: "tree_ok t" "masks_ok t" using assms(1) by (auto simp: pool_ok_def)
  have "list_all (\<lambda>i. i < length (leaves t)) (filter (\<lambda>i. dvFree (devView t i)) [0..<devices t])"
    by (simp add: list_all_iff devices_def)
  then show ?thesis
    using assms(2) root_bits [OF ok assms(2)]
    by (simp add: TreeAvailable_def Available_def onesCount32_def GetAvailableLeaves_def pickLeaves_eq
        pool_def filter_map comp_def)
qed

text \<open>Claim C9: no oversubscription. From a tree whose ledger is balanced, after any sequence of
  fitting grants, releases of outstanding grants, updates and prints, the outstanding grants of every
  device take at most a hundred cores and at most the memory of the card, and the free resources the
  tree shows are exactly what is left.\<close>

theorem no_oversubscription:
  assumes "tree_step\<^sup>*\<^sup>* (t, L) (t', L')" "tree_ledger t L" "i < devices t'"
  shows "usedCores L' i \<le> 100 \<and> usedMemory (devTotal t' i) L' i \<le> devTotal t' i
    \<and> dvCores (devView t' i) = 100 - usedCores L' i
    \<and> dvMemory (devView t' i) = devTotal t' i - usedMemory (devTotal t' i) L' i"
proof -
  have l: "tp.ledger t' L'" using tree_steps_ledger [OF assms(1)] assms(2) by (simp add: tree_ledger_eq)
  show ?thesis
    using tp.ledger_bounds [OF l assms(3)] l assms(3) by (simp add: tp.ledger_def)
qed

theorem no_oversubscription_witness:
  "usedCores [(1, 40, 1048576)] 1 \<le> 100 \<and>
   dvCores (devView (MarkOccupied sampleTree (nodeAt sampleTree (leaves sampleTree ! 1)) 40 1048576) 1) = 60"
proof -
  let ?t = "MarkOccupied sampleTree (nodeAt sampleTree (leaves sampleTree ! 1)) 40 1048576"
  have "tree_step (sampleTree, []) (?t, [(1, 40, 1048576)])"
    by (rule tree_step.grant) (code_simp, code_simp, code_simp, rule refl)
  then have "tree_step\<^sup>*\<^sup>* (sampleTree, []) (?t, [(1, 40, 1048576)])" by (rule r_into_rtranclp)
  moreover have "tree_ledger sampleTree []" by (rule sample_ledger)
  moreover have "1 < devices ?t" by code_simp
  ultimately have "usedCores [(1, 40, 1048576)] 1 \<le> 100 \<and> dvCores (devView ?t 1) = 100 - usedCores [(1, 40, 1048576)] 1"
    using no_oversubscription by blast
  then show ?thesis by (simp add: grantCores_def)
qed

text \<open>The periodic \<^verbatim>\<open>Update\<close>, whatever the device library answers, keeps the invariants
  of the tree and every balanced ledger, and never takes a free device away.\<close>

lemma Update_keeps_ledger:
  assumes "tree_ledger t L"
  shows "tree_ledger (UpdateTree nv t) L
    \<and> (\<forall>i < devices t. dvFree (devView t i) \<longrightarrow> dvFree (devView (UpdateTree nv t) i))"
  using tree_ledger_upd [OF assms] upd_ok_UpdateTree [of t nv] ledger_invs [OF assms]
  by (auto simp: upd_ok_def)

text \<open>Printing a well-formed tree never panics and only reorders the children of nodes: the
  invariants and every balanced ledger are kept.\<close>

lemma PrintGraph_total:
  assumes "tree_ledger t L"
  shows "\<exists>t' w. PrintGraph t = Inr (t', w) \<and> tree_ledger t' L"
  using PrintGraph_ok [of t] ledger_invs [OF assms] tree_ledger_upd [OF assms] by metis

text \<open>\<^verbatim>\<open>Query\<close> is exact on a well-formed tree: the name of a device finds its leaf, and
  whatever a query finds is the leaf of that name.\<close>

lemma Query_exact:
  assumes "tree_ok t"
  shows "Query t name = Some a \<longleftrightarrow> a \<in> set (leaves t) \<and> MinorName (nodeAt t a) = name"
proof
  assume "Query t name = Some a"
  then show "a \<in> set (leaves t) \<and> MinorName (nodeAt t a) = name"
    unfolding Query_def using query_Some [OF assms] by (metis nth_mem)
next
  assume "a \<in> set (leaves t) \<and> MinorName (nodeAt t a) = name"
  then show "Query t name = Some a"
    unfolding Query_def using query_leaf [OF assms] by (metis in_set_conv_nth)
qed

end
