(* ===== verification/K8s_Types.thy ===== *)
theory K8s_Types
  imports Go_Strings
begin

text \<open>
  The Kubernetes objects the program reads and writes, reduced to the fields it uses
  (\<^verbatim>\<open>k8s.io/api/core/v1\<close>), the messages of the device plugin interface
  (\<^verbatim>\<open>pluginapi\<close>), and the constants and types of \<^verbatim>\<open>pkg/types/types.go\<close>. A resource
  quantity is the integer its method \<^verbatim>\<open>Value\<close> returns.
\<close>

section \<open>Pods\<close>

record EnvVar =
  envName :: string
  envValue :: string

record Container =
  cName :: string
  cLimits :: "(string, int) gomap"
  cRequests :: "(string, int) gomap"
  cEnv :: "EnvVar list"

record ContainerStatus =
  csName :: string
  csContainerID :: string
  csWaitingMessage :: "string option"
  csTerminated :: bool

record Pod =
  pName :: string
  pNamespace :: string
  pUID :: string
  pKind :: string
  pAnnotations :: "(string, string) gomap"
  pLabels :: "(string, string) gomap"
  pCreationNano :: int
  pOwnerKinds :: "string list"
  pNodeName :: string
  pContainers :: "Container list"
  pPhase :: string
  pReason :: string
  pMessage :: string
  pStatuses :: "ContainerStatus list"
  pDeleting :: bool
  pQOSClass :: string

section \<open>Device plugin messages\<close>

record DeviceSpec =
  ContainerPath :: string
  HostPath :: string
  Permissions :: string

record Mount =
  mContainerPath :: string
  mHostPath :: string
  mReadOnly :: bool

record ContainerAllocateResponse =
  respEnvs :: "(string, string) gomap"
  respMounts :: "Mount list"
  respDevices :: "DeviceSpec list"
  respAnnotations :: "(string, string) gomap"

section \<open>types.go\<close>

definition VDeviceAnnotation :: string where "VDeviceAnnotation = ''nvidia.com/vcuda-device''"
definition VCoreAnnotation :: string where "VCoreAnnotation = ''nvidia.com/vcuda-core''"
definition VCoreLimitAnnotation :: string where "VCoreLimitAnnotation = ''nvidia.com/vcuda-core-limit''"
definition VMemoryAnnotation :: string where "VMemoryAnnotation = ''nvidia.com/vcuda-memory''"
definition PredicateTimeAnnotation :: string where "PredicateTimeAnnotation = ''nvidia.com/predicate-time''"
definition PredicateGPUIndexPrefix :: string where "PredicateGPUIndexPrefix = ''nvidia.com/predicate-gpu-idx-''"
definition GPUAssigned :: string where "GPUAssigned = ''nvidia.com/gpu-assigned''"
definition ClusterNameAnnotation :: string where "ClusterNameAnnotation = ''clusterName''"
definition PodAnnotationUseGpuType :: string where "PodAnnotationUseGpuType = ''nvidia.com/use-gputype''"
definition PodAnnotationUnUseGpuType :: string where "PodAnnotationUnUseGpuType = ''nvidia.com/nouse-gputype''"
definition PodLabelBindTime :: string where "PodLabelBindTime = ''tydic.io/bind-time''"
definition PodLabelDeviceBindPhase :: string where "PodLabelDeviceBindPhase = ''tydic.io/bind-phase''"
definition VCUDA_MOUNTPOINT :: string where "VCUDA_MOUNTPOINT = ''/etc/vcuda''"
definition KubeletSocket :: string where "KubeletSocket = ''kubelet.sock''"
definition VDeviceSocket :: string where "VDeviceSocket = ''vcuda.sock''"
definition CheckPointFileName :: string where "CheckPointFileName = ''kubelet_internal_checkpoint''"
definition PreStartContainerCheckErrMsg :: string where
  "PreStartContainerCheckErrMsg = ''PreStartContainer check failed''"
definition PreStartContainerCheckErrType :: string where
  "PreStartContainerCheckErrType = ''PreStartContainerCheckErr''"
definition UnexpectedAdmissionErrType :: string where
  "UnexpectedAdmissionErrType = ''UnexpectedAdmissionError''"
definition DeviceBindAllocating :: string where "DeviceBindAllocating = ''allocating''"
definition DeviceBindFailed :: string where "DeviceBindFailed = ''failed''"
definition DeviceBindSuccess :: string where "DeviceBindSuccess = ''success''"
definition NvidiaCtlDevice :: string where "NvidiaCtlDevice = ''/dev/nvidiactl''"
definition NvidiaUVMDevice :: string where "NvidiaUVMDevice = ''/dev/nvidia-uvm''"

lemmas type_names = VDeviceAnnotation_def VCoreAnnotation_def VMemoryAnnotation_def
  PredicateTimeAnnotation_def PredicateGPUIndexPrefix_def GPUAssigned_def
  PodAnnotationUseGpuType_def PodAnnotationUnUseGpuType_def PodLabelBindTime_def
  PodLabelDeviceBindPhase_def

record PodDevicesEntry =
  pdPodUID :: string
  pdContainerName :: string
  pdResourceName :: string
  pdDeviceIDs :: "string list"
  pdAllocResp :: string

record PodDevicesEntryNUMA =
  pnPodUID :: string
  pnContainerName :: string
  pnResourceName :: string
  pnDeviceIDs :: "(int, string list) gomap"
  pnAllocResp :: string

record CheckpointNUMA =
  cnPodDeviceEntries :: "PodDevicesEntryNUMA list"
  cnRegisteredDevices :: "(string, string list) gomap"

record Checkpoint =
  ckPodDeviceEntries :: "PodDevicesEntry list"
  ckRegisteredDevices :: "(string, string list) gomap"

text \<open>The answer to a request goes to its channel \<^verbatim>\<open>Done\<close>; in the model it is the result of
  handling the request.\<close>

record VCudaRequest =
  vrPodUID :: string
  vrAllocateResponse :: "ContainerAllocateResponse option"
  vrContainerName :: string
  vrCores :: int
  vrMemory :: int

end
