(* ===== verification/Utils.thy ===== *)
theory Utils
  imports K8s_Types Nvidia_Node
begin

text \<open>
  \<^verbatim>\<open>pkg/utils/util.go\<close>: device paths, the resources a pod asks for, the annotations that
  say how far its allocation has got, device types, and the kubelet checkpoint.
\<close>

section \<open>Device paths\<close>

text \<open>The regular expression \<^verbatim>\<open>^/dev/nvidia([0-9]*)$\<close>: the text its group matches.\<close>

definition matchFullpath :: "string \<Rightarrow> string option" where
  "matchFullpath path =
     (if hasPrefix path NvidiaDevicePrefix \<and> list_all isDigit (drop (length NvidiaDevicePrefix) path)
      then Some (drop (length NvidiaDevicePrefix) path) else None)"

definition IsValidGPUPath :: "string \<Rightarrow> bool" where
  "IsValidGPUPath path \<longleftrightarrow> matchFullpath path \<noteq> None"

text \<open>The number and whether there was no error; the error of \<^verbatim>\<open>ParseInt\<close> is dropped.\<close>

definition GetGPUMinorID :: "string \<Rightarrow> int \<times> bool" where
  "GetGPUMinorID path =
     (case matchFullpath path of
        None \<Rightarrow> (-1, False)
      | Some ds \<Rightarrow> (fst (parseInt 32 ds), True))"

definition GetGPUData ::
  "(string list \<Rightarrow> string list) \<Rightarrow> (string, string) gomap \<Rightarrow> int \<times> int \<times> string list" where
  "GetGPUData ord annotations =
     foldl (\<lambda>(util, mem, names) (k, v).
        if hasSuffix k VCoreAnnotation then (fst (parseInt 64 v), mem, names)
        else if hasSuffix k VMemoryAnnotation then (util, fst (parseInt 64 v), names)
        else if hasSuffix k VDeviceAnnotation then (util, mem, splitStr v '','')
        else (util, mem, names))
       (0, 0, []) (gorange ord annotations)"

section \<open>Device types\<close>

definition ContainsSliceFunc :: "'a list \<Rightarrow> ('a \<Rightarrow> bool) \<Rightarrow> bool" where
  "ContainsSliceFunc s P \<longleftrightarrow> list_ex P s"

definition CheckDeviceType :: "(string, string) gomap \<Rightarrow> string \<Rightarrow> bool" where
  "CheckDeviceType annotations deviceType =
     (let dt = toUpper deviceType;
          named = (\<lambda>types. ContainsSliceFunc (splitStr types '','') (\<lambda>ty. containsStr dt (toUpper ty)))
      in (case map_of annotations PodAnnotationUseGpuType of Some use \<Rightarrow> named use | None \<Rightarrow> True)
         \<and> (case map_of annotations PodAnnotationUnUseGpuType of Some unuse \<Rightarrow> \<not> named unuse | None \<Rightarrow> True))"

section \<open>Requested resources\<close>

definition GetGPUResourceOfContainer :: "Container \<Rightarrow> string \<Rightarrow> int" where
  "GetGPUResourceOfContainer c resourceName =
     (case map_of (cLimits c) resourceName of None \<Rightarrow> 0 | Some v \<Rightarrow> u64 v)"

definition GetGPUResourceOfPod :: "Pod \<Rightarrow> string \<Rightarrow> int" where
  "GetGPUResourceOfPod pod resourceName =
     foldl (\<lambda>total c. case map_of (cLimits c) resourceName of
        None \<Rightarrow> total | Some v \<Rightarrow> u64 (total + u64 v)) 0 (pContainers pod)"

definition IsGPURequiredPod :: "Pod \<Rightarrow> bool" where
  "IsGPURequiredPod pod =
     (let vcore = GetGPUResourceOfPod pod VCoreAnnotation;
          vmemory = GetGPUResourceOfPod pod VMemoryAnnotation
      in \<not> (vcore \<le> 0 \<or> (vcore < HundredCore \<and> vmemory \<le> 0)))"

definition IsGPURequiredContainer :: "Container \<Rightarrow> bool" where
  "IsGPURequiredContainer c =
     (let vcore = GetGPUResourceOfContainer c VCoreAnnotation;
          vmemory = GetGPUResourceOfContainer c VMemoryAnnotation
      in \<not> (vcore \<le> 0 \<or> (vcore < HundredCore \<and> vmemory \<le> 0)))"

definition ShouldDelete :: "Pod \<Rightarrow> bool" where
  "ShouldDelete pod =
     (if list_ex (\<lambda>st. case csWaitingMessage st of None \<Rightarrow> False
                  | Some msg \<Rightarrow> containsStr msg PreStartContainerCheckErrMsg) (pStatuses pod)
      then True else pReason pod = UnexpectedAdmissionErrType)"

definition IsGPUPredicatedPod :: "Pod \<Rightarrow> bool" where
  "IsGPUPredicatedPod pod =
     (if GetGPUResourceOfPod pod VCoreAnnotation \<le> 0 \<or> GetGPUResourceOfPod pod VMemoryAnnotation \<le> 0
      then False
      else if map_of (pAnnotations pod) PredicateTimeAnnotation = None then False
      else case map_of (pAnnotations pod) GPUAssigned of
             None \<Rightarrow> False
           | Some assigned \<Rightarrow> assigned \<noteq> ''true'')"

definition IsGPUAssignedPod :: "Pod \<Rightarrow> bool" where
  "IsGPUAssignedPod pod =
     (case map_of (pAnnotations pod) GPUAssigned of
        None \<Rightarrow> False
      | Some assigned \<Rightarrow> assigned \<noteq> ''false'')"

definition GetBindTimeOfPod :: "Pod \<Rightarrow> int" where
  "GetBindTimeOfPod pod =
     (case map_of (pLabels pod) PodLabelBindTime of
        Some s \<Rightarrow> (let (v, ok) = parseUint64 s in if ok then v else 0)
      | None \<Rightarrow> u64 (pCreationNano pod))"

fun containerIndex :: "nat \<Rightarrow> Container list \<Rightarrow> string \<Rightarrow> nat option" where
  "containerIndex i [] nm = None"
| "containerIndex i (c # cs) nm = (if cName c = nm then Some i else containerIndex (Suc i) cs nm)"

definition GetContainerIndexByName :: "Pod \<Rightarrow> string \<Rightarrow> string + nat" where
  "GetContainerIndexByName pod nm =
     (case containerIndex 0 (pContainers pod) nm of
        None \<Rightarrow> Inl (''failed to get index of container '' @ nm @ '' in pod '' @ pUID pod)
      | Some i \<Rightarrow> Inr i)"

definition GetVirtualControllerMountPath :: "ContainerAllocateResponse \<Rightarrow> string" where
  "GetVirtualControllerMountPath resp =
     (case find (\<lambda>mnt. mContainerPath mnt = VCUDA_MOUNTPOINT) (respMounts resp) of
        None \<Rightarrow> [] | Some mnt \<Rightarrow> mHostPath mnt)"

definition MakeContainerNamePrefix :: "string \<Rightarrow> string" where
  "MakeContainerNamePrefix containerName = ''/k8s_'' @ containerName @ ''_''"

text \<open>\<^verbatim>\<open>sort.Strings\<close> orders by bytes; the arguments are sorted in place.\<close>

primrec strLess :: "string \<Rightarrow> string \<Rightarrow> bool" where
  "strLess s [] = False"
| "strLess s (d # ds) =
     (case s of [] \<Rightarrow> True
      | c # cs \<Rightarrow> if (of_char c :: nat) = of_char d then strLess cs ds else (of_char c :: nat) < of_char d)"

definition IsStringSliceEqual :: "string list \<Rightarrow> string list \<Rightarrow> bool" where
  "IsStringSliceEqual a b =
     (if length a \<noteq> length b then False else go_sort strLess a = go_sort strLess b)"

section \<open>Lemmas\<close>

lemma matchFullpath_minorPath: "0 \<le> i \<Longrightarrow> matchFullpath (minorPath i) = Some (natStr (nat i))"
  by (simp add: matchFullpath_def minorPath_def NvidiaDevicePrefix_def hasPrefix_def itoa_def)

lemma IsValidGPUPath_minorPath [simp]: "0 \<le> i \<Longrightarrow> IsValidGPUPath (minorPath i)"
  by (simp add: IsValidGPUPath_def matchFullpath_minorPath)

lemma GetGPUMinorID_minorPath:
  assumes "0 \<le> i" "i < 2 ^ 31"
  shows "GetGPUMinorID (minorPath i) = (i, True)"
proof -
  have "nat i < 2 ^ 31" using assms by (simp add: nat_less_iff)
  then show ?thesis
    using assms by (simp add: GetGPUMinorID_def matchFullpath_minorPath parseInt_natStr)
qed

lemma GetGPUResourceOfContainer_range:
  "0 \<le> GetGPUResourceOfContainer c r \<and> GetGPUResourceOfContainer c r < 2 ^ 64"
  using u64_range by (auto simp: GetGPUResourceOfContainer_def split: option.split)

lemma strLess_strict: "\<not> strLess s s"
  by (induction s) auto

lemma strLess_total: "strLess s t \<or> s = t \<or> strLess t s"
proof (induction t arbitrary: s)
  case Nil
  then show ?case by (cases s) auto
next
  case (Cons d t)
  show ?case
  proof (cases s)
    case (Cons c s')
    consider "(of_char c :: nat) < of_char d" | "(of_char d :: nat) < of_char c" | "c = d"
      by (metis nat_neq_iff of_char_eq_iff)
    then show ?thesis using Cons Cons.IH [of s'] by cases auto
  qed simp
qed

lemma strLess_trans: "strLess s t \<Longrightarrow> strLess t u \<Longrightarrow> strLess s u"
proof (induction u arbitrary: s t)
  case (Cons e u)
  then show ?case by (auto split: list.splits if_splits)
qed simp

interpretation string_sort: sort_contract strLess "\<lambda>a b. strLess a b \<or> a = b"
proof unfold_locales
  fix x y z
  show "strLess x y \<or> x = y \<Longrightarrow> strLess y z \<or> y = z \<Longrightarrow> strLess x z \<or> x = z"
    using strLess_trans by blast
  show "strLess x y \<Longrightarrow> strLess x y \<or> x = y" by simp
  show "\<not> strLess x y \<Longrightarrow> strLess y x \<or> y = x" using strLess_total by blast
qed

text \<open>Comparing the sorted slices compares them as multisets.\<close>

lemma IsStringSliceEqual_mset: "IsStringSliceEqual a b \<longleftrightarrow> mset a = mset b"
proof
  assume "IsStringSliceEqual a b"
  then have "go_sort strLess a = go_sort strLess b"
    by (simp add: IsStringSliceEqual_def split: if_splits)
  then show "mset a = mset b" by (metis mset_go_sort)
next
  assume eq: "mset a = mset b"
  have "go_sort strLess a = go_sort strLess b"
    using eq string_sort.sort_sorted [of a] strLess_strict strLess_trans
    by (intro string_sort.sort_unique) (simp, simp, metis)
  then show "IsStringSliceEqual a b"
    using mset_eq_length [OF eq] by (simp add: IsStringSliceEqual_def)
qed

end
