(* ===== verification/Evaluators.thy ===== *)
theory Evaluators
  imports Tree_Theorems Utils
begin

text \<open>
  \<^verbatim>\<open>pkg/algorithm/nvidia\<close>: the three evaluators that choose the cards of a request. Link mode
  serves requests for several cards, fragment mode requests for one whole card, share mode requests
  for a part of a card. An evaluation returns the tree it leaves, since fragment mode sorts the
  children of the nodes it visits in place, and the chosen leaves; a nil slice and an empty one are
  both the empty list. The order in which link mode visits its candidate map is the parameter
  \<open>ord\<close>.
\<close>

section \<open>The orders\<close>

definition linkLess :: "NvidiaNode \<Rightarrow> NvidiaNode \<Rightarrow> bool" where
  "linkLess = multi_less ByType [ByAvailable, ByAllocatableMemory, ByPids, ByMinorID]"

definition fragmentLess :: "NvidiaNode \<Rightarrow> NvidiaNode \<Rightarrow> bool" where
  "fragmentLess = multi_less ByAvailable [ByAllocatableMemory, ByPids, ByMinorID]"

definition shareLess :: "NvidiaNode \<Rightarrow> NvidiaNode \<Rightarrow> bool" where
  "shareLess = multi_less ByAllocatableCores [ByAllocatableMemory, ByPids, ByMinorID]"

section \<open>Picking compliant leaves\<close>

text \<open>The last loop of link and fragment mode: the nodes it appends and what is left of
  \<^verbatim>\<open>num\<close>.\<close>

fun pickCompliant :: "(addr \<Rightarrow> bool) \<Rightarrow> int \<Rightarrow> addr list \<Rightarrow> addr list \<times> int" where
  "pickCompliant ok num [] = ([], num)"
| "pickCompliant ok num (n # ns) =
     (if num = 0 then ([], 0)
      else if \<not> ok n then pickCompliant ok num ns
      else let (r, k) = pickCompliant ok (num - 1) ns in (n # r, k))"

definition compliant :: "NvidiaTree \<Rightarrow> (string, string) gomap \<Rightarrow> addr \<Rightarrow> bool" where
  "compliant t ann a \<longleftrightarrow> CheckDeviceType ann (DevName (Meta (nodeAt t a)))"

definition pickFrom :: "NvidiaTree \<Rightarrow> (string, string) gomap \<Rightarrow> int \<Rightarrow> addr \<Rightarrow> go_fault + addr list" where
  "pickFrom t ann num cand =
     (case GetAvailableLeaves t cand of
        Inl e \<Rightarrow> Inl e
      | Inr ls \<Rightarrow> (let (r, k) = pickCompliant (compliant t ann) num ls
                  in Inr (if 0 < k then [] else r)))"

section \<open>Link mode\<close>

text \<open>From a leaf upwards to the first node with enough free cards, the root excluded.\<close>

fun linkWalk :: "nat \<Rightarrow> NvidiaTree \<Rightarrow> int \<Rightarrow> addr option \<Rightarrow> go_fault + addr option" where
  "linkWalk 0 t num node = Inl Hang"
| "linkWalk (Suc k) t num node =
     (if node = root t then Inr None
      else case node of
             None \<Rightarrow> Inl Panic
           | Some a \<Rightarrow> if Available (nodeAt t a) < num then linkWalk k t num (Parent (nodeAt t a))
                       else Inr (Some a))"

fun linkStore :: "NvidiaTree \<Rightarrow> int \<Rightarrow> addr list \<Rightarrow> (int, addr) gomap \<Rightarrow> go_fault + (int, addr) gomap" where
  "linkStore t num [] store = Inr store"
| "linkStore t num (l # ls) store =
     (case linkWalk (length (heap t) + 2) t num (Some l) of
        Inl e \<Rightarrow> Inl e
      | Inr None \<Rightarrow> linkStore t num ls store
      | Inr (Some a) \<Rightarrow> linkStore t num ls (AList.update (ID (Meta (nodeAt t a))) a store))"

definition linkCandidates ::
  "(int list \<Rightarrow> int list) \<Rightarrow> NvidiaTree \<Rightarrow> int \<Rightarrow> go_fault + addr list" where
  "linkCandidates ord t num =
     (case linkStore t num (leaves t) [] of
        Inl e \<Rightarrow> Inl e
      | Inr store \<Rightarrow>
          if store = [] then (case root t of None \<Rightarrow> Inl Panic | Some r \<Rightarrow> Inr [r])
          else Inr (map snd (gorange ord store)))"

definition linkEvaluate ::
  "(int list \<Rightarrow> int list) \<Rightarrow> NvidiaTree \<Rightarrow> (string, string) gomap \<Rightarrow> int \<Rightarrow> int \<Rightarrow>
     go_fault + NvidiaTree \<times> addr list" where
  "linkEvaluate ord t ann cores memory =
     (let num = cores sdiv HundredCore
      in case linkCandidates ord t num of
           Inl e \<Rightarrow> Inl e
         | Inr cands \<Rightarrow>
             map_sum id (\<lambda>ns. (t, ns)) (pickFrom t ann num (hd (sortNodes linkLess t cands))))"

section \<open>Fragment mode\<close>

fun fragmentDescend :: "nat \<Rightarrow> NvidiaTree \<Rightarrow> int \<Rightarrow> addr \<Rightarrow> go_fault + NvidiaTree \<times> addr" where
  "fragmentDescend 0 t num cand = Inl Hang"
| "fragmentDescend (Suc k) t num cand =
     (let t = updNode t cand (\<lambda>x. x\<lparr>Children := sortNodes fragmentLess t (Children x)\<rparr>)
      in case find (\<lambda>n. \<not> (Children (nodeAt t n) = [] \<or> Available (nodeAt t n) < num))
                (Children (nodeAt t cand)) of
           None \<Rightarrow> Inr (t, cand)
         | Some n \<Rightarrow> fragmentDescend k t num n)"

definition fragmentEvaluate ::
  "NvidiaTree \<Rightarrow> (string, string) gomap \<Rightarrow> int \<Rightarrow> int \<Rightarrow> go_fault + NvidiaTree \<times> addr list" where
  "fragmentEvaluate t ann cores memory =
     (let num = cores sdiv HundredCore
      in case root t of
           None \<Rightarrow> Inl Panic
         | Some r \<Rightarrow>
             (case fragmentDescend (length (heap t) + 1) t num r of
                Inl e \<Rightarrow> Inl e
              | Inr (t, cand) \<Rightarrow> map_sum id (\<lambda>ns. (t, ns)) (pickFrom t ann num cand)))"

section \<open>Share mode\<close>

definition shareOk :: "nvml \<Rightarrow> NvidiaTree \<Rightarrow> (string, string) gomap \<Rightarrow> int \<Rightarrow> int \<Rightarrow> addr \<Rightarrow> bool" where
  "shareOk nv t ann cores memory a \<longleftrightarrow>
     (let x = nodeAt t a
      in cores \<le> Cores (AllocatableMeta x) \<and> memory \<le> Memory (AllocatableMeta x)
         \<and> \<not> IsMig nv (ID (Meta x)) \<and> compliant t ann a)"

definition shareEvaluate ::
  "nvml \<Rightarrow> NvidiaTree \<Rightarrow> (string, string) gomap \<Rightarrow> int \<Rightarrow> int \<Rightarrow> go_fault + NvidiaTree \<times> addr list" where
  "shareEvaluate nv t ann cores memory =
     Inr (t, case find (shareOk nv t ann cores memory) (sortNodes shareLess t (leaves t)) of
               None \<Rightarrow> [] | Some n \<Rightarrow> [n])"

end
