(* ===== verification/Evaluator_Laws.thy ===== *)
theory Evaluator_Laws
  imports Evaluators
begin

text \<open>
  The contract of an evaluator (the interface \<^verbatim>\<open>Evaluator\<close> of the allocator) as a locale, what
  the allocator concludes from it, and the proofs that the three evaluators satisfy it.
\<close>

section \<open>Searching\<close>

lemma find_takeWhile_first:
  fixes f :: "'a \<Rightarrow> int"
  shows "sorted_wrt (\<lambda>x y. f x < f y) xs \<Longrightarrow> q \<in> set xs \<Longrightarrow> P q \<Longrightarrow> (\<And>x. x \<in> set xs \<Longrightarrow> f x \<le> f q \<Longrightarrow> Q x) \<Longrightarrow>
    \<exists>b. find P (takeWhile Q xs) = Some b \<and> f b \<le> f q"
proof (induction xs)
  case (Cons x xs)
  then have le: "f x \<le> f q" by auto
  then have "Q x" using Cons.prems(4) by simp
  show ?case
  proof (cases "P x")
    case True
    then show ?thesis using \<open>Q x\<close> le by simp
  next
    case False
    then have "q \<in> set xs" using Cons.prems(2,3) by auto
    then show ?thesis using Cons False \<open>Q x\<close> by simp
  qed
qed simp

section \<open>Picking\<close>

lemma pickCompliant_eq:
  "0 \<le> num \<Longrightarrow> pickCompliant ok num xs =
     (take (nat num) (filter ok xs), num - int (length (take (nat num) (filter ok xs))))"
proof (induction ok num xs rule: pickCompliant.induct)
  case (2 ok num n ns)
  show ?case
  proof (cases "num = 0")
    case False
    then have "nat num = Suc (nat (num - 1))" using 2(3) by simp
    then show ?thesis using 2 False by (auto simp: Let_def)
  qed simp
qed simp

lemma inner_available:
  assumes "tree_ok t" "masks_ok t" "q < length (heap t)" "q \<notin> set (leaves t)"
  obtains js where "GetAvailableLeaves t q = Inr (map ((!) (leaves t)) js)" "distinct js"
    "\<And>i. i \<in> set js \<Longrightarrow> i < devices t \<and> rootBit t i" "int (length js) = Available (nodeAt t q)"
    "js = filter (bit (Mask (nodeAt t q))) [0..<32]"
proof -
  let ?js = "filter (bit (Mask (nodeAt t q))) [0..<32]"
  have in_range: "i < devices t \<and> rootBit t i" if "i \<in> set ?js" for i
  proof -
    have bit: "bit (Mask (nodeAt t q)) i" using that by simp
    then have i: "i < length (leaves t)" "q \<in> set (chain (heap t) (leaves t ! i))"
      using masks_okD(1) [OF assms(2,3,4)] by auto
    then show ?thesis
      using masks_okD(2) [OF assms(2) i] bit by (simp add: rootBit_def devices_def)
  qed
  have "list_all (\<lambda>i. i < length (leaves t)) ?js"
    using in_range by (auto simp: list_all_iff devices_def)
  then have "GetAvailableLeaves t q = Inr (map ((!) (leaves t)) ?js)"
    by (simp add: GetAvailableLeaves_def pickLeaves_eq)
  moreover have "int (length ?js) = Available (nodeAt t q)"
    by (simp add: Available_def onesCount32_def)
  ultimately show ?thesis using that in_range by simp
qed

lemma distinct_leaves_map:
  assumes "tree_ok t" "distinct js" "\<And>i. i \<in> set js \<Longrightarrow> i < devices t"
  shows "distinct (map ((!) (leaves t)) js)"
  using assms tree_okD(2) [OF assms(1)]
  by (auto simp: distinct_map inj_on_def devices_def nth_eq_iff_index_eq)

text \<open>What picking from a node that is not a leaf returns.\<close>

definition good_pick :: "NvidiaTree \<Rightarrow> (string, string) gomap \<Rightarrow> int \<Rightarrow> addr list \<Rightarrow> bool" where
  "good_pick t ann num ns \<longleftrightarrow> distinct ns \<and> (ns \<noteq> [] \<longrightarrow> int (length ns) = num)
     \<and> (\<forall>a \<in> set ns. compliant t ann a \<and> (\<exists>i < devices t. a = leaves t ! i \<and> rootBit t i))"

lemma pickFrom_inner:
  assumes "tree_ok t" "masks_ok t" "q < length (heap t)" "q \<notin> set (leaves t)" "0 \<le> num"
  obtains ns where "pickFrom t ann num q = Inr ns" "good_pick t ann num ns"
    "(\<forall>a \<in> set (leaves t). compliant t ann a) \<Longrightarrow> num \<le> Available (nodeAt t q) \<Longrightarrow> int (length ns) = num"
    "\<And>a. a \<in> set ns \<Longrightarrow> \<exists>i. a = leaves t ! i \<and> bit (Mask (nodeAt t q)) i"
proof -
  obtain js where js: "GetAvailableLeaves t q = Inr (map ((!) (leaves t)) js)" "distinct js"
    "\<And>i. i \<in> set js \<Longrightarrow> i < devices t \<and> rootBit t i" "int (length js) = Available (nodeAt t q)"
    "js = filter (bit (Mask (nodeAt t q))) [0..<32]"
    using inner_available [OF assms(1-4)] by metis
  let ?ls = "map ((!) (leaves t)) js"
  define r where "r = take (nat num) (filter (compliant t ann) ?ls)"
  define ns where "ns = (if 0 < num - int (length r) then [] else r)"
  have sub: "set r \<subseteq> {a \<in> set ?ls. compliant t ann a}"
    unfolding r_def using set_take_subset by fastforce
  have "distinct r"
    unfolding r_def using distinct_leaves_map [OF assms(1) js(2)] js(3) by simp
  have "pickFrom t ann num q = Inr ns"
    by (simp add: pickFrom_def js(1) pickCompliant_eq [OF assms(5)] ns_def flip: r_def)
  moreover have "int (length r) \<le> num" using assms(5) by (simp add: r_def)
  then have "good_pick t ann num ns"
    using \<open>distinct r\<close> sub js(3) by (auto simp: good_pick_def ns_def)
  moreover have "int (length ns) = num"
    if c: "\<forall>a \<in> set (leaves t). compliant t ann a" and n: "num \<le> Available (nodeAt t q)"
  proof -
    have "filter (compliant t ann) ?ls = ?ls"
      using c js(3) by (auto simp: devices_def intro!: filter_True)
    then show ?thesis using n js(4) assms(5) by (simp add: ns_def r_def)
  qed
  moreover have "\<exists>i. a = leaves t ! i \<and> bit (Mask (nodeAt t q)) i" if "a \<in> set ns" for a
    using that sub js(5) by (auto simp: ns_def split: if_splits)
  ultimately show ?thesis by (rule that)
qed

section \<open>Fragment mode\<close>

definition below :: "NvidiaNode list \<Rightarrow> addr \<Rightarrow> nat" where
  "below h a = card {b. b < length h \<and> ntype (h ! b) < ntype (h ! a)}"

lemma below_child:
  assumes "levels_ok h" "c < length h" "a < length h" "Parent (h ! c) = Some a"
  shows "below h c < below h a"
proof -
  have "ntype (h ! c) < ntype (h ! a)" using assms levels_okD by blast
  then have "{b. b < length h \<and> ntype (h ! b) < ntype (h ! c)}
      \<subset> {b. b < length h \<and> ntype (h ! b) < ntype (h ! a)}"
    using assms(2) by (auto intro!: psubsetI)
  then show ?thesis unfolding below_def by (intro psubset_card_mono) auto
qed

lemma below_le: "below h a \<le> length h"
proof -
  have "below h a \<le> card {..<length h}" unfolding below_def by (intro card_mono) auto
  then show ?thesis by simp
qed

lemma below_same_shape:
  assumes "same_shape t t'" "a < length (heap t)"
  shows "below (heap t') a = below (heap t) a"
proof -
  have "{b. b < length (heap t') \<and> ntype (heap t' ! b) < ntype (heap t' ! a)}
      = {b. b < length (heap t) \<and> ntype (heap t ! b) < ntype (heap t ! a)}"
    using assms by (auto simp: same_shape_def)
  then show ?thesis by (simp add: below_def)
qed

lemma leaf_no_children: "tree_ok t \<Longrightarrow> a \<in> set (leaves t) \<Longrightarrow> Children (nodeAt t a) = []"
  using tree_okD(5) by (metis in_set_conv_nth leaf_ok_def)

lemma fragmentDescend_ok:
  "tree_ok t \<Longrightarrow> q < length (heap t) \<Longrightarrow> q \<notin> set (leaves t) \<Longrightarrow> below (heap t) q < k \<Longrightarrow>
    \<exists>t' c. fragmentDescend k t num q = Inr (t', c) \<and> sums_only t t' \<and> c < length (heap t)
      \<and> c \<notin> set (leaves t) \<and> (c = q \<or> num \<le> Available (nodeAt t c))"
proof (induction k arbitrary: t q)
  case (Suc k)
  let ?t = "updNode t q (\<lambda>x. x\<lparr>Children := sortNodes fragmentLess t (Children x)\<rparr>)"
  have s: "sums_only t ?t" using Suc.prems by (intro sums_only_sortChildren)
  then have sh: "same_shape t ?t" and eq: "length (heap ?t) = length (heap t)" "leaves ?t = leaves t"
    by (auto simp: sums_only_def)
  have ok: "tree_ok ?t" using tree_ok_same_shape [OF sh Suc.prems(1)] .
  show ?case
  proof (cases "find (\<lambda>n. \<not> (Children (nodeAt ?t n) = [] \<or> Available (nodeAt ?t n) < num)) (Children (nodeAt ?t q))")
    case None
    then show ?thesis using s Suc.prems unfolding fragmentDescend.simps Let_def by auto
  next
    case (Some n)
    then have n: "n \<in> set (Children (nodeAt ?t q))" "Children (nodeAt ?t n) \<noteq> []" "num \<le> Available (nodeAt ?t n)"
      by (auto simp: find_Some_iff)
    then have par: "n < length (heap ?t)" "Parent (nodeAt ?t n) = Some q"
      using tree_okD(8) [OF ok, of q n] Suc.prems(2) eq by auto
    have notleaf: "n \<notin> set (leaves ?t)" using n(2) leaf_no_children [OF ok] by blast
    have "below (heap ?t) n < below (heap ?t) q"
      using below_child [OF tree_okD(3) [OF ok] par(1) _ par(2)] Suc.prems(2) eq by simp
    also have "below (heap ?t) q = below (heap t) q" using below_same_shape [OF sh Suc.prems(2)] .
    finally have "below (heap ?t) n < k" using Suc.prems(4) by simp
    from Suc.IH [OF ok par(1) notleaf this] obtain t' c where c:
      "fragmentDescend k ?t num n = Inr (t', c)" "sums_only ?t t'" "c < length (heap ?t)"
      "c \<notin> set (leaves ?t)" "c = n \<or> num \<le> Available (nodeAt ?t c)" by blast
    have "Available (nodeAt ?t c) = Available (nodeAt t c)"
      using s c(3) eq(1) by (simp add: sums_only_def Available_def)
    moreover have "fragmentDescend (Suc k) t num q = Inr (t', c)"
      using Some c(1) unfolding fragmentDescend.simps Let_def by simp
    ultimately show ?thesis
      using c n(3) eq sums_only_trans [OF s c(2)] by auto
  qed
qed simp

lemma sums_only_views:
  assumes "tree_ok t" "masks_ok t" "sums_only t t'"
  shows "devices t' = devices t" "leaves t' = leaves t" "rootBit t' i = rootBit t i"
    "a \<in> set (leaves t) \<Longrightarrow> nodeAt t' a = nodeAt t a"
proof -
  obtain r where "root t = Some r" "r < length (heap t)" using tree_ok_root [OF assms(1)] by blast
  then show "devices t' = devices t" "leaves t' = leaves t" "rootBit t' i = rootBit t i"
    "a \<in> set (leaves t) \<Longrightarrow> nodeAt t' a = nodeAt t a"
    using assms(3) tree_okD(4) [OF assms(1)]
    by (auto simp: sums_only_def same_shape_def devices_def rootBit_def)
qed

lemma good_pick_sums:
  assumes "tree_ok t" "masks_ok t" "sums_only t t'"
  shows "good_pick t' ann num ns = good_pick t ann num ns"
proof -
  note v = sums_only_views [OF assms]
  have "compliant t' ann a = compliant t ann a" if "a = leaves t ! i" "i < devices t" for a i
    using that v(4) [of a] by (simp add: compliant_def devices_def)
  then have "(compliant t' ann a \<and> (\<exists>i < devices t. a = leaves t ! i \<and> rootBit t i)) =
      (compliant t ann a \<and> (\<exists>i < devices t. a = leaves t ! i \<and> rootBit t i))" for a
    by metis
  then show ?thesis unfolding good_pick_def v(1,2,3) by simp
qed

lemma fragmentEvaluate_ok:
  assumes "tree_ok t" "masks_ok t" "0 \<le> cores"
  obtains t' ns where "fragmentEvaluate t ann cores memory = Inr (t', ns)" "sums_only t t'"
    "good_pick t ann (cores div 100) ns"
    "(\<forall>a \<in> set (leaves t). compliant t ann a) \<Longrightarrow> cores div 100 \<le> Available (nodeAt t (the (root t))) \<Longrightarrow>
       int (length ns) = cores div 100"
proof -
  obtain r where r: "root t = Some r" "r < length (heap t)" "r \<notin> set (leaves t)"
    using tree_ok_root [OF assms(1)] by blast
  have num: "cores sdiv HundredCore = cores div 100" "0 \<le> cores div 100"
    using assms(3) by (auto simp: HundredCore_def sdiv_nonneg)
  have "below (heap t) r < length (heap t) + 1" using below_le [of "heap t" r] by simp
  from fragmentDescend_ok [OF assms(1) r(2,3) this, of "cores div 100"] obtain t' c where c:
    "fragmentDescend (length (heap t) + 1) t (cores div 100) r = Inr (t', c)" "sums_only t t'"
    "c < length (heap t)" "c \<notin> set (leaves t)" "c = r \<or> cores div 100 \<le> Available (nodeAt t c)"
    by blast
  have sh: "same_shape t t'" using c(2) by (simp add: sums_only_def)
  note v = sums_only_views [OF assms(1,2) c(2)]
  have ok': "tree_ok t'" "masks_ok t'" "c < length (heap t')" "c \<notin> set (leaves t')"
    using tree_ok_same_shape [OF sh assms(1)] masks_ok_same_masks [OF assms(1,2) c(2)] c sh
    by (auto simp: same_shape_def)
  from pickFrom_inner [OF ok' num(2), of ann] obtain ns where ns:
    "pickFrom t' ann (cores div 100) c = Inr ns" "good_pick t' ann (cores div 100) ns"
    "(\<forall>a \<in> set (leaves t'). compliant t' ann a) \<Longrightarrow> cores div 100 \<le> Available (nodeAt t' c) \<Longrightarrow>
       int (length ns) = cores div 100" by metis
  have ev: "fragmentEvaluate t ann cores memory = Inr (t', ns)"
    using r c(1) ns(1) num(1) by (simp add: fragmentEvaluate_def Let_def)
  have "int (length ns) = cores div 100"
    if all: "\<forall>a \<in> set (leaves t). compliant t ann a"
      and av: "cores div 100 \<le> Available (nodeAt t (the (root t)))"
  proof -
    have "\<forall>a \<in> set (leaves t'). compliant t' ann a" using all v by (simp add: compliant_def)
    moreover have "cores div 100 \<le> Available (nodeAt t' c)"
      using c(2,3,5) av r by (auto simp: sums_only_def Available_def)
    ultimately show ?thesis by (rule ns(3))
  qed
  with ev show ?thesis
    using that c(2) ns(2) good_pick_sums [OF assms(1,2) c(2)] by blast
qed

section \<open>Link mode\<close>

lemma chain_sorted:
  "levels_ok h \<Longrightarrow> a < length h \<Longrightarrow> sorted_wrt (\<lambda>x y. ntype (h ! x) < ntype (h ! y)) (a # chain h a)"
proof (induction "above h a" arbitrary: a rule: less_induct)
  case less
  show ?case
  proof (cases "Parent (h ! a)")
    case None
    then show ?thesis using chain_unfold [OF less.prems] by simp
  next
    case (Some p)
    have p: "p < length h" "ntype (h ! a) < ntype (h ! p)" "above h p < above h a"
      using less.prems Some by (auto dest: levels_okD intro: above_parent)
    then have "sorted_wrt (\<lambda>x y. ntype (h ! x) < ntype (h ! y)) (p # chain h p)"
      using less by blast
    then show ?thesis using chain_unfold [OF less.prems] Some p(2) by auto
  qed
qed

text \<open>The walk finds the first node below the root with enough free cards.\<close>

definition linkChoice :: "NvidiaTree \<Rightarrow> int \<Rightarrow> addr \<Rightarrow> addr option" where
  "linkChoice t num a = find (\<lambda>b. num \<le> Available (nodeAt t b))
     (takeWhile (\<lambda>b. Some b \<noteq> root t) (a # chain (heap t) a))"

lemma linkWalk_eq:
  assumes "levels_ok (heap t)" "root t = Some r"
  shows "a < length (heap t) \<Longrightarrow> a = r \<or> r \<in> set (chain (heap t) a) \<Longrightarrow> above (heap t) a < k \<Longrightarrow>
    linkWalk k t num (Some a) = Inr (linkChoice t num a)"
proof (induction k arbitrary: a)
  case (Suc k)
  show ?case
  proof (cases "a = r")
    case True
    then show ?thesis using assms(2) by (simp add: linkChoice_def)
  next
    case False
    then have "chain (heap t) a \<noteq> []" using Suc.prems(2) by auto
    then obtain p where p: "Parent (nodeAt t a) = Some p"
      using chain_unfold [OF assms(1) Suc.prems(1)] by (cases "Parent (nodeAt t a)") auto
    then have ch: "chain (heap t) a = p # chain (heap t) p"
      using chain_unfold [OF assms(1) Suc.prems(1)] by simp
    have pl: "p < length (heap t)" "above (heap t) p < above (heap t) a"
      using assms(1) Suc.prems(1) p by (auto dest: levels_okD intro: above_parent)
    show ?thesis
      using Suc.IH [OF pl(1)] Suc.prems pl(2) ch False p assms(2)
      by (auto simp: linkChoice_def)
  qed
qed simp

lemma linkStore_ok:
  assumes "\<And>l. l \<in> set ls \<Longrightarrow> linkWalk (length (heap t) + 2) t num (Some l) = Inr (w l)" "gomap_ok store"
  obtains store' where "linkStore t num ls store = Inr store'" "gomap_ok store'"
    "\<And>k b. (k, b) \<in> set store' \<Longrightarrow> (k, b) \<in> set store \<or> (\<exists>l \<in> set ls. w l = Some b \<and> k = ID (Meta (nodeAt t b)))"
    "\<And>l b. l \<in> set ls \<Longrightarrow> w l = Some b \<Longrightarrow> ID (Meta (nodeAt t b)) \<in> fst ` set store'"
    "fst ` set store \<subseteq> fst ` set store'"
  using assms
proof (induction ls arbitrary: store thesis)
  case (Cons l ls)
  show ?case
  proof (cases "w l")
    case None
    have "\<And>x. x \<in> set ls \<Longrightarrow> linkWalk (length (heap t) + 2) t num (Some x) = Inr (w x)"
      using Cons.prems(2) by simp
    from Cons.IH [OF _ this Cons.prems(3)] obtain s' where s': "linkStore t num ls store = Inr s'" "gomap_ok s'"
      "\<And>k b. (k, b) \<in> set s' \<Longrightarrow> (k, b) \<in> set store \<or> (\<exists>l \<in> set ls. w l = Some b \<and> k = ID (Meta (nodeAt t b)))"
      "\<And>l b. l \<in> set ls \<Longrightarrow> w l = Some b \<Longrightarrow> ID (Meta (nodeAt t b)) \<in> fst ` set s'"
      "fst ` set store \<subseteq> fst ` set s'" by blast
    show ?thesis
      by (rule Cons.prems(1) [of s']) (use s' None Cons.prems(2) [of l] in auto)
  next
    case (Some b)
    let ?s = "AList.update (ID (Meta (nodeAt t b))) b store"
    have "\<And>x. x \<in> set ls \<Longrightarrow> linkWalk (length (heap t) + 2) t num (Some x) = Inr (w x)"
      using Cons.prems(2) by simp
    from Cons.IH [OF _ this gomap_ok_update [OF Cons.prems(3)]] obtain s' where
      s': "linkStore t num ls ?s = Inr s'" "gomap_ok s'"
      "\<And>k b. (k, b) \<in> set s' \<Longrightarrow> (k, b) \<in> set ?s \<or> (\<exists>l \<in> set ls. w l = Some b \<and> k = ID (Meta (nodeAt t b)))"
      "\<And>l b. l \<in> set ls \<Longrightarrow> w l = Some b \<Longrightarrow> ID (Meta (nodeAt t b)) \<in> fst ` set s'"
      "fst ` set ?s \<subseteq> fst ` set s'" by blast
    have upd: "(k, c) \<in> set store \<or> (c = b \<and> k = ID (Meta (nodeAt t b)))" if "(k, c) \<in> set ?s" for k c
      using that Cons.prems(3) gomap_ok_update [OF Cons.prems(3)]
      by (metis (no_types, lifting) gomap_ok_def map_of_AList_update map_of_SomeD map_of_eq_Some_iff option.inject)
    have dom: "fst ` set ?s = insert (ID (Meta (nodeAt t b))) (fst ` set store)"
      by (simp add: dom_update)
    have step: "linkStore t num (l # ls) store = Inr s'"
      using s'(1) Some Cons.prems(2) [of l] by simp
    show ?thesis
    proof (rule Cons.prems(1) [OF step s'(2)])
      show "(k, c) \<in> set store \<or> (\<exists>x \<in> set (l # ls). w x = Some c \<and> k = ID (Meta (nodeAt t c)))"
        if "(k, c) \<in> set s'" for k c
        using s'(3) [OF that] upd Some by auto
      show "ID (Meta (nodeAt t c)) \<in> fst ` set s'" if "x \<in> set (l # ls)" "w x = Some c" for x c
      proof (cases "x = l")
        case True
        then show ?thesis using that(2) Some s'(5) dom by (metis insert_subset option.inject)
      qed (use that s'(4) in auto)
      show "fst ` set store \<subseteq> fst ` set s'" using s'(5) dom by auto
    qed
  qed
qed auto

lemma Available_leaf:
  assumes "tree_ok t" "i < devices t"
  shows "Available (nodeAt t (leaves t ! i)) = 1"
proof -
  have i: "i < length (leaves t)" "i < 32" "Mask (nodeAt t (leaves t ! i)) = push_bit i 1"
    using leaf_facts [of t i] assms by (auto simp: devices_def)
  have "filter (bit (push_bit i 1 :: 32 word)) [0..<32] = filter (\<lambda>j. j = i) [0..<32]"
    using i(2) by (intro filter_cong) (auto simp: bit_one simp del: push_bit_of_1)
  also have "length \<dots> = 1"
  proof -
    have "filter (\<lambda>j. j = i) [0..<32] = [i]"
      using i(2) by (intro sorted_distinct_set_unique) (auto simp: sorted_wrt_filter)
    then show ?thesis by simp
  qed
  finally show ?thesis using i(3) by (simp add: Available_def onesCount32_def)
qed

text \<open>The identities of the inner nodes, under which link mode stores its candidates, differ.\<close>

definition ids_ok :: "NvidiaTree \<Rightarrow> bool" where
  "ids_ok t \<longleftrightarrow> distinct (map (\<lambda>a. ID (Meta (nodeAt t a)))
     (filter (\<lambda>a. a \<notin> set (leaves t)) [0..<length (heap t)]))"

lemma ids_okD:
  "ids_ok t \<Longrightarrow> a < length (heap t) \<Longrightarrow> b < length (heap t) \<Longrightarrow> a \<notin> set (leaves t) \<Longrightarrow> b \<notin> set (leaves t) \<Longrightarrow>
     ID (Meta (nodeAt t a)) = ID (Meta (nodeAt t b)) \<Longrightarrow> a = b"
  unfolding ids_ok_def distinct_map inj_on_def by auto

lemma linkChoice_inner:
  assumes "tree_ok t" "2 \<le> num" "l \<in> set (leaves t)" "linkChoice t num l = Some b"
  shows "b < length (heap t)" "b \<notin> set (leaves t)" "num \<le> Available (nodeAt t b)"
    "b \<in> set (chain (heap t) l)"
proof -
  have lt: "l < length (heap t)" using tree_okD(4) [OF assms(1,3)] .
  have b: "num \<le> Available (nodeAt t b)" "b \<in> set (l # chain (heap t) l)"
    using find_SomeD [OF assms(4) [unfolded linkChoice_def]] set_takeWhileD by fastforce+
  obtain i where "i < devices t" "l = leaves t ! i"
    using assms(3) by (metis devices_def in_set_conv_nth)
  then have "b \<noteq> l" using b(1) assms(2) Available_leaf [OF assms(1)] by auto
  then show "b \<in> set (chain (heap t) l)" using b(2) by simp
  then show "b < length (heap t)" "b \<notin> set (leaves t)"
    using chain_range [OF tree_okD(3) [OF assms(1)] lt] tree_ok_leaf_not_inner [OF assms(1) lt] by auto
  show "num \<le> Available (nodeAt t b)" using b(1) .
qed

lemma linkChoice_first:
  assumes "tree_ok t" "l \<in> set (leaves t)" "q \<in> set (chain (heap t) l)" "num \<le> Available (nodeAt t q)"
    and "root t = Some r" "ntype (nodeAt t q) < ntype (nodeAt t r)"
  obtains b where "linkChoice t num l = Some b" "ntype (nodeAt t b) \<le> ntype (nodeAt t q)"
proof -
  have lt: "l < length (heap t)" using tree_okD(4) [OF assms(1,2)] .
  have "\<exists>b. find (\<lambda>b. num \<le> Available (nodeAt t b))
      (takeWhile (\<lambda>b. Some b \<noteq> root t) (l # chain (heap t) l)) = Some b \<and> ntype (nodeAt t b) \<le> ntype (nodeAt t q)"
    using assms(3-6) by (intro find_takeWhile_first [OF chain_sorted [OF tree_okD(3) [OF assms(1)] lt]]) auto
  then show ?thesis using that by (auto simp only: linkChoice_def)
qed

lemma linkWalk_leaf:
  assumes "tree_ok t" "l \<in> set (leaves t)"
  shows "linkWalk (length (heap t) + 2) t num (Some l) = Inr (linkChoice t num l)"
proof -
  obtain r where r: "root t = Some r" "\<And>a. a \<in> set (leaves t) \<Longrightarrow> r \<in> set (chain (heap t) a)"
    using tree_ok_root [OF assms(1)] by metis
  have lt: "l < length (heap t)" using tree_okD(4) [OF assms] .
  then have "above (heap t) l < length (heap t) + 2" using above_less [OF lt] by simp
  then show ?thesis using linkWalk_eq [OF tree_okD(3) [OF assms(1)] r(1) lt] r(2) [OF assms(2)] by blast
qed

text \<open>The candidates of link mode: inner nodes with enough free cards, or the root alone.\<close>

lemma linkCandidates_ok:
  assumes "tree_ok t" "2 \<le> num" "range_order ord" "root t = Some r"
  obtains cands where "linkCandidates ord t num = Inr cands" "cands \<noteq> []"
    "\<And>c. c \<in> set cands \<Longrightarrow> c = r \<or> (c < length (heap t) \<and> c \<notin> set (leaves t) \<and> num \<le> Available (nodeAt t c))"
    "\<And>l b. ids_ok t \<Longrightarrow> l \<in> set (leaves t) \<Longrightarrow> linkChoice t num l = Some b \<Longrightarrow> b \<in> set cands"
proof -
  note ex = linkStore_ok [of "leaves t" t num "linkChoice t num" "[]", OF linkWalk_leaf [OF assms(1)] gomap_ok_Nil]
  have "\<exists>st. linkStore t num (leaves t) [] = Inr st \<and> gomap_ok st
      \<and> (\<forall>k b. (k, b) \<in> set st \<longrightarrow>
           (\<exists>l \<in> set (leaves t). linkChoice t num l = Some b \<and> k = ID (Meta (nodeAt t b))))
      \<and> (\<forall>l b. l \<in> set (leaves t) \<longrightarrow> linkChoice t num l = Some b \<longrightarrow> ID (Meta (nodeAt t b)) \<in> fst ` set st)"
    by (rule ex, assumption) simp
  then obtain st where st: "linkStore t num (leaves t) [] = Inr st" "gomap_ok st"
    "\<And>k b. (k, b) \<in> set st \<Longrightarrow> \<exists>l \<in> set (leaves t). linkChoice t num l = Some b \<and> k = ID (Meta (nodeAt t b))"
    "\<And>l b. l \<in> set (leaves t) \<Longrightarrow> linkChoice t num l = Some b \<Longrightarrow> ID (Meta (nodeAt t b)) \<in> fst ` set st"
    by blast
  have vals: "set (map snd (gorange ord st)) = snd ` set st"
    using set_gorange [OF assms(3) st(2)] by simp
  have inner: "c < length (heap t) \<and> c \<notin> set (leaves t) \<and> num \<le> Available (nodeAt t c)" if "(k, c) \<in> set st" for k c
    using st(3) [OF that] linkChoice_inner [OF assms(1,2)] by blast
  show ?thesis
  proof (cases "st = []")
    case True
    then have "linkChoice t num l \<noteq> Some b" if "l \<in> set (leaves t)" for l b
      using st(4) [OF that, of b] by auto
    then show ?thesis
      using that [of "[r]"] True st(1) assms(4) by (auto simp: linkCandidates_def)
  next
    case False
    have "b \<in> snd ` set st" if ids: "ids_ok t" and l: "l \<in> set (leaves t)" "linkChoice t num l = Some b" for l b
    proof -
      obtain b' where b': "(ID (Meta (nodeAt t b)), b') \<in> set st" using st(4) [OF l] by auto
      have "b' = b"
        using ids_okD [OF ids, of b' b] inner [OF b'] st(3) [OF b'] linkChoice_inner [OF assms(1,2) l] by auto
      then show ?thesis using b' by force
    qed
    moreover have "c < length (heap t) \<and> c \<notin> set (leaves t) \<and> num \<le> Available (nodeAt t c)"
      if "c \<in> snd ` set st" for c using that inner by auto
    moreover have "map snd (gorange ord st) \<noteq> []"
      using False vals by (metis image_is_empty set_empty)
    moreover have "linkCandidates ord t num = Inr (map snd (gorange ord st))"
      using st(1) False by (simp add: linkCandidates_def)
    ultimately show ?thesis by (intro that [of "map snd (gorange ord st)"]) (unfold vals, blast+)
  qed
qed

lemma linkLess_type: "\<not> linkLess x y \<Longrightarrow> ntype y \<le> ntype x"
  by (auto simp: linkLess_def ByType_def NodeType_def split: if_splits)

lemma linkLess_best:
  assumes "cands \<noteq> []" "b \<in> set cands"
  shows "ntype (nodeAt t (hd (sortNodes linkLess t cands))) \<le> ntype (nodeAt t b)"
proof -
  have "strict_weak linkLess"
    unfolding linkLess_def by (rule strict_weak_multi_less) (simp_all add: strict_weak_by)
  from strict_weak_sort_contract [OF strict_weak_on_nodes [OF this]]
  have sc: "sort_contract (\<lambda>a b. linkLess (nodeAt t a) (nodeAt t b)) (\<lambda>a b. \<not> linkLess (nodeAt t b) (nodeAt t a))" .
  show ?thesis
    using sort_contract.sort_hd_le [OF sc assms] linkLess_type by (simp add: sortNodes_def)
qed

lemma linkEvaluate_ok:
  assumes "tree_ok t" "masks_ok t" "200 \<le> cores" "range_order ord" "root t = Some r"
  obtains ns c where "linkEvaluate ord t ann cores memory = Inr (t, ns)" "good_pick t ann (cores div 100) ns"
    "(\<forall>a \<in> set (leaves t). compliant t ann a) \<Longrightarrow> cores div 100 \<le> Available (nodeAt t r) \<Longrightarrow>
       int (length ns) = cores div 100"
    "\<And>a. a \<in> set ns \<Longrightarrow> c \<in> set (chain (heap t) a)"
    "\<And>l q. ids_ok t \<Longrightarrow> l \<in> set (leaves t) \<Longrightarrow> q \<in> set (chain (heap t) l) \<Longrightarrow> cores div 100 \<le> Available (nodeAt t q)
       \<Longrightarrow> ntype (nodeAt t q) < ntype (nodeAt t r) \<Longrightarrow> ntype (nodeAt t c) \<le> ntype (nodeAt t q)"
proof -
  let ?num = "cores div 100"
  have num: "cores sdiv HundredCore = ?num" "2 \<le> ?num" "0 \<le> ?num"
    using assms(3) by (auto simp: HundredCore_def sdiv_nonneg)
  obtain r' where r: "root t = Some r'" "r' < length (heap t)" "r' \<notin> set (leaves t)"
    using tree_ok_root [OF assms(1)] by blast
  obtain cands where c: "linkCandidates ord t ?num = Inr cands" "cands \<noteq> []"
    "\<And>c. c \<in> set cands \<Longrightarrow> c = r \<or> (c < length (heap t) \<and> c \<notin> set (leaves t) \<and> ?num \<le> Available (nodeAt t c))"
    "\<And>l b. ids_ok t \<Longrightarrow> l \<in> set (leaves t) \<Longrightarrow> linkChoice t ?num l = Some b \<Longrightarrow> b \<in> set cands"
    using linkCandidates_ok [OF assms(1) num(2) assms(4,5)] by metis
  define q where "q = hd (sortNodes linkLess t cands)"
  have "q \<in> set cands"
    using c(2) unfolding q_def by (metis hd_in_set set_sortNodes sortNodes_Nil_iff)
  then have q: "q < length (heap t)" "q \<notin> set (leaves t)" "q = r \<or> ?num \<le> Available (nodeAt t q)"
    using c(3) r assms(5) by auto
  from pickFrom_inner [OF assms(1,2) q(1,2) num(3), of ann] obtain ns where ns:
    "pickFrom t ann ?num q = Inr ns" "good_pick t ann ?num ns"
    "(\<forall>a \<in> set (leaves t). compliant t ann a) \<Longrightarrow> ?num \<le> Available (nodeAt t q) \<Longrightarrow> int (length ns) = ?num"
    "\<And>a. a \<in> set ns \<Longrightarrow> \<exists>i. a = leaves t ! i \<and> bit (Mask (nodeAt t q)) i" by metis
  have "linkEvaluate ord t ann cores memory = Inr (t, ns)"
    using c(1) ns(1) num(1) by (simp add: linkEvaluate_def Let_def q_def)
  moreover have "q \<in> set (chain (heap t) a)" if "a \<in> set ns" for a
    using ns(4) [OF that] masks_okD(1) [OF assms(2) q(1,2)] by auto
  moreover have "ntype (nodeAt t q) \<le> ntype (nodeAt t p)"
    if "ids_ok t" "l \<in> set (leaves t)" "p \<in> set (chain (heap t) l)" "?num \<le> Available (nodeAt t p)"
      "ntype (nodeAt t p) < ntype (nodeAt t r)" for l p
    using linkChoice_first [OF assms(1) that(2-4) assms(5) that(5)] c(4) [OF that(1,2)]
      linkLess_best [OF c(2), of _ t] unfolding q_def by (metis order_trans)
  ultimately show ?thesis using that [of ns q] ns(2,3) q(3) by blast
qed

section \<open>Share mode\<close>

lemma shareEvaluate_pick:
  assumes "shareEvaluate nv t ann cores memory = Inr (t', ns)"
  shows "t' = t" "length ns \<le> 1"
    "\<And>a. a \<in> set ns \<Longrightarrow> a \<in> set (leaves t) \<and> shareOk nv t ann cores memory a"
    "ns = [] \<Longrightarrow> a \<in> set (leaves t) \<Longrightarrow> \<not> shareOk nv t ann cores memory a"
  using assms
  by (auto simp: shareEvaluate_def find_None_iff split: option.splits dest: find_SomeD)

lemma shareLess_order:
  assumes "\<not> shareLess x y"
  shows "Cores (AllocatableMeta y) \<le> Cores (AllocatableMeta x)"
    "Cores (AllocatableMeta y) = Cores (AllocatableMeta x) \<Longrightarrow>
       Memory (AllocatableMeta y) sdiv MemoryBlockSize \<le> Memory (AllocatableMeta x) sdiv MemoryBlockSize"
  using assms by (auto simp: shareLess_def ByAllocatableCores_def ByAllocatableMemory_def split: if_splits)

lemma find_sorted_first:
  "sorted_wrt le xs \<Longrightarrow> find P xs = Some n \<Longrightarrow> b \<in> set xs \<Longrightarrow> P b \<Longrightarrow> b = n \<or> le n b"
  by (induction xs) (auto split: if_splits)

lemma shareEvaluate_best:
  assumes "shareEvaluate nv t ann cores memory = Inr (t', [a])" "b \<in> set (leaves t)" "shareOk nv t ann cores memory b"
  shows "Cores (AllocatableMeta (nodeAt t a)) \<le> Cores (AllocatableMeta (nodeAt t b))"
    "Cores (AllocatableMeta (nodeAt t a)) = Cores (AllocatableMeta (nodeAt t b)) \<Longrightarrow>
       Memory (AllocatableMeta (nodeAt t a)) sdiv MemoryBlockSize \<le> Memory (AllocatableMeta (nodeAt t b)) sdiv MemoryBlockSize"
proof -
  have "strict_weak shareLess"
    unfolding shareLess_def by (rule strict_weak_multi_less) (simp_all add: strict_weak_by)
  from strict_weak_sort_contract [OF strict_weak_on_nodes [OF this]]
  have sc: "sort_contract (\<lambda>a b. shareLess (nodeAt t a) (nodeAt t b)) (\<lambda>a b. \<not> shareLess (nodeAt t b) (nodeAt t a))" .
  have "find (shareOk nv t ann cores memory) (sortNodes shareLess t (leaves t)) = Some a"
    using assms(1) by (auto simp: shareEvaluate_def split: option.splits)
  from find_sorted_first [OF sort_contract.sort_sorted [OF sc, of "leaves t", folded sortNodes_def] this _ assms(3)]
  have "b = a \<or> \<not> shareLess (nodeAt t b) (nodeAt t a)" using assms(2) by simp
  then show "Cores (AllocatableMeta (nodeAt t a)) \<le> Cores (AllocatableMeta (nodeAt t b))"
    "Cores (AllocatableMeta (nodeAt t a)) = Cores (AllocatableMeta (nodeAt t b)) \<Longrightarrow>
       Memory (AllocatableMeta (nodeAt t a)) sdiv MemoryBlockSize \<le> Memory (AllocatableMeta (nodeAt t b)) sdiv MemoryBlockSize"
    using shareLess_order by auto
qed

section \<open>The contract\<close>

text \<open>A device that a request may be granted on, judged by what the tree shows.\<close>

definition suitable :: "NvidiaTree \<Rightarrow> (string, string) gomap \<Rightarrow> int \<Rightarrow> int \<Rightarrow> nat \<Rightarrow> bool" where
  "suitable t ann c m i \<longleftrightarrow> i < devices t \<and> compliant t ann (leaves t ! i)
     \<and> (if 100 \<le> c then rootBit t i
        else c \<le> dvCores (devView t i) \<and> m \<le> dvMemory (devView t i))"

definition cardsOf :: "int \<Rightarrow> nat" where
  "cardsOf c = (if 100 \<le> c then nat (c div 100) else 1)"

text \<open>
  \<^verbatim>\<open>Evaluator\<close>: for the requests it serves (\<open>serves\<close>), an evaluation on a well-formed tree
  returns, leaves the pool as it is, and every card it names is a different suitable device; it
  names no card or as many as were asked for.
\<close>

locale evaluator =
  fixes evaluate :: "NvidiaTree \<Rightarrow> (string, string) gomap \<Rightarrow> int \<Rightarrow> int \<Rightarrow> go_fault + NvidiaTree \<times> addr list"
    and serves :: "int \<Rightarrow> int \<Rightarrow> bool"
  assumes returns: "tree_ok t \<Longrightarrow> masks_ok t \<Longrightarrow> serves c m \<Longrightarrow> \<exists>t' ns. evaluate t ann c m = Inr (t', ns)"
    and keeps: "tree_ok t \<Longrightarrow> masks_ok t \<Longrightarrow> serves c m \<Longrightarrow> evaluate t ann c m = Inr (t', ns) \<Longrightarrow> sums_only t t'"
    and sound: "tree_ok t \<Longrightarrow> masks_ok t \<Longrightarrow> serves c m \<Longrightarrow> evaluate t ann c m = Inr (t', ns) \<Longrightarrow>
      distinct ns \<and> (ns \<noteq> [] \<longrightarrow> length ns = cardsOf c)
      \<and> (\<forall>a \<in> set ns. \<exists>i. a = leaves t ! i \<and> suitable t ann c m i)"
begin

text \<open>What the allocator relies on: the leaves of the tree it gets back, with their indices.\<close>

lemma chosen_devices:
  assumes "tree_ok t" "masks_ok t" "serves c m" "evaluate t ann c m = Inr (t', ns)"
  obtains js where "ns = map ((!) (leaves t')) js" "distinct js" "ns \<noteq> [] \<longrightarrow> length js = cardsOf c"
    "\<And>i. i \<in> set js \<Longrightarrow> suitable t ann c m i" "upd_ok t t'" "leaves t' = leaves t"
proof -
  note s = sound [OF assms] and k = keeps [OF assms]
  have "\<forall>a \<in> set ns. \<exists>i. a = leaves t ! i \<and> suitable t ann c m i" using s by blast
  then obtain f where f: "\<And>a. a \<in> set ns \<Longrightarrow> a = leaves t ! f a \<and> suitable t ann c m (f a)" by metis
  have lv: "leaves t' = leaves t" using sums_only_views(2) [OF assms(1,2) k] .
  have "ns = map ((!) (leaves t')) (map f ns)"
    using f lv by (simp add: map_idI)
  moreover have "distinct (map f ns)"
    using s f by (simp add: distinct_map inj_on_def) metis
  ultimately show ?thesis
    using that [of "map f ns"] s f upd_ok_sums [OF assms(1,2) k] lv by auto
qed

end

definition servesLink :: "int \<Rightarrow> int \<Rightarrow> bool" where
  "servesLink c m \<longleftrightarrow> 200 \<le> c"

definition servesCard :: "int \<Rightarrow> int \<Rightarrow> bool" where
  "servesCard c m \<longleftrightarrow> 100 \<le> c"

definition servesShare :: "int \<Rightarrow> int \<Rightarrow> bool" where
  "servesShare c m \<longleftrightarrow> c < 100"

lemma good_pick_sound:
  "good_pick t ann (c div 100) ns \<Longrightarrow> 100 \<le> c \<Longrightarrow> distinct ns \<and> (ns \<noteq> [] \<longrightarrow> length ns = cardsOf c)
     \<and> (\<forall>a \<in> set ns. \<exists>i. a = leaves t ! i \<and> suitable t ann c m i)"
  unfolding good_pick_def cardsOf_def suitable_def by auto

lemma linkEvaluate_sound:
  assumes "tree_ok t" "masks_ok t" "servesLink c m" "range_order ord"
  obtains ns where "linkEvaluate ord t ann c m = Inr (t, ns)" "good_pick t ann (c div 100) ns"
proof -
  obtain r where "root t = Some r" using tree_ok_root [OF assms(1)] by blast
  then show ?thesis
    using linkEvaluate_ok [OF assms(1,2) _ assms(4)] assms(3) that unfolding servesLink_def by metis
qed

lemma link_evaluator: "range_order ord \<Longrightarrow> evaluator (linkEvaluate ord) servesLink"
proof unfold_locales
  fix t c m ann t' ns
  assume ord: "range_order ord" and ok: "tree_ok t" "masks_ok t" "servesLink c m"
  obtain ns' where e: "linkEvaluate ord t ann c m = Inr (t, ns')" "good_pick t ann (c div 100) ns'"
    using linkEvaluate_sound [OF ok ord] by blast
  then show "\<exists>t' ns. linkEvaluate ord t ann c m = Inr (t', ns)" by blast
  assume "linkEvaluate ord t ann c m = Inr (t', ns)"
  then have "t' = t" "ns = ns'" using e(1) by auto
  then show "sums_only t t'" "distinct ns \<and> (ns \<noteq> [] \<longrightarrow> length ns = cardsOf c)
      \<and> (\<forall>a \<in> set ns. \<exists>i. a = leaves t ! i \<and> suitable t ann c m i)"
    using good_pick_sound [OF e(2)] ok(3) by (auto simp: servesLink_def)
qed

text \<open>Link mode with the order in which the candidates were found; \<open>link_evaluator\<close> gives the contract
  for every order.\<close>

interpretation link: evaluator "linkEvaluate (\<lambda>ks. ks)" servesLink
  by (rule link_evaluator) simp

interpretation fragment: evaluator fragmentEvaluate servesCard
proof unfold_locales
  fix t c m ann t' ns
  assume ok: "tree_ok t" "masks_ok t" "servesCard c m"
  then have "0 \<le> c" "100 \<le> c" by (auto simp: servesCard_def)
  from fragmentEvaluate_ok [OF ok(1,2) this(1)] obtain u ns' where
    e: "fragmentEvaluate t ann c m = Inr (u, ns')" "sums_only t u" "good_pick t ann (c div 100) ns'" by metis
  then show "\<exists>t' ns. fragmentEvaluate t ann c m = Inr (t', ns)" by blast
  assume "fragmentEvaluate t ann c m = Inr (t', ns)"
  then have "t' = u" "ns = ns'" using e(1) by auto
  then show "sums_only t t'" "distinct ns \<and> (ns \<noteq> [] \<longrightarrow> length ns = cardsOf c)
      \<and> (\<forall>a \<in> set ns. \<exists>i. a = leaves t ! i \<and> suitable t ann c m i)"
    using good_pick_sound [OF e(3) \<open>100 \<le> c\<close>] e(2) by auto
qed

interpretation share: evaluator "shareEvaluate nv" servesShare for nv
proof unfold_locales
  fix t c m ann t' ns
  assume ok: "tree_ok t" "masks_ok t" "servesShare c m"
  show "\<exists>t' ns. shareEvaluate nv t ann c m = Inr (t', ns)" by (simp add: shareEvaluate_def)
  assume ev: "shareEvaluate nv t ann c m = Inr (t', ns)"
  note p = shareEvaluate_pick [OF ev]
  show "sums_only t t'" using p(1) by simp
  have "\<exists>i. a = leaves t ! i \<and> suitable t ann c m i" if a: "a \<in> set ns" for a
  proof -
    obtain i where i: "i < devices t" "a = leaves t ! i"
      using p(3) [OF a] by (metis devices_def in_set_conv_nth)
    then show ?thesis
      using p(3) [OF a] ok(3) by (auto simp: suitable_def shareOk_def Let_def devView_def servesShare_def)
  qed
  moreover have "distinct ns" "ns \<noteq> [] \<longrightarrow> length ns = 1"
    using p(2) by (cases ns; simp)+
  ultimately show "distinct ns \<and> (ns \<noteq> [] \<longrightarrow> length ns = cardsOf c)
      \<and> (\<forall>a \<in> set ns. \<exists>i. a = leaves t ! i \<and> suitable t ann c m i)"
    using ok(3) by (auto simp: cardsOf_def servesShare_def)
qed

end
