(* ===== verification/Evaluator_Theorems.thy ===== *)
theory Evaluator_Theorems
  imports Evaluator_Laws
begin

text \<open>
  The theorems about the evaluators: what they choose is suitable, they find cards whenever there
  are enough, link mode stays on the lowest level of the topology, share mode takes the tightest
  card; and the dependence of link mode on the iteration order of a map when a card type is
  requested.
\<close>

lemma free_count:
  assumes "tree_ok t" "masks_ok t" "root t = Some r"
  shows "Available (nodeAt t r) = int (length (filter dvFree (pool t)))"
  using root_bits [OF assms]
  by (simp add: Available_def onesCount32_def pool_def filter_map comp_def)

lemma good_pick_free:
  assumes "tree_ok t" "good_pick t ann num ns" "ns \<noteq> []"
  shows "num \<le> int (length (filter dvFree (pool t)))"
proof -
  let ?F = "filter (\<lambda>i. dvFree (devView t i)) [0..<devices t]"
  have sub: "set ns \<subseteq> (!) (leaves t) ` set ?F"
    using assms(2) by (auto simp: good_pick_def devView_def)
  have "length ns = card (set ns)" using assms(2) by (simp add: good_pick_def distinct_card)
  also have "\<dots> \<le> card ((!) (leaves t) ` set ?F)" using sub by (intro card_mono) auto
  also have "\<dots> \<le> card (set ?F)" by (rule card_image_le) simp
  also have "\<dots> \<le> length ?F" by (rule card_length)
  finally show ?thesis
    using assms(2,3) by (simp add: good_pick_def pool_def filter_map comp_def)
qed

text \<open>Claim C12: link mode, for a request of several whole cards and whatever the iteration order of
  its candidate map, returns without a panic, leaves the tree as it is, and names no card or exactly
  the requested number of different cards, each free and of a permitted type. The cards hang below one
  node, and no node below the root that has enough free cards is on a lower level of the topology.\<close>

theorem link_closest_cards:
  assumes "pool_ok t" "200 \<le> cores" "range_order ord" "root t = Some r" "ids_ok t"
  shows "\<exists>ns c. linkEvaluate ord t ann cores memory = Inr (t, ns)
    \<and> distinct ns \<and> (ns \<noteq> [] \<longrightarrow> int (length ns) = cores div 100)
    \<and> (\<forall>a \<in> set ns. c \<in> set (chain (heap t) a) \<and> CheckDeviceType ann (DevName (Meta (nodeAt t a)))
         \<and> (\<exists>i < devices t. a = leaves t ! i \<and> dvFree (devView t i)))
    \<and> (\<forall>l \<in> set (leaves t). \<forall>q \<in> set (chain (heap t) l).
         cores div 100 \<le> Available (nodeAt t q) \<and> ntype (nodeAt t q) < ntype (nodeAt t r)
         \<longrightarrow> ntype (nodeAt t c) \<le> ntype (nodeAt t q))"
proof -
  have ok: "tree_ok t" "masks_ok t" using assms(1) by (auto simp: pool_ok_def)
  obtain ns c where e: "linkEvaluate ord t ann cores memory = Inr (t, ns)" "good_pick t ann (cores div 100) ns"
    "\<And>a. a \<in> set ns \<Longrightarrow> c \<in> set (chain (heap t) a)"
    "\<And>l q. l \<in> set (leaves t) \<Longrightarrow> q \<in> set (chain (heap t) l) \<Longrightarrow> cores div 100 \<le> Available (nodeAt t q)
       \<Longrightarrow> ntype (nodeAt t q) < ntype (nodeAt t r) \<Longrightarrow> ntype (nodeAt t c) \<le> ntype (nodeAt t q)"
    using linkEvaluate_ok [OF ok assms(2-4), of ann memory] assms(5) by metis
  then show ?thesis
    by (intro exI [of _ ns] exI [of _ c]) (auto simp: good_pick_def compliant_def devView_def)
qed

theorem link_closest_cards_witness:
  "\<exists>ns c. linkEvaluate (\<lambda>ks. ks) sampleTree [] 200 0 = Inr (sampleTree, ns)
    \<and> distinct ns \<and> (ns \<noteq> [] \<longrightarrow> int (length ns) = 200 div 100)
    \<and> (\<forall>a \<in> set ns. c \<in> set (chain (heap sampleTree) a))"
proof -
  have "root sampleTree = Some 7" by (simp add: sampleTree_def)
  moreover have "ids_ok sampleTree" by code_simp
  ultimately show ?thesis
    using link_closest_cards [OF sample_pool_ok, of 200 "\<lambda>ks. ks" 7 "[]" 0] by (simp, blast)
qed

text \<open>Claim C13: when no card is excluded by its type, link mode and fragment mode find cards exactly
  when enough cards are free in the whole tree.\<close>

theorem whole_cards_found_iff_free:
  assumes "pool_ok t" "100 \<le> cores" "range_order ord"
    and "\<forall>a \<in> set (leaves t). CheckDeviceType ann (DevName (Meta (nodeAt t a)))"
  shows "(\<exists>t' ns. fragmentEvaluate t ann cores memory = Inr (t', ns)
       \<and> (ns \<noteq> [] \<longleftrightarrow> cores div 100 \<le> int (length (filter dvFree (pool t)))))
    \<and> (200 \<le> cores \<longrightarrow> (\<exists>ns. linkEvaluate ord t ann cores memory = Inr (t, ns)
       \<and> (ns \<noteq> [] \<longleftrightarrow> cores div 100 \<le> int (length (filter dvFree (pool t))))))"
proof -
  have ok: "tree_ok t" "masks_ok t" using assms(1) by (auto simp: pool_ok_def)
  obtain r where r: "root t = Some r" using tree_ok_root [OF ok(1)] by blast
  note fc = free_count [OF ok r]
  have pos: "1 \<le> cores div 100" using assms(2) by simp
  have comp: "\<forall>a \<in> set (leaves t). compliant t ann a" using assms(4) by (simp add: compliant_def)
  have iff: "ns \<noteq> [] \<longleftrightarrow> cores div 100 \<le> int (length (filter dvFree (pool t)))"
    if "good_pick t ann (cores div 100) ns"
      "cores div 100 \<le> Available (nodeAt t r) \<Longrightarrow> int (length ns) = cores div 100" for ns
    using that good_pick_free [OF ok(1) that(1)] fc pos by auto
  have "0 \<le> cores" using assms(2) by simp
  from fragmentEvaluate_ok [OF ok this, of ann memory] obtain t' ns where
    "fragmentEvaluate t ann cores memory = Inr (t', ns)" "good_pick t ann (cores div 100) ns"
    "cores div 100 \<le> Available (nodeAt t (the (root t))) \<Longrightarrow> int (length ns) = cores div 100"
    using comp by metis
  then have "\<exists>t' ns. fragmentEvaluate t ann cores memory = Inr (t', ns)
       \<and> (ns \<noteq> [] \<longleftrightarrow> cores div 100 \<le> int (length (filter dvFree (pool t))))"
    using iff [of ns] r by auto
  moreover have "\<exists>ns. linkEvaluate ord t ann cores memory = Inr (t, ns)
       \<and> (ns \<noteq> [] \<longleftrightarrow> cores div 100 \<le> int (length (filter dvFree (pool t))))" if two: "200 \<le> cores"
  proof -
    obtain ns where "linkEvaluate ord t ann cores memory = Inr (t, ns)" "good_pick t ann (cores div 100) ns"
      "cores div 100 \<le> Available (nodeAt t r) \<Longrightarrow> int (length ns) = cores div 100"
      using linkEvaluate_ok [OF ok two assms(3) r, of ann memory] comp by metis
    then show ?thesis using iff [of ns] by auto
  qed
  ultimately show ?thesis by blast
qed

theorem whole_cards_found_iff_free_witness:
  "\<exists>ns. linkEvaluate (\<lambda>ks. ks) sampleTree [] 300 0 = Inr (sampleTree, ns) \<and> ns \<noteq> []"
proof -
  have "\<forall>a \<in> set (leaves sampleTree). CheckDeviceType [] (DevName (Meta (nodeAt sampleTree a)))"
    by (simp add: CheckDeviceType_def)
  moreover have "(3 :: int) \<le> int (length (filter dvFree (pool sampleTree)))" by code_simp
  ultimately show ?thesis
    using whole_cards_found_iff_free [OF sample_pool_ok, of 300 "\<lambda>ks. ks" "[]" 0] by auto
qed









text \<open>Link mode chooses its group of cards before it looks at their type. On a machine with
  two free cards of each of two types, a request for two cards of one type fails or succeeds depending
  on the order in which the language visits the candidate map.\<close>

lemma link_type_depends_on_map_order:
  "linkEvaluate (\<lambda>ks. ks) sampleTree [(PodAnnotationUseGpuType, ''T4'')] 200 0 = Inr (sampleTree, [])
   \<and> linkEvaluate rev sampleTree [(PodAnnotationUseGpuType, ''T4'')] 200 0 = Inr (sampleTree, [2, 3])"
proof
  show "linkEvaluate (\<lambda>ks. ks) sampleTree [(PodAnnotationUseGpuType, ''T4'')] 200 0 = Inr (sampleTree, [])"
    by code_simp
  show "linkEvaluate rev sampleTree [(PodAnnotationUseGpuType, ''T4'')] 200 0 = Inr (sampleTree, [2, 3])"
    by code_simp
qed

end
