(* ===== verification/Json.thy ===== *)
theory Json
  imports K8s_Types
begin

text \<open>
  The part of \<^verbatim>\<open>encoding/json\<close> the program uses. A file that parses as JSON is its value
  \<open>jval\<close>; a decoder takes the value and what the target holds, and returns what the target holds
  afterwards and whether there was no type error: Go goes on after a type error and reports the first
  one at the end. Members of an object are matched to the fields of a struct without regard to case.
\<close>

datatype jval = JNull | JBool bool | JNum int | JReal string | JStr string | JArr "jval list"
  | JObj "(string \<times> jval) list"

type_synonym 'a decoder = "jval \<Rightarrow> 'a \<Rightarrow> 'a \<times> bool"

definition decString :: "string decoder" where
  "decString j old = (case j of JStr s \<Rightarrow> (s, True) | JNull \<Rightarrow> (old, True) | _ \<Rightarrow> (old, False))"

definition decInt64 :: "int decoder" where
  "decInt64 j old =
     (case j of
        JNum n \<Rightarrow> if - (2 ^ 63) \<le> n \<and> n < 2 ^ 63 then (n, True) else (old, False)
      | JNull \<Rightarrow> (old, True)
      | _ \<Rightarrow> (old, False))"

definition decList :: "'a decoder \<Rightarrow> 'a \<Rightarrow> 'a list decoder" where
  "decList dec zero j old =
     (case j of
        JArr vs \<Rightarrow> (map (\<lambda>v. fst (dec v zero)) vs, list_all (\<lambda>v. snd (dec v zero)) vs)
      | JNull \<Rightarrow> ([], True)
      | _ \<Rightarrow> (old, False))"

text \<open>A map keeps the entries it has; every member replaces its entry. The key of a map with
  integer keys is parsed from the member name.\<close>

definition decMapKey :: "(string \<Rightarrow> 'k option) \<Rightarrow> 'a decoder \<Rightarrow> 'a \<Rightarrow> ('k, 'a) gomap decoder" where
  "decMapKey key dec zero j old =
     (case j of
        JObj ms \<Rightarrow>
          foldl (\<lambda>(m, ok) (k, v). case key k of
              None \<Rightarrow> (m, False)
            | Some k' \<Rightarrow> (AList.update k' (fst (dec v zero)) m, ok \<and> snd (dec v zero))) (old, True) ms
      | JNull \<Rightarrow> ([], True)
      | _ \<Rightarrow> (old, False))"

definition decMap :: "'a decoder \<Rightarrow> 'a \<Rightarrow> (string, 'a) gomap decoder" where
  "decMap = decMapKey Some"

definition decIntMap :: "'a decoder \<Rightarrow> 'a \<Rightarrow> (int, 'a) gomap decoder" where
  "decIntMap = decMapKey (\<lambda>k. let (n, ok) = parseInt 64 k in if ok then Some n else None)"

text \<open>A pointer: null makes it nil, anything else is decoded into what it points to, allocated if
  it is nil.\<close>

definition decPtr :: "'a decoder \<Rightarrow> 'a \<Rightarrow> 'a option decoder" where
  "decPtr dec zero j old =
     (case j of
        JNull \<Rightarrow> (None, True)
      | _ \<Rightarrow> (case dec j (case old of None \<Rightarrow> zero | Some x \<Rightarrow> x) of (x, ok) \<Rightarrow> (Some x, ok)))"

text \<open>A struct: for every member the field whose name it carries is decoded.\<close>

definition decStruct :: "(string \<times> 'a decoder) list \<Rightarrow> 'a decoder" where
  "decStruct flds j old =
     (case j of
        JObj ms \<Rightarrow>
          foldl (\<lambda>(x, ok) (k, v).
              case find (\<lambda>f. toLower (fst f) = toLower k) flds of
                None \<Rightarrow> (x, ok)
              | Some f \<Rightarrow> (case snd f v x of (x', ok') \<Rightarrow> (x', ok \<and> ok'))) (old, True) ms
      | JNull \<Rightarrow> (old, True)
      | _ \<Rightarrow> (old, False))"

text \<open>A field of a struct, given by how to read and write it.\<close>

definition fieldDec :: "('s \<Rightarrow> 'a) \<Rightarrow> (('a \<Rightarrow> 'a) \<Rightarrow> 's \<Rightarrow> 's) \<Rightarrow> 'a decoder \<Rightarrow> 's decoder" where
  "fieldDec get upd dec j x = (case dec j (get x) of (v, ok) \<Rightarrow> (upd (\<lambda>_. v) x, ok))"

section \<open>Encoding\<close>

definition encStrings :: "string list \<Rightarrow> jval" where
  "encStrings ss = JArr (map JStr ss)"

text \<open>A map is written with its keys in sorted order; the order does not matter to a reader.\<close>

definition encMap :: "('a \<Rightarrow> jval) \<Rightarrow> (string, 'a) gomap \<Rightarrow> jval" where
  "encMap enc m = JObj (map (\<lambda>(k, v). (k, enc v)) m)"

section \<open>Base64\<close>

text \<open>A byte slice is written as a string in standard base64 encoding.\<close>

definition b64val :: "char \<Rightarrow> nat option" where
  "b64val c = (let n = of_char c :: nat in
     if 65 \<le> n \<and> n \<le> 90 then Some (n - 65)
     else if 97 \<le> n \<and> n \<le> 122 then Some (n - 71)
     else if 48 \<le> n \<and> n \<le> 57 then Some (n + 4)
     else if n = 43 then Some 62 else if n = 47 then Some 63 else None)"

fun b64dec :: "string \<Rightarrow> string option" where
  "b64dec [] = Some []"
| "b64dec [a, b, c, d] =
     (if d \<noteq> CHR ''='' then
        (case (b64val a, b64val b, b64val c, b64val d) of
           (Some w, Some x, Some y, Some z) \<Rightarrow>
             Some [char_of (4 * w + x div 16), char_of (16 * x + y div 4), char_of (64 * y + z)]
         | _ \<Rightarrow> None)
      else if c \<noteq> CHR ''='' then
        (case (b64val a, b64val b, b64val c) of
           (Some w, Some x, Some y) \<Rightarrow> Some [char_of (4 * w + x div 16), char_of (16 * x + y div 4)]
         | _ \<Rightarrow> None)
      else (case (b64val a, b64val b) of
              (Some w, Some x) \<Rightarrow> Some [char_of (4 * w + x div 16)] | _ \<Rightarrow> None))"
| "b64dec (a # b # c # d # e # rest) =
     (case (b64val a, b64val b, b64val c, b64val d, b64dec (e # rest)) of
        (Some w, Some x, Some y, Some z, Some bs) \<Rightarrow>
          Some (char_of (4 * w + x div 16) # char_of (16 * x + y div 4) # char_of (64 * y + z) # bs)
      | _ \<Rightarrow> None)"
| "b64dec _ = None"

definition decBytes :: "string decoder" where
  "decBytes j old =
     (case j of
        JStr s \<Rightarrow> (case b64dec s of Some bs \<Rightarrow> (bs, True) | None \<Rightarrow> (old, False))
      | JNull \<Rightarrow> ([], True)
      | _ \<Rightarrow> (old, False))"

section \<open>Lemmas\<close>

lemma decString_JStr [simp]: "decString (JStr s) old = (s, True)"
  by (simp add: decString_def)

lemma decInt64_JNum: "- (2 ^ 63) \<le> n \<Longrightarrow> n < 2 ^ 63 \<Longrightarrow> decInt64 (JNum n) old = (n, True)"
  by (simp add: decInt64_def)

lemma decList_encStrings [simp]: "decList decString z (encStrings ss) old = (ss, True)"
  by (simp add: decList_def encStrings_def comp_def list_all_iff)

text \<open>Reading back a written map into an empty one, when every entry reads back.\<close>

lemma decMap_encMap:
  assumes "gomap_ok m" "\<And>k v. (k, v) \<in> set m \<Longrightarrow> dec (enc v) zero = (f v, True)"
  shows "decMap dec zero (encMap enc m) [] = (map (\<lambda>(k, v). (k, f v)) m, True)"
proof -
  let ?g = "\<lambda>(m, ok) (k, v). (AList.update k (fst (dec v zero)) m, ok \<and> snd (dec v zero))"
  have step: "foldl ?g (acc, True) (map (\<lambda>(k, v). (k, enc v)) xs) = (acc @ map (\<lambda>(k, v). (k, f v)) xs, True)"
    if "distinct (map fst acc @ map fst xs)" "set xs \<subseteq> set m" for acc xs
    using that
  proof (induction xs arbitrary: acc)
    case (Cons p xs)
    obtain k v where p: "p = (k, v)" by fastforce
    have "dec (enc v) zero = (f v, True)" using assms(2) Cons.prems(2) p by auto
    moreover have "AList.update k (f v) acc = acc @ [(k, f v)]"
      using Cons.prems(1) p by (intro update_new) auto
    ultimately show ?case using Cons.IH [of "acc @ [(k, f v)]"] Cons.prems p by simp
  qed simp
  show ?thesis
    using step [of "[]" m] assms(1)
    by (simp add: decMap_def decMapKey_def encMap_def gomap_ok_def)
qed

end
