(* ===== verification/Stores.thy ===== *)
theory Stores
  imports Json Utils
begin

text \<open>
  The stores that remember allocations: the pod cache of the allocator
  (\<^verbatim>\<open>allocator/cache\<close>), the response manager (\<^verbatim>\<open>services/response\<close>), the kubelet
  checkpoint they are loaded from (\<^verbatim>\<open>utils.GetCheckpointData\<close>), and the checkpoint file
  (\<^verbatim>\<open>allocator/checkpoint\<close>). The two in-memory stores are maps of maps; the locale
  \<open>pod_store\<close> states what their clients rely on.
\<close>

section \<open>The pod cache\<close>

record Info =
  Devices :: "string list"
  iCores :: int
  iMemory :: int

type_synonym containerToInfo = "(string, Info) gomap"

record PodCache =
  PodGPUMapping :: "(string, containerToInfo) gomap"

definition NewAllocateCache :: PodCache where
  "NewAllocateCache = \<lparr>PodGPUMapping = []\<rparr>"

definition Pods :: "(string list \<Rightarrow> string list) \<Rightarrow> PodCache \<Rightarrow> string list" where
  "Pods ord c = map fst (gorange ord (PodGPUMapping c))"

definition cacheInsert :: "PodCache \<Rightarrow> string \<Rightarrow> string \<Rightarrow> Info \<Rightarrow> PodCache" where
  "cacheInsert c podUID contName info =
     (let m = PodGPUMapping c;
          m = (if map_of m podUID = None then AList.update podUID [] m else m)
      in c\<lparr>PodGPUMapping := AList.update podUID (AList.update contName info (the (map_of m podUID))) m\<rparr>)"

definition GetCache :: "PodCache \<Rightarrow> string \<Rightarrow> containerToInfo option" where
  "GetCache c podUID = map_of (PodGPUMapping c) podUID"

definition cacheDelete :: "PodCache \<Rightarrow> string \<Rightarrow> PodCache" where
  "cacheDelete c uid = c\<lparr>PodGPUMapping := AList.delete uid (PodGPUMapping c)\<rparr>"

definition cache_ok :: "PodCache \<Rightarrow> bool" where
  "cache_ok c \<longleftrightarrow> gomap_ok (PodGPUMapping c) \<and> list_all (\<lambda>(u, m). gomap_ok m) (PodGPUMapping c)"

text \<open>
  The cache as JSON. A container may be null in a file that the program did not write; its pointer is
  then nil. \<open>decCache\<close> decodes into a map of pointers.
\<close>

definition encInfo :: "Info \<Rightarrow> jval" where
  "encInfo i = JObj [(''Devices'', encStrings (Devices i)), (''Cores'', JNum (iCores i)), (''Memory'', JNum (iMemory i))]"

definition encCache :: "PodCache \<Rightarrow> jval" where
  "encCache c = JObj [(''PodGPUMapping'', encMap (encMap encInfo) (PodGPUMapping c))]"

definition zeroInfo :: Info where
  "zeroInfo = \<lparr>Devices = [], iCores = 0, iMemory = 0\<rparr>"

definition decInfo :: "Info decoder" where
  "decInfo = decStruct
     [(''Devices'', fieldDec Devices Devices_update (decList decString [])),
      (''Cores'', fieldDec iCores iCores_update decInt64),
      (''Memory'', fieldDec iMemory iMemory_update decInt64)]"

definition decCache :: "(string, (string, Info option) gomap) gomap decoder" where
  "decCache = decStruct [(''PodGPUMapping'', decMap (decMap (decPtr decInfo zeroInfo) None) [])]"

section \<open>The response manager\<close>

type_synonym containerResponseDataMapping = "(string, ContainerAllocateResponse) gomap"
type_synonym respData = "(string, containerResponseDataMapping) gomap"

definition InsertResp :: "respData \<Rightarrow> string \<Rightarrow> string \<Rightarrow> ContainerAllocateResponse \<Rightarrow> respData" where
  "InsertResp d podUID containerName allocResp =
     (let podData = (case map_of d podUID of None \<Rightarrow> [] | Some p \<Rightarrow> p)
      in AList.update podUID (AList.update containerName allocResp podData) d)"

definition DeleteResp :: "respData \<Rightarrow> string \<Rightarrow> string \<Rightarrow> respData" where
  "DeleteResp d podUID containerName =
     (case map_of d podUID of
        None \<Rightarrow> d
      | Some podData \<Rightarrow>
          if map_of podData containerName = None then d
          else let podData = AList.delete containerName podData
               in if podData = [] then AList.delete podUID d else AList.update podUID podData d)"

definition GetResp :: "respData \<Rightarrow> string \<Rightarrow> string \<Rightarrow> ContainerAllocateResponse option" where
  "GetResp d podUID containerName =
     (case map_of d podUID of None \<Rightarrow> None | Some podData \<Rightarrow> map_of podData containerName)"

text \<open>\<^verbatim>\<open>ListAll\<close> copies both levels of the map.\<close>

definition ListAll :: "(string list \<Rightarrow> string list) \<Rightarrow> respData \<Rightarrow> respData" where
  "ListAll ord d =
     foldl (\<lambda>snapshot (uid, cm).
        let podData = (case map_of snapshot uid of None \<Rightarrow> [] | Some p \<Rightarrow> p)
        in AList.update uid (foldl (\<lambda>p (nm, r). AList.update nm r p) podData (gorange ord cm)) snapshot)
       [] (gorange ord d)"

definition resp_ok :: "respData \<Rightarrow> bool" where
  "resp_ok d \<longleftrightarrow> gomap_ok d \<and> list_all (\<lambda>(u, m). gomap_ok m \<and> m \<noteq> []) d"

section \<open>The kubelet checkpoint\<close>

datatype io_error = NotExist | IoErr string | JsonErr

definition zeroEntry :: PodDevicesEntry where
  "zeroEntry = \<lparr>pdPodUID = [], pdContainerName = [], pdResourceName = [], pdDeviceIDs = [], pdAllocResp = []\<rparr>"

definition zeroEntryNUMA :: PodDevicesEntryNUMA where
  "zeroEntryNUMA = \<lparr>pnPodUID = [], pnContainerName = [], pnResourceName = [], pnDeviceIDs = [], pnAllocResp = []\<rparr>"

definition decEntry :: "PodDevicesEntry decoder" where
  "decEntry = decStruct
     [(''PodUID'', fieldDec pdPodUID pdPodUID_update decString),
      (''ContainerName'', fieldDec pdContainerName pdContainerName_update decString),
      (''ResourceName'', fieldDec pdResourceName pdResourceName_update decString),
      (''DeviceIDs'', fieldDec pdDeviceIDs pdDeviceIDs_update (decList decString [])),
      (''AllocResp'', fieldDec pdAllocResp pdAllocResp_update decBytes)]"

definition decEntryNUMA :: "PodDevicesEntryNUMA decoder" where
  "decEntryNUMA = decStruct
     [(''PodUID'', fieldDec pnPodUID pnPodUID_update decString),
      (''ContainerName'', fieldDec pnContainerName pnContainerName_update decString),
      (''ResourceName'', fieldDec pnResourceName pnResourceName_update decString),
      (''DeviceIDs'', fieldDec pnDeviceIDs pnDeviceIDs_update (decIntMap (decList decString []) [])),
      (''AllocResp'', fieldDec pnAllocResp pnAllocResp_update decBytes)]"

definition decCheckpoint :: "Checkpoint decoder" where
  "decCheckpoint = decStruct
     [(''PodDeviceEntries'', fieldDec ckPodDeviceEntries ckPodDeviceEntries_update (decList decEntry zeroEntry)),
      (''RegisteredDevices'', fieldDec ckRegisteredDevices ckRegisteredDevices_update
         (decMap (decList decString []) []))]"

definition decCheckpointNUMA :: "CheckpointNUMA decoder" where
  "decCheckpointNUMA = decStruct
     [(''PodDeviceEntries'', fieldDec cnPodDeviceEntries cnPodDeviceEntries_update (decList decEntryNUMA zeroEntryNUMA)),
      (''RegisteredDevices'', fieldDec cnRegisteredDevices cnRegisteredDevices_update
         (decMap (decList decString []) []))]"

definition emptyCheckpoint :: Checkpoint where
  "emptyCheckpoint = \<lparr>ckPodDeviceEntries = [], ckRegisteredDevices = []\<rparr>"

definition emptyCheckpointNUMA :: CheckpointNUMA where
  "emptyCheckpointNUMA = \<lparr>cnPodDeviceEntries = [], cnRegisteredDevices = []\<rparr>"

text \<open>The wrappers \<^verbatim>\<open>CheckpointDataNUMA\<close> and \<^verbatim>\<open>CheckpointData\<close>: one pointer field.\<close>

definition decDataNUMA :: "CheckpointNUMA option decoder" where
  "decDataNUMA = decStruct [(''Data'', decPtr decCheckpointNUMA emptyCheckpointNUMA)]"

definition decData :: "Checkpoint option decoder" where
  "decData = decStruct [(''Data'', decPtr decCheckpoint emptyCheckpoint)]"

definition numaEntry :: "(int list \<Rightarrow> int list) \<Rightarrow> PodDevicesEntryNUMA \<Rightarrow> PodDevicesEntry" where
  "numaEntry ord v =
     \<lparr>pdPodUID = pnPodUID v, pdContainerName = pnContainerName v, pdResourceName = pnResourceName v,
      pdDeviceIDs = concat (map snd (gorange ord (pnDeviceIDs v))), pdAllocResp = pnAllocResp v\<rparr>"

text \<open>
  \<^verbatim>\<open>GetCheckpointData\<close> on the content of the file: an error of reading it, bytes that are not
  JSON (\<open>None\<close>), or a JSON value. The field of a nil pointer is a panic.
\<close>

definition GetCheckpointData ::
  "(int list \<Rightarrow> int list) \<Rightarrow> io_error + jval option \<Rightarrow> go_fault + io_error + Checkpoint" where
  "GetCheckpointData ord file =
     (case file of
        Inl err \<Rightarrow> Inr (Inl err)
      | Inr None \<Rightarrow> Inr (Inl JsonErr)
      | Inr (Some j) \<Rightarrow>
          (case decDataNUMA j None of
             (d, True) \<Rightarrow>
               (case d of
                  None \<Rightarrow> Inl Panic
                | Some cp \<Rightarrow> Inr (Inr \<lparr>ckPodDeviceEntries = map (numaEntry ord) (cnPodDeviceEntries cp),
                                      ckRegisteredDevices = cnRegisteredDevices cp\<rparr>))
           | (d, False) \<Rightarrow>
               (case decData j None of
                  (_, False) \<Rightarrow> Inr (Inl JsonErr)
                | (Some cp, True) \<Rightarrow> Inr (Inr cp)
                | (None, True) \<Rightarrow>
                    (case decCheckpoint j emptyCheckpoint of
                       (cp, True) \<Rightarrow> Inr (Inr cp)
                     | (_, False) \<Rightarrow> Inr (Inl JsonErr)))))"

text \<open>\<^verbatim>\<open>LoadFromFile\<close>; how a stored response is decoded belongs to the device plugin library and
  is the parameter \<open>unmarshal\<close>. The responses before the first undecodable one stay.\<close>

fun loadEntries ::
  "(string \<Rightarrow> ContainerAllocateResponse option) \<Rightarrow> respData \<Rightarrow> PodDevicesEntry list \<Rightarrow> respData \<times> io_error option" where
  "loadEntries unmarshal d [] = (d, None)"
| "loadEntries unmarshal d (item # items) =
     (if pdResourceName item = VCoreAnnotation
      then case unmarshal (pdAllocResp item) of
             None \<Rightarrow> (d, Some (IoErr ''unmarshal''))
           | Some resp \<Rightarrow> loadEntries unmarshal (InsertResp d (pdPodUID item) (pdContainerName item) resp) items
      else loadEntries unmarshal d items)"

definition LoadFromFile ::
  "(string \<Rightarrow> ContainerAllocateResponse option) \<Rightarrow> (int list \<Rightarrow> int list) \<Rightarrow> io_error + jval option \<Rightarrow> respData
     \<Rightarrow> go_fault + respData \<times> io_error option" where
  "LoadFromFile unmarshal ord file d =
     (case GetCheckpointData ord file of
        Inl e \<Rightarrow> Inl e
      | Inr (Inl NotExist) \<Rightarrow> Inr (d, None)
      | Inr (Inl err) \<Rightarrow> Inr (d, Some err)
      | Inr (Inr cp) \<Rightarrow> Inr (loadEntries unmarshal d (ckPodDeviceEntries cp)))"

section \<open>The checkpoint file\<close>

text \<open>
  The answers of the operating system during one write: the name of the temporary file or an error,
  and the error of each later call, if any. A file system maps paths to contents.
\<close>

record os_answers =
  osMkdir :: "string option"
  osTempFile :: "string + string"
  osWrite :: "string option"
  osSync :: "string option"
  osClose :: "string option"
  osRename :: "string option"
  osRemove :: "string option"

type_synonym 'd files = "(string, 'd) gomap"

definition removePath :: "os_answers \<Rightarrow> 'd files \<Rightarrow> string \<Rightarrow> 'd files \<times> string option" where
  "removePath os fs path =
     (case map_of fs path of
        None \<Rightarrow> (fs, None)
      | Some _ \<Rightarrow> (case osRemove os of None \<Rightarrow> (AList.delete path fs, None) | Some e \<Rightarrow> (fs, Some e)))"

text \<open>The deferred clean-up of \<^verbatim>\<open>writeFile\<close>, run with the error the function returns.\<close>

definition cleanUp :: "os_answers \<Rightarrow> bool \<Rightarrow> string \<Rightarrow> 'd files \<Rightarrow> string option \<Rightarrow> 'd files \<times> string option" where
  "cleanUp os shouldClose tmpPath fs retErr =
     (let retErr = (if shouldClose then
                      (case osClose os of
                         None \<Rightarrow> retErr
                       | Some e \<Rightarrow> Some (case retErr of None \<Rightarrow> ''close error: '' @ e
                           | Some r \<Rightarrow> ''failed to close temp file after error '' @ r @ ''; close error: '' @ e))
                    else retErr)
      in case retErr of
           None \<Rightarrow> (fs, None)
         | Some r \<Rightarrow>
             if tmpPath = [] then (fs, retErr)
             else (case removePath os fs tmpPath of
                     (fs, None) \<Rightarrow> (fs, retErr)
                   | (fs, Some e) \<Rightarrow> (fs, Some (''failed to remove the temporary file after error '' @ r
                       @ ''; remove error: '' @ e))))"

definition writeFile :: "os_answers \<Rightarrow> 'd \<Rightarrow> 'd files \<Rightarrow> string \<Rightarrow> 'd \<Rightarrow> 'd files \<times> string option" where
  "writeFile os nodata fs path data =
     (case osTempFile os of
        Inl err \<Rightarrow> (fs, Some err)
      | Inr tmpPath \<Rightarrow>
          let fs = AList.update tmpPath nodata fs
          in case osWrite os of
               Some err \<Rightarrow> cleanUp os True tmpPath fs (Some err)
             | None \<Rightarrow>
                 let fs = AList.update tmpPath data fs
                 in case osSync os of
                      Some err \<Rightarrow> cleanUp os True tmpPath fs (Some err)
                    | None \<Rightarrow>
                        case osClose os of
                          Some err \<Rightarrow> cleanUp os False tmpPath fs (Some err)
                        | None \<Rightarrow>
                            case osRename os of
                              Some err \<Rightarrow> cleanUp os False tmpPath fs (Some err)
                            | None \<Rightarrow> cleanUp os False tmpPath
                                (AList.update path data (AList.delete tmpPath fs)) None)"

definition ckWrite :: "os_answers \<Rightarrow> 'd \<Rightarrow> 'd files \<Rightarrow> string \<Rightarrow> 'd \<Rightarrow> 'd files \<times> string option" where
  "ckWrite os nodata fs path data =
     (case osMkdir os of Some err \<Rightarrow> (fs, Some err) | None \<Rightarrow> writeFile os nodata fs path data)"

definition ckRead :: "'d files \<Rightarrow> string \<Rightarrow> io_error + 'd" where
  "ckRead fs path = (case map_of fs path of None \<Rightarrow> Inl NotExist | Some d \<Rightarrow> Inr d)"

definition ckDelete :: "os_answers \<Rightarrow> 'd files \<Rightarrow> string \<Rightarrow> 'd files \<times> string option" where
  "ckDelete os fs path = removePath os fs path"

end
