(* ===== verification/Store_Theorems.thy ===== *)
theory Store_Theorems
  imports Stores
begin

text \<open>
  The laws of the stores. The locales state what a client of a store of values per pod and container
  relies on; the pod cache and the response manager are interpretations.
\<close>

section \<open>Interfaces\<close>

locale pod_store =
  fixes sget :: "'s \<Rightarrow> string \<Rightarrow> string \<Rightarrow> 'v option"
    and sput :: "'s \<Rightarrow> string \<Rightarrow> string \<Rightarrow> 'v \<Rightarrow> 's"
  assumes get_put: "sget (sput s p c v) p' c' = (if p' = p \<and> c' = c then Some v else sget s p' c')"
begin

text \<open>A later write wins, writes to different places do not disturb each other, and loading a list of
  values leaves the last one written to each place.\<close>

lemma put_put: "sget (sput (sput s p c v) p c w) = sget (sput s p c w)"
  by (intro ext) (simp add: get_put)

lemma put_commute: "(p, c) \<noteq> (p', c') \<Longrightarrow> sget (sput (sput s p c v) p' c' w) = sget (sput (sput s p' c' w) p c v)"
  by (intro ext) (auto simp: get_put)

lemma get_puts:
  "sget (foldl (\<lambda>s (p, c, v). sput s p c v) s xs) p c =
     (case map_of (rev (map (\<lambda>(p, c, v). ((p, c), v)) xs)) (p, c) of None \<Rightarrow> sget s p c | Some v \<Rightarrow> Some v)"
  by (induction xs arbitrary: s) (auto simp: get_put map_add_def split: option.split)

end

locale pod_store_del = pod_store sget sput
  for sget :: "'s \<Rightarrow> string \<Rightarrow> string \<Rightarrow> 'v option" and sput :: "'s \<Rightarrow> string \<Rightarrow> string \<Rightarrow> 'v \<Rightarrow> 's" +
  fixes sdel :: "'s \<Rightarrow> string \<Rightarrow> string \<Rightarrow> 's"
  assumes get_del: "sget (sdel s p c) p' c' = (if p' = p \<and> c' = c then None else sget s p' c')"
begin

lemma del_put: "sget (sdel (sput s p c v) p c) = sget (sdel s p c)"
  by (intro ext) (simp add: get_put get_del)

lemma del_absent: "sget s p c = None \<Longrightarrow> sget (sdel s p c) = sget s"
  by (intro ext) (simp add: get_del)

end

locale pod_store_drop = pod_store sget sput
  for sget :: "'s \<Rightarrow> string \<Rightarrow> string \<Rightarrow> 'v option" and sput :: "'s \<Rightarrow> string \<Rightarrow> string \<Rightarrow> 'v \<Rightarrow> 's" +
  fixes sdrop :: "'s \<Rightarrow> string \<Rightarrow> 's"
  assumes get_drop: "sget (sdrop s p) p' c' = (if p' = p then None else sget s p' c')"
begin

lemma drop_put: "sget (sdrop (sput s p c v) p) = sget (sdrop s p)"
  by (intro ext) (simp add: get_put get_drop)

end

section \<open>The pod cache\<close>

definition cacheGet :: "PodCache \<Rightarrow> string \<Rightarrow> string \<Rightarrow> Info option" where
  "cacheGet c p n = (case GetCache c p of None \<Rightarrow> None | Some m \<Rightarrow> map_of m n)"

lemma GetCache_insert:
  "GetCache (cacheInsert c p n i) p' =
     (if p' = p then Some (AList.update n i (case GetCache c p of None \<Rightarrow> [] | Some m \<Rightarrow> m)) else GetCache c p')"
  by (auto simp: GetCache_def cacheInsert_def Let_def go_map split: option.split)

lemma GetCache_delete: "GetCache (cacheDelete c p) p' = (if p' = p then None else GetCache c p')"
  by (simp add: GetCache_def cacheDelete_def go_map)

interpretation pod_cache: pod_store_drop cacheGet cacheInsert cacheDelete
proof unfold_locales
  fix s p c v p' c'
  show "cacheGet (cacheInsert s p c v) p' c' = (if p' = p \<and> c' = c then Some v else cacheGet s p' c')"
    by (auto simp: cacheGet_def GetCache_insert go_map split: option.split)
  show "cacheGet (cacheDelete s p) p' c' = (if p' = p then None else cacheGet s p' c')"
    by (simp add: cacheGet_def GetCache_delete)
qed

lemma cache_ok_insert [simp]: "cache_ok c \<Longrightarrow> cache_ok (cacheInsert c p n i)"
proof -
  assume ok: "cache_ok c"
  let ?m = "case map_of (PodGPUMapping c) p of None \<Rightarrow> [] | Some m \<Rightarrow> m"
  have "gomap_ok ?m"
    using ok by (auto simp: cache_ok_def list_all_iff dest: map_of_SomeD split: option.split)
  moreover have "PodGPUMapping (cacheInsert c p n i) = AList.update p (AList.update n i ?m) (PodGPUMapping c)"
    by (auto simp: cacheInsert_def Let_def go_map update_update_same split: option.split)
  ultimately show ?thesis
    using ok set_update_subset unfolding cache_ok_def list_all_iff by fastforce
qed

lemma cache_ok_delete [simp]: "cache_ok c \<Longrightarrow> cache_ok (cacheDelete c p)"
  by (auto simp: cache_ok_def cacheDelete_def list_all_iff set_AList_delete)

lemma cache_ok_new [simp]: "cache_ok NewAllocateCache"
  by (simp add: cache_ok_def NewAllocateCache_def)

section \<open>The response manager\<close>

interpretation responses: pod_store_del GetResp InsertResp DeleteResp
proof unfold_locales
  fix s p c v p' c'
  show "GetResp (InsertResp s p c v) p' c' = (if p' = p \<and> c' = c then Some v else GetResp s p' c')"
    by (auto simp: GetResp_def InsertResp_def Let_def go_map split: option.split)
  show "GetResp (DeleteResp s p c) p' c' = (if p' = p \<and> c' = c then None else GetResp s p' c')"
  proof (cases "map_of s p")
    case (Some m)
    show ?thesis
    proof (cases "AList.delete c m = []")
      case True
      then have "map_of m c'' = None" if "c'' \<noteq> c" for c''
        using that by (metis map_of.simps(1) map_of_AList_delete)
      then show ?thesis using Some True by (auto simp: GetResp_def DeleteResp_def Let_def go_map split: option.split)
    qed (use Some in \<open>auto simp: GetResp_def DeleteResp_def Let_def go_map split: option.split\<close>)
  qed (auto simp: GetResp_def DeleteResp_def)
qed

lemma resp_ok_lookup: "resp_ok d \<Longrightarrow> map_of d p = Some m \<Longrightarrow> gomap_ok m \<and> m \<noteq> []"
  unfolding resp_ok_def list_all_iff by (auto dest: map_of_SomeD)

lemma resp_ok_update:
  "resp_ok d \<Longrightarrow> gomap_ok m \<Longrightarrow> m \<noteq> [] \<Longrightarrow> resp_ok (AList.update p m d)"
  using set_update_subset [of p m d] unfolding resp_ok_def list_all_iff by fastforce

lemma resp_ok_insert:
  assumes "resp_ok d"
  shows "resp_ok (InsertResp d p c r)"
proof -
  have "gomap_ok (case map_of d p of None \<Rightarrow> [] | Some m \<Rightarrow> m)"
    using resp_ok_lookup [OF assms] by (simp split: option.split)
  then have "gomap_ok (AList.update c r (case map_of d p of None \<Rightarrow> [] | Some m \<Rightarrow> m))" by simp
  moreover have "AList.update c r m \<noteq> []" for m by (cases m) auto
  ultimately show ?thesis using resp_ok_update [OF assms] by (simp add: InsertResp_def)
qed

lemma resp_ok_delete: "resp_ok d \<Longrightarrow> resp_ok (DeleteResp d p c)"
proof (cases "map_of d p")
  case (Some m)
  assume ok: "resp_ok d"
  then have "gomap_ok (AList.delete c m)" using resp_ok_lookup Some by auto
  moreover have "resp_ok (AList.delete p d)"
    using ok by (auto simp: resp_ok_def list_all_iff set_AList_delete)
  ultimately show ?thesis using ok Some resp_ok_update by (auto simp: DeleteResp_def Let_def)
qed (simp add: DeleteResp_def)

text \<open>Copying a map entry by entry.\<close>

lemma map_of_copy:
  "map_of (foldl (\<lambda>p (k, v). AList.update k v p) acc xs) k =
     (case map_of (rev xs) k of None \<Rightarrow> map_of acc k | Some v \<Rightarrow> Some v)"
  by (induction xs arbitrary: acc) (auto simp: go_map map_add_def split: option.split)

lemma map_of_perm:
  assumes "gomap_ok m" "range_order ord"
  shows "map_of (rev (gorange ord m)) k = map_of m k"
proof -
  have "distinct (map fst (gorange ord m))"
    using assms by (simp add: gorange_def comp_def range_order_distinct gomap_ok_def)
  then have "distinct (map fst (rev (gorange ord m)))" by (simp add: rev_map [symmetric])
  moreover have "set (rev (gorange ord m)) = set m" using set_gorange [OF assms(2,1)] by simp
  ultimately show ?thesis
    using assms(1) by (metis gomap_ok_def map_of_eqI map_of_eq_Some_iff option.exhaust)
qed

lemma ListAll_get:
  assumes "resp_ok d" "range_order ord"
  shows "GetResp (ListAll ord d) p c = GetResp d p c"
proof -
  have ok: "gomap_ok d" using assms(1) by (simp add: resp_ok_def)
  let ?copy = "\<lambda>cm. foldl (\<lambda>p (nm, r). AList.update nm r p) [] (gorange ord cm)"
  have step: "foldl (\<lambda>snapshot (uid, cm).
        let podData = (case map_of snapshot uid of None \<Rightarrow> [] | Some p \<Rightarrow> p)
        in AList.update uid (foldl (\<lambda>p (nm, r). AList.update nm r p) podData (gorange ord cm)) snapshot) acc xs
      = foldl (\<lambda>p (k, v). AList.update k v p) acc (map (\<lambda>(u, cm). (u, ?copy cm)) xs)"
    if "distinct (map fst xs)" "\<And>u. u \<in> fst ` set xs \<Longrightarrow> map_of acc u = None" for acc xs
    using that
  proof (induction xs arbitrary: acc)
    case (Cons x xs)
    obtain u cm where x: "x = (u, cm)" by fastforce
    have "map_of acc u = None" using Cons.prems(2) x by simp
    moreover have "map_of (AList.update u y acc) w = None" if "w \<in> fst ` set xs" for w y
      using that Cons.prems x by (auto simp: go_map)
    ultimately show ?case using Cons.IH Cons.prems(1) x by simp
  qed simp
  have dist: "distinct (map fst (gorange ord d))"
    using ok assms(2) by (simp add: gorange_def comp_def range_order_distinct gomap_ok_def)
  have la: "ListAll ord d = foldl (\<lambda>p (k, v). AList.update k v p) [] (map (\<lambda>(u, cm). (u, ?copy cm)) (gorange ord d))"
    unfolding ListAll_def using step [OF dist, of "[]"] by simp
  have "map_of (ListAll ord d) p = map_option ?copy (map_of d p)"
  proof -
    have "map_of (rev (map (\<lambda>(u, cm). (u, ?copy cm)) (gorange ord d))) p =
        map_option ?copy (map_of (rev (gorange ord d)) p)"
      by (simp add: rev_map map_of_map)
    then show ?thesis unfolding la map_of_copy map_of_perm [OF ok assms(2)] by (simp split: option.split)
  qed
  moreover have "map_of (?copy m) c = map_of m c" if "map_of d p = Some m" for m
  proof -
    have "gomap_ok m" using resp_ok_lookup [OF assms(1) that] by simp
    then show ?thesis by (simp add: map_of_copy map_of_perm [OF _ assms(2)] split: option.split)
  qed
  ultimately show ?thesis by (auto simp: GetResp_def split: option.split)
qed

section \<open>The theorems\<close>

text \<open>The response manager is a map from pods and containers to responses: a lookup sees
  exactly the last insertion or deletion of that container, no other container of any pod is touched,
  no pod is kept without containers, and \<^verbatim>\<open>ListAll\<close> returns a copy with the same contents,
  whatever the iteration order.\<close>

lemma response_manager_laws:
  assumes "resp_ok d" "range_order ord"
  shows "GetResp (InsertResp d p c r) p' c' = (if p' = p \<and> c' = c then Some r else GetResp d p' c')
    \<and> GetResp (DeleteResp d p c) p' c' = (if p' = p \<and> c' = c then None else GetResp d p' c')
    \<and> GetResp (ListAll ord d) p' c' = GetResp d p' c'
    \<and> resp_ok (InsertResp d p c r) \<and> resp_ok (DeleteResp d p c)"
  using responses.get_put responses.get_del ListAll_get [OF assms] resp_ok_insert resp_ok_delete assms(1)
  by blast

lemma loadEntries_eq:
  "loadEntries unmarshal d items = (d', None) \<Longrightarrow>
     d' = foldl (\<lambda>s (p, c, v). InsertResp s p c v) d
       (map (\<lambda>it. (pdPodUID it, pdContainerName it, the (unmarshal (pdAllocResp it))))
         (filter (\<lambda>it. pdResourceName it = VCoreAnnotation) items))"
  by (induction unmarshal d items rule: loadEntries.induct) (auto split: if_splits option.splits)

lemma loadEntries_decoded:
  "loadEntries unmarshal d items = (d', None) \<Longrightarrow> it \<in> set items \<Longrightarrow> pdResourceName it = VCoreAnnotation \<Longrightarrow>
     unmarshal (pdAllocResp it) \<noteq> None"
  by (induction unmarshal d items rule: loadEntries.induct) (auto split: if_splits option.splits)

text \<open>After the kubelet checkpoint is loaded without error, the response of a container is
  the one decoded from its last entry for the core resource, and containers without such an entry keep
  what they had.\<close>

lemma LoadFromFile_get:
  assumes "GetCheckpointData ord file = Inr (Inr cp)" "LoadFromFile unmarshal ord file d = Inr (d', None)"
  shows "GetResp d' p c =
    (case find (\<lambda>it. pdResourceName it = VCoreAnnotation \<and> pdPodUID it = p \<and> pdContainerName it = c)
            (rev (ckPodDeviceEntries cp)) of
       None \<Rightarrow> GetResp d p c
     | Some it \<Rightarrow> unmarshal (pdAllocResp it))"
proof -
  let ?sel = "filter (\<lambda>it. pdResourceName it = VCoreAnnotation) (ckPodDeviceEntries cp)"
  let ?f = "\<lambda>it. ((pdPodUID it, pdContainerName it), the (unmarshal (pdAllocResp it)))"
  have l: "loadEntries unmarshal d (ckPodDeviceEntries cp) = (d', None)"
    using assms by (simp add: LoadFromFile_def)
  have some: "unmarshal (pdAllocResp it) \<noteq> None" if "it \<in> set ?sel" for it
    using loadEntries_decoded [OF l] that by simp
  have look: "map_of (map ?f xs) (p, c) = (case find (\<lambda>it. pdPodUID it = p \<and> pdContainerName it = c) xs of
      None \<Rightarrow> None | Some it \<Rightarrow> Some (the (unmarshal (pdAllocResp it))))" for xs
    by (induction xs) auto
  have "GetResp d' p c = (case map_of (map ?f (rev ?sel)) (p, c) of None \<Rightarrow> GetResp d p c | Some v \<Rightarrow> Some v)"
    unfolding loadEntries_eq [OF l] responses.get_puts by (simp add: rev_map comp_def)
  also have "\<dots> = (case find (\<lambda>it. pdPodUID it = p \<and> pdContainerName it = c) (rev ?sel) of
       None \<Rightarrow> GetResp d p c | Some it \<Rightarrow> unmarshal (pdAllocResp it))"
    using some unfolding look by (auto split: option.split dest!: find_SomeD)
  finally show ?thesis by (simp add: rev_filter find_filter)
qed

text \<open>A kubelet checkpoint in the first format, an object without the member Data, makes
  \<^verbatim>\<open>GetCheckpointData\<close> dereference a nil pointer: the branch that reads this format is never
  reached.\<close>

lemma checkpoint_v1_panics:
  assumes "\<forall>(k, v) \<in> set ms. toLower k \<noteq> ''data''"
  shows "GetCheckpointData ord (Inr (Some (JObj ms))) = Inl Panic"
proof -
  let ?flds = "[(''Data'', decPtr decCheckpointNUMA emptyCheckpointNUMA)]"
  have lower: "toLower ''Data'' = ''data''" by code_simp
  have "foldl (\<lambda>(x, ok) (k, v). case find (\<lambda>f. toLower (fst f) = toLower k) ?flds of
        None \<Rightarrow> (x, ok) | Some f \<Rightarrow> (case snd f v x of (x', ok') \<Rightarrow> (x', ok \<and> ok'))) (None, True) ms = (None, True)"
    using assms by (induction ms) (auto simp: lower)
  then have "decDataNUMA (JObj ms) None = (None, True)"
    by (simp add: decDataNUMA_def decStruct_def)
  then show ?thesis by (simp add: GetCheckpointData_def)
qed

lemma cleanUp_error:
  assumes "cleanUp os c tmp fs (Some r) = (fs', err)" "tmp \<noteq> []"
  shows "err \<noteq> None" "q \<noteq> tmp \<Longrightarrow> map_of fs' q = map_of fs q" "osRemove os = None \<Longrightarrow> map_of fs' tmp = None"
  using assms
  by (auto simp: cleanUp_def removePath_def Let_def go_map split: option.splits if_splits)

text \<open>Claim C19: writing the checkpoint is a transaction. Given that the temporary file is a new one, the
  checkpoint holds the new data exactly when \<^verbatim>\<open>Write\<close> reports success and what it held before
  otherwise, no other file changes, and the temporary file is gone unless removing it failed too.\<close>

theorem checkpoint_write_atomic:
  assumes "ckWrite os nodata fs path data = (fs', err)"
    and "\<And>tmp. osTempFile os = Inr tmp \<Longrightarrow> tmp \<noteq> [] \<and> tmp \<noteq> path \<and> map_of fs tmp = None"
  shows "map_of fs' path = (if err = None then Some data else map_of fs path)
    \<and> (\<forall>q. q \<noteq> path \<and> osTempFile os \<noteq> Inr q \<longrightarrow> map_of fs' q = map_of fs q)
    \<and> (\<forall>tmp. osTempFile os = Inr tmp \<longrightarrow> osRemove os = None \<longrightarrow> map_of fs' tmp = None)"
proof (cases "osMkdir os")
  case None
  show ?thesis
  proof (cases "osTempFile os")
    case (Inl e)
    then show ?thesis using assms(1) None by (auto simp: ckWrite_def writeFile_def)
  next
    case (Inr t)
    then have t: "t \<noteq> []" "t \<noteq> path" "map_of fs t = None" using assms(2) by auto
    have fail: "?thesis" if "cleanUp os c t (AList.update t x fs) (Some e) = (fs', err)" for c x e
      using cleanUp_error [OF that t(1)] t Inr by (auto simp: go_map)
    have fail2: "?thesis"
      if "cleanUp os c t (AList.update t y (AList.update t x fs)) (Some e) = (fs', err)" for c x y e
      using fail that by (simp add: update_update_same)
    show ?thesis
      using assms(1) None Inr fail fail2 t
      by (auto simp: ckWrite_def writeFile_def Let_def cleanUp_def [of os False t _ None] go_map
          split: option.splits)
  qed
next
  case (Some e)
  then show ?thesis using assms by (auto simp: ckWrite_def)
qed

theorem checkpoint_write_atomic_witness:
  "map_of (fst (ckWrite \<lparr>osMkdir = None, osTempFile = Inr ''.1'', osWrite = None, osSync = None, osClose = None,
     osRename = Some ''EIO'', osRemove = None\<rparr> JNull [(''ckpt'', JBool True)] ''ckpt'' (JBool False))) ''ckpt'' = Some (JBool True)"
proof -
  let ?os = "\<lparr>osMkdir = None, osTempFile = Inr ''.1'', osWrite = None, osSync = None, osClose = None,
     osRename = Some ''EIO'', osRemove = None\<rparr>"
  obtain fs' err where w: "ckWrite ?os JNull [(''ckpt'', JBool True)] ''ckpt'' (JBool False) = (fs', err)"
    by fastforce
  then have "err \<noteq> None" by (auto simp: ckWrite_def writeFile_def cleanUp_def removePath_def Let_def)
  moreover have "map_of fs' ''ckpt'' = (if err = None then Some (JBool False) else map_of [(''ckpt'', JBool True)] ''ckpt'')"
    using checkpoint_write_atomic [OF w] by simp
  ultimately show ?thesis using w by simp
qed

definition info_ok :: "Info \<Rightarrow> bool" where
  "info_ok i \<longleftrightarrow> - (2 ^ 63) \<le> iCores i \<and> iCores i < 2 ^ 63 \<and> - (2 ^ 63) \<le> iMemory i \<and> iMemory i < 2 ^ 63"

lemma toLower_info: "toLower ''Devices'' = ''devices''" "toLower ''Cores'' = ''cores''"
  "toLower ''Memory'' = ''memory''" "toLower ''PodGPUMapping'' = ''podgpumapping''"
  by code_simp+

lemma decInfo_fresh: "info_ok i \<Longrightarrow> decPtr decInfo zeroInfo (encInfo i) None = (Some i, True)"
  by (simp add: decPtr_def encInfo_def decInfo_def decStruct_def toLower_info fieldDec_def
      decInt64_JNum info_ok_def zeroInfo_def)

lemma decCache_encCache:
  assumes "cache_ok c" "\<forall>(u, m) \<in> set (PodGPUMapping c). \<forall>(n, i) \<in> set m. info_ok i"
  shows "decCache (encCache c) [] =
    (map (\<lambda>(u, m). (u, map (\<lambda>(n, i). (n, Some i)) m)) (PodGPUMapping c), True)"
proof -
  have "decMap (decPtr decInfo zeroInfo) None (encMap encInfo m) [] = (map (\<lambda>(n, i). (n, Some i)) m, True)"
    if "(u, m) \<in> set (PodGPUMapping c)" for u m
  proof (rule decMap_encMap)
    show "gomap_ok m" using that assms(1) by (auto simp: cache_ok_def list_all_iff)
    show "decPtr decInfo zeroInfo (encInfo v) None = (Some v, True)" if "(k, v) \<in> set m" for k v
      using that \<open>(u, m) \<in> set (PodGPUMapping c)\<close> assms(2) by (intro decInfo_fresh) fastforce
  qed
  note inner = this
  have "decMap (decMap (decPtr decInfo zeroInfo) None) [] (encMap (encMap encInfo) (PodGPUMapping c)) [] =
      (map (\<lambda>(u, m). (u, map (\<lambda>(n, i). (n, Some i)) m)) (PodGPUMapping c), True)"
    by (rule decMap_encMap) (use assms(1) inner in \<open>simp_all add: cache_ok_def\<close>)
  then show ?thesis by (simp add: decCache_def encCache_def decStruct_def toLower_info)
qed

text \<open>Claim C20: what the allocator writes to its checkpoint reads back: decoding the encoded cache gives
  the same pods, containers and allocations, with no error and no nil pointer.\<close>

theorem cache_json_roundtrip:
  assumes "cache_ok c" "\<forall>(u, m) \<in> set (PodGPUMapping c). \<forall>(n, i) \<in> set m. info_ok i"
  shows "decCache (encCache c) [] =
    (map (\<lambda>(u, m). (u, map (\<lambda>(n, i). (n, Some i)) m)) (PodGPUMapping c), True)"
  by (rule decCache_encCache [OF assms])

theorem cache_json_roundtrip_witness:
  "decCache (encCache \<lparr>PodGPUMapping = [(''u'', [(''c'', \<lparr>Devices = [''/dev/nvidia0''], iCores = 30, iMemory = 1048576\<rparr>)])]\<rparr>) []
    = ([(''u'', [(''c'', Some \<lparr>Devices = [''/dev/nvidia0''], iCores = 30, iMemory = 1048576\<rparr>)])], True)"
  using cache_json_roundtrip [of "\<lparr>PodGPUMapping = [(''u'', [(''c'', \<lparr>Devices = [''/dev/nvidia0''],
      iCores = 30, iMemory = 1048576\<rparr>)])]\<rparr>"]
  by (simp add: cache_ok_def gomap_ok_def info_ok_def)

end
