(* ===== verification/Kube_Api.thy ===== *)
theory Kube_Api
  imports Json
begin

text \<open>
  The calls to the Kubernetes API server. The server is not part of the program: its answers are
  parameters, functions of the number of calls made so far, so that the same call may be answered
  differently each time. A world counts the calls and keeps their log. \<open>poll\<close> is
  \<^verbatim>\<open>wait.PollUntilContextTimeout\<close> with an immediate first round; the number of rounds that fit
  before the deadline is a parameter.
\<close>

datatype api_err = Conflict | ServerTimeout | OtherErr string | DeadlineExceeded

record Node =
  nName :: string
  nAnnotations :: "(string, string) gomap option"

datatype api_call =
    CGetNode string
  | CUpdateNode Node
  | CListPods string "(string \<times> string option) list"
  | CGetPod string string
  | CPatchPod string string jval
  | CUpdateStatus Pod
  | CDeletePod string string

record world =
  tick :: nat
  apiLog :: "api_call list"

record kube =
  kGetNode :: "nat \<Rightarrow> string \<Rightarrow> api_err + Node"
  kUpdateNode :: "nat \<Rightarrow> Node \<Rightarrow> api_err option"
  kListPods :: "nat \<Rightarrow> string \<Rightarrow> (string \<times> string option) list \<Rightarrow> api_err + Pod list"
  kGetPod :: "nat \<Rightarrow> string \<Rightarrow> string \<Rightarrow> api_err + Pod"
  kPatchPod :: "nat \<Rightarrow> string \<Rightarrow> string \<Rightarrow> jval \<Rightarrow> api_err option"
  kUpdateStatus :: "nat \<Rightarrow> Pod \<Rightarrow> api_err option"
  kDeletePod :: "nat \<Rightarrow> string \<Rightarrow> string \<Rightarrow> api_err option"
  kNow :: "nat \<Rightarrow> int"
  kPolls :: nat

definition logCall :: "world \<Rightarrow> api_call \<Rightarrow> world" where
  "logCall w c = w\<lparr>tick := tick w + 1, apiLog := apiLog w @ [c]\<rparr>"

definition getNode :: "kube \<Rightarrow> world \<Rightarrow> string \<Rightarrow> world \<times> (api_err + Node)" where
  "getNode k w nm = (logCall w (CGetNode nm), kGetNode k (tick w) nm)"

definition updateNodeApi :: "kube \<Rightarrow> world \<Rightarrow> Node \<Rightarrow> world \<times> api_err option" where
  "updateNodeApi k w n = (logCall w (CUpdateNode n), kUpdateNode k (tick w) n)"

definition patchPodApi :: "kube \<Rightarrow> world \<Rightarrow> string \<Rightarrow> string \<Rightarrow> jval \<Rightarrow> world \<times> api_err option" where
  "patchPodApi k w ns nm p = (logCall w (CPatchPod ns nm p), kPatchPod k (tick w) ns nm p)"

definition ShouldRetry :: "api_err \<Rightarrow> bool" where
  "ShouldRetry err \<longleftrightarrow> err = Conflict \<or> err = ServerTimeout"

text \<open>A round returns the new state and whether it is done, or an error that ends the poll.\<close>

fun poll :: "nat \<Rightarrow> ('s \<Rightarrow> 's \<times> (api_err + bool)) \<Rightarrow> 's \<Rightarrow> 's \<times> api_err option" where
  "poll 0 cond s = (s, Some DeadlineExceeded)"
| "poll (Suc n) cond s =
     (case cond s of
        (s', Inl e) \<Rightarrow> (s', Some e)
      | (s', Inr True) \<Rightarrow> (s', None)
      | (s', Inr False) \<Rightarrow> poll n cond s')"

definition errStr :: "api_err \<Rightarrow> string" where
  "errStr e = (case e of Conflict \<Rightarrow> ''conflict'' | ServerTimeout \<Rightarrow> ''server timeout''
     | OtherErr s \<Rightarrow> s | DeadlineExceeded \<Rightarrow> ''context deadline exceeded'')"

text \<open>A property that every round keeps holds when the poll ends.\<close>

lemma poll_invariant:
  assumes "poll n cond s = (s', e)" "P s" "\<And>s. P s \<Longrightarrow> P (fst (cond s))"
  shows "P s'"
  using assms(1,2)
proof (induction n arbitrary: s)
  case (Suc n)
  have "P (fst (cond s))" using assms(3) Suc.prems(2) by blast
  then show ?case using Suc by (auto split: prod.splits sum.splits bool.splits)
qed simp

end
