(* ===== verification/Nodelock.thy ===== *)
theory Nodelock
  imports Kube_Api
begin

text \<open>
  \<^verbatim>\<open>pkg/utils/nodelock/nodelock.go\<close>: the lock of a node is an annotation that holds the time it
  was taken. Writing to the annotations of a node that has none is an assignment to a nil map, a panic.
\<close>

definition NodeLockTime :: string where "NodeLockTime = ''tydic.io/node-lock''"

definition MaxLockRetry :: nat where "MaxLockRetry = 5"

definition hasLock :: "Node \<Rightarrow> bool" where
  "hasLock n \<longleftrightarrow> (case nAnnotations n of None \<Rightarrow> False | Some m \<Rightarrow> map_of m NodeLockTime \<noteq> None)"

text \<open>The copy of a node with the lock set to the current time, \<open>None\<close> for a nil map.\<close>

definition withLock :: "int \<Rightarrow> Node \<Rightarrow> Node option" where
  "withLock now n =
     (case nAnnotations n of
        None \<Rightarrow> None
      | Some m \<Rightarrow> Some (n\<lparr>nAnnotations := Some (AList.update NodeLockTime (itoa now) m)\<rparr>))"

definition withoutLock :: "Node \<Rightarrow> Node" where
  "withoutLock n = n\<lparr>nAnnotations := map_option (AList.delete NodeLockTime) (nAnnotations n)\<rparr>"

text \<open>The retry loop of \<^verbatim>\<open>setNodeLock\<close>: \<open>n\<close> rounds are left and \<open>err\<close> is the error of
  the last attempt.\<close>

fun retryLock :: "kube \<Rightarrow> string \<Rightarrow> nat \<Rightarrow> world \<Rightarrow> api_err option \<Rightarrow> go_fault + world \<times> api_err option" where
  "retryLock k nm 0 w err = Inr (w, err)"
| "retryLock k nm (Suc n) w None = Inr (w, None)"
| "retryLock k nm (Suc n) w (Some e) =
     (case getNode k w nm of
        (w, Inl e') \<Rightarrow> retryLock k nm n w (Some e')
      | (w, Inr node) \<Rightarrow>
          (case withLock (kNow k (tick w)) node of
             None \<Rightarrow> Inl Panic
           | Some new \<Rightarrow> (case updateNodeApi k w new of (w, err) \<Rightarrow> retryLock k nm n w err)))"

definition setNodeLock :: "kube \<Rightarrow> world \<Rightarrow> string \<Rightarrow> go_fault + world \<times> string option" where
  "setNodeLock k w nm =
     (case getNode k w nm of
        (w, Inl e) \<Rightarrow> Inr (w, Some (errStr e))
      | (w, Inr node) \<Rightarrow>
          if hasLock node then Inr (w, Some (''node '' @ nm @ '' is locked''))
          else
            (case withLock (kNow k (tick w)) node of
               None \<Rightarrow> Inl Panic
             | Some new \<Rightarrow>
                 (case updateNodeApi k w new of
                    (w, err) \<Rightarrow>
                      (case retryLock k nm MaxLockRetry w err of
                         Inl f \<Rightarrow> Inl f
                       | Inr (w, None) \<Rightarrow> Inr (w, None)
                       | Inr (w, Some e) \<Rightarrow>
                           Inr (w, Some (''setNodeLock exceeds retry count '' @ natStr MaxLockRetry))))))"

fun retryRelease :: "kube \<Rightarrow> string \<Rightarrow> nat \<Rightarrow> world \<Rightarrow> api_err option \<Rightarrow> world \<times> api_err option" where
  "retryRelease k nm 0 w err = (w, err)"
| "retryRelease k nm (Suc n) w None = (w, None)"
| "retryRelease k nm (Suc n) w (Some e) =
     (case getNode k w nm of
        (w, Inl e') \<Rightarrow> retryRelease k nm n w (Some e')
      | (w, Inr node) \<Rightarrow>
          (case updateNodeApi k w (withoutLock node) of (w, err) \<Rightarrow> retryRelease k nm n w err))"

definition ReleaseNodeLock :: "kube \<Rightarrow> world \<Rightarrow> string \<Rightarrow> world \<times> string option" where
  "ReleaseNodeLock k w nm =
     (case getNode k w nm of
        (w, Inl e) \<Rightarrow> (w, Some (errStr e))
      | (w, Inr node) \<Rightarrow>
          if \<not> hasLock node then (w, None)
          else
            (case updateNodeApi k w (withoutLock node) of
               (w, err) \<Rightarrow>
                 (case retryRelease k nm MaxLockRetry w err of
                    (w, None) \<Rightarrow> (w, None)
                  | (w, Some e) \<Rightarrow>
                      (w, Some (''releaseNodeLock exceeds retry count '' @ natStr MaxLockRetry)))))"

text \<open>Five minutes, in nanoseconds.\<close>

definition lockTimeout :: int where "lockTimeout = 300000000000"

definition LockNode :: "kube \<Rightarrow> world \<Rightarrow> string \<Rightarrow> go_fault + world \<times> string option" where
  "LockNode k w nm =
     (case getNode k w nm of
        (w, Inl e) \<Rightarrow> Inr (w, Some (errStr e))
      | (w, Inr node) \<Rightarrow>
          (case map_of (case nAnnotations node of None \<Rightarrow> [] | Some m \<Rightarrow> m) NodeLockTime of
             None \<Rightarrow> setNodeLock k w nm
           | Some nanoStr \<Rightarrow>
               (let (nano, ok) = parseInt 64 nanoStr
                in if \<not> ok then Inr (w, Some ''invalid lock time'')
                   else if lockTimeout < kNow k (tick w) - nano
                   then (case ReleaseNodeLock k w nm of
                           (w, Some e) \<Rightarrow> Inr (w, Some e)
                         | (w, None) \<Rightarrow> setNodeLock k w nm)
                   else Inr (w, Some (''node '' @ nm @ '' has been locked within 5 minutes'')))))"

section \<open>Lemmas\<close>

definition updates :: "world \<Rightarrow> Node list" where
  "updates w = concat (map (\<lambda>c. case c of CUpdateNode n \<Rightarrow> [n] | _ \<Rightarrow> []) (apiLog w))"

lemma api_world:
  "getNode k w nm = (w', r) \<Longrightarrow> tick w' = tick w + 1 \<and> updates w' = updates w"
  "updateNodeApi k w n = (w', e) \<Longrightarrow> tick w' = tick w + 1 \<and> updates w' = updates w @ [n]"
  by (auto simp: getNode_def updateNodeApi_def logCall_def updates_def)

lemma hasLock_withLock: "withLock now n = Some n' \<Longrightarrow> hasLock n' \<and> nName n' = nName n"
  by (auto simp: withLock_def hasLock_def go_map split: option.splits)

text \<open>What releasing the lock of a node means: the node is the same but for the annotation of the lock, which
  is gone.\<close>

definition annotationsOf :: "Node \<Rightarrow> string \<Rightarrow> string option" where
  "annotationsOf n = (case nAnnotations n of None \<Rightarrow> Map.empty | Some m \<Rightarrow> map_of m)"

definition released :: "Node \<Rightarrow> Node \<Rightarrow> bool" where
  "released node u \<longleftrightarrow> u = node\<lparr>nAnnotations := nAnnotations u\<rparr> \<and> annotationsOf u = (annotationsOf node)(NodeLockTime := None)"

lemma released_withoutLock: "released n (withoutLock n)"
  by (auto simp: released_def withoutLock_def annotationsOf_def delete_conv' split: option.split)

text \<open>The last call made was an update with this node, and the server accepted it.\<close>

definition accepted :: "kube \<Rightarrow> world \<Rightarrow> Node \<Rightarrow> bool" where
  "accepted k w u \<longleftrightarrow> apiLog w \<noteq> [] \<and> last (apiLog w) = CUpdateNode u \<and> kUpdateNode k (tick w - 1) u = None"

lemma update_accepted: "updateNodeApi k w u = (w', None) \<Longrightarrow> accepted k w' u"
  by (auto simp: updateNodeApi_def logCall_def accepted_def)

lemma retryLock_ok:
  "retryLock k nm n w err = Inr (w', None) \<Longrightarrow> err = None \<and> w' = w \<or> (\<exists>u. accepted k w' u \<and> hasLock u)"
proof (induction k nm n w err rule: retryLock.induct)
  case (3 k nm n w e)
  obtain w1 r where g: "getNode k w nm = (w1, r)" by fastforce
  show ?case
  proof (cases r)
    case (Inl e')
    then show ?thesis using 3 g by auto
  next
    case (Inr node)
    then obtain new where new: "withLock (kNow k (tick w1)) node = Some new"
      using 3(3) g by (auto split: option.splits)
    obtain w2 err where u: "updateNodeApi k w1 new = (w2, err)" by fastforce
    then have r: "retryLock k nm n w2 err = Inr (w', None)" using 3(3) g Inr new by simp
    show ?thesis
      using 3(2) [OF g [symmetric] Inr new u [symmetric] r] update_accepted u hasLock_withLock [OF new] by blast
  qed
qed auto

text \<open>The server accepted the node that was read just before, with its lock released.\<close>

definition releaseAccepted :: "kube \<Rightarrow> string \<Rightarrow> world \<Rightarrow> bool" where
  "releaseAccepted k nm w \<longleftrightarrow> (\<exists>node u. kGetNode k (tick w - 2) nm = Inr node \<and> accepted k w u \<and> released node u)"

lemma update_releases:
  assumes "getNode k w nm = (w1, Inr node)" "updateNodeApi k w1 (withoutLock node) = (w2, None)"
  shows "releaseAccepted k nm w2"
proof -
  have "tick w2 - 2 = tick w" "kGetNode k (tick w) nm = Inr node"
    using api_world(1) [OF assms(1)] api_world(2) [OF assms(2)] assms(1) by (simp_all add: getNode_def)
  then show ?thesis using update_accepted [OF assms(2)] released_withoutLock unfolding releaseAccepted_def by metis
qed

lemma retryRelease_ok:
  "retryRelease k nm n w err = (w', None) \<Longrightarrow> err = None \<and> w' = w \<or> releaseAccepted k nm w'"
proof (induction k nm n w err rule: retryRelease.induct)
  case (3 k nm n w e)
  obtain w1 r where g: "getNode k w nm = (w1, r)" by fastforce
  show ?case
  proof (cases r)
    case (Inl e')
    then show ?thesis using 3 g by auto
  next
    case (Inr node)
    obtain w2 err where u: "updateNodeApi k w1 (withoutLock node) = (w2, err)" by fastforce
    then have r: "retryRelease k nm n w2 err = (w', None)" using 3(3) g Inr by simp
    show ?thesis
      using 3(2) [OF g [symmetric] Inr u [symmetric] r] update_releases g Inr u by blast
  qed
qed auto

lemma setNodeLock_accepted:
  assumes "setNodeLock k w nm = Inr (w', None)"
  shows "\<exists>u. accepted k w' u \<and> hasLock u"
proof -
  obtain w1 node where g: "getNode k w nm = (w1, Inr node)" "\<not> hasLock node"
    using assms by (auto simp: setNodeLock_def split: prod.splits sum.splits if_splits)
  obtain new where n: "withLock (kNow k (tick w1)) node = Some new"
    using assms g by (auto simp: setNodeLock_def split: option.splits)
  obtain w2 err where u: "updateNodeApi k w1 new = (w2, err)" by fastforce
  have "retryLock k nm MaxLockRetry w2 err = Inr (w', None)"
    using assms g n u by (auto simp: setNodeLock_def split: sum.splits option.splits)
  from retryLock_ok [OF this] show ?thesis
    using update_accepted u hasLock_withLock [OF n] by blast
qed

lemma retryRelease_ticks: "tick (fst (retryRelease k nm n w err)) \<le> tick w + 2 * n"
proof (induction k nm n w err rule: retryRelease.induct)
  case (3 k nm n w e)
  obtain w1 r where g: "getNode k w nm = (w1, r)" by fastforce
  show ?case
  proof (cases r)
    case (Inl e')
    then show ?thesis using 3 g api_world(1) [OF g] by fastforce
  next
    case (Inr node)
    obtain w2 err where u: "updateNodeApi k w1 (withoutLock node) = (w2, err)" by fastforce
    then show ?thesis
      using 3(2) [OF g [symmetric] Inr u [symmetric]] Inr g api_world(1) [OF g] api_world(2) [OF u] by simp
  qed
qed auto

section \<open>A sample server\<close>

text \<open>A server whose node is unlocked, then locked by somebody else, and whose second call fails.\<close>

definition contendedKube :: kube where
  "contendedKube = \<lparr>
     kGetNode = (\<lambda>i nm. Inr \<lparr>nName = nm, nAnnotations = Some (if i < 2 then [] else [(NodeLockTime, ''7'')])\<rparr>),
     kUpdateNode = (\<lambda>i n. if i = 1 then Some Conflict else None),
     kListPods = (\<lambda>i h sel. Inr []), kGetPod = (\<lambda>i ns nm. Inl Conflict), kPatchPod = (\<lambda>i ns nm p. None),
     kUpdateStatus = (\<lambda>i p. None), kDeletePod = (\<lambda>i ns nm. None), kNow = (\<lambda>i. 9), kPolls = 10\<rparr>"

definition startWorld :: world where
  "startWorld = \<lparr>tick = 0, apiLog = []\<rparr>"

section \<open>The theorems\<close>

text \<open>Claim C21: \<^verbatim>\<open>LockNode\<close> reports success only after the server accepted an update of the node
  that carries the lock, and a node whose lock is at most five minutes old is refused without any
  update being sent.\<close>

theorem LockNode_correct:
  "(LockNode k w nm = Inr (w', None) \<longrightarrow> (\<exists>u. accepted k w' u \<and> hasLock u))
   \<and> (kGetNode k (tick w) nm = Inr node \<and> nAnnotations node = Some m \<and> map_of m NodeLockTime = Some s
      \<and> parseInt 64 s = (nano, True) \<and> kNow k (tick w + 1) - nano \<le> lockTimeout
      \<longrightarrow> (\<exists>w' e. LockNode k w nm = Inr (w', Some e) \<and> updates w' = updates w))"
proof (intro conjI impI)
  assume l: "LockNode k w nm = Inr (w', None)"
  then obtain w1 where "setNodeLock k w1 nm = Inr (w', None)"
    unfolding LockNode_def Let_def by (auto split: prod.splits sum.splits option.splits if_splits)
  then show "\<exists>u. accepted k w' u \<and> hasLock u" by (rule setNodeLock_accepted)
next
  assume "kGetNode k (tick w) nm = Inr node \<and> nAnnotations node = Some m \<and> map_of m NodeLockTime = Some s
      \<and> parseInt 64 s = (nano, True) \<and> kNow k (tick w + 1) - nano \<le> lockTimeout"
  then show "\<exists>w' e. LockNode k w nm = Inr (w', Some e) \<and> updates w' = updates w"
    by (auto simp: LockNode_def getNode_def logCall_def updates_def)
qed

theorem LockNode_correct_witness:
  "(\<exists>u w'. accepted contendedKube w' u \<and> hasLock u)
   \<and> (\<exists>w' e. LockNode contendedKube (startWorld\<lparr>tick := 4\<rparr>) ''n'' = Inr (w', Some e)
        \<and> updates w' = updates (startWorld\<lparr>tick := 4\<rparr>))"
proof
  have "map_sum id snd (LockNode contendedKube startWorld ''n'') = Inr None" by code_simp
  then obtain w' where "LockNode contendedKube startWorld ''n'' = Inr (w', None)"
    by (cases "LockNode contendedKube startWorld ''n''") auto
  then show "\<exists>u w'. accepted contendedKube w' u \<and> hasLock u" using LockNode_correct by blast
  have "kGetNode contendedKube 4 ''n'' = Inr \<lparr>nName = ''n'', nAnnotations = Some [(NodeLockTime, ''7'')]\<rparr>"
    "parseInt 64 ''7'' = (7, True)" "kNow contendedKube 5 - 7 \<le> lockTimeout"
    by code_simp+
  then show "\<exists>w' e. LockNode contendedKube (startWorld\<lparr>tick := 4\<rparr>) ''n'' = Inr (w', Some e)
        \<and> updates w' = updates (startWorld\<lparr>tick := 4\<rparr>)"
    using LockNode_correct [of contendedKube "startWorld\<lparr>tick := 4\<rparr>" "''n''" startWorld
        "\<lparr>nName = ''n'', nAnnotations = Some [(NodeLockTime, ''7'')]\<rparr>" "[(NodeLockTime, ''7'')]" "''7''" 7]
    by simp
qed

text \<open>Claim C22: \<^verbatim>\<open>ReleaseNodeLock\<close> makes at most twelve calls; it reports success only when it saw
  the node without the annotation of the lock and sent nothing, or when its last call was an update the
  server accepted, with the node as it was read from the server just before, without the annotation of the
  lock and with every other annotation unchanged. It reports success when the server answers the first read
  and accepts the first update.\<close>

theorem ReleaseNodeLock_correct:
  assumes "ReleaseNodeLock k w nm = (w', err)"
  shows "tick w' \<le> tick w + 12
    \<and> (err = None \<longrightarrow>
        (\<exists>node. kGetNode k (tick w) nm = Inr node \<and> annotationsOf node NodeLockTime = None \<and> updates w' = updates w)
        \<or> (\<exists>node u. kGetNode k (tick w' - 2) nm = Inr node \<and> accepted k w' u
             \<and> u = node\<lparr>nAnnotations := nAnnotations u\<rparr> \<and> annotationsOf u = (annotationsOf node)(NodeLockTime := None)))
    \<and> ((\<exists>node. kGetNode k (tick w) nm = Inr node) \<and> (\<forall>u. kUpdateNode k (tick w + 1) u = None) \<longrightarrow> err = None)"
proof -
  obtain w1 r where g: "getNode k w nm = (w1, r)" by fastforce
  have r: "kGetNode k (tick w) nm = r" using g by (simp add: getNode_def)
  note gw = api_world(1) [OF g]
  have lock: "hasLock node \<longleftrightarrow> annotationsOf node NodeLockTime \<noteq> None" for node
    by (simp add: hasLock_def annotationsOf_def split: option.split)
  show ?thesis
  proof (cases "\<exists>node. r = Inr node \<and> hasLock node")
    case False
    then show ?thesis using assms g gw r lock by (cases r) (auto simp: ReleaseNodeLock_def)
  next
    case True
    then obtain node where n: "r = Inr node" "hasLock node" by blast
    obtain w2 e where u: "updateNodeApi k w1 (withoutLock node) = (w2, e)" by fastforce
    obtain w3 e' where rr: "retryRelease k nm MaxLockRetry w2 e = (w3, e')" by fastforce
    have res: "w' = w3" "err = None \<longleftrightarrow> e' = None"
      using assms g n u rr by (auto simp: ReleaseNodeLock_def split: option.splits)
    have "tick w3 \<le> tick w2 + 10" using retryRelease_ticks [of k nm MaxLockRetry w2 e] rr by (simp add: MaxLockRetry_def)
    then have "tick w' \<le> tick w + 12" using res gw api_world(2) [OF u] by simp
    moreover have "releaseAccepted k nm w'" if "err = None"
    proof -
      have "retryRelease k nm MaxLockRetry w2 e = (w3, None)" using rr res that by simp
      from retryRelease_ok [OF this] show ?thesis using res(1) u update_releases g n(1) by blast
    qed
    moreover have "err = None" if "\<forall>u. kUpdateNode k (tick w + 1) u = None"
    proof -
      have "e = None" using that u gw by (auto simp: updateNodeApi_def)
      with rr res(2) show ?thesis by (simp add: MaxLockRetry_def numeral_eq_Suc)
    qed
    ultimately show ?thesis unfolding releaseAccepted_def released_def by blast
  qed
qed

theorem ReleaseNodeLock_correct_witness:
  "\<exists>w' u. ReleaseNodeLock contendedKube (startWorld\<lparr>tick := 2\<rparr>) ''n'' = (w', None) \<and> accepted contendedKube w' u
     \<and> annotationsOf u NodeLockTime = None"
proof -
  obtain w' e where r: "ReleaseNodeLock contendedKube (startWorld\<lparr>tick := 2\<rparr>) ''n'' = (w', e)" by fastforce
  note c = ReleaseNodeLock_correct [OF r]
  have k: "kGetNode contendedKube 2 ''n'' = Inr \<lparr>nName = ''n'', nAnnotations = Some [(NodeLockTime, ''7'')]\<rparr>"
    "\<forall>u. kUpdateNode contendedKube 3 u = None" by (simp_all add: contendedKube_def)
  then have e: "e = None" using c by simp
  with c k obtain u where "accepted contendedKube w' u" "annotationsOf u NodeLockTime = None"
    by (auto simp: annotationsOf_def)
  with r e show ?thesis by blast
qed

text \<open>Claim C28: taking the lock is not mutually exclusive. When the first update of
  \<^verbatim>\<open>setNodeLock\<close> fails because another client took the lock in between, the retry does not look
  at the annotation: it overwrites the lock of the other client and reports success.\<close>

theorem setNodeLock_steals_lock:
  assumes "kGetNode k (tick w) nm = Inr n0" "\<not> hasLock n0" "nAnnotations n0 = Some m0"
    and "\<And>u. kUpdateNode k (tick w + 1) u = Some Conflict"
    and "kGetNode k (tick w + 2) nm = Inr n1" "hasLock n1" "nAnnotations n1 = Some m1"
    and "\<And>u. kUpdateNode k (tick w + 3) u = None"
  shows "\<exists>w' u. setNodeLock k w nm = Inr (w', None) \<and> accepted k w' u
    \<and> nAnnotations u = Some (AList.update NodeLockTime (itoa (kNow k (tick w + 3))) m1)"
  using assms
  by (auto simp: setNodeLock_def getNode_def updateNodeApi_def logCall_def withLock_def MaxLockRetry_def
      accepted_def numeral_eq_Suc)

theorem setNodeLock_steals_lock_witness:
  "\<exists>w' u. setNodeLock contendedKube startWorld ''n'' = Inr (w', None) \<and> accepted contendedKube w' u
    \<and> nAnnotations u = Some (AList.update NodeLockTime (itoa 9) [(NodeLockTime, ''7'')])"
  using setNodeLock_steals_lock [of contendedKube startWorld "''n''" "\<lparr>nName = ''n'', nAnnotations = Some []\<rparr>" "[]"
      "\<lparr>nName = ''n'', nAnnotations = Some [(NodeLockTime, ''7'')]\<rparr>" "[(NodeLockTime, ''7'')]"]
  by (simp add: contendedKube_def startWorld_def hasLock_def)

end
