(* ===== verification/Watchdog.thy ===== *)
theory Watchdog
  imports Utils
begin

text \<open>
  \<^verbatim>\<open>pkg/services/watchdog/watchdog.go\<close>: which pods of the node are active. The pods come from the
  informer's store, a parameter; \<open>None\<close> stands for a pod cache that was never created.
\<close>

definition notRunning :: "ContainerStatus list \<Rightarrow> bool" where
  "notRunning statuses \<longleftrightarrow> list_all (\<lambda>s. csTerminated s \<or> csWaitingMessage s \<noteq> None) statuses"

definition podIsTerminated :: "Pod \<Rightarrow> bool" where
  "podIsTerminated pod \<longleftrightarrow> pPhase pod = ''Failed'' \<or> pPhase pod = ''Succeeded''
     \<or> (pDeleting pod \<and> notRunning (pStatuses pod))"

definition GetActivePods :: "Pod list option \<Rightarrow> (string, Pod) gomap" where
  "GetActivePods store =
     (case store of
        None \<Rightarrow> []
      | Some items \<Rightarrow>
          foldl (\<lambda>m pod. if podIsTerminated pod then m
                         else if \<not> IsGPURequiredPod pod then m
                         else AList.update (pUID pod) pod m) [] items)"

text \<open>\<^verbatim>\<open>GetPod\<close>, on what the lister finds under the name.\<close>

definition watchdogGetPod :: "string + Pod \<Rightarrow> string + Pod" where
  "watchdogGetPod found =
     (case found of
        Inl err \<Rightarrow> Inl err
      | Inr pod \<Rightarrow>
          if podIsTerminated pod then Inl ''terminated pod''
          else if \<not> IsGPURequiredPod pod then Inl ''no gpu pod''
          else Inr pod)"

lemma GetActivePods_gomap: "gomap_ok (GetActivePods store)"
proof -
  have "gomap_ok (foldl (\<lambda>m pod. if podIsTerminated pod then m
      else if \<not> IsGPURequiredPod pod then m else AList.update (pUID pod) pod m) acc items)"
    if "gomap_ok acc" for acc items
    using that by (induction items arbitrary: acc) auto
  then show ?thesis by (simp add: GetActivePods_def split: option.split)
qed

lemma GetActivePods_Some:
  assumes "map_of (GetActivePods (Some items)) u = Some pod"
  shows "pod \<in> set items \<and> pUID pod = u \<and> \<not> podIsTerminated pod \<and> IsGPURequiredPod pod"
proof -
  let ?f = "\<lambda>m pod. if podIsTerminated pod then m
      else if \<not> IsGPURequiredPod pod then m else AList.update (pUID pod) pod m"
  have "map_of acc u = Some pod \<or> (pod \<in> set items \<and> pUID pod = u \<and> \<not> podIsTerminated pod \<and> IsGPURequiredPod pod)"
    if "map_of (foldl ?f acc items) u = Some pod" for acc
    using that
  proof (induction items arbitrary: acc)
    case (Cons p items)
    then have "map_of (?f acc p) u = Some pod
        \<or> (pod \<in> set items \<and> pUID pod = u \<and> \<not> podIsTerminated pod \<and> IsGPURequiredPod pod)" by simp
    then show ?case by (auto simp: go_map split: if_splits)
  qed simp
  from this [of "[]"] assms show ?thesis by (simp add: GetActivePods_def)
qed

end
