(* ===== verification/Go_Float.thy ===== *)
theory Go_Float
  imports Complex_Main
begin

text \<open>
  Floating point numbers of Go: finite values are rational numbers, and every operation and conversion
  rounds its exact result to the nearest value with the precision of the type, ties to even
  (\<^verbatim>\<open>float32\<close> has 24 significant bits, \<^verbatim>\<open>float64\<close> 53). A \<^verbatim>\<open>float64\<close> that comes from outside, like the
  memory scaling of the command line, may also be an infinity or not a number; these are constructors of
  the datatype \<open>float64\<close>. Not modelled are the sign of zero, which no comparison or conversion of the
  program sees, and the loss of precision next to zero (denormal numbers).
\<close>

section \<open>Rounding\<close>

text \<open>The number of binary digits of a positive integer.\<close>

function bitCount :: "int \<Rightarrow> int" where
  "bitCount n = (if n \<le> 0 then 0 else 1 + bitCount (n div 2))"
  by pat_completeness auto
termination by (relation "measure nat") auto

declare bitCount.simps [simp del]

definition roundEven :: "rat \<Rightarrow> int" where
  "roundEven x =
     (let n = \<lfloor>x\<rfloor>; d = x - of_int n
      in if d < 1 / 2 then n else if 1 / 2 < d then n + 1 else if even n then n else n + 1)"

text \<open>The exponent of a positive number: the power of two at or below it.\<close>

definition floatExp :: "rat \<Rightarrow> int" where
  "floatExp x =
     (let (p, q) = quotient_of x; e = bitCount p - bitCount q
      in if (2 :: rat) powi e \<le> x then e else e - 1)"

definition roundTo :: "int \<Rightarrow> rat \<Rightarrow> rat" where
  "roundTo prec x =
     (if x = 0 then 0
      else let u = 2 powi (floatExp \<bar>x\<bar> - (prec - 1)) in of_int (roundEven (x / u)) * u)"

definition f32 :: "rat \<Rightarrow> rat" where "f32 = roundTo 24"
definition f64 :: "rat \<Rightarrow> rat" where "f64 = roundTo 53"

text \<open>The conversion to an integer drops the fraction.\<close>

definition truncRat :: "rat \<Rightarrow> int" where
  "truncRat x = (if 0 \<le> x then \<lfloor>x\<rfloor> else \<lceil>x\<rceil>)"

section \<open>Values of the type float64\<close>

datatype float64 = Fin rat | PInf | NInf | NaN

text \<open>The value nearest to an exact result; what is too large for the exponent is infinite.\<close>

definition toFloat64 :: "rat \<Rightarrow> float64" where
  "toFloat64 x = (let y = f64 x in if 2 ^ 1024 \<le> y then PInf else if y \<le> - (2 ^ 1024) then NInf else Fin y)"

definition infOf :: "bool \<Rightarrow> float64" where
  "infOf negative = (if negative then NInf else PInf)"

fun fmul :: "float64 \<Rightarrow> float64 \<Rightarrow> float64" where
  "fmul (Fin x) (Fin y) = toFloat64 (x * y)"
| "fmul (Fin x) PInf = (if x = 0 then NaN else infOf (x < 0))"
| "fmul (Fin x) NInf = (if x = 0 then NaN else infOf (0 < x))"
| "fmul PInf (Fin y) = (if y = 0 then NaN else infOf (y < 0))"
| "fmul NInf (Fin y) = (if y = 0 then NaN else infOf (0 < y))"
| "fmul PInf PInf = PInf"
| "fmul NInf NInf = PInf"
| "fmul PInf NInf = NInf"
| "fmul NInf PInf = NInf"
| "fmul NaN b = NaN"
| "fmul a NaN = NaN"

text \<open>The comparison \<^verbatim>\<open>a < b\<close>, false whenever one side is not a number.\<close>

fun fless :: "float64 \<Rightarrow> float64 \<Rightarrow> bool" where
  "fless (Fin x) (Fin y) \<longleftrightarrow> x < y"
| "fless (Fin x) PInf \<longleftrightarrow> True"
| "fless NInf (Fin y) \<longleftrightarrow> True"
| "fless NInf PInf \<longleftrightarrow> True"
| "fless a b \<longleftrightarrow> False"

text \<open>The conversion to \<^verbatim>\<open>int64\<close> drops the fraction. For what does not fit, the language leaves the result
  to the implementation; this is the result on amd64.\<close>

definition toInt64 :: "float64 \<Rightarrow> int" where
  "toInt64 a =
     (case a of
        Fin x \<Rightarrow> if - (2 ^ 63) \<le> truncRat x \<and> truncRat x < 2 ^ 63 then truncRat x else - (2 ^ 63)
      | _ \<Rightarrow> - (2 ^ 63))"

text \<open>\<^verbatim>\<open>int64(scaling * float64(n))\<close>.\<close>

definition scaleInt :: "float64 \<Rightarrow> int \<Rightarrow> int" where
  "scaleInt scaling n = toInt64 (fmul scaling (toFloat64 (of_int n)))"

section \<open>Exact integers\<close>

lemma roundEven_int [simp]: "roundEven (of_int n) = n"
  by (simp add: roundEven_def)

lemma bitCount_bounds: "0 < n \<Longrightarrow> 0 < bitCount n \<and> 2 ^ nat (bitCount n - 1) \<le> n \<and> n < 2 ^ nat (bitCount n)"
proof (induction n rule: bitCount.induct)
  case (1 n)
  show ?case
  proof (cases "n = 1")
    case True
    then show ?thesis by (simp add: bitCount.simps [of 1] bitCount.simps [of 0])
  next
    case False
    with 1 have h: "0 < n div 2" by auto
    from 1(1) [OF _ this] 1(2) have ih: "0 < bitCount (n div 2)" "2 ^ nat (bitCount (n div 2) - 1) \<le> n div 2"
      "n div 2 < 2 ^ nat (bitCount (n div 2))" by auto
    have b: "bitCount n = 1 + bitCount (n div 2)" using 1(2) by (simp add: bitCount.simps [of n])
    have "nat (bitCount n) = Suc (nat (bitCount (n div 2)))" "nat (bitCount n - 1) = Suc (nat (bitCount (n div 2) - 1))"
      using ih(1) b by (simp_all add: nat_add_distrib)
    with ih(2,3) b ih(1) have "2 ^ nat (bitCount n - 1) = 2 * (2 :: int) ^ nat (bitCount (n div 2) - 1)"
      "2 ^ nat (bitCount n) = 2 * (2 :: int) ^ nat (bitCount (n div 2))" by simp_all
    with ih b show ?thesis by linarith
  qed
qed

lemma bitCount_le: "0 < n \<Longrightarrow> n < 2 ^ k \<Longrightarrow> bitCount n \<le> int k"
proof -
  assume n: "0 < n" "n < 2 ^ k"
  then have "(2 :: int) ^ nat (bitCount n - 1) < 2 ^ k" using bitCount_bounds [OF n(1)] by linarith
  then have "nat (bitCount n - 1) < k" by (rule power_less_imp_less_exp [rotated]) simp
  then show ?thesis by linarith
qed

lemma floatExp_int:
  assumes "0 < n"
  shows "floatExp (of_int n) \<le> bitCount n - 1"
proof -
  have "bitCount 1 = 1" by (simp add: bitCount.simps [of 1] bitCount.simps [of 0])
  then show ?thesis by (simp add: floatExp_def Let_def)
qed

lemma roundTo_int:
  assumes "\<bar>n\<bar> < 2 ^ k" "int k \<le> prec"
  shows "roundTo prec (of_int n) = of_int n"
proof (cases "n = 0")
  case False
  define e where "e = floatExp \<bar>of_int n\<bar>"
  have "e \<le> bitCount \<bar>n\<bar> - 1" unfolding e_def using floatExp_int [of "\<bar>n\<bar>"] False by simp
  also have "\<dots> \<le> int k - 1" using bitCount_le [of "\<bar>n\<bar>" k] assms(1) False by simp
  finally have e: "e - (prec - 1) \<le> 0" using assms(2) by linarith
  define m where "m = nat (prec - 1 - e)"
  have "e - (prec - 1) = - int m" using e by (simp add: m_def)
  then have u: "(2 :: rat) powi (e - (prec - 1)) = inverse (2 ^ m)" by (simp add: power_int_minus)
  have "(of_int n :: rat) / inverse (2 ^ m) = of_int (n * 2 ^ m)" by (simp add: divide_inverse)
  moreover have "of_int (n * 2 ^ m) * inverse (2 ^ m) = (of_int n :: rat)" by (simp add: mult.assoc)
  ultimately show ?thesis using False by (simp add: roundTo_def e_def [symmetric] u Let_def del: of_int_mult)
qed (simp add: roundTo_def)

lemma f32_int: "\<bar>n\<bar> < 2 ^ 24 \<Longrightarrow> f32 (of_int n) = of_int n"
  unfolding f32_def by (rule roundTo_int [of _ 24]) simp_all

lemma f64_int: "\<bar>n\<bar> < 2 ^ 53 \<Longrightarrow> f64 (of_int n) = of_int n"
  unfolding f64_def by (rule roundTo_int [of _ 53]) simp_all

lemma truncRat_int [simp]: "truncRat (of_int n) = n"
  by (simp add: truncRat_def)

section \<open>Bounds\<close>

lemma roundEven_le: "x \<le> of_int m \<Longrightarrow> roundEven x \<le> m"
proof -
  assume x: "x \<le> of_int m"
  then have f: "\<lfloor>x\<rfloor> \<le> m" by (simp add: floor_le_iff)
  show ?thesis
  proof (cases "\<lfloor>x\<rfloor> = m")
    case True
    with x have "x = of_int m" by (metis floor_correct order_antisym)
    then show ?thesis by simp
  next
    case False
    with f show ?thesis by (simp add: roundEven_def Let_def)
  qed
qed

lemma roundEven_nonneg: "0 \<le> x \<Longrightarrow> 0 \<le> roundEven x"
  by (simp add: roundEven_def Let_def)

lemma roundTo_nonneg: "0 \<le> x \<Longrightarrow> 0 \<le> roundTo prec x"
  by (simp add: roundTo_def Let_def roundEven_nonneg)

text \<open>The exponent is not too large.\<close>

lemma floatExp_lower:
  assumes "0 < x"
  shows "2 powi floatExp x \<le> x"
proof -
  obtain p q where pq: "quotient_of x = (p, q)" by fastforce
  have q: "0 < q" by (rule quotient_of_denom_pos [OF pq])
  have x: "x = of_int p / of_int q" by (rule quotient_of_div [OF pq])
  with assms q have p: "0 < p" by (simp add: zero_less_divide_iff)
  define a b where "a = nat (bitCount p - 1)" and "b = nat (bitCount q)"
  have bp: "0 < bitCount p" "2 ^ a \<le> p" using bitCount_bounds [OF p] by (simp_all add: a_def)
  have bq: "0 < bitCount q" "q < 2 ^ b" using bitCount_bounds [OF q] by (simp_all add: b_def)
  have e: "bitCount p - bitCount q - 1 = int a - int b" using bp(1) bq(1) by (simp add: a_def b_def)
  have "(2 :: rat) ^ a \<le> of_int p" "(of_int q :: rat) \<le> 2 ^ b"
    using bp(2) bq(2) by (metis of_int_le_iff of_int_numeral of_int_power, metis less_imp_le of_int_le_iff of_int_numeral of_int_power)
  then have "(2 :: rat) ^ a / 2 ^ b \<le> x" unfolding x using q p by (intro frac_le) simp_all
  then have low: "2 powi (bitCount p - bitCount q - 1) \<le> x" unfolding e by (simp add: power_int_diff)
  show ?thesis
  proof (cases "2 powi (bitCount p - bitCount q) \<le> x")
    case True
    then show ?thesis by (simp add: floatExp_def pq Let_def)
  next
    case False
    with low show ?thesis by (simp add: floatExp_def pq Let_def)
  qed
qed

text \<open>Rounding stays below an integer the type represents exactly.\<close>

lemma roundTo_le:
  assumes "0 \<le> x" "x \<le> of_int n" "n < 2 ^ k" "int k \<le> prec"
  shows "roundTo prec x \<le> of_int n"
proof (cases "x = 0")
  case False
  define e where "e = floatExp x"
  have "(2 :: rat) powi e \<le> x" unfolding e_def using floatExp_lower False assms(1) by simp
  also have "x < of_int (2 ^ k)" using assms(2,3) by (metis le_less_trans of_int_less_iff)
  also have "(of_int (2 ^ k) :: rat) = 2 powi int k" by simp
  finally have "e < int k" using power_int_increasing [of "int k" e "2 :: rat"] by fastforce
  define m where "m = nat (prec - 1 - e)"
  have "e - (prec - 1) = - int m" using \<open>e < int k\<close> assms(4) by (simp add: m_def)
  then have u: "(2 :: rat) powi (e - (prec - 1)) = inverse (2 ^ m)" by (simp add: power_int_minus)
  have "x / inverse (2 ^ m) \<le> of_int (n * 2 ^ m)" using assms(2) by (simp add: divide_inverse)
  then have "roundEven (x / inverse (2 ^ m)) \<le> n * 2 ^ m" by (rule roundEven_le)
  then have "of_int (roundEven (x / inverse (2 ^ m))) * inverse (2 ^ m) \<le> (of_int (n * 2 ^ m) :: rat) * inverse (2 ^ m)"
    by (intro mult_right_mono) (simp_all only: of_int_le_iff, simp)
  also have "\<dots> = of_int n" by (simp add: mult.assoc)
  finally show ?thesis using False assms(1) by (simp add: roundTo_def e_def [symmetric] u Let_def)
qed (use assms in simp, simp add: roundTo_def)

text \<open>Rounding a number below the bound of the exact integers moves it by half at most.\<close>

lemma roundEven_near: "\<bar>of_int (roundEven x) - x\<bar> \<le> 1 / 2"
proof -
  have "of_int \<lfloor>x\<rfloor> \<le> x" "x < of_int \<lfloor>x\<rfloor> + 1" by linarith+
  then show ?thesis by (auto simp: roundEven_def Let_def)
qed

lemma f64_near:
  assumes "0 \<le> x" "x < 2 ^ 53"
  shows "\<bar>f64 x - x\<bar> \<le> 1 / 2"
proof (cases "x = 0")
  case False
  define e where "e = floatExp x"
  define u :: rat where "u = 2 powi (e - 52)"
  have "(2 :: rat) powi e \<le> x" unfolding e_def using floatExp_lower False assms(1) by simp
  also have "x < 2 powi 53" using assms(2) by simp
  finally have "e < 53" using power_int_increasing [of 53 e "2 :: rat"] by fastforce
  then have u: "0 < u" "u \<le> 1" using power_int_increasing [of "e - 52" 0 "2 :: rat"] by (simp_all add: u_def)
  have "f64 x - x = (of_int (roundEven (x / u)) - x / u) * u"
    using False assms(1) u(1) by (simp add: f64_def roundTo_def e_def u_def Let_def left_diff_distrib)
  then have "\<bar>f64 x - x\<bar> = \<bar>of_int (roundEven (x / u)) - x / u\<bar> * u" using u(1) by (simp add: abs_mult)
  also have "\<dots> \<le> 1 / 2 * 1" using roundEven_near [of "x / u"] u by (intro mult_mono) simp_all
  finally show ?thesis by simp
qed (simp add: f64_def roundTo_def)

section \<open>Scaled sizes\<close>

lemma toFloat64_Fin: "\<bar>f64 x\<bar> < 2 ^ 53 \<Longrightarrow> toFloat64 x = Fin (f64 x)"
proof -
  assume "\<bar>f64 x\<bar> < 2 ^ 53"
  also have "(2 :: rat) ^ 53 \<le> 2 ^ 1024" by (rule power_increasing) simp_all
  finally show ?thesis by (auto simp: toFloat64_def Let_def)
qed

text \<open>Scaling a size that a \<^verbatim>\<open>float64\<close> holds exactly, with a finite scaling between zero and one: the result is
  the rounded product without its fraction, and never more than the size itself.\<close>

lemma scaleInt_exact:
  assumes "0 \<le> s" "s \<le> 1" "0 \<le> n" "n < 2 ^ 53"
  shows "scaleInt (Fin s) n = \<lfloor>f64 (s * of_int n)\<rfloor>" "0 \<le> f64 (s * of_int n)" "f64 (s * of_int n) \<le> of_int n"
proof -
  have n: "f64 (of_int n) = of_int n" by (rule f64_int) (use assms(3,4) in simp)
  have big: "of_int n < (2 :: rat) ^ 53" using assms(4) by (metis of_int_less_iff of_int_numeral of_int_power)
  have x: "0 \<le> s * of_int n" "s * of_int n \<le> of_int n"
    using assms(1-3) by (simp_all add: mult_left_le_one_le)
  show f: "0 \<le> f64 (s * of_int n)" "f64 (s * of_int n) \<le> of_int n"
    unfolding f64_def by (rule roundTo_nonneg [OF x(1)], rule roundTo_le [OF x assms(4)]) simp
  have "\<lfloor>f64 (s * of_int n)\<rfloor> \<le> n" using f(2) by (simp add: floor_le_iff)
  also have "n < 2 ^ 53" by (rule assms(4))
  also have "(2 :: int) ^ 53 < 2 ^ 63" by simp
  finally have small: "\<lfloor>f64 (s * of_int n)\<rfloor> < 2 ^ 63" .
  have "toFloat64 (of_int n) = Fin (of_int n)" using toFloat64_Fin [of "of_int n"] n big assms(3) by simp
  moreover have "toFloat64 (s * of_int n) = Fin (f64 (s * of_int n))" using f big by (intro toFloat64_Fin) simp
  ultimately show "scaleInt (Fin s) n = \<lfloor>f64 (s * of_int n)\<rfloor>"
    using f(1) small by (simp add: scaleInt_def toInt64_def truncRat_def)
qed

lemma scaleInt_bounds:
  assumes "0 \<le> s" "s \<le> 1" "0 \<le> n" "n < 2 ^ 53"
  shows "0 \<le> scaleInt (Fin s) n" "scaleInt (Fin s) n \<le> n"
  using scaleInt_exact [OF assms] by (simp_all add: floor_le_iff)

lemma scaleInt_one: "0 \<le> n \<Longrightarrow> n < 2 ^ 53 \<Longrightarrow> scaleInt (Fin 1) n = n"
  using scaleInt_exact(1) [of 1 n] by (simp add: f64_int)

text \<open>Up to half a unit the result is the exact product without its fraction.\<close>

lemma scaleInt_near:
  assumes "0 \<le> s" "s \<le> 1" "0 \<le> n" "n < 2 ^ 53"
  shows "of_int (scaleInt (Fin s) n) \<le> s * of_int n + 1 / 2" "s * of_int n < of_int (scaleInt (Fin s) n) + 1 + 1 / 2"
proof -
  have "of_int n < (2 :: rat) ^ 53" using assms(4) by (metis of_int_less_iff of_int_numeral of_int_power)
  moreover have "0 \<le> s * of_int n" "s * of_int n \<le> of_int n"
    using assms(1-3) by (simp_all add: mult_left_le_one_le)
  ultimately have "\<bar>f64 (s * of_int n) - s * of_int n\<bar> \<le> 1 / 2" by (intro f64_near) simp_all
  moreover have "of_int \<lfloor>f64 (s * of_int n)\<rfloor> \<le> f64 (s * of_int n)"
    "f64 (s * of_int n) < of_int \<lfloor>f64 (s * of_int n)\<rfloor> + 1" by linarith+
  ultimately show "of_int (scaleInt (Fin s) n) \<le> s * of_int n + 1 / 2"
    "s * of_int n < of_int (scaleInt (Fin s) n) + 1 + 1 / 2"
    unfolding scaleInt_exact(1) [OF assms] by linarith+
qed

text \<open>The whole blocks of a scaled size: exact up to half a unit, and never more than the size has.\<close>

lemma scaled_div:
  assumes "0 \<le> s" "s \<le> 1" "0 \<le> n" "n < 2 ^ 53" "0 < b"
  defines "k \<equiv> \<lfloor>f64 (s * of_int n)\<rfloor> div b"
  shows "0 \<le> k" "k * b \<le> n" "of_int (k * b) \<le> s * of_int n + 1 / 2" "s * of_int n < of_int ((k + 1) * b) + 1 / 2"
proof -
  note sc = scaleInt_exact [OF assms(1-4)]
  have k: "k * b \<le> \<lfloor>f64 (s * of_int n)\<rfloor>" "\<lfloor>f64 (s * of_int n)\<rfloor> + 1 \<le> (k + 1) * b"
    using assms(5) div_mult_mod_eq [of "\<lfloor>f64 (s * of_int n)\<rfloor>" b] pos_mod_sign [of b "\<lfloor>f64 (s * of_int n)\<rfloor>"]
      pos_mod_bound [of b "\<lfloor>f64 (s * of_int n)\<rfloor>"] unfolding k_def distrib_right by linarith+
  show "0 \<le> k" using sc(2) assms(5) by (simp add: k_def pos_imp_zdiv_nonneg_iff)
  show "k * b \<le> n" using k(1) scaleInt_bounds(2) [OF assms(1-4)] unfolding sc(1) by linarith
  note near = scaleInt_near [OF assms(1-4), unfolded sc(1)]
  have "(of_int (k * b) :: rat) \<le> of_int \<lfloor>f64 (s * of_int n)\<rfloor>" using k(1) by (simp only: of_int_le_iff)
  with near(1) show "of_int (k * b) \<le> s * of_int n + 1 / 2" by linarith
  have "(of_int (\<lfloor>f64 (s * of_int n)\<rfloor> + 1) :: rat) \<le> of_int ((k + 1) * b)" using k(2) by (simp only: of_int_le_iff)
  with near(2) show "s * of_int n < of_int ((k + 1) * b) + 1 / 2" by simp
qed

lemma scaleInt_NaN: "scaleInt NaN n = - (2 ^ 63)"
  by (simp add: scaleInt_def toInt64_def)

end
