(* ===== verification/Allocator_State.thy ===== *)
theory Allocator_State
  imports Evaluator_Theorems Store_Theorems Nodelock Watchdog Go_Float
begin

text \<open>
  \<^verbatim>\<open>pkg/services/allocator/nvidia/allocator.go\<close>, first part: the state of the allocator, its
  surroundings, and the operations that release devices, answer results from the work queue and patch
  pods. The surroundings (\<open>env\<close>) are the API server, the device library, the operating system, the
  informer of the watchdog, the kubelet's checkpoint file, the virtual manager, and the iteration order
  of maps; their answers depend on how many outside interactions have happened. The mutex of the
  allocator makes an operation one step; the work queue is served in the order of its items.
\<close>

section \<open>State and surroundings\<close>

record ExtraConfig =
  ecDevices :: "string list"

record Config =
  Hostname :: string
  VirtualManagerPath :: string
  EnableShare :: bool
  CheckpointFile :: string
  DeviceMemoryScaling :: float64
  extraConfig :: "(string, ExtraConfig option) gomap"
  DriverLibraryPath :: string
  DriverOriginLibraryPath :: string

text \<open>What the extra configuration says for every container. A \<^verbatim>\<open>null\<close> under the key is found as a nil
  pointer.\<close>

definition defaultDevices :: "Config \<Rightarrow> string list" where
  "defaultDevices cfg =
     (case map_of (extraConfig cfg) ''default'' of Some (Some c) \<Rightarrow> ecDevices c | _ \<Rightarrow> [])"

definition nilDefault :: "Config \<Rightarrow> bool" where
  "nilDefault cfg \<longleftrightarrow> map_of (extraConfig cfg) ''default'' = Some None"

datatype alloc_outcome = ALLOCATE_SUCCESS | ALLOCATE_FAIL | PREDICATE_MISSING

record allocateResult =
  arId :: nat
  arPod :: Pod
  arResult :: alloc_outcome
  arMessage :: string
  arReason :: string

record NvidiaTopoAllocator =
  taTree :: NvidiaTree
  taCache :: PodCache
  taUnfinished :: "Pod option"
  taQueue :: "allocateResult list"
  taResp :: respData
  taFiles :: "jval files"
  taWorld :: world
  taVCuda :: "string list"

record env =
  eKube :: kube
  eNvml :: "nat \<Rightarrow> nvml"
  eOs :: "nat \<Rightarrow> os_answers"
  eStore :: "nat \<Rightarrow> Pod list option"
  eKubelet :: "nat \<Rightarrow> io_error + jval option"
  eVCudaDone :: "nat \<Rightarrow> string \<Rightarrow> string option"
  eOrdS :: "string list \<Rightarrow> string list"
  eOrdI :: "int list \<Rightarrow> int list"
  eRounds :: nat
  eNodeName :: string

definition bump :: "NvidiaTopoAllocator \<Rightarrow> NvidiaTopoAllocator" where
  "bump ta = ta\<lparr>taWorld := (taWorld ta)\<lparr>tick := tick (taWorld ta) + 1\<rparr>\<rparr>"

abbreviation now :: "NvidiaTopoAllocator \<Rightarrow> nat" where
  "now ta \<equiv> tick (taWorld ta)"

section \<open>Checkpoint\<close>

definition writeCheckpoint :: "Config \<Rightarrow> env \<Rightarrow> NvidiaTopoAllocator \<Rightarrow> NvidiaTopoAllocator" where
  "writeCheckpoint cfg e ta =
     bump (ta\<lparr>taFiles := fst (ckWrite (eOs e (now ta)) JNull (taFiles ta) (CheckpointFile cfg) (encCache (taCache ta)))\<rparr>)"

text \<open>
  \<^verbatim>\<open>readCheckpoint\<close>: what it leaves in the map of the cache; a container that was null in the
  file is a nil pointer. An unreadable file leaves the cache as it is, a type error what was decoded.
\<close>

definition readCheckpoint :: "Config \<Rightarrow> NvidiaTopoAllocator \<Rightarrow> (string, (string, Info option) gomap) gomap" where
  "readCheckpoint cfg ta =
     (let old = map (\<lambda>(u, m). (u, map (\<lambda>(n, i). (n, Some i)) m)) (PodGPUMapping (taCache ta))
      in case ckRead (taFiles ta) (CheckpointFile cfg) of
           Inl _ \<Rightarrow> old
         | Inr j \<Rightarrow> fst (decCache j old))"

section \<open>Releasing\<close>

text \<open>\<^verbatim>\<open>&nvtree.NvidiaNode{Meta: nvtree.DeviceMeta{MinorID: id}}\<close>.\<close>

definition bareNode :: "int \<Rightarrow> NvidiaNode" where
  "bareNode i = (freshNode 0)\<lparr>Meta := zeroMeta\<lparr>MinorID := i\<rparr>, ntype := 0\<rparr>"

definition freeDevices :: "nvml \<Rightarrow> NvidiaTree \<Rightarrow> Info \<Rightarrow> NvidiaTree" where
  "freeDevices nv t info =
     foldl (\<lambda>t devName. MarkFree nv t (bareNode (fst (GetGPUMinorID devName))) (iCores info) (iMemory info))
       t (Devices info)"

definition freeContainers :: "env \<Rightarrow> string \<Rightarrow> NvidiaTopoAllocator \<Rightarrow> NvidiaTopoAllocator" where
  "freeContainers e uid ta =
     foldl (\<lambda>ta (contName, info).
        ta\<lparr>taTree := freeDevices (eNvml e (now ta)) (taTree ta) info,
           taResp := DeleteResp (taResp ta) uid contName\<rparr>)
       ta (gorange (eOrdS e) (case GetCache (taCache ta) uid of None \<Rightarrow> [] | Some m \<Rightarrow> m))"

definition freePod :: "env \<Rightarrow> NvidiaTopoAllocator \<Rightarrow> string \<Rightarrow> NvidiaTopoAllocator" where
  "freePod e ta uid =
     (let ta = freeContainers e uid ta;
          ta = ta\<lparr>taCache := cacheDelete (taCache ta) uid\<rparr>
      in if (case taUnfinished ta of None \<Rightarrow> False | Some p \<Rightarrow> uid = pUID p)
         then ta\<lparr>taUnfinished := None\<rparr> else ta)"

definition freeGPU :: "Config \<Rightarrow> env \<Rightarrow> NvidiaTopoAllocator \<Rightarrow> string list \<Rightarrow> NvidiaTopoAllocator" where
  "freeGPU cfg e ta podUids = writeCheckpoint cfg e (foldl (freePod e) ta podUids)"

text \<open>The pods in the cache that are not active, as \<^verbatim>\<open>sets.String.List\<close> gives them, sorted.\<close>

definition podsToBeRemoved :: "env \<Rightarrow> NvidiaTopoAllocator \<Rightarrow> string list" where
  "podsToBeRemoved e ta =
     (let active = map fst (GetActivePods (eStore e (now ta)))
      in go_sort strLess (filter (\<lambda>uid. uid \<notin> set active) (remdups (Pods (eOrdS e) (taCache ta)))))"

definition recycle :: "Config \<Rightarrow> env \<Rightarrow> NvidiaTopoAllocator \<Rightarrow> NvidiaTopoAllocator" where
  "recycle cfg e ta = bump (freeGPU cfg e ta (podsToBeRemoved e ta))"

section \<open>Talking to the API server\<close>

definition listPodsApi ::
  "env \<Rightarrow> world \<Rightarrow> string \<Rightarrow> (string \<times> string option) list \<Rightarrow> world \<times> (api_err + Pod list)" where
  "listPodsApi e w host sel = (logCall w (CListPods host sel), kListPods (eKube e) (tick w) host sel)"

text \<open>
  Every error of the list ends its poll at once, so there is one round. Without a host name the
  environment variable \<^verbatim>\<open>NODE_NAME\<close> is used. The error messages of the model leave out the values
  that Go formats with \<^verbatim>\<open>%v\<close>.
\<close>

definition getPodsOnNode ::
  "env \<Rightarrow> world \<Rightarrow> string \<Rightarrow> (string \<times> string option) list \<Rightarrow> world \<times> (string + Pod list)" where
  "getPodsOnNode e w hostname sel =
     (let hostname = (if hostname = [] then eNodeName e else hostname)
      in case listPodsApi e w hostname sel of
           (w, Inl err) \<Rightarrow> (w, Inl (''failed to get Pods on node '' @ hostname @ '' because: '' @ errStr err))
         | (w, Inr pods) \<Rightarrow> (w, Inr pods))"

definition podBindLess :: "Pod \<Rightarrow> Pod \<Rightarrow> bool" where
  "podBindLess p q \<longleftrightarrow> GetBindTimeOfPod p \<le> GetBindTimeOfPod q"

definition OrderPodsdByBindTime :: "Pod list \<Rightarrow> Pod list" where
  "OrderPodsdByBindTime pods = go_sort podBindLess pods"

definition isCandidate :: "Pod \<Rightarrow> bool" where
  "isCandidate pod \<longleftrightarrow> IsGPURequiredPod pod \<and> \<not> IsGPUAssignedPod pod \<and> \<not> ShouldDelete pod"

definition getCandidatePods :: "env \<Rightarrow> world \<Rightarrow> string \<Rightarrow> world \<times> (string + Pod list)" where
  "getCandidatePods e w hostname =
     (case getPodsOnNode e w hostname
             [(PodLabelBindTime, None), (PodLabelDeviceBindPhase, Some DeviceBindAllocating)] of
        (w, Inl err) \<Rightarrow> (w, Inl err)
      | (w, Inr allPods) \<Rightarrow> (w, Inr (OrderPodsdByBindTime (filter isCandidate allPods))))"

definition annotationPatch :: "(string, string) gomap option \<Rightarrow> jval" where
  "annotationPatch m = JObj [(''metadata'', JObj [(''annotations'',
     case m of None \<Rightarrow> JNull | Some m \<Rightarrow> encMap JStr m)])]"

definition NewPatchLabel :: "(string, string) gomap \<Rightarrow> jval" where
  "NewPatchLabel labels = JObj [(''metadata'', JObj (if labels = [] then [] else [(''labels'', encMap JStr labels)]))]"

definition patchPodWithAnnotations ::
  "env \<Rightarrow> world \<Rightarrow> Pod \<Rightarrow> (string, string) gomap option \<Rightarrow> world \<times> string option" where
  "patchPodWithAnnotations e w pod m =
     (case poll (kPolls (eKube e))
             (\<lambda>w. case patchPodApi (eKube e) w (pNamespace pod) (pName pod) (annotationPatch m) of
                    (w, None) \<Rightarrow> (w, Inr True)
                  | (w, Some err) \<Rightarrow> if ShouldRetry err then (w, Inr False) else (w, Inl err)) w of
        (w, None) \<Rightarrow> (w, None)
      | (w, Some err) \<Rightarrow> (w, Some (''failed to add annotation to pod '' @ pUID pod @ '' due to '' @ errStr err)))"

definition updateStatusApi :: "env \<Rightarrow> world \<Rightarrow> Pod \<Rightarrow> world \<times> api_err option" where
  "updateStatusApi e w pod = (logCall w (CUpdateStatus pod), kUpdateStatus (eKube e) (tick w) pod)"

definition getPodApi :: "env \<Rightarrow> world \<Rightarrow> string \<Rightarrow> string \<Rightarrow> world \<times> (api_err + Pod)" where
  "getPodApi e w ns nm = (logCall w (CGetPod ns nm), kGetPod (eKube e) (tick w) ns nm)"

definition deletePodApi :: "env \<Rightarrow> world \<Rightarrow> string \<Rightarrow> string \<Rightarrow> world \<times> api_err option" where
  "deletePodApi e w ns nm = (logCall w (CDeletePod ns nm), kDeletePod (eKube e) (tick w) ns nm)"

text \<open>On a retry the pod is read again and gets the status that is to be written.\<close>

definition updatePodStatus :: "env \<Rightarrow> world \<Rightarrow> Pod \<Rightarrow> world \<times> string option" where
  "updatePodStatus e w pod =
     (case poll (kPolls (eKube e))
             (\<lambda>(w, p). case updateStatusApi e w p of
                (w, None) \<Rightarrow> ((w, p), Inr True)
              | (w, Some err) \<Rightarrow>
                  if ShouldRetry err then
                    (case getPodApi e w (pNamespace p) (pName p) of
                       (w, Inl err') \<Rightarrow> ((w, p), Inl err')
                     | (w, Inr newPod) \<Rightarrow>
                         ((w, newPod\<lparr>pPhase := pPhase p, pReason := pReason p, pMessage := pMessage p,
                                     pStatuses := pStatuses p, pQOSClass := pQOSClass p\<rparr>), Inr False))
                  else ((w, p), Inl err)) (w, pod) of
        ((w, _), None) \<Rightarrow> (w, None)
      | ((w, _), Some err) \<Rightarrow> (w, Some (errStr err)))"

definition PatchPodAllocation :: "Config \<Rightarrow> env \<Rightarrow> string \<Rightarrow> NvidiaTopoAllocator \<Rightarrow> Pod \<Rightarrow> NvidiaTopoAllocator" where
  "PatchPodAllocation cfg e phase ta pod =
     (let (w, _) = patchPodApi (eKube e) (taWorld ta) (pNamespace pod) (pName pod)
             (NewPatchLabel [(PodLabelDeviceBindPhase, phase)]);
          (w, _) = ReleaseNodeLock (eKube e) w (Hostname cfg)
      in ta\<lparr>taWorld := w\<rparr>)"

definition PatchPodAllocationFailed :: "Config \<Rightarrow> env \<Rightarrow> NvidiaTopoAllocator \<Rightarrow> Pod \<Rightarrow> NvidiaTopoAllocator" where
  "PatchPodAllocationFailed cfg e = PatchPodAllocation cfg e DeviceBindFailed"

definition PatchPodAllocationSuccess :: "Config \<Rightarrow> env \<Rightarrow> NvidiaTopoAllocator \<Rightarrow> Pod \<Rightarrow> NvidiaTopoAllocator" where
  "PatchPodAllocationSuccess cfg e = PatchPodAllocation cfg e DeviceBindSuccess"

section \<open>The work queue\<close>

text \<open>
  \<^verbatim>\<open>getReadyAnnotations\<close>. The error for a container that is missing in the cache is assigned but
  never returned.
\<close>

definition deviceIndexStr :: "string list \<Rightarrow> string" where
  "deviceIndexStr devs = joinStr (map (\<lambda>dev. last (splitStr dev NvidiaDevicePrefix)) devs) '',''"

definition getReadyAnnotations :: "NvidiaTopoAllocator \<Rightarrow> Pod \<Rightarrow> bool \<Rightarrow> string + (string, string) gomap" where
  "getReadyAnnotations ta pod assigned =
     (case GetCache (taCache ta) (pUID pod) of
        None \<Rightarrow> Inl (''failed to get pod '' @ pUID pod @ '' from allocatedPod cache'')
      | Some cache \<Rightarrow>
          Inr (AList.update GPUAssigned (formatBool assigned)
            (foldl (\<lambda>m (i, c).
               if \<not> IsGPURequiredContainer c then m
               else case map_of cache (cName c) of
                      None \<Rightarrow> m
                    | Some info \<Rightarrow> AList.update (PredicateGPUIndexPrefix @ natStr i) (deviceIndexStr (Devices info)) m)
               [] (enumerate 0 (pContainers pod)))))"

definition annotateFailed :: "Pod \<Rightarrow> string \<Rightarrow> string" where
  "annotateFailed pod err = ''add annotation for pod '' @ pUID pod @ '' failed due to '' @ err"

definition processResult ::
  "Config \<Rightarrow> env \<Rightarrow> NvidiaTopoAllocator \<Rightarrow> allocateResult \<Rightarrow> NvidiaTopoAllocator \<times> string option" where
  "processResult cfg e ta ar =
     (case arResult ar of
        ALLOCATE_SUCCESS \<Rightarrow>
          (case getReadyAnnotations ta (arPod ar) True of
             Inl err \<Rightarrow> (ta, Some (''failed to get ready annotation of pod '' @ pUID (arPod ar) @ '' due to '' @ err))
           | Inr m \<Rightarrow>
               (case patchPodWithAnnotations e (taWorld ta) (arPod ar) (Some m) of
                  (w, err) \<Rightarrow> (ta\<lparr>taWorld := w\<rparr>, map_option (annotateFailed (arPod ar)) err)))
      | ALLOCATE_FAIL \<Rightarrow>
          (let ta = freeGPU cfg e ta [pUID (arPod ar)];
               pod = (arPod ar)\<lparr>pPhase := ''Failed'', pMessage := arMessage ar, pReason := arReason ar,
                               pStatuses := [], pQOSClass := [], pAnnotations := []\<rparr>
           in case updatePodStatus e (taWorld ta) pod of
                (w, err) \<Rightarrow> (ta\<lparr>taWorld := w\<rparr>, map_option (\<lambda>err.
                   ''failed to set status of pod '' @ pUID pod @ '' to PodFailed due to '' @ err) err))
      | PREDICATE_MISSING \<Rightarrow>
          (let m = (case getReadyAnnotations ta (arPod ar) False of Inl _ \<Rightarrow> None | Inr m \<Rightarrow> Some m)
           in case patchPodWithAnnotations e (taWorld ta) (arPod ar) m of
                (w, err) \<Rightarrow> (ta\<lparr>taWorld := w\<rparr>, map_option (annotateFailed (arPod ar)) err)))"

text \<open>One item of the queue: an item that fails is put back at the end.\<close>

definition processNextResult ::
  "Config \<Rightarrow> env \<Rightarrow> NvidiaTopoAllocator \<Rightarrow> NvidiaTopoAllocator \<times> nat option" where
  "processNextResult cfg e ta =
     (case taQueue ta of
        [] \<Rightarrow> (ta, None)
      | ar # rest \<Rightarrow>
          (case processResult cfg e (ta\<lparr>taQueue := rest\<rparr>) ar of
             (ta, None) \<Rightarrow> (ta, Some (arId ar))
           | (ta, Some err) \<Rightarrow> (ta\<lparr>taQueue := taQueue ta @ [ar]\<rparr>, None)))"

text \<open>
  A caller that adds a result and waits on its channel: the queue is served until the item is done.
  The channel is never closed when the item keeps failing; \<open>eRounds\<close> bounds the rounds and running
  out of them is \<open>Hang\<close>.
\<close>

fun serveUntil :: "nat \<Rightarrow> Config \<Rightarrow> env \<Rightarrow> NvidiaTopoAllocator \<Rightarrow> nat \<Rightarrow> go_fault + NvidiaTopoAllocator" where
  "serveUntil 0 cfg e ta i = Inl Hang"
| "serveUntil (Suc n) cfg e ta i =
     (case processNextResult cfg e ta of
        (ta, Some j) \<Rightarrow> if j = i then Inr ta else serveUntil n cfg e ta i
      | (ta, None) \<Rightarrow> serveUntil n cfg e ta i)"

definition enqueue ::
  "NvidiaTopoAllocator \<Rightarrow> Pod \<Rightarrow> alloc_outcome \<Rightarrow> string \<Rightarrow> string \<Rightarrow> NvidiaTopoAllocator \<times> nat" where
  "enqueue ta pod res msg reason =
     (bump (ta\<lparr>taQueue := taQueue ta @
        [\<lparr>arId = now ta, arPod = pod, arResult = res, arMessage = msg, arReason = reason\<rparr>]\<rparr>), now ta)"

definition enqueueAndWait ::
  "Config \<Rightarrow> env \<Rightarrow> NvidiaTopoAllocator \<Rightarrow> Pod \<Rightarrow> alloc_outcome \<Rightarrow> go_fault + NvidiaTopoAllocator" where
  "enqueueAndWait cfg e ta pod res =
     (let (ta, i) = enqueue ta pod res [] [] in serveUntil (eRounds e) cfg e ta i)"

section \<open>Scaled memory in blocks\<close>

lemma scaled_blocks:
  assumes "0 \<le> s" "s \<le> 1" "0 \<le> n" "n < 2 ^ 53"
  shows "scaleInt (Fin s) n sdiv MemoryBlockSize = \<lfloor>f64 (s * of_int n)\<rfloor> div MemoryBlockSize"
    "\<lfloor>f64 (s * of_int n)\<rfloor> div MemoryBlockSize * MemoryBlockSize \<le> n"
proof -
  have pos: "0 < MemoryBlockSize" by (simp add: MemoryBlockSize_def)
  show "scaleInt (Fin s) n sdiv MemoryBlockSize = \<lfloor>f64 (s * of_int n)\<rfloor> div MemoryBlockSize"
    using scaleInt_exact [OF assms] scaleInt_bounds(1) [OF assms] pos by (simp add: sdiv_nonneg)
  show "\<lfloor>f64 (s * of_int n)\<rfloor> div MemoryBlockSize * MemoryBlockSize \<le> n"
    by (rule scaled_div(2) [OF assms pos])
qed

end
