(* ===== verification/Go_Paths.thy ===== *)
theory Go_Paths
  imports Go_Strings
begin

text \<open>
  The functions of \<^verbatim>\<open>path\<close> and \<^verbatim>\<open>path/filepath\<close> that the program calls, on slash
  separated paths, the lines \<^verbatim>\<open>bufio.Scanner\<close> reads, and the lemmas about splitting and joining
  at one byte that the theories of paths and cgroup names share (collection \<open>go_path\<close>).
\<close>

named_theorems go_path \<open>splitting, joining and cleaning of well-formed paths\<close>

section \<open>Paths\<close>

text \<open>
  \<^verbatim>\<open>Clean\<close> walks over the elements and keeps the ones seen so far: empty elements and
  \<^verbatim>\<open>.\<close> are dropped, \<^verbatim>\<open>..\<close> takes back the last element kept, and stays only at the front of a
  path that is not rooted.
\<close>

definition cleanStep :: "bool \<Rightarrow> string list \<Rightarrow> string \<Rightarrow> string list" where
  "cleanStep rooted out s =
     (if s = [] \<or> s = ''.'' then out
      else if s = ''..'' then
        (if out \<noteq> [] \<and> last out \<noteq> ''..'' then butlast out else if rooted then out else out @ [s])
      else out @ [s])"

definition pathClean :: "string \<Rightarrow> string" where
  "pathClean path =
     (let rooted = hasPrefix path ''/'';
          s = (if rooted then ''/'' else []) @ joinStr (foldl (cleanStep rooted) [] (splitStr path ''/'')) ''/''
      in if s = [] then ''.'' else s)"

definition pathJoinAll :: "string list \<Rightarrow> string" where
  "pathJoinAll elems =
     (case dropWhile (\<lambda>e. e = []) elems of [] \<Rightarrow> [] | es \<Rightarrow> pathClean (joinStr es ''/''))"

definition pathBase :: "string \<Rightarrow> string" where
  "pathBase path =
     (if path = [] then ''.''
      else let p = trimRight path (\<lambda>c. c = CHR ''/'')
           in if p = [] then ''/''
              else case lastIndexChar p (CHR ''/'') of None \<Rightarrow> p | Some i \<Rightarrow> drop (Suc i) p)"

definition pathDir :: "string \<Rightarrow> string" where
  "pathDir path =
     pathClean (case lastIndexChar path (CHR ''/'') of None \<Rightarrow> [] | Some i \<Rightarrow> take (Suc i) path)"

text \<open>The directories on the way to a path, the path itself last: what \<^verbatim>\<open>os.MkdirAll\<close> creates.\<close>

definition pathPrefixes :: "string \<Rightarrow> string list" where
  "pathPrefixes path =
     (let segs = splitStr path ''/''
      in filter (\<lambda>p. p \<noteq> []) (map (\<lambda>i. joinStr (take (Suc i) segs) ''/'') [0..<length segs]))"

text \<open>The path of a directory and of everything in it.\<close>

definition belowDir :: "string \<Rightarrow> string \<Rightarrow> bool" where
  "belowDir dir p \<longleftrightarrow> p = dir \<or> hasPrefix p (dir @ ''/'')"

section \<open>Lines\<close>

text \<open>
  The lines of \<^verbatim>\<open>bufio.ScanLines\<close>: cut at newlines, a carriage return at the end of a line
  dropped, an empty rest after the last newline not reported. The scanner stops at a line that does
  not fit its buffer of \<open>maxTokenSize\<close> bytes.
\<close>

definition maxTokenSize :: nat where "maxTokenSize = 65536"

definition dropCR :: "string \<Rightarrow> string" where
  "dropCR s = trimSuffix s [CHR 0x0D]"

definition scanLines :: "string \<Rightarrow> string list" where
  "scanLines content =
     (let parts = splitStr content [CHR 0x0A];
          lines = (if last parts = [] then butlast parts else parts)
      in map dropCR (takeWhile (\<lambda>l. length l < maxTokenSize) lines))"

section \<open>Splitting at one byte\<close>

lemma hasPrefix_single: "hasPrefix s [c] \<longleftrightarrow> s \<noteq> [] \<and> hd s = c"
  by (cases s) (auto simp: hasPrefix_def)

lemma indexOf_char: "c \<notin> set a \<Longrightarrow> indexOf (a @ c # b) [c] = Some (length a)"
  by (induction a) (auto simp: hasPrefix_single)

lemma indexOf_char_None: "c \<notin> set a \<Longrightarrow> indexOf a [c] = None"
  by (induction a) (auto simp: hasPrefix_single)

lemma splitStr_append [go_path]: "c \<notin> set a \<Longrightarrow> splitStr (a @ c # b) [c] = a # splitStr b [c]"
  by (subst splitStr.simps) (simp add: indexOf_char)

lemma splitStr_single [go_path]: "c \<notin> set a \<Longrightarrow> splitStr a [c] = [a]"
  by (subst splitStr.simps) (simp add: indexOf_char_None)

lemma joinStr_Cons: "ss \<noteq> [] \<Longrightarrow> joinStr (s # ss) sep = s @ sep @ joinStr ss sep"
  by (cases ss) auto

lemma joinStr_append:
  "xs \<noteq> [] \<Longrightarrow> ys \<noteq> [] \<Longrightarrow> joinStr (xs @ ys) sep = joinStr xs sep @ sep @ joinStr ys sep"
  by (induction xs sep rule: joinStr.induct) (auto simp: joinStr_Cons)

lemma splitStr_joinStr [go_path]:
  "ps \<noteq> [] \<Longrightarrow> \<forall>p \<in> set ps. c \<notin> set p \<Longrightarrow> splitStr (joinStr ps [c]) [c] = ps"
proof (induction ps rule: induct_list012)
  case (3 x y zs)
  then show ?case by (simp add: splitStr_append)
qed (simp_all add: splitStr_single)

lemma splitStr_join_rest [go_path]:
  "ps \<noteq> [] \<Longrightarrow> \<forall>p \<in> set ps. c \<notin> set p \<Longrightarrow> splitStr (joinStr ps [c] @ c # s) [c] = ps @ splitStr s [c]"
proof (induction ps rule: induct_list012)
  case (3 x y zs)
  then show ?case by (simp add: splitStr_append)
qed (simp_all add: splitStr_append)

lemma set_joinStr: "set (joinStr ps sep) \<subseteq> (\<Union>p \<in> set ps. set p) \<union> set sep"
  by (induction ps sep rule: joinStr.induct) auto

lemma splitStr_nonempty [simp]: "splitStr s sep \<noteq> []"
  by (subst splitStr.simps) (simp split: option.split)

lemma joinStr_splitStr [go_path]: "sep \<noteq> [] \<Longrightarrow> joinStr (splitStr s sep) sep = s"
proof (induction s sep rule: splitStr.induct)
  case (1 s sep)
  show ?case
  proof (cases "indexOf s sep")
    case None
    then show ?thesis by (subst splitStr.simps) (simp add: 1)
  next
    case (Some i)
    have "take (length sep) (drop i s) = sep"
      using Some
    proof (induction s arbitrary: i)
      case (Cons x s)
      then show ?case by (auto simp: hasPrefix_def split: if_splits)
    qed (auto split: if_splits)
    then have "take i s @ sep @ drop (i + length sep) s = s"
      by (metis add.commute append_take_drop_id drop_drop)
    then show ?thesis
      using 1 Some by (subst splitStr.simps) (simp add: joinStr_Cons)
  qed
qed

lemma lastIndexChar_append:
  "c \<notin> set b \<Longrightarrow> lastIndexChar (a @ c # b) c = Some (length a)"
proof (induction a)
  case Nil
  then have "lastIndexChar b c = None" by (induction b) auto
  then show ?case by simp
qed simp

lemma lastIndexChar_None: "c \<notin> set b \<Longrightarrow> lastIndexChar b c = None"
  by (induction b) auto

lemma replaceChar_append: "replaceChar (s @ t) a b = replaceChar s a b @ replaceChar t a b"
  by (simp add: replaceChar_def)

lemma replaceChar_id: "a \<notin> set s \<Longrightarrow> replaceChar s a b = s"
  unfolding replaceChar_def by (rule map_idI) auto

lemma replaceChar_inverse: "b \<notin> set s \<Longrightarrow> replaceChar (replaceChar s a b) b a = s"
  unfolding replaceChar_def map_map by (rule map_idI) auto

lemma length_replaceChar [simp]: "length (replaceChar s a b) = length s"
  by (simp add: replaceChar_def)

lemma set_replaceChar: "set (replaceChar s a b) \<subseteq> (set s - {a}) \<union> {b}"
  by (auto simp: replaceChar_def)

lemma hasSuffix_append [simp]: "hasSuffix (s @ p) p"
  by (simp add: hasSuffix_def)

lemma trimSuffix_append [simp]: "trimSuffix (s @ p) p = s"
  by (simp add: trimSuffix_def)

lemma trimSuffix_absent: "x \<in> set p \<Longrightarrow> x \<notin> set s \<Longrightarrow> trimSuffix s p = s"
  by (metis hasSuffix_def in_set_dropD trimSuffix_def)

lemma trimSpace_id:
  assumes "s \<noteq> []" "\<not> isSpace (hd s)" "\<not> isSpace (last s)"
  shows "trimSpace s = s"
proof -
  have "dropWhile isSpace s = s" using assms by (cases s) auto
  moreover have "dropWhile isSpace (rev s) = rev s"
    using assms by (cases "rev s") (auto simp: hd_rev [symmetric] simp del: hd_rev)
  ultimately show ?thesis by (simp add: trimSpace_def trimRight_def)
qed

section \<open>Clean paths\<close>

definition properSeg :: "string \<Rightarrow> bool" where
  "properSeg s \<longleftrightarrow> s \<noteq> [] \<and> s \<noteq> ''.'' \<and> s \<noteq> ''..'' \<and> CHR ''/'' \<notin> set s"

lemma properSeg_noslash: "list_all properSeg ps \<Longrightarrow> \<forall>p \<in> set ps. CHR ''/'' \<notin> set p"
  by (auto simp: list_all_iff properSeg_def)

lemma cleanStep_proper [simp]: "properSeg s \<Longrightarrow> cleanStep r out s = out @ [s]"
  by (simp add: cleanStep_def properSeg_def)

lemma cleanStep_empty [simp]: "cleanStep r out [] = out"
  by (simp add: cleanStep_def)

lemma foldl_cleanStep_proper [simp]:
  "list_all properSeg ps \<Longrightarrow> foldl (cleanStep r) out ps = out @ ps"
  by (induction ps arbitrary: out) auto

lemma hasPrefix_join_proper:
  assumes "list_all properSeg ps" "ps \<noteq> []"
  shows "\<not> hasPrefix (joinStr ps ''/'') ''/''" "joinStr ps ''/'' \<noteq> []"
proof -
  obtain p qs where ps: "ps = p # qs" using assms by (cases ps) auto
  with assms have p: "p \<noteq> []" "CHR ''/'' \<notin> set p" by (auto simp: properSeg_def)
  then have "hd p \<noteq> CHR ''/''" by (metis hd_in_set)
  with p show "\<not> hasPrefix (joinStr ps ''/'') ''/''" "joinStr ps ''/'' \<noteq> []"
    by (cases qs; simp add: ps hasPrefix_single)+
qed

lemma pathClean_relative [go_path]:
  "list_all properSeg ps \<Longrightarrow> ps \<noteq> [] \<Longrightarrow> pathClean (joinStr ps ''/'') = joinStr ps ''/''"
  by (simp add: pathClean_def hasPrefix_join_proper splitStr_joinStr properSeg_noslash)

text \<open>A rooted path in which an empty element may stand where two parts were joined.\<close>

lemma pathClean_rooted [go_path]:
  assumes "list_all properSeg (filter (\<lambda>s. s \<noteq> []) ps)" "\<forall>p \<in> set ps. CHR ''/'' \<notin> set p" "ps \<noteq> []"
  shows "pathClean (CHR ''/'' # joinStr ps ''/'') = CHR ''/'' # joinStr (filter (\<lambda>s. s \<noteq> []) ps) ''/''"
proof -
  have step: "foldl (cleanStep True) out ps = out @ filter (\<lambda>s. s \<noteq> []) ps" for out
    using assms(1) by (induction ps arbitrary: out) auto
  have "splitStr (CHR ''/'' # joinStr ps ''/'') ''/'' = [] # ps"
    using splitStr_append [of "CHR ''/''" "[]"] assms by (simp add: splitStr_joinStr)
  then show ?thesis by (simp add: pathClean_def hasPrefix_single step)
qed

text \<open>Cleaning is idempotent, so joining and cleaning again changes nothing.\<close>

definition cleanSegs :: "bool \<Rightarrow> string list \<Rightarrow> bool" where
  "cleanSegs rooted out \<longleftrightarrow> (\<exists>k ps. out = replicate k ''..'' @ ps \<and> list_all properSeg ps \<and> (rooted \<longrightarrow> k = 0))"

lemma cleanStep_cleanSegs:
  assumes "cleanSegs r out" "CHR ''/'' \<notin> set s"
  shows "cleanSegs r (cleanStep r out s)"
proof -
  obtain k ps where out: "out = replicate k ''..'' @ ps" "list_all properSeg ps" "r \<longrightarrow> k = 0"
    using assms(1) by (auto simp: cleanSegs_def)
  consider (skip) "s = [] \<or> s = ''.''" | (up) "s = ''..''" | (seg) "properSeg s"
    using assms(2) by (auto simp: properSeg_def)
  then show ?thesis
  proof cases
    case skip
    with assms(1) show ?thesis by (auto simp: cleanStep_def)
  next
    case seg
    then have "cleanStep r out s = replicate k ''..'' @ (ps @ [s])" "list_all properSeg (ps @ [s])" using out by auto
    then show ?thesis using out(3) unfolding cleanSegs_def by blast
  next
    case up
    show ?thesis
    proof (cases ps rule: rev_cases)
      case Nil
      then have "last out = ''..''" if "out \<noteq> []" using out(1) that by auto
      then have "cleanStep r out s = (if r then out else replicate (Suc k) ''..'')"
        using up Nil out(1) by (auto simp: cleanStep_def replicate_append_same)
      then show ?thesis
        using out Nil assms(1) unfolding cleanSegs_def by (cases r) (auto intro: exI [of _ "Suc k"])
    next
      case (snoc qs q)
      then have "cleanStep r out s = replicate k ''..'' @ qs"
        using up out(1,2) by (auto simp: cleanStep_def properSeg_def butlast_append)
      then show ?thesis using snoc out unfolding cleanSegs_def by auto
    qed
  qed
qed

lemma cleanSegs_foldl:
  "cleanSegs r acc \<Longrightarrow> \<forall>p \<in> set ps. CHR ''/'' \<notin> set p \<Longrightarrow> cleanSegs r (foldl (cleanStep r) acc ps)"
  by (induction ps arbitrary: acc) (auto simp: cleanStep_cleanSegs)

lemma cleanStep_fixed: "cleanSegs r out \<Longrightarrow> foldl (cleanStep r) [] out = out"
proof -
  assume "cleanSegs r out"
  then obtain k ps where out: "out = replicate k ''..'' @ ps" "list_all properSeg ps" "r \<longrightarrow> k = 0"
    by (auto simp: cleanSegs_def)
  have "foldl (cleanStep False) (replicate j ''..'') (replicate k ''..'') = replicate (j + k) ''..''" for j
  proof (induction k arbitrary: j)
    case (Suc k)
    have "last (replicate j ''..'') = ''..''" if "j \<noteq> 0" using that by simp
    then have "cleanStep False (replicate j ''..'') ''..'' = replicate (Suc j) ''..''"
      by (auto simp: cleanStep_def replicate_append_same)
    with Suc.IH [of "Suc j"] show ?case by simp
  qed simp
  from this [of 0] show ?thesis using out by (cases r) auto
qed

lemma split_noslash: "\<forall>p \<in> set (splitStr s [c]). c \<notin> set p"
proof (induction s "[c]" rule: splitStr.induct)
  case (1 s)
  show ?case
  proof (cases "c \<in> set s")
    case True
    then obtain a b where s: "s = a @ c # b" "c \<notin> set a" by (meson split_list_first)
    have "indexOf s [c] = Some (length a)" using s by (simp add: indexOf_char)
    from 1 [OF _ this] have "\<forall>p \<in> set (splitStr b [c]). c \<notin> set p" by (simp add: s)
    then show ?thesis by (simp add: s splitStr_append)
  qed (simp add: splitStr_single)
qed

lemma cleanSegs_mem: "cleanSegs r out \<Longrightarrow> p \<in> set out \<Longrightarrow> p = ''..'' \<or> properSeg p"
  by (auto simp: cleanSegs_def list_all_iff)

lemma cleanSegs_seg: "cleanSegs r out \<Longrightarrow> p \<in> set out \<Longrightarrow> CHR ''/'' \<notin> set p \<and> p \<noteq> []"
  by (drule (1) cleanSegs_mem) (auto simp: properSeg_def)

lemma cleanSegs_not_dot: "cleanSegs r out \<Longrightarrow> out \<noteq> [] \<Longrightarrow> joinStr out ''/'' \<noteq> ''.''"
proof
  assume c: "cleanSegs r out" "out \<noteq> []" "joinStr out ''/'' = ''.''"
  have "splitStr (joinStr out ''/'') ''/'' = out"
    using cleanSegs_seg [OF c(1)] c(2) by (intro splitStr_joinStr) auto
  then have "out = [''.'']" using c(3) splitStr_single [of "CHR ''/''" "''.''"] by simp
  then show False using cleanSegs_mem [OF c(1), of "''.''"] by (simp add: properSeg_def)
qed

lemma joinStr_hd: "ps \<noteq> [] \<Longrightarrow> hd ps \<noteq> [] \<Longrightarrow> joinStr ps sep \<noteq> [] \<and> hd (joinStr ps sep) = hd (hd ps)"
  by (induction ps sep rule: joinStr.induct) auto

lemma pathClean_idem [simp]: "pathClean (pathClean s) = pathClean s"
proof -
  define r where "r = hasPrefix s ''/''"
  define out where "out = foldl (cleanStep r) [] (splitStr s ''/'')"
  have clean: "cleanSegs r out"
    unfolding out_def using split_noslash by (intro cleanSegs_foldl) (auto simp: cleanSegs_def)
  have segs: "\<forall>p \<in> set out. CHR ''/'' \<notin> set p \<and> p \<noteq> []"
    using cleanSegs_seg [OF clean] by blast
  have ps: "pathClean s = (if r then CHR ''/'' # joinStr out ''/'' else if out = [] then ''.'' else joinStr out ''/'')"
  proof -
    have "joinStr out ''/'' = [] \<longleftrightarrow> out = []"
      using segs joinStr_hd [of out "''/''"] by (metis joinStr.simps(1) list.set_sel(1))
    then show ?thesis
      unfolding pathClean_def r_def [symmetric] Let_def out_def [symmetric] by simp
  qed
  show ?thesis
  proof (cases "out = []")
    case True
    have "splitStr ''/'' ''/'' = [[], []]" "splitStr ''.'' ''/'' = [''.'']"
      using splitStr_append [of "CHR ''/''" "[]" "[]"] splitStr_single [of "CHR ''/''"] by simp_all
    then show ?thesis unfolding ps using True by (simp add: pathClean_def hasPrefix_single cleanStep_def)
  next
    case False
    have split: "splitStr (joinStr out ''/'') ''/'' = out" using False segs by (simp add: splitStr_joinStr)
    then have rsplit: "splitStr (CHR ''/'' # joinStr out ''/'') ''/'' = [] # out"
      using splitStr_append [of "CHR ''/''" "[]"] by simp
    have "hd (joinStr out ''/'') \<noteq> CHR ''/'' \<and> joinStr out ''/'' \<noteq> []"
      using False segs joinStr_hd [of out "''/''"] by (metis hd_in_set)
    then show ?thesis
      unfolding ps using cleanStep_fixed [OF clean] False split rsplit
      by (cases r) (auto simp: pathClean_def hasPrefix_single)
  qed
qed

lemma pathClean_joinAll [simp]: "elems \<noteq> [] \<Longrightarrow> hd elems \<noteq> [] \<Longrightarrow> pathClean (pathJoinAll elems) = pathJoinAll elems"
  by (cases elems) (simp_all add: pathJoinAll_def)

section \<open>Directories below a path\<close>

text \<open>What \<^verbatim>\<open>filepath.Join\<close> puts before a last element.\<close>

definition joinPre :: "string \<Rightarrow> string" where
  "joinPre d = (if pathClean d = ''/'' then ''/'' else if pathClean d = ''.'' then [] else pathClean d @ ''/'')"

lemma splitStr_snoc: "CHR ''/'' \<notin> set u \<Longrightarrow> splitStr (d @ ''/'' @ u) ''/'' = splitStr d ''/'' @ [u]"
  using splitStr_join_rest [OF splitStr_nonempty split_noslash, of d "CHR ''/''" u]
  by (simp add: joinStr_splitStr splitStr_single)

lemma pathJoinAll_pre:
  assumes "properSeg u"
  shows "pathJoinAll [d, u] = joinPre d @ u"
proof (cases "d = []")
  case True
  have u: "CHR ''/'' \<notin> set u" "u \<noteq> []" using assms by (auto simp: properSeg_def)
  then have "\<not> hasPrefix u ''/''" by (cases u) (auto simp: hasPrefix_def)
  then have "pathClean u = u" "pathClean [] = ''.''" using assms u by (simp_all add: pathClean_def splitStr_single Let_def hasPrefix_single)
  with True u(2) show ?thesis by (simp add: pathJoinAll_def joinPre_def)
next
  case False
  note assms = False assms
  define r where "r = hasPrefix d ''/''"
  define out where "out = foldl (cleanStep r) [] (splitStr d ''/'')"
  have u: "CHR ''/'' \<notin> set u" "u \<noteq> []" using assms(2) by (auto simp: properSeg_def)
  have r': "hasPrefix (d @ ''/'' @ u) ''/'' = r" using assms(1) by (simp add: r_def hasPrefix_single)
  have "foldl (cleanStep r) [] (splitStr (d @ ''/'' @ u) ''/'') = out @ [u]"
    using splitStr_snoc [OF u(1), of d] assms(2) by (simp add: out_def)
  then have lhs: "pathJoinAll [d, u] = (if r then ''/'' else []) @ joinStr (out @ [u]) ''/''"
    using assms(1) u(2) r' joinStr_append [of out "[u]" "''/''"]
    by (cases "out = []") (simp_all add: pathJoinAll_def pathClean_def Let_def)
  have clean: "cleanSegs r out"
    unfolding out_def using cleanSegs_foldl [of r "[]" "splitStr d ''/''"] split_noslash [of d "CHR ''/''"]
    by (simp add: cleanSegs_def)
  have pd: "pathClean d = (let s = (if r then ''/'' else []) @ joinStr out ''/'' in if s = [] then ''.'' else s)"
    by (simp add: pathClean_def r_def out_def)
  show ?thesis
  proof (cases "out = []")
    case True
    then show ?thesis using lhs pd by (simp add: joinPre_def)
  next
    case False
    have j: "joinStr out ''/'' \<noteq> []" "hd (joinStr out ''/'') \<noteq> CHR ''/''"
      using joinStr_hd [of out "''/''"] cleanSegs_seg [OF clean, of "hd out"] False hd_in_set by (metis hd_in_set)+
    have "joinStr out ''/'' \<noteq> ''.''"
      using cleanSegs_not_dot [OF clean False] .
    then have "joinPre d = (if r then ''/'' else []) @ joinStr out ''/'' @ ''/''"
      using j pd by (auto simp: joinPre_def)
    then show ?thesis using lhs False joinStr_append [of out "[u]" "''/''"] by simp
  qed
qed

text \<open>A path lies below one of the directories in a directory only.\<close>

lemma below_pre:
  assumes "belowDir (pre @ u) p" "CHR ''/'' \<notin> set u"
  shows "takeWhile (\<lambda>c. c \<noteq> CHR ''/'') (drop (length pre) p) = u"
proof -
  consider "p = pre @ u" | "take (length (pre @ u @ ''/'')) p = pre @ u @ ''/''"
    using assms(1) by (auto simp: belowDir_def hasPrefix_def)
  then show ?thesis
  proof cases
    case 2
    then obtain r where "p = pre @ u @ CHR ''/'' # r"
      by (metis append_Cons append_Nil append_assoc append_take_drop_id)
    then show ?thesis using assms(2) by (simp add: takeWhile_append)
  qed (use assms(2) in \<open>auto simp: takeWhile_eq_all_conv\<close>)
qed

lemma below_one_dir:
  assumes "properSeg u" "properSeg v" "belowDir (pathJoinAll [d, u]) p" "belowDir (pathJoinAll [d, v]) p"
  shows "u = v"
  using assms below_pre [of "joinPre d" u p] below_pre [of "joinPre d" v p]
  by (simp add: pathJoinAll_pre properSeg_def)

lemma joinPre_join:
  assumes "properSeg u"
  shows "joinPre (pathJoinAll [d, u]) = joinPre d @ u @ ''/''"
proof -
  have u: "CHR ''/'' \<notin> set u" "u \<noteq> []" "u \<noteq> ''.''" using assms by (auto simp: properSeg_def)
  have c: "pathClean (pathJoinAll [d, u]) = pathJoinAll [d, u]"
  proof (cases "d = []")
    case True
    then have "pathJoinAll [d, u] = pathJoinAll [u]" by (simp add: pathJoinAll_def)
    with u(2) show ?thesis by simp
  qed simp
  have "joinPre d @ u \<noteq> ''/''" using u by (cases u rule: rev_cases) auto
  moreover have "joinPre d @ u \<noteq> ''.''" using u by (cases "joinPre d") (auto simp: joinPre_def split: if_splits)
  ultimately show ?thesis unfolding joinPre_def [of "pathJoinAll [d, u]"] c by (simp add: pathJoinAll_pre [OF assms])
qed

section \<open>Cutting at a character\<close>

lemma trimRight_keep: "\<not> P c \<Longrightarrow> trimRight (a @ c # s) P = a @ c # trimRight s P"
  by (cases "\<forall>x \<in> set s. P x") (auto simp: trimRight_def dropWhile_append)

lemma hasPrefix_cut: "c \<notin> set p \<Longrightarrow> hasPrefix (a @ c # b) p = hasPrefix a p"
proof (induction a arbitrary: p)
  case Nil
  then show ?case by (cases p) (auto simp: hasPrefix_def)
next
  case (Cons x a)
  then show ?case by (cases p) (auto simp: hasPrefix_def)
qed

lemma indexOf_cut:
  assumes "c \<notin> set p" "p \<noteq> []"
  shows "indexOf (a @ c # b) p = (case indexOf a p of Some i \<Rightarrow> Some i | None \<Rightarrow> map_option (\<lambda>i. i + length a + 1) (indexOf b p))"
proof (induction a)
  case Nil
  have "\<not> hasPrefix (c # b) p" using assms by (cases p) (auto simp: hasPrefix_def)
  with assms(2) show ?case by simp
next
  case (Cons x a)
  have "hasPrefix (x # a @ c # b) p = hasPrefix (x # a) p" using hasPrefix_cut [OF assms(1), of "x # a" b] by simp
  with Cons show ?case by (auto simp: option.map_comp comp_def split: option.splits)
qed

end
