(* ===== verification/Allocator.thy ===== *)
theory Allocator
  imports Allocator_State Go_Paths
begin

text \<open>
  \<^verbatim>\<open>pkg/services/allocator/nvidia/allocator.go\<close>, second part: answering allocation requests,
  the check before a container starts, the periodic check, recovery after a restart, and the capacity
  the plugin reports.
\<close>

section \<open>allocateOne\<close>

definition countCores :: "string list \<Rightarrow> int" where
  "countCores ids = int (length (filter (\<lambda>v. hasPrefix v VCoreAnnotation) ids))"

definition countBlocks :: "string list \<Rightarrow> int" where
  "countBlocks ids = int (length (filter (\<lambda>v. \<not> hasPrefix v VCoreAnnotation \<and> hasPrefix v VMemoryAnnotation) ids))"

text \<open>In share mode, the device the scheduler predicted has to be the one that was chosen.\<close>

definition predicateCheck :: "NvidiaTree \<Rightarrow> Pod \<Rightarrow> Container \<Rightarrow> addr \<Rightarrow> string option" where
  "predicateCheck t pod container n =
     (case GetContainerIndexByName pod (cName container) of
        Inl err \<Rightarrow> Some err
      | Inr i \<Rightarrow>
          (case map_of (pAnnotations pod) (PredicateGPUIndexPrefix @ natStr i) of
             None \<Rightarrow> Some (''failed to find predicate idx for pod '' @ pUID pod)
           | Some idxStr \<Rightarrow>
               if \<not> snd (parseInt 64 idxStr)
               then Some (''predicate idx '' @ idxStr @ '' invalid for pod '' @ pUID pod @ '' '')
               else let devStr = NvidiaDevicePrefix @ idxStr in
                 if \<not> IsValidGPUPath devStr then Some (''predicate idx '' @ devStr @ '' invalid'')
                 else (case Query t devStr of
                         None \<Rightarrow> Some (''failed to get predicate node '' @ devStr)
                       | Some p \<Rightarrow>
                           if MinorName (nodeAt t p) \<noteq> MinorName (nodeAt t n)
                           then Some (''Nvidia node mismatch for pod '' @ pName pod @ ''('' @ cName container @ ''), pick up:''
                                      @ MinorName (nodeAt t n) @ ''  predicate: '' @ MinorName (nodeAt t p))
                           else None)))"

text \<open>The switch over the requested cores: the tree an evaluator leaves, and the chosen nodes with the
  flag for share mode, or the error.\<close>

definition chooseNodes ::
  "Config \<Rightarrow> env \<Rightarrow> nvml \<Rightarrow> NvidiaTree \<Rightarrow> Pod \<Rightarrow> Container \<Rightarrow> int \<Rightarrow> int \<Rightarrow> int
     \<Rightarrow> go_fault + NvidiaTree \<times> (string + addr list \<times> bool)" where
  "chooseNodes cfg e nv t pod container needCores needMemory singleNodeMemory =
     (if HundredCore < needCores then
        (if 0 < needCores smod HundredCore
         then Inr (t, Inl ''cores are greater than 100, must be multiple of 100'')
         else (case linkEvaluate (eOrdI e) t (pAnnotations pod) needCores 0 of
                 Inl f \<Rightarrow> Inl f | Inr (t, nodes) \<Rightarrow> Inr (t, Inr (nodes, False))))
      else if needCores = HundredCore then
        (case fragmentEvaluate t (pAnnotations pod) needCores 0 of
           Inl f \<Rightarrow> Inl f | Inr (t, nodes) \<Rightarrow> Inr (t, Inr (nodes, False)))
      else if \<not> EnableShare cfg then Inr (t, Inl ''share mode is not enabled'')
      else if needCores = 0 \<or> needMemory = 0
        then Inr (t, Inl ''that cores or memory is zero is not permitted in share mode'')
      else (case shareEvaluate nv t (pAnnotations pod) needCores needMemory of
              Inl f \<Rightarrow> Inl f
            | Inr (t, []) \<Rightarrow>
                Inr (t, Inl (if singleNodeMemory < needMemory
                             then ''request memory '' @ itoa needMemory @ '' is larger than '' @ itoa singleNodeMemory
                             else ''no free node''))
            | Inr (t, n # ns) \<Rightarrow>
                if IsGPUPredicatedPod pod
                then (case predicateCheck t pod container n of
                        Some err \<Rightarrow> Inr (t, Inl err)
                      | None \<Rightarrow> Inr (t, Inr (n # ns, True)))
                else Inr (t, Inr (n # ns, True))))"

definition vDeviceAnnotationStr :: "NvidiaTree \<Rightarrow> addr list \<Rightarrow> string" where
  "vDeviceAnnotationStr t nodes = joinStr (map (\<lambda>n. MinorName (nodeAt t n)) nodes) '',''"

definition rwmDevice :: "string \<Rightarrow> DeviceSpec" where
  "rwmDevice path = \<lparr>ContainerPath = path, HostPath = path, Permissions = ''rwm''\<rparr>"

definition containerResponse ::
  "Config \<Rightarrow> NvidiaTree \<Rightarrow> Pod \<Rightarrow> Container \<Rightarrow> int \<Rightarrow> int \<Rightarrow> bool \<Rightarrow> addr list \<Rightarrow> ContainerAllocateResponse" where
  "containerResponse cfg t pod container needCores needMemory shareMode nodes =
     \<lparr>respEnvs =
        [(''LD_LIBRARY_PATH'',
          if list_ex (\<lambda>env. envName env = ''compat32'' \<and> toLower (envValue env) = ''true'') (cEnv container)
          then ''/usr/local/nvidia/lib'' else ''/usr/local/nvidia/lib64''),
         (''NVIDIA_VISIBLE_DEVICES'', joinStr (map (\<lambda>n. UUID (Meta (nodeAt t n))) nodes) '','')],
      respMounts =
        [\<lparr>mContainerPath = ''/usr/local/nvidia'',
          mHostPath = (if shareMode then DriverLibraryPath cfg else DriverOriginLibraryPath cfg), mReadOnly = True\<rparr>,
         \<lparr>mContainerPath = VCUDA_MOUNTPOINT, mHostPath = pathJoinAll [VirtualManagerPath cfg, pUID pod], mReadOnly = True\<rparr>],
      respDevices = map (\<lambda>n. rwmDevice (MinorName (nodeAt t n))) nodes
        @ [rwmDevice NvidiaCtlDevice, rwmDevice NvidiaUVMDevice] @ map rwmDevice (defaultDevices cfg),
      respAnnotations =
        [(VCoreAnnotation, itoa needCores), (VMemoryAnnotation, itoa needMemory),
         (VDeviceAnnotation, vDeviceAnnotationStr t nodes)]\<rparr>"

text \<open>Whether a container of the pod that needs a card is missing in the cache.\<close>

definition podUnfinished :: "PodCache \<Rightarrow> Pod \<Rightarrow> bool" where
  "podUnfinished cache pod =
     (case GetCache cache (pUID pod) of
        None \<Rightarrow> False
      | Some m \<Rightarrow> list_ex (\<lambda>c. IsGPURequiredContainer c \<and> map_of m (cName c) = None) (pContainers pod))"

text \<open>From the chosen nodes to the response: occupy the devices and remember them (unless the container
  was allocated before), record whether the pod is finished, write the checkpoint, wait until the
  annotations of a pod the scheduler did not predicate are patched, and store the response. A nil entry
  for the default devices is dereferenced after the checkpoint is written.\<close>

definition occupyNodes :: "NvidiaTree \<Rightarrow> addr list \<Rightarrow> int \<Rightarrow> int \<Rightarrow> NvidiaTree" where
  "occupyNodes t nodes needCores needMemory =
     foldl (\<lambda>t n. MarkOccupied t (nodeAt t n) needCores needMemory) t nodes"

definition commitAllocation ::
  "Config \<Rightarrow> env \<Rightarrow> NvidiaTopoAllocator \<Rightarrow> Pod \<Rightarrow> Container \<Rightarrow> int \<Rightarrow> int \<Rightarrow> bool \<Rightarrow> bool \<Rightarrow> addr list
     \<Rightarrow> go_fault + NvidiaTopoAllocator \<times> ContainerAllocateResponse" where
  "commitAllocation cfg e ta pod container needCores needMemory shareMode allocated nodes =
     (let names = map (\<lambda>n. MinorName (nodeAt (taTree ta) n)) nodes;
          resp = containerResponse cfg (taTree ta) pod container needCores needMemory shareMode nodes;
          ta = (if allocated then ta
                else ta\<lparr>taTree := occupyNodes (taTree ta) nodes needCores needMemory,
                        taCache := cacheInsert (taCache ta) (pUID pod) (cName container)
                          \<lparr>Devices = eOrdS e (remdups names), iCores = needCores, iMemory = needMemory\<rparr>\<rparr>);
          ta = ta\<lparr>taUnfinished := (if podUnfinished (taCache ta) pod then Some pod else None)\<rparr>;
          ta = writeCheckpoint cfg e ta
      in if nilDefault cfg then Inl Panic
         else case (if IsGPUPredicatedPod pod then Inr ta else enqueueAndWait cfg e ta pod PREDICATE_MISSING) of
           Inl f \<Rightarrow> Inl f
         | Inr ta \<Rightarrow> Inr (ta\<lparr>taResp := InsertResp (taResp ta) (pUID pod) (cName container) resp\<rparr>, resp))"

definition allocateOne ::
  "Config \<Rightarrow> env \<Rightarrow> NvidiaTopoAllocator \<Rightarrow> Pod \<Rightarrow> Container \<Rightarrow> string list
     \<Rightarrow> go_fault + NvidiaTopoAllocator \<times> (string + ContainerAllocateResponse option)" where
  "allocateOne cfg e ta pod container ids =
     (let singleNodeMemory = i64 (GetLeaveMaxTotalMemory (taTree ta));
          needCores = countCores ids; needBlocks = countBlocks ids
      in if needCores = 0 \<and> needBlocks = 0 then Inr (ta, Inr None)
         else
           let needMemory = i64 (needBlocks * MemoryBlockSize);
               nv = eNvml e (now ta);
               ta = bump (ta\<lparr>taTree := UpdateTree nv (taTree ta)\<rparr>)
           in case PrintGraph (taTree ta) of
                Inl f \<Rightarrow> Inl f
              | Inr (t, _) \<Rightarrow>
                  let ta = ta\<lparr>taTree := t\<rparr>
                  in case cacheGet (taCache ta) (pUID pod) (cName container) of
                       Some info \<Rightarrow>
                         (case concat (map (\<lambda>d. case Query t d of None \<Rightarrow> [] | Some n \<Rightarrow> [n]) (Devices info)) of
                            [] \<Rightarrow> Inr (ta, Inl ''no free node'')
                          | nodes \<Rightarrow> map_sum id (map_prod id (Inr \<circ> Some))
                              (commitAllocation cfg e ta pod container needCores needMemory False True nodes))
                     | None \<Rightarrow>
                         (case chooseNodes cfg e nv t pod container needCores needMemory singleNodeMemory of
                            Inl f \<Rightarrow> Inl f
                          | Inr (t, Inl err) \<Rightarrow> Inr (ta\<lparr>taTree := t\<rparr>, Inl err)
                          | Inr (t, Inr ([], _)) \<Rightarrow> Inr (ta\<lparr>taTree := t\<rparr>, Inl ''no free node'')
                          | Inr (t, Inr (nodes, shareMode)) \<Rightarrow> map_sum id (map_prod id (Inr \<circ> Some))
                              (commitAllocation cfg e (ta\<lparr>taTree := t\<rparr>) pod container needCores needMemory
                                 shareMode False nodes)))"

section \<open>Allocate\<close>

text \<open>The container of the unfinished pod that comes next: an error when the number of devices
  does not match it.\<close>

fun nextContainer :: "containerToInfo \<Rightarrow> int \<Rightarrow> Container list \<Rightarrow> unit + Container option" where
  "nextContainer cache reqCount [] = Inr None"
| "nextContainer cache reqCount (c # cs) =
     (if map_of cache (cName c) \<noteq> None then nextContainer cache reqCount cs
      else if \<not> IsGPURequiredContainer c then nextContainer cache reqCount cs
      else if reqCount \<noteq> GetGPUResourceOfContainer c VCoreAnnotation then Inl ()
      else Inr (Some c))"

definition matchContainer :: "PodCache \<Rightarrow> int \<Rightarrow> Pod \<Rightarrow> Container option" where
  "matchContainer cache reqCount pod =
     find (\<lambda>c. IsGPURequiredContainer c \<and> cacheGet cache (pUID pod) (cName c) = None
              \<and> GetGPUResourceOfContainer c VCoreAnnotation = reqCount) (pContainers pod)"

fun findCandidate :: "PodCache \<Rightarrow> int \<Rightarrow> Pod list \<Rightarrow> (Pod \<times> Container) option" where
  "findCandidate cache reqCount [] = None"
| "findCandidate cache reqCount (p # ps) =
     (case matchContainer cache reqCount p of
        Some c \<Rightarrow> Some (p, c) | None \<Rightarrow> findCandidate cache reqCount ps)"

text \<open>With the candidate found: the blocks of memory are added to the request, the container is
  allocated, and the phase of the pod and the node lock are updated.\<close>

definition allocateFound ::
  "Config \<Rightarrow> env \<Rightarrow> NvidiaTopoAllocator \<Rightarrow> Pod \<Rightarrow> Container \<Rightarrow> string list
     \<Rightarrow> go_fault + NvidiaTopoAllocator \<times> (string + ContainerAllocateResponse list)" where
  "allocateFound cfg e ta pod container ids =
     (let vmemory = i64 (GetGPUResourceOfContainer container VMemoryAnnotation);
          ids = ids @ replicate (nat vmemory) VMemoryAnnotation
      in case allocateOne cfg e ta pod container ids of
           Inl f \<Rightarrow> Inl f
         | Inr (ta, Inl err) \<Rightarrow> Inr (PatchPodAllocationFailed cfg e ta pod, Inl err)
         | Inr (ta, Inr resp) \<Rightarrow>
             let ta = (if taUnfinished ta = None then PatchPodAllocationSuccess cfg e ta pod else ta)
             in Inr (ta, Inr (case resp of None \<Rightarrow> [] | Some r \<Rightarrow> [r])))"

definition Allocate ::
  "Config \<Rightarrow> env \<Rightarrow> NvidiaTopoAllocator \<Rightarrow> string list list
     \<Rightarrow> go_fault + NvidiaTopoAllocator \<times> (string + ContainerAllocateResponse list)" where
  "Allocate cfg e ta reqs =
     (case reqs of
        [] \<Rightarrow> Inr (ta, Inl ''empty container request'')
      | ids # _ \<Rightarrow>
          let reqCount = int (length ids);
              ta = recycle cfg e ta
          in case taUnfinished ta of
               Some pod \<Rightarrow>
                 (case GetCache (taCache ta) (pUID pod) of
                    None \<Rightarrow> Inr (ta, Inl (''failed to find pod '' @ pUID pod @ '' in cache''))
                  | Some cache \<Rightarrow>
                      (case nextContainer cache reqCount (pContainers pod) of
                         Inl _ \<Rightarrow> Inr (ta, Inl (''allocation request mismatch for pod '' @ pUID pod))
                       | Inr None \<Rightarrow> Inr (PatchPodAllocationFailed cfg e ta pod, Inl ''candidate pod not found'')
                       | Inr (Some c) \<Rightarrow> allocateFound cfg e ta pod c ids))
             | None \<Rightarrow>
                 (case getCandidatePods e (taWorld ta) (Hostname cfg) of
                    (w, Inl err) \<Rightarrow>
                      Inr (ta\<lparr>taWorld := fst (ReleaseNodeLock (eKube e) w (Hostname cfg))\<rparr>, Inl err)
                  | (w, Inr pods) \<Rightarrow>
                      let ta = ta\<lparr>taWorld := w\<rparr>
                      in case findCandidate (taCache ta) reqCount pods of
                           None \<Rightarrow> Inr (ta\<lparr>taWorld := fst (ReleaseNodeLock (eKube e) w (Hostname cfg))\<rparr>,
                                       Inl ''candidate pod not found'')
                         | Some (pod, c) \<Rightarrow> allocateFound cfg e ta pod c ids))"

section \<open>PreStartContainer\<close>

definition preStartContainerCheck :: "PodCache \<Rightarrow> string \<Rightarrow> string \<Rightarrow> int \<Rightarrow> int \<Rightarrow> string option" where
  "preStartContainerCheck cache podUID containerName vcore vmemory =
     (case GetCache cache podUID of
        None \<Rightarrow> Some (PreStartContainerCheckErrMsg @ '', failed to get pod '' @ podUID @ '' from allocatedPod cache'')
      | Some m \<Rightarrow>
          (case map_of m containerName of
             None \<Rightarrow> Some (PreStartContainerCheckErrMsg @ '', failed to get container '' @ containerName @ '' of pod ''
                        @ podUID @ '' from allocatedPod cache'')
           | Some c \<Rightarrow>
               if iMemory c \<noteq> i64 (vmemory * MemoryBlockSize) \<or> iCores c \<noteq> vcore
               then Some (PreStartContainerCheckErrMsg @ '', pod '' @ podUID @ '' container '' @ containerName
                          @ '' requset mismatch from cache. req: vcore '' @ itoa vcore @ '' vmemory '' @ itoa (i64 (vmemory * MemoryBlockSize))
                          @ ''; cache: vcore '' @ itoa (iCores c) @ '' vmemory '' @ itoa (iMemory c))
               else if (vcore < HundredCore \<and> length (Devices c) \<noteq> 1)
                    \<or> (HundredCore \<le> vcore \<and> int (length (Devices c)) \<noteq> vcore sdiv HundredCore)
               then Some (''allocated devices mismatch, request for '' @ itoa vcore @ '' vcore, allocate [''
                          @ joinStr (Devices c) '' '' @ '']'')
               else None))"

definition PreStartContainer ::
  "Config \<Rightarrow> env \<Rightarrow> NvidiaTopoAllocator \<Rightarrow> string list \<Rightarrow> go_fault + NvidiaTopoAllocator \<times> string option" where
  "PreStartContainer cfg e ta devicesIDs =
     (case GetCheckpointData (eOrdI e) (eKubelet e (now ta)) of
        Inl f \<Rightarrow> Inl f
      | Inr (Inl err) \<Rightarrow> Inr (bump ta, Some (PreStartContainerCheckErrMsg @ '', failed to read from checkpoint file''))
      | Inr (Inr cp) \<Rightarrow>
          let ta = bump ta;
              core = find (\<lambda>en. pdResourceName en = VCoreAnnotation \<and> IsStringSliceEqual devicesIDs (pdDeviceIDs en))
                       (ckPodDeviceEntries cp);
              podUID = (case core of None \<Rightarrow> [] | Some en \<Rightarrow> pdPodUID en);
              containerName = (case core of None \<Rightarrow> [] | Some en \<Rightarrow> pdContainerName en);
              vcore = (case core of None \<Rightarrow> 0 | Some en \<Rightarrow> int (length (pdDeviceIDs en)));
              vmemory = (case find (\<lambda>en. pdPodUID en = podUID \<and> pdContainerName en = containerName
                                        \<and> pdResourceName en = VMemoryAnnotation) (ckPodDeviceEntries cp) of
                           None \<Rightarrow> 0 | Some en \<Rightarrow> int (length (pdDeviceIDs en)))
          in if podUID = [] \<or> containerName = []
             then Inr (ta, Some (PreStartContainerCheckErrMsg @ '', failed to get pod from deviceplugin checkpoint''))
             else
               (case map_of (GetActivePods (eStore e (now ta))) podUID of
                  None \<Rightarrow> Inr (ta, Some (PreStartContainerCheckErrMsg @ '', failed to get pod '' @ podUID @ '' in watchdog''))
                | Some pod \<Rightarrow>
                    (case preStartContainerCheck (taCache ta) podUID containerName vcore vmemory of
                       Some err \<Rightarrow>
                         Inr (fst (enqueue ta pod ALLOCATE_FAIL err PreStartContainerCheckErrType), Some err)
                     | None \<Rightarrow>
                         let done = eVCudaDone e (now ta) podUID;
                             ta = bump (ta\<lparr>taVCuda := taVCuda ta @ [podUID]\<rparr>)
                         in (case done of
                               Some err \<Rightarrow> Inr (ta, Some (''failed to setup VCuda for pod '' @ podUID))
                             | None \<Rightarrow> map_sum id (\<lambda>ta. (ta, None)) (enqueueAndWait cfg e ta pod ALLOCATE_SUCCESS)))))"

section \<open>The periodic check\<close>

definition deletePodWithOwnerRef :: "Config \<Rightarrow> env \<Rightarrow> NvidiaTopoAllocator \<Rightarrow> Pod \<Rightarrow> NvidiaTopoAllocator \<times> string option" where
  "deletePodWithOwnerRef cfg e ta pod =
     (let ta = freeGPU cfg e ta [pUID pod]
      in if pOwnerKinds pod = [] \<or> pKind pod \<in> set (pOwnerKinds pod) then (ta, None)
         else
           (case poll (kPolls (eKube e))
                   (\<lambda>w. case deletePodApi e w (pNamespace pod) (pName pod) of
                          (w, None) \<Rightarrow> (w, Inr True)
                        | (w, Some err) \<Rightarrow> if ShouldRetry err then (w, Inr False) else (w, Inl err)) (taWorld ta) of
              (w, err) \<Rightarrow> (ta\<lparr>taWorld := w\<rparr>, map_option errStr err)))"

definition annotationsUpToDate :: "(string, string) gomap \<Rightarrow> Pod \<Rightarrow> bool" where
  "annotationsUpToDate m pod \<longleftrightarrow> list_all (\<lambda>(k, v). map_of (pAnnotations pod) k = Some v) m"

definition checkPod :: "Config \<Rightarrow> env \<Rightarrow> NvidiaTopoAllocator \<Rightarrow> Pod \<Rightarrow> go_fault + NvidiaTopoAllocator" where
  "checkPod cfg e ta p =
     (if \<not> IsGPURequiredPod p then Inr ta
      else if pPhase p = ''Failed'' \<or> pPhase p = ''Pending'' then
        Inr (if ShouldDelete p then fst (deletePodWithOwnerRef cfg e ta p) else ta)
      else if pPhase p = ''Running'' then
        (case getReadyAnnotations ta p True of
           Inl _ \<Rightarrow> Inr ta
         | Inr m \<Rightarrow> if annotationsUpToDate m p then Inr ta else enqueueAndWait cfg e ta p ALLOCATE_SUCCESS)
      else Inr ta)"

fun checkPods :: "Config \<Rightarrow> env \<Rightarrow> NvidiaTopoAllocator \<Rightarrow> Pod list \<Rightarrow> go_fault + NvidiaTopoAllocator" where
  "checkPods cfg e ta [] = Inr ta"
| "checkPods cfg e ta (p # ps) =
     (case checkPod cfg e ta p of Inl f \<Rightarrow> Inl f | Inr ta \<Rightarrow> checkPods cfg e ta ps)"

definition checkAllocation :: "Config \<Rightarrow> env \<Rightarrow> NvidiaTopoAllocator \<Rightarrow> go_fault + NvidiaTopoAllocator" where
  "checkAllocation cfg e ta =
     (case getPodsOnNode e (taWorld ta) (Hostname cfg) [] of
        (w, Inl err) \<Rightarrow> Inr (ta\<lparr>taWorld := w\<rparr>)
      | (w, Inr pods) \<Rightarrow> checkPods cfg e (ta\<lparr>taWorld := w\<rparr>) pods)"

section \<open>Recovery\<close>

text \<open>Occupying the devices of one entry of the checkpoint; a nil pointer is a panic.\<close>

definition recoverInfo :: "NvidiaTree \<Rightarrow> Info \<Rightarrow> NvidiaTree" where
  "recoverInfo t info =
     foldl (\<lambda>t dev. if IsValidGPUPath dev
                    then MarkOccupied t (bareNode (fst (GetGPUMinorID dev))) (iCores info) (iMemory info) else t)
       t (Devices info)"

fun derefInfos :: "(string \<times> Info option) list \<Rightarrow> containerToInfo option" where
  "derefInfos [] = Some []"
| "derefInfos ((n, i) # ms) =
     (case (i, derefInfos ms) of (Some x, Some r) \<Rightarrow> Some ((n, x) # r) | _ \<Rightarrow> None)"

fun derefPods :: "(string \<times> (string, Info option) gomap) list \<Rightarrow> (string, containerToInfo) gomap option" where
  "derefPods [] = Some []"
| "derefPods ((u, m) # ps) =
     (case (derefInfos m, derefPods ps) of (Some x, Some r) \<Rightarrow> Some ((u, x) # r) | _ \<Rightarrow> None)"

definition recoverTree :: "env \<Rightarrow> NvidiaTree \<Rightarrow> PodCache \<Rightarrow> NvidiaTree" where
  "recoverTree e t cache =
     foldl (\<lambda>t (uid, m). foldl (\<lambda>t (cname, info). recoverInfo t info) t (gorange (eOrdS e) m))
       t (gorange (eOrdS e) (PodGPUMapping cache))"

definition recoverInUsed :: "Config \<Rightarrow> env \<Rightarrow> NvidiaTopoAllocator \<Rightarrow> go_fault + NvidiaTopoAllocator" where
  "recoverInUsed cfg e ta =
     (case derefPods (readCheckpoint cfg ta) of
        None \<Rightarrow> Inl Panic
      | Some m \<Rightarrow>
          let cache = \<lparr>PodGPUMapping = m\<rparr>;
              ta = ta\<lparr>taCache := cache, taTree := recoverTree e (taTree ta) cache\<rparr>;
              ta = recycle cfg e ta;
              ta = writeCheckpoint cfg e ta
          in checkAllocation cfg e ta)"

section \<open>Capacity\<close>

text \<open>The identities of the devices the plugin reports; a negative number of memory blocks is a panic.\<close>

definition totalMemoryOf :: "NvidiaTree \<Rightarrow> int" where
  "totalMemoryOf t = foldl (\<lambda>m a. i64 (m + i64 (TotalMemory (Meta (nodeAt t a))))) 0 (leaves t)"

definition capacity :: "Config \<Rightarrow> NvidiaTree \<Rightarrow> go_fault + string list" where
  "capacity cfg t =
     (let totalCores = length (leaves t) * nat HundredCore;
          blocks = scaleInt (DeviceMemoryScaling cfg) (totalMemoryOf t) sdiv MemoryBlockSize
      in if blocks < 0 then Inl Panic
         else Inr (map (\<lambda>i. VCoreAnnotation @ ''-'' @ natStr i) [0..<totalCores]
           @ map (\<lambda>i. VMemoryAnnotation @ ''-'' @ itoa MemoryBlockSize @ ''-'' @ natStr i) [0..<nat blocks]))"

text \<open>What \<^verbatim>\<open>ListAndWatchWithResourceName\<close> sends, once, before it sleeps for ever.\<close>

definition ListAndWatchWithResourceName :: "Config \<Rightarrow> NvidiaTree \<Rightarrow> string \<Rightarrow> go_fault + string list" where
  "ListAndWatchWithResourceName cfg t resourceName =
     map_sum id (filter (\<lambda>d. hasPrefix d resourceName)) (capacity cfg t)"

end
