(* ===== verification/Cache_Ledger.thy ===== *)
theory Cache_Ledger
  imports Allocator
begin

text \<open>
  The pod cache of the allocator as a ledger of grants: every device of every container in the cache
  is a grant of the container's cores and memory. Inserting a container adds its grants and deleting
  a pod removes them; the folds of the allocator over \<^verbatim>\<open>MarkFree\<close> and \<^verbatim>\<open>MarkOccupied\<close> do
  the same to the tree.
\<close>

section \<open>Devices by name\<close>

definition devNames :: "NvidiaTree \<Rightarrow> string list" where
  "devNames t = map (\<lambda>a. MinorName (nodeAt t a)) (leaves t)"

definition devIndex :: "string list \<Rightarrow> string \<Rightarrow> nat" where
  "devIndex ns d = length (takeWhile (\<lambda>n. n \<noteq> d) ns)"

text \<open>The minor numbers fit into the 32 bits that \<^verbatim>\<open>GetGPUMinorID\<close> parses.\<close>

definition minors_ok :: "NvidiaTree \<Rightarrow> bool" where
  "minors_ok t \<longleftrightarrow> list_all (\<lambda>a. 0 \<le> MinorID (Meta (nodeAt t a)) \<and> MinorID (Meta (nodeAt t a)) < 2 ^ 31) (leaves t)"

lemma devIndex_less: "d \<in> set ns \<Longrightarrow> devIndex ns d < length ns"
  unfolding devIndex_def by (induction ns) auto

lemma devIndex_nth: "d \<in> set ns \<Longrightarrow> ns ! devIndex ns d = d"
  using nth_length_takeWhile [of "\<lambda>n. n \<noteq> d" ns] devIndex_less [of d ns] by (simp add: devIndex_def)

lemma devIndex_of_nth: "distinct ns \<Longrightarrow> i < length ns \<Longrightarrow> devIndex ns (ns ! i) = i"
  using devIndex_nth [of "ns ! i" ns] devIndex_less [of "ns ! i" ns] by (simp add: nth_eq_iff_index_eq)

lemma devNames_shape:
  assumes "tree_ok t" "same_shape t t'"
  shows "devNames t' = devNames t" "minors_ok t' = minors_ok t"
  using assms tree_okD(4) [OF assms(1)]
  by (simp_all add: devNames_def minors_ok_def list_all_iff same_shape_def MinorName_def)

lemma devNames_distinct: "tree_ok t \<Longrightarrow> distinct (devNames t)"
  using tree_okD(6) by (fastforce simp: devNames_def MinorName_def distinct_map inj_on_def)

lemma devNames_length [simp]: "length (devNames t) = devices t"
  by (simp add: devNames_def devices_def)

lemma devNames_nth: "i < devices t \<Longrightarrow> devNames t ! i = MinorName (nodeAt t (leaves t ! i))"
  by (simp add: devNames_def devices_def)

text \<open>The node that \<^verbatim>\<open>freeGPU\<close> and \<^verbatim>\<open>recoverInUsed\<close> build from the name of a device names it.\<close>

lemma bareNode_names:
  assumes "minors_ok t" "d \<in> set (devNames t)"
  shows "MinorName (bareNode (fst (GetGPUMinorID d))) = d" "IsValidGPUPath d"
proof -
  obtain a where "a \<in> set (leaves t)" "d = minorPath (MinorID (Meta (nodeAt t a)))"
    using assms(2) by (auto simp: devNames_def MinorName_def)
  then show "MinorName (bareNode (fst (GetGPUMinorID d))) = d" "IsValidGPUPath d"
    using assms(1) GetGPUMinorID_minorPath
    by (auto simp: minors_ok_def list_all_iff bareNode_def MinorName_def)
qed

section \<open>Grants of the cache\<close>

definition infoGrants :: "string list \<Rightarrow> Info \<Rightarrow> grant list" where
  "infoGrants ns i = map (\<lambda>d. (devIndex ns d, iCores i, iMemory i)) (Devices i)"

definition podGrants :: "string list \<Rightarrow> containerToInfo \<Rightarrow> grant list" where
  "podGrants ns m = concat (map (\<lambda>(n, i). infoGrants ns i) m)"

definition cacheGrants :: "string list \<Rightarrow> PodCache \<Rightarrow> grant list" where
  "cacheGrants ns c = concat (map (\<lambda>(u, m). podGrants ns m) (PodGPUMapping c))"

text \<open>What every entry of the cache satisfies: it names different devices of the tree, as many as its
  cores ask for.\<close>

definition entry_ok :: "string list \<Rightarrow> Info \<Rightarrow> bool" where
  "entry_ok ns i \<longleftrightarrow> set (Devices i) \<subseteq> set ns \<and> distinct (Devices i) \<and> length (Devices i) = cardsOf (iCores i)
     \<and> 1 \<le> iCores i \<and> req_ok (iCores i) (iMemory i)"

definition entries_ok :: "string list \<Rightarrow> PodCache \<Rightarrow> bool" where
  "entries_ok ns c \<longleftrightarrow> list_all (\<lambda>(u, m). list_all (\<lambda>(n, i). entry_ok ns i) m) (PodGPUMapping c)"

lemma podGrants_Some:
  assumes "gomap_ok m" "map_of m n = Some i"
  shows "mset (podGrants ns m) = mset (infoGrants ns i) + mset (podGrants ns (AList.delete n m))"
  unfolding podGrants_def mset_concat_map mset_delete [OF assms] by simp

lemma cacheGrants_delete:
  assumes "cache_ok c"
  shows "mset (cacheGrants ns c) =
    mset (podGrants ns (case GetCache c u of None \<Rightarrow> [] | Some m \<Rightarrow> m)) + mset (cacheGrants ns (cacheDelete c u))"
proof (cases "GetCache c u")
  case None
  then show ?thesis
    by (simp add: GetCache_def cacheDelete_def cacheGrants_def podGrants_def map_of_None_delete)
next
  case (Some m)
  then have "map_of (PodGPUMapping c) u = Some m" "gomap_ok (PodGPUMapping c)"
    using assms by (auto simp: GetCache_def cache_ok_def)
  then show ?thesis
    unfolding cacheGrants_def cacheDelete_def Some mset_concat_map by (simp add: mset_delete)
qed

lemma cacheDelete_insert: "cacheDelete (cacheInsert c u n i) u = cacheDelete c u"
proof -
  have "AList.delete u (AList.update u v m) = AList.delete u m" for v and m :: "(string, containerToInfo) gomap"
    by (induction m) auto
  then show ?thesis by (simp add: cacheDelete_def cacheInsert_def Let_def)
qed

lemma cacheGrants_insert:
  assumes "cache_ok c" "cacheGet c u n = None"
  shows "mset (cacheGrants ns (cacheInsert c u n i)) = mset (infoGrants ns i) + mset (cacheGrants ns c)"
proof -
  let ?m = "case GetCache c u of None \<Rightarrow> [] | Some m \<Rightarrow> m"
  have "n \<notin> fst ` set ?m"
    using assms(2) by (auto simp: cacheGet_def map_of_eq_None_iff split: option.splits)
  then have up: "AList.update n i ?m = ?m @ [(n, i)]" by (rule update_new)
  have "mset (podGrants ns (AList.update n i ?m)) = mset (infoGrants ns i) + mset (podGrants ns ?m)"
    unfolding up by (simp add: podGrants_def)
  then show ?thesis
    unfolding cacheGrants_delete [OF assms(1), of ns u] cacheGrants_delete [OF cache_ok_insert [OF assms(1), of u n i], of ns u]
    by (simp add: cacheDelete_insert GetCache_insert)
qed

lemma entries_ok_get:
  "entries_ok ns c \<Longrightarrow> GetCache c u = Some m \<Longrightarrow> (n, i) \<in> set m \<Longrightarrow> entry_ok ns i"
  unfolding entries_ok_def GetCache_def list_all_iff by (fastforce dest: map_of_SomeD)

lemma entries_ok_delete: "entries_ok ns c \<Longrightarrow> entries_ok ns (cacheDelete c u)"
  by (auto simp: entries_ok_def cacheDelete_def list_all_iff set_AList_delete)

lemma entries_ok_insert:
  assumes "entries_ok ns c" "entry_ok ns i"
  shows "entries_ok ns (cacheInsert c u n i)"
proof -
  let ?m = "case map_of (PodGPUMapping c) u of None \<Rightarrow> [] | Some m \<Rightarrow> m"
  have m: "PodGPUMapping (cacheInsert c u n i) = AList.update u (AList.update n i ?m) (PodGPUMapping c)"
    by (auto simp: cacheInsert_def Let_def go_map update_update_same split: option.split)
  have "list_all (\<lambda>(n, i). entry_ok ns i) ?m"
    using entries_ok_get [OF assms(1), of u] by (cases "map_of (PodGPUMapping c) u") (auto simp: GetCache_def list_all_iff)
  then show ?thesis
    using assms unfolding entries_ok_def m by (intro list_all_update) (simp_all add: list_all_update)
qed

lemma cacheGrants_pos:
  assumes "entries_ok ns c" "(d, k, m) \<in> set (cacheGrants ns c)"
  shows "1 \<le> k"
  using assms by (fastforce simp: cacheGrants_def podGrants_def infoGrants_def entries_ok_def entry_ok_def list_all_iff)

section \<open>Releasing and occupying\<close>

lemma used_mset:
  "mset L = mset L' \<Longrightarrow> usedCores L i = usedCores L' i"
  "mset L = mset L' \<Longrightarrow> usedMemory tot L i = usedMemory tot L' i"
  "mset L = mset L' \<Longrightarrow> grants_ok n L = grants_ok n L'"
  unfolding usedCores_def usedMemory_def grants_ok_def list_all_iff
  by (simp_all add: sum_mset_sum_list [symmetric] mset_eq_setD [of L L'])

lemma tree_ledger_mset: "tree_ledger t L \<Longrightarrow> mset L = mset L' \<Longrightarrow> tree_ledger t L'"
  using used_mset [of L L'] by (simp add: tree_ledger_def)

lemma ledger_ok: "tree_ledger t L \<Longrightarrow> pool_ok t \<and> tree_ok t \<and> masks_ok t"
  by (simp add: tree_ledger_def pool_ok_def)

text \<open>A release or a grant, with the device given by a node that carries its name.\<close>

lemma release_named:
  assumes "tree_ledger t ((devIndex (devNames t) d, c, m) # L)" "MinorName node = d" "d \<in> set (devNames t)"
  shows "tree_ledger (MarkFree nv t node c m) L" "same_shape t (MarkFree nv t node c m)"
proof -
  let ?i = "devIndex (devNames t) d"
  have i: "?i < devices t" using devIndex_less [OF assms(3)] by simp
  have nm: "MinorName node = MinorName (nodeAt t (leaves t ! ?i))"
    using devIndex_nth [OF assms(3)] devNames_nth [OF i] assms(2) by simp
  show "tree_ledger (MarkFree nv t node c m) L"
    using release_ledger [OF assms(1) _ nm, of c m nv] by simp
  have "req_ok c m" using assms(1) by (simp add: tree_ledger_def grants_ok_def)
  then show "same_shape t (MarkFree nv t node c m)"
    using freeDev_laws(1) [OF _ i, of c m nv] ledger_ok [OF assms(1)] MarkFree_cong [OF nm, of nv t c m]
    by (simp add: freeDev_def dev_op_def)
qed

lemma grant_named:
  assumes "tree_ledger t L" "i < devices t" "req_ok c m" "fitsDev t i c m" "MinorName node = devNames t ! i"
  shows "tree_ledger (MarkOccupied t node c m) ((i, c, m) # L)"
    "dev_op t (MarkOccupied t node c m) i"
proof -
  have nm: "MinorName node = MinorName (nodeAt t (leaves t ! i))"
    using assms(5) devNames_nth [OF assms(2)] by simp
  show "tree_ledger (MarkOccupied t node c m) ((i, c, m) # L)" by (rule grant_ledger [OF assms(1-4) nm])
  show "dev_op t (MarkOccupied t node c m) i"
    using occupyDev_laws(1) [OF _ assms(2,3)] ledger_ok [OF assms(1)] MarkOccupied_cong [OF nm, of t c m]
    by (simp add: occupyDev_def)
qed

lemma freeDevices_ledger:
  assumes "tree_ledger t (infoGrants (devNames t) info @ L)" "minors_ok t" "set (Devices info) \<subseteq> set (devNames t)"
  shows "tree_ledger (freeDevices nv t info) L \<and> same_shape t (freeDevices nv t info)"
proof -
  define f where "f = (\<lambda>t d. MarkFree nv t (bareNode (fst (GetGPUMinorID d))) (iCores info) (iMemory info))"
  have "tree_ledger (foldl f t ds) L \<and> same_shape t (foldl f t ds)"
    if "tree_ledger t (map (\<lambda>d. (devIndex (devNames t) d, iCores info, iMemory info)) ds @ L)" "minors_ok t"
      "set ds \<subseteq> set (devNames t)" for ds
    using that
  proof (induction ds arbitrary: t)
    case (Cons d ds)
    have d: "d \<in> set (devNames t)" using Cons.prems by simp
    note r = release_named [OF _ bareNode_names(1) [OF Cons.prems(2) d] d, of "iCores info" "iMemory info" _ nv]
    have l: "tree_ledger (f t d) (map (\<lambda>d. (devIndex (devNames t) d, iCores info, iMemory info)) ds @ L)"
      and sh: "same_shape t (f t d)"
      unfolding f_def using r Cons.prems(1) by simp_all
    note nm = devNames_shape [OF _ sh]
    have ok: "tree_ok t" using ledger_ok [OF Cons.prems(1)] by simp
    have "tree_ledger (foldl f (f t d) ds) L \<and> same_shape (f t d) (foldl f (f t d) ds)"
      using l Cons.prems nm [OF ok] by (intro Cons.IH) auto
    then show ?case using same_shape_trans [OF sh] by simp
  qed simp
  from this [of "Devices info"] show ?thesis
    using assms by (simp add: freeDevices_def f_def infoGrants_def)
qed

end
