(* ===== verification/Allocator_Laws.thy ===== *)
theory Allocator_Laws
  imports Cache_Ledger
begin

text \<open>
  The invariant of the allocator, and that its operations keep it: the cache is the ledger of the tree,
  so the free resources the tree shows are exactly what the cached containers leave.
\<close>

section \<open>The invariant\<close>

text \<open>The blocks of memory a container asks for, bounded so that their size in bytes does not wrap.\<close>

definition pod_bounded :: "Pod \<Rightarrow> bool" where
  "pod_bounded p \<longleftrightarrow> list_all (\<lambda>c. GetGPUResourceOfContainer c VMemoryAnnotation < 2 ^ 32) (pContainers p)"

definition books_ok :: "NvidiaTree \<Rightarrow> PodCache \<Rightarrow> bool" where
  "books_ok t c \<longleftrightarrow> tree_ledger t (cacheGrants (devNames t) c) \<and> minors_ok t \<and> cache_ok c
     \<and> entries_ok (devNames t) c"

definition unfinished_ok :: "NvidiaTopoAllocator \<Rightarrow> bool" where
  "unfinished_ok ta \<longleftrightarrow>
     (case taUnfinished ta of None \<Rightarrow> True | Some p \<Rightarrow> podUnfinished (taCache ta) p \<and> pod_bounded p)"

definition alloc_inv :: "NvidiaTopoAllocator \<Rightarrow> bool" where
  "alloc_inv ta \<longleftrightarrow> books_ok (taTree ta) (taCache ta) \<and> unfinished_ok ta"

text \<open>What the surroundings promise: maps are iterated over completely, and the pods that the API server
  lists have bounded requests.\<close>

definition env_ok :: "env \<Rightarrow> bool" where
  "env_ok e \<longleftrightarrow> range_order (eOrdS e) \<and> range_order (eOrdI e)
     \<and> (\<forall>n host sel pods. kListPods (eKube e) n host sel = Inr pods \<longrightarrow> list_all pod_bounded pods)"

lemma books_okD:
  assumes "books_ok t c"
  shows "tree_ledger t (cacheGrants (devNames t) c)" "minors_ok t" "cache_ok c" "entries_ok (devNames t) c"
    "pool_ok t" "tree_ok t" "masks_ok t"
  using assms ledger_ok unfolding books_ok_def by auto

text \<open>The books depend on the tree only through what an update keeps.\<close>

lemma books_ok_upd:
  assumes "books_ok t c" "upd_ok t t'"
  shows "books_ok t' c"
proof -
  note b = books_okD [OF assms(1)]
  have sh: "same_shape t t'" using assms(2) by (simp add: upd_ok_def)
  show ?thesis
    using tree_ledger_upd [OF b(1) assms(2)] b devNames_shape [OF b(6) sh] by (simp add: books_ok_def)
qed

section \<open>Releasing\<close>

lemma freeContainers_fold:
  assumes "tree_ledger (taTree ta) (podGrants (devNames (taTree ta)) xs @ L)" "minors_ok (taTree ta)"
    "list_all (\<lambda>(n, i). entry_ok (devNames (taTree ta)) i) xs"
    and "f = (\<lambda>ta (contName, info). ta\<lparr>taTree := freeDevices (eNvml e (now ta)) (taTree ta) info,
           taResp := DeleteResp (taResp ta) uid contName\<rparr>)"
  shows "tree_ledger (taTree (foldl f ta xs)) L \<and> same_shape (taTree ta) (taTree (foldl f ta xs))
    \<and> taCache (foldl f ta xs) = taCache ta \<and> taUnfinished (foldl f ta xs) = taUnfinished ta"
  using assms(1-3)
proof (induction xs arbitrary: ta)
  case (Cons x xs)
  obtain n i where x: "x = (n, i)" by (cases x)
  let ?t = "freeDevices (eNvml e (now ta)) (taTree ta) i"
  have sub: "set (Devices i) \<subseteq> set (devNames (taTree ta))" using Cons.prems(3) x by (simp add: entry_ok_def)
  note fd = freeDevices_ledger [OF _ Cons.prems(2) sub, of "podGrants (devNames (taTree ta)) xs @ L" "eNvml e (now ta)"]
  have l: "tree_ledger ?t (podGrants (devNames (taTree ta)) xs @ L)" and sh: "same_shape (taTree ta) ?t"
    using fd Cons.prems(1) x by (simp_all add: podGrants_def)
  have ok: "tree_ok (taTree ta)" using ledger_ok [OF Cons.prems(1)] by simp
  have f: "taTree (f ta x) = ?t" "taCache (f ta x) = taCache ta" "taUnfinished (f ta x) = taUnfinished ta"
    using assms(4) x by simp_all
  have "tree_ledger (taTree (foldl f (f ta x) xs)) L \<and> same_shape (taTree (f ta x)) (taTree (foldl f (f ta x) xs))
    \<and> taCache (foldl f (f ta x) xs) = taCache (f ta x) \<and> taUnfinished (foldl f (f ta x) xs) = taUnfinished (f ta x)"
    using Cons.prems l devNames_shape [OF ok sh] by (intro Cons.IH) (simp_all add: f)
  then show ?case using f same_shape_trans [OF sh] by simp
qed (simp add: podGrants_def)

lemma freeContainers_books:
  assumes "books_ok (taTree ta) (taCache ta)" "range_order (eOrdS e)" "ta' = freeContainers e uid ta"
  shows "books_ok (taTree ta') (cacheDelete (taCache ta) uid) \<and> same_shape (taTree ta) (taTree ta')
    \<and> taCache ta' = taCache ta \<and> taUnfinished ta' = taUnfinished ta"
proof -
  let ?m = "case GetCache (taCache ta) uid of None \<Rightarrow> [] | Some m \<Rightarrow> m" and ?ns = "devNames (taTree ta)"
  let ?xs = "gorange (eOrdS e) ?m" and ?D = "cacheDelete (taCache ta) uid"
  note b = books_okD [OF assms(1)]
  have m: "gomap_ok ?m" "list_all (\<lambda>(n, i). entry_ok ?ns i) ?m"
  proof -
    show "gomap_ok ?m" "list_all (\<lambda>(n, i). entry_ok ?ns i) ?m"
      using b(3) entries_ok_get [OF b(4)]
      by (cases "GetCache (taCache ta) uid"; auto simp: list_all_iff cache_ok_def GetCache_def dest: map_of_SomeD)+
  qed
  have "mset (podGrants ?ns ?xs) = mset (podGrants ?ns ?m)"
    unfolding podGrants_def mset_concat_map mset_gorange [OF assms(2) m(1)] ..
  then have "mset (cacheGrants ?ns (taCache ta)) = mset (podGrants ?ns ?xs @ cacheGrants ?ns ?D)"
    using cacheGrants_delete [OF b(3), of ?ns uid] by simp
  then have l: "tree_ledger (taTree ta) (podGrants ?ns ?xs @ cacheGrants ?ns ?D)"
    by (rule tree_ledger_mset [OF b(1)])
  have "list_all (\<lambda>(n, i). entry_ok ?ns i) ?xs"
    using m(2) set_gorange [OF assms(2) m(1)] by (simp add: list_all_iff)
  note f = freeContainers_fold [OF l b(2) this refl, of uid e]
  have "books_ok (taTree ta') ?D"
    using f b devNames_shape [OF b(6), of "taTree ta'"] assms(3)
    by (simp add: books_ok_def entries_ok_delete freeContainers_def)
  then show ?thesis using f assms(3) by (simp add: freeContainers_def)
qed

lemma podUnfinished_delete:
  "podUnfinished c p \<Longrightarrow> pUID p \<noteq> uid \<Longrightarrow> podUnfinished (cacheDelete c uid) p"
  by (simp add: podUnfinished_def GetCache_delete)

lemma freePod_inv:
  assumes "alloc_inv ta" "range_order (eOrdS e)"
  shows "alloc_inv (freePod e ta uid)" "taCache (freePod e ta uid) = cacheDelete (taCache ta) uid"
    "same_shape (taTree ta) (taTree (freePod e ta uid))"
proof -
  note f = freeContainers_books [OF _ assms(2) refl, of ta uid]
  have b: "books_ok (taTree ta) (taCache ta)" using assms(1) by (simp add: alloc_inv_def)
  show "taCache (freePod e ta uid) = cacheDelete (taCache ta) uid"
    "same_shape (taTree ta) (taTree (freePod e ta uid))"
    using f [OF b] by (simp_all add: freePod_def Let_def split: option.split)
  show "alloc_inv (freePod e ta uid)"
    using f [OF b] assms(1) podUnfinished_delete [of "taCache ta" _ uid]
    by (auto simp: freePod_def Let_def alloc_inv_def unfinished_ok_def split: option.splits)
qed

text \<open>The other fields do not matter to the invariant.\<close>

lemma alloc_inv_frame [simp]:
  "alloc_inv (ta\<lparr>taWorld := w\<rparr>) = alloc_inv ta" "alloc_inv (ta\<lparr>taQueue := q\<rparr>) = alloc_inv ta"
  "alloc_inv (ta\<lparr>taResp := r\<rparr>) = alloc_inv ta" "alloc_inv (ta\<lparr>taFiles := fs\<rparr>) = alloc_inv ta"
  "alloc_inv (ta\<lparr>taVCuda := v\<rparr>) = alloc_inv ta" "alloc_inv (bump ta) = alloc_inv ta"
  "alloc_inv (writeCheckpoint cfg e ta) = alloc_inv ta"
  by (simp_all add: alloc_inv_def unfinished_ok_def bump_def writeCheckpoint_def split: option.split)

lemma frame_fields [simp]:
  "taTree (bump ta) = taTree ta" "taCache (bump ta) = taCache ta" "taUnfinished (bump ta) = taUnfinished ta"
  "taResp (bump ta) = taResp ta" "taQueue (bump ta) = taQueue ta" "taFiles (bump ta) = taFiles ta"
  "taTree (writeCheckpoint cfg e ta) = taTree ta" "taCache (writeCheckpoint cfg e ta) = taCache ta"
  "taUnfinished (writeCheckpoint cfg e ta) = taUnfinished ta" "taResp (writeCheckpoint cfg e ta) = taResp ta"
  "taQueue (writeCheckpoint cfg e ta) = taQueue ta"
  by (simp_all add: bump_def writeCheckpoint_def)

lemma freePods_inv:
  assumes "alloc_inv ta" "range_order (eOrdS e)"
  shows "alloc_inv (foldl (freePod e) ta uids)"
    "taCache (foldl (freePod e) ta uids) = foldl cacheDelete (taCache ta) uids"
    "same_shape (taTree ta) (taTree (foldl (freePod e) ta uids))"
proof -
  have "alloc_inv (foldl (freePod e) ta uids) \<and> taCache (foldl (freePod e) ta uids) = foldl cacheDelete (taCache ta) uids
    \<and> same_shape (taTree ta) (taTree (foldl (freePod e) ta uids))"
    using assms(1)
  proof (induction uids arbitrary: ta)
    case (Cons u uids)
    note f = freePod_inv [OF Cons.prems assms(2), of u]
    show ?case using Cons.IH [OF f(1)] f(2) same_shape_trans [OF f(3)] by simp
  qed simp
  then show "alloc_inv (foldl (freePod e) ta uids)"
    "taCache (foldl (freePod e) ta uids) = foldl cacheDelete (taCache ta) uids"
    "same_shape (taTree ta) (taTree (foldl (freePod e) ta uids))" by auto
qed

lemma freePod_files [simp]: "taFiles (freePod e ta uid) = taFiles ta"
proof -
  have "taFiles (foldl (\<lambda>ta (contName, info). ta\<lparr>taTree := freeDevices (eNvml e (now ta)) (taTree ta) info,
      taResp := DeleteResp (taResp ta) uid contName\<rparr>) ta xs) = taFiles ta" for xs
    by (induction xs arbitrary: ta) (auto simp: case_prod_unfold)
  then show ?thesis by (simp add: freePod_def freeContainers_def Let_def split: option.split)
qed

lemma freePods_files [simp]: "taFiles (foldl (freePod e) ta uids) = taFiles ta"
  by (induction uids arbitrary: ta) simp_all

section \<open>Steps between consistent states\<close>

text \<open>
  What an operation does to memory and disk, as a sequence of small steps: it goes from one balanced state
  to another on the same cards without touching a file, or it writes the checkpoint of a balanced state. The
  file on the disk therefore always holds the books of some balanced state.
\<close>

inductive evolves :: "Config \<Rightarrow> env \<Rightarrow> NvidiaTopoAllocator \<Rightarrow> NvidiaTopoAllocator \<Rightarrow> bool" for cfg e where
  stay: "evolves cfg e ta ta"
| change: "evolves cfg e ta ta1 \<Longrightarrow> alloc_inv ta2 \<Longrightarrow> same_shape (taTree ta1) (taTree ta2) \<Longrightarrow> taFiles ta2 = taFiles ta1
     \<Longrightarrow> evolves cfg e ta ta2"
| store: "evolves cfg e ta ta1 \<Longrightarrow> evolves cfg e ta (writeCheckpoint cfg e ta1)"

lemmas evolves_change = evolves.change [OF evolves.stay]

lemma evolves_trans: "evolves cfg e ta1 ta2 \<Longrightarrow> evolves cfg e ta ta1 \<Longrightarrow> evolves cfg e ta ta2"
  by (induction rule: evolves.induct) (auto intro: evolves.intros)

lemma evolves_inv: "evolves cfg e ta ta' \<Longrightarrow> alloc_inv ta \<Longrightarrow> alloc_inv ta'"
  by (induction rule: evolves.induct) simp_all

text \<open>The other fields do not matter here either.\<close>

lemma evolves_frame [intro]:
  assumes "evolves cfg e ta ta1" "alloc_inv ta"
  shows "evolves cfg e ta (ta1\<lparr>taWorld := w\<rparr>)" "evolves cfg e ta (ta1\<lparr>taQueue := q\<rparr>)" "evolves cfg e ta (ta1\<lparr>taResp := r\<rparr>)"
    "evolves cfg e ta (ta1\<lparr>taVCuda := v\<rparr>)" "evolves cfg e ta (bump ta1)"
  by (rule evolves.change [OF assms(1)]; simp add: evolves_inv [OF assms])+

lemma freeGPU_evolves:
  assumes "alloc_inv ta" "range_order (eOrdS e)"
  shows "evolves cfg e ta (freeGPU cfg e ta uids)"
  unfolding freeGPU_def
  by (rule evolves.store [OF evolves_change]) (use freePods_inv [OF assms] in simp_all)

lemma recycle_evolves:
  assumes "alloc_inv ta" "range_order (eOrdS e)"
  shows "evolves cfg e ta (recycle cfg e ta)"
  unfolding recycle_def by (rule evolves_frame(5) [OF freeGPU_evolves [OF assms] assms(1)])

lemma freeGPU_inv:
  assumes "alloc_inv ta" "range_order (eOrdS e)"
  shows "alloc_inv (freeGPU cfg e ta uids)" "taCache (freeGPU cfg e ta uids) = foldl cacheDelete (taCache ta) uids"
    "same_shape (taTree ta) (taTree (freeGPU cfg e ta uids))"
  using freePods_inv [OF assms, of uids] by (simp_all add: freeGPU_def)

lemma recycle_inv:
  assumes "alloc_inv ta" "range_order (eOrdS e)"
  shows "alloc_inv (recycle cfg e ta)" "taCache (recycle cfg e ta) = foldl cacheDelete (taCache ta) (podsToBeRemoved e ta)"
    "same_shape (taTree ta) (taTree (recycle cfg e ta))"
  using freeGPU_inv [OF assms] by (simp_all add: recycle_def)

lemma GetCache_deletes:
  "GetCache (foldl cacheDelete c uids) u = (if u \<in> set uids then None else GetCache c u)"
  by (induction uids arbitrary: c) (simp_all add: GetCache_delete)

section \<open>Serving the queue\<close>

lemma processResult_evolves:
  assumes "alloc_inv ta" "range_order (eOrdS e)" "processResult cfg e ta ar = (ta', err)"
  shows "evolves cfg e ta ta'"
  using assms(3) evolves_frame(1) [OF freeGPU_evolves [OF assms(1,2), of cfg "[pUID (arPod ar)]"] assms(1)]
    evolves_frame(1) [OF evolves.stay [of cfg e ta] assms(1)]
  by (auto simp: processResult_def Let_def intro: evolves.stay split: alloc_outcome.splits sum.splits prod.splits)

lemma processNextResult_evolves:
  assumes "alloc_inv ta" "range_order (eOrdS e)" "processNextResult cfg e ta = (ta', r)"
  shows "evolves cfg e ta ta'"
proof (cases "taQueue ta")
  case Nil
  then show ?thesis using assms by (auto simp: processNextResult_def intro: evolves.stay)
next
  case (Cons ar rest)
  obtain ta'' err where p: "processResult cfg e (ta\<lparr>taQueue := rest\<rparr>) ar = (ta'', err)" by fastforce
  have "evolves cfg e (ta\<lparr>taQueue := rest\<rparr>) ta''" using processResult_evolves [OF _ assms(2) p] assms(1) by simp
  from evolves_trans [OF this evolves_frame(2) [OF evolves.stay assms(1)]] have s: "evolves cfg e ta ta''" .
  then show ?thesis
    using assms(3) Cons p evolves_frame(2,5) [OF s assms(1)] by (auto simp: processNextResult_def split: option.splits)
qed

lemma processNextResult_inv:
  "alloc_inv ta \<Longrightarrow> range_order (eOrdS e) \<Longrightarrow> processNextResult cfg e ta = (ta', r) \<Longrightarrow> alloc_inv ta'"
  using processNextResult_evolves evolves_inv by metis

lemma serveUntil_evolves:
  "serveUntil n cfg e ta i = Inr ta' \<Longrightarrow> alloc_inv ta \<Longrightarrow> range_order (eOrdS e) \<Longrightarrow> evolves cfg e ta ta'"
proof (induction n arbitrary: ta)
  case (Suc n)
  obtain ta'' r where p: "processNextResult cfg e ta = (ta'', r)" by fastforce
  note ev = processNextResult_evolves [OF Suc.prems(2,3) p]
  have "evolves cfg e ta ta'" if "serveUntil n cfg e ta'' i = Inr ta'"
    by (rule evolves_trans [OF Suc.IH [OF that evolves_inv [OF ev Suc.prems(2)] Suc.prems(3)] ev])
  then show ?case using Suc.prems(1) p ev by (auto split: option.splits if_splits)
qed simp

lemma enqueueAndWait_evolves:
  assumes "enqueueAndWait cfg e ta pod res = Inr ta'" "alloc_inv ta" "range_order (eOrdS e)"
  shows "evolves cfg e ta ta'"
proof -
  obtain ta1 i where q: "enqueue ta pod res [] [] = (ta1, i)" by fastforce
  then have ev: "evolves cfg e ta ta1" "alloc_inv ta1"
    using assms(2) by (auto simp: enqueue_def intro!: evolves_change)
  have "serveUntil (eRounds e) cfg e ta1 i = Inr ta'" using assms(1) q by (simp add: enqueueAndWait_def)
  from evolves_trans [OF serveUntil_evolves [OF this ev(2) assms(3)] ev(1)] show ?thesis .
qed

section \<open>Occupying\<close>

text \<open>A device that an evaluator calls suitable has room for the request: a card that is free as a whole
  carries no grant, because every grant takes at least one core.\<close>

lemma free_no_grants:
  assumes "grants_ok n L" "\<And>d c m. (d, c, m) \<in> set L \<Longrightarrow> 1 \<le> c" "usedCores L i = 0"
  shows "usedMemory tot L i = 0"
  using assms
proof (induction L)
  case (Cons g L)
  obtain d c m where g: "g = (d, c, m)" by (cases g)
  have ok: "grants_ok n L" using Cons.prems(1) by (simp add: grants_ok_def)
  have "1 \<le> c" using Cons.prems(2) g by auto
  moreover have "0 \<le> usedCores L i" using used_nonneg(1) [OF ok, of 0] by simp
  ultimately have "d \<noteq> i" "usedCores L i = 0" using Cons.prems(3) g by (auto simp: grantCores_def split: if_splits)
  moreover have "usedMemory tot L i = 0"
    using Cons.IH [OF ok] Cons.prems(2) calculation(2) by (metis list.set_intros(2))
  ultimately show ?case using g by simp
qed simp

lemma suitable_fits:
  assumes "books_ok t c" "suitable t ann k m i" "0 \<le> k"
  shows "fitsDev t i k m"
proof (cases "100 \<le> k")
  case False
  then show ?thesis using assms by (simp add: suitable_def fitsDev_def grantCores_def grantMemory_def)
next
  case True
  note b = books_okD [OF assms(1)]
  let ?L = "cacheGrants (devNames t) c"
  have i: "i < devices t" and r: "rootBit t i" using assms(2) True by (auto simp: suitable_def)
  have "dvCores (devView t i) = 100"
    using full_if_free [OF b(7) _ r] i by (simp add: devView_def devices_def HundredCore_def)
  moreover have v: "dvCores (devView t i) = 100 - usedCores ?L i"
    "dvMemory (devView t i) = devTotal t i - usedMemory (devTotal t i) ?L i"
    using b(1) i by (auto simp: tree_ledger_def list_all_iff)
  ultimately have "usedCores ?L i = 0" by simp
  moreover have "grants_ok (devices t) ?L" using b(1) by (simp add: tree_ledger_def)
  ultimately have "usedMemory (devTotal t i) ?L i = 0"
    using free_no_grants cacheGrants_pos [OF b(4)] by metis
  then show ?thesis using True v \<open>usedCores ?L i = 0\<close> by (simp add: fitsDev_def grantCores_def grantMemory_def)
qed

text \<open>Occupying different devices that all fit, one after the other.\<close>

lemma occupyNodes_ledger:
  assumes "tree_ledger t L" "distinct js" "\<And>i. i \<in> set js \<Longrightarrow> i < devices t \<and> fitsDev t i c m" "req_ok c m"
  shows "tree_ledger (occupyNodes t (map ((!) (leaves t)) js) c m) (rev (map (\<lambda>i. (i, c, m)) js) @ L)
    \<and> same_shape t (occupyNodes t (map ((!) (leaves t)) js) c m)"
  using assms(1-3)
proof (induction js arbitrary: t L)
  case (Cons j js)
  let ?t = "MarkOccupied t (nodeAt t (leaves t ! j)) c m"
  have j: "j < devices t" "fitsDev t j c m" using Cons.prems(3) by auto
  note g = grant_named [OF Cons.prems(1) j(1) assms(4) j(2) devNames_nth [OF j(1), symmetric]]
  have sh: "same_shape t ?t" and lv: "leaves ?t = leaves t" using g(2) by (auto simp: dev_op_def same_shape_def)
  have "fitsDev ?t i c m" "i < devices ?t" if "i \<in> set js" for i
  proof -
    have i: "i < devices t" "fitsDev t i c m" "i \<noteq> j" using Cons.prems(2,3) that by auto
    then show "fitsDev ?t i c m" "i < devices ?t"
      using dev_op_view [OF g(2)] dev_op_frame [OF g(2)] by (auto simp: fitsDev_def)
  qed
  then have "tree_ledger (occupyNodes ?t (map ((!) (leaves ?t)) js) c m) (rev (map (\<lambda>i. (i, c, m)) js) @ (j, c, m) # L)
    \<and> same_shape ?t (occupyNodes ?t (map ((!) (leaves ?t)) js) c m)"
    using Cons.IH [OF g(1)] Cons.prems(2) by simp
  then show ?case using same_shape_trans [OF sh] by (simp add: occupyNodes_def lv)
qed (simp add: occupyNodes_def)

end
