(* ===== verification/Allocate_Laws.thy ===== *)
theory Allocate_Laws
  imports Allocator_Laws
begin

text \<open>
  \<^verbatim>\<open>allocateOne\<close> and \<^verbatim>\<open>Allocate\<close> keep the invariant of the allocator, and what a successful
  allocation leaves in the cache.
\<close>

section \<open>Choosing devices\<close>

text \<open>The nodes an evaluator returned, as indices of different suitable devices.\<close>

definition chosen_ok :: "NvidiaTree \<Rightarrow> (string, string) gomap \<Rightarrow> int \<Rightarrow> int \<Rightarrow> NvidiaTree \<Rightarrow> addr list \<Rightarrow> bool" where
  "chosen_ok t ann c m t' nodes \<longleftrightarrow> (\<exists>js. nodes = map ((!) (leaves t')) js \<and> distinct js
     \<and> (nodes \<noteq> [] \<longrightarrow> length js = cardsOf c) \<and> (\<forall>i \<in> set js. suitable t ann c m i))"

lemma chosen_ok_card: "100 \<le> c \<Longrightarrow> chosen_ok t ann c m = chosen_ok t ann c m'"
  by (simp add: chosen_ok_def suitable_def fun_eq_iff)

context evaluator
begin

lemma evaluated:
  assumes "tree_ok t" "masks_ok t" "serves c m"
  shows "\<exists>t' ns. evaluate t ann c m = Inr (t', ns) \<and> upd_ok t t' \<and> chosen_ok t ann c m t' ns"
proof -
  obtain t' ns where e: "evaluate t ann c m = Inr (t', ns)" using returns [OF assms] by metis
  show ?thesis
    using chosen_devices [OF assms e] e unfolding chosen_ok_def by metis
qed

end

lemma chooseNodes_ok:
  assumes "tree_ok t" "masks_ok t" "range_order (eOrdI e)" "0 \<le> c"
  shows "\<exists>t' r. chooseNodes cfg e nv t pod container c m snm = Inr (t', r) \<and> upd_ok t t'
    \<and> (case r of Inl _ \<Rightarrow> True | Inr (ns, sh) \<Rightarrow> chosen_ok t (pAnnotations pod) c m t' ns \<and> 1 \<le> c \<and> sh = (c < 100))"
proof -
  let ?ann = "pAnnotations pod"
  consider (link) "100 < c" "c smod 100 = 0" | (odd) "100 < c" "0 < c smod 100" | (frag) "c = 100"
    | (share) "c < 100" "EnableShare cfg" "c \<noteq> 0" "m \<noteq> 0" | (bad) "c < 100" "\<not> EnableShare cfg \<or> c = 0 \<or> m = 0"
    using smod_nonneg [OF assms(4), of 100] by fastforce
  then show ?thesis
  proof cases
    case link
    then have "servesLink c 0" using smod_nonneg [OF assms(4), of 100] by (auto simp: servesLink_def)
    from evaluator.evaluated [OF link_evaluator [OF assms(3)] assms(1,2) this, of ?ann]
    show ?thesis
      using link chosen_ok_card [of c t ?ann 0 m] by (auto simp: chooseNodes_def HundredCore_def)
  next
    case frag
    have "servesCard c 0" using frag by (simp add: servesCard_def)
    from fragment.evaluated [OF assms(1,2) this, of ?ann]
    show ?thesis
      using frag chosen_ok_card [of c t ?ann 0 m] by (auto simp: chooseNodes_def HundredCore_def)
  next
    case share
    have "servesShare c m" using share by (simp add: servesShare_def)
    from share.evaluated [OF assms(1,2) this, of nv ?ann]
    obtain t' ns where e: "shareEvaluate nv t ?ann c m = Inr (t', ns)" "upd_ok t t'" "chosen_ok t ?ann c m t' ns"
      by blast
    show ?thesis
      using share e assms(4)
      by (cases ns) (auto simp: chooseNodes_def HundredCore_def split: option.split)
  next
    case odd
    then show ?thesis using upd_ok_refl [OF assms(1,2)] by (simp add: chooseNodes_def HundredCore_def)
  next
    case bad
    then show ?thesis using upd_ok_refl [OF assms(1,2)] by (auto simp: chooseNodes_def HundredCore_def)
  qed
qed

section \<open>Committing\<close>

lemma fitsDev_upd:
  "upd_ok t t' \<Longrightarrow> i < devices t \<Longrightarrow> fitsDev t i c m \<Longrightarrow> i < devices t' \<and> fitsDev t' i c m"
  using devTotal_same_shape [of t t' i] by (auto simp: upd_ok_def fitsDev_def same_shape_def devices_def)

text \<open>Occupying chosen devices and remembering them keeps the books.\<close>

lemma occupy_books:
  assumes "books_ok t cache" "req_ok c m" "1 \<le> c" "cacheGet cache u n = None" "range_order ord"
    and js: "distinct js" "length js = cardsOf c" "\<And>i. i \<in> set js \<Longrightarrow> i < devices t \<and> fitsDev t i c m"
    and nodes: "nodes = map ((!) (leaves t)) js"
    and info: "info = \<lparr>Devices = ord (remdups (map (\<lambda>a. MinorName (nodeAt t a)) nodes)), iCores = c, iMemory = m\<rparr>"
  shows "books_ok (occupyNodes t nodes c m) (cacheInsert cache u n info)
    \<and> entry_ok (devNames t) info \<and> same_shape t (occupyNodes t nodes c m)"
proof -
  note b = books_okD [OF assms(1)]
  let ?ns = "devNames t" and ?t = "occupyNodes t nodes c m"
  have names: "map (\<lambda>a. MinorName (nodeAt t a)) nodes = map ((!) ?ns) js"
    using js(3) devNames_nth by (simp add: nodes)
  have dist: "distinct (map ((!) ?ns) js)"
    using js(1,3) nth_eq_iff_index_eq [OF devNames_distinct [OF b(6)]]
    by (auto simp: distinct_map inj_on_def)
  have ms: "mset (Devices info) = mset (map ((!) ?ns) js)"
    using assms(5) dist unfolding info names by (simp add: range_order_def distinct_remdups_id)
  have "mset (infoGrants ?ns info) = image_mset (\<lambda>d. (devIndex ?ns d, c, m)) (mset (Devices info))"
    by (simp add: infoGrants_def info)
  also have "\<dots> = mset (map (\<lambda>i. (devIndex ?ns (?ns ! i), c, m)) js)"
    unfolding ms by (simp add: multiset.map_comp comp_def)
  also have "map (\<lambda>i. (devIndex ?ns (?ns ! i), c, m)) js = map (\<lambda>i. (i, c, m)) js"
    using js(3) devIndex_of_nth [OF devNames_distinct [OF b(6)]] by simp
  finally have g: "mset (infoGrants ?ns info) = mset (map (\<lambda>i. (i, c, m)) js)" .
  have l: "tree_ledger ?t (rev (map (\<lambda>i. (i, c, m)) js) @ cacheGrants ?ns cache)" "same_shape t ?t"
    using occupyNodes_ledger [OF b(1) js(1,3) assms(2)] nodes by auto
  note sh = devNames_shape [OF b(6) l(2)]
  have "tree_ledger ?t (cacheGrants ?ns (cacheInsert cache u n info))"
    by (rule tree_ledger_mset [OF l(1)]) (simp add: cacheGrants_insert [OF b(3) assms(4)] g)
  moreover have e: "entry_ok ?ns info"
  proof -
    have "set (Devices info) \<subseteq> set ?ns" using mset_eq_setD [OF ms] js(3) by (auto simp: devNames_def devices_def)
    moreover have "distinct (Devices info)" using mset_eq_imp_distinct_iff [OF ms] dist by simp
    moreover have "length (Devices info) = cardsOf c" using mset_eq_length [OF ms] js(2) by simp
    ultimately show ?thesis using assms(2,3) by (simp add: entry_ok_def info)
  qed
  ultimately show ?thesis
    using b sh l(2) entries_ok_insert [OF b(4)] by (simp add: books_ok_def)
qed

text \<open>The state in which an allocation waits for its annotations: the devices are occupied and remembered
  unless the container was allocated before.\<close>

definition newInfo :: "env \<Rightarrow> NvidiaTree \<Rightarrow> addr list \<Rightarrow> int \<Rightarrow> int \<Rightarrow> Info" where
  "newInfo e t nodes c m =
     \<lparr>Devices = eOrdS e (remdups (map (\<lambda>a. MinorName (nodeAt t a)) nodes)), iCores = c, iMemory = m\<rparr>"

definition granted ::
  "env \<Rightarrow> NvidiaTopoAllocator \<Rightarrow> Pod \<Rightarrow> Container \<Rightarrow> int \<Rightarrow> int \<Rightarrow> bool \<Rightarrow> addr list \<Rightarrow> NvidiaTopoAllocator" where
  "granted e ta pod container c m allocated nodes = (if allocated then ta
     else ta\<lparr>taTree := occupyNodes (taTree ta) nodes c m,
             taCache := cacheInsert (taCache ta) (pUID pod) (cName container) (newInfo e (taTree ta) nodes c m)\<rparr>)"

definition committed ::
  "Config \<Rightarrow> env \<Rightarrow> NvidiaTopoAllocator \<Rightarrow> Pod \<Rightarrow> Container \<Rightarrow> int \<Rightarrow> int \<Rightarrow> bool \<Rightarrow> addr list \<Rightarrow> NvidiaTopoAllocator" where
  "committed cfg e ta pod container c m allocated nodes =
     (let ta = granted e ta pod container c m allocated nodes
      in writeCheckpoint cfg e (ta\<lparr>taUnfinished := (if podUnfinished (taCache ta) pod then Some pod else None)\<rparr>))"

lemma commitAllocation_eq:
  "commitAllocation cfg e ta pod container c m sh allocated nodes =
     (let ta2 = committed cfg e ta pod container c m allocated nodes;
          resp = containerResponse cfg (taTree ta) pod container c m sh nodes
      in if nilDefault cfg then Inl Panic
         else case (if IsGPUPredicatedPod pod then Inr ta2 else enqueueAndWait cfg e ta2 pod PREDICATE_MISSING) of
           Inl f \<Rightarrow> Inl f
         | Inr ta \<Rightarrow> Inr (ta\<lparr>taResp := InsertResp (taResp ta) (pUID pod) (cName container) resp\<rparr>, resp))"
  by (simp add: commitAllocation_def committed_def granted_def newInfo_def Let_def)

text \<open>The checkpoint is written in a balanced state, also when a panic follows; and whatever the queue does while
  the allocation waits, the invariant holds again at its end.\<close>

lemma committed_evolves:
  assumes "pod_bounded pod" "ta1 = granted e ta pod container c m allocated nodes" "books_ok (taTree ta1) (taCache ta1)"
    and "same_shape (taTree ta0) (taTree ta1)" "taFiles ta = taFiles ta0"
  shows "evolves cfg e ta0 (committed cfg e ta pod container c m allocated nodes)"
  unfolding committed_def Let_def assms(2) [symmetric]
  by (rule evolves.store [OF evolves_change])
    (use assms in \<open>simp_all add: alloc_inv_def unfinished_ok_def granted_def\<close>)

lemma commitAllocation_evolves:
  assumes "commitAllocation cfg e ta pod container c m sh allocated nodes = Inr (ta', resp)"
    and "range_order (eOrdS e)" "pod_bounded pod"
    and "ta1 = granted e ta pod container c m allocated nodes" "books_ok (taTree ta1) (taCache ta1)"
    and "same_shape (taTree ta0) (taTree ta1)" "taFiles ta = taFiles ta0" "alloc_inv ta0"
  shows "evolves cfg e ta0 ta'"
proof -
  define ta2 where "ta2 = committed cfg e ta pod container c m allocated nodes"
  have ev: "evolves cfg e ta0 ta2" unfolding ta2_def by (rule committed_evolves [OF assms(3-7)])
  note inv = evolves_inv [OF ev assms(8)]
  have "evolves cfg e ta0 ta3" if "(if IsGPUPredicatedPod pod then Inr ta2 else enqueueAndWait cfg e ta2 pod PREDICATE_MISSING) = Inr ta3" for ta3
    using that ev evolves_trans [OF enqueueAndWait_evolves [OF _ inv assms(2)] ev] by (auto split: if_splits)
  then show ?thesis
    using assms(1) evolves_frame(3) [OF _ assms(8)] unfolding commitAllocation_eq Let_def ta2_def [symmetric]
    by (auto split: sum.splits if_splits)
qed

section \<open>allocateOne\<close>

lemma PrintGraph_upd: "tree_ok t \<Longrightarrow> masks_ok t \<Longrightarrow> \<exists>t' w. PrintGraph t = Inr (t', w) \<and> upd_ok t t'"
  using PrintGraph_ok by blast

text \<open>The tree after \<^verbatim>\<open>Update\<close> and the print of the graph.\<close>

lemma refresh_ok:
  assumes "books_ok t c"
  obtains t' w where "PrintGraph (UpdateTree nv t) = Inr (t', w)" "upd_ok t t'" "books_ok t' c"
proof -
  note b = books_okD [OF assms]
  have u: "upd_ok t (UpdateTree nv t)" by (rule upd_ok_UpdateTree [OF b(6,7)])
  then obtain t' w where p: "PrintGraph (UpdateTree nv t) = Inr (t', w)" "upd_ok (UpdateTree nv t) t'"
    using PrintGraph_upd by (metis upd_ok_def)
  then show ?thesis using that upd_ok_trans [OF u p(2)] books_ok_upd [OF assms] by blast
qed

definition ids_bounded :: "string list \<Rightarrow> bool" where
  "ids_bounded ids \<longleftrightarrow> length ids < 2 ^ 33"

lemma ids_bounded_req:
  assumes "ids_bounded ids"
  shows "req_ok (countCores ids) (i64 (countBlocks ids * MemoryBlockSize))" "0 \<le> countCores ids"
proof -
  have "length (filter P ids) < 2 ^ 33" for P
    using assms length_filter_le [of P ids] unfolding ids_bounded_def by (rule le_less_trans [rotated])
  then have "countCores ids < 2 ^ 33" "countBlocks ids < 2 ^ 33" "0 \<le> countCores ids" "0 \<le> countBlocks ids"
    unfolding countCores_def countBlocks_def by (simp_all add: of_nat_less_numeral_power_cancel_iff)
  then show "req_ok (countCores ids) (i64 (countBlocks ids * MemoryBlockSize))" "0 \<le> countCores ids"
    by (simp_all add: req_ok_def MemoryBlockSize_def i64_id)
qed

text \<open>The devices of a fresh allocation, from the choice of the evaluator on.\<close>

lemma chosen_books:
  assumes "books_ok t cache" "upd_ok t t'" "chosen_ok t ann c m t' nodes" "nodes \<noteq> []" "req_ok c m" "1 \<le> c"
    "cacheGet cache u n = None" "range_order (eOrdS e)"
  shows "books_ok (occupyNodes t' nodes c m) (cacheInsert cache u n (newInfo e t' nodes c m))
    \<and> entry_ok (devNames t') (newInfo e t' nodes c m) \<and> same_shape t' (occupyNodes t' nodes c m)"
proof -
  obtain js where js: "nodes = map ((!) (leaves t')) js" "distinct js" "length js = cardsOf c"
    "\<And>i. i \<in> set js \<Longrightarrow> suitable t ann c m i"
    using assms(3,4) unfolding chosen_ok_def by blast
  have "i < devices t' \<and> fitsDev t' i c m" if "i \<in> set js" for i
    using fitsDev_upd [OF assms(2)] suitable_fits [OF assms(1) js(4) [OF that]] js(4) [OF that] assms(6)
    by (simp add: suitable_def)
  from occupy_books [OF books_ok_upd [OF assms(1,2)] assms(5-8) js(2,3) this js(1) newInfo_def]
  show ?thesis by blast
qed

text \<open>The nodes of a container that was allocated before.\<close>

definition cachedNodes :: "NvidiaTree \<Rightarrow> Info \<Rightarrow> addr list" where
  "cachedNodes t info = concat (map (\<lambda>d. case Query t d of None \<Rightarrow> [] | Some n \<Rightarrow> [n]) (Devices info))"

text \<open>
  \<^verbatim>\<open>allocateOne\<close> by its cases, over the state \<open>ta1\<close> with the refreshed tree: nothing was asked
  for; an error, which at most refreshes the tree; a container that was allocated before; or a fresh
  choice of the evaluators.
\<close>

lemma allocateOne_cases:
  assumes "alloc_inv ta" "env_ok e" "ids_bounded ids" "c = countCores ids" "m = i64 (countBlocks ids * MemoryBlockSize)"
  obtains
    (nothing) "allocateOne cfg e ta pod container ids = Inr (ta, Inr None)" "c = 0" "countBlocks ids = 0"
  | (error) ta1 t err where "allocateOne cfg e ta pod container ids = Inr (ta1\<lparr>taTree := t\<rparr>, Inl err)"
      "taCache ta1 = taCache ta" "taUnfinished ta1 = taUnfinished ta" "taQueue ta1 = taQueue ta" "taResp ta1 = taResp ta"
      "upd_ok (taTree ta) t" "taFiles ta1 = taFiles ta"
  | (again) ta1 nodes info where "allocateOne cfg e ta pod container ids =
        map_sum id (map_prod id (Inr \<circ> Some)) (commitAllocation cfg e ta1 pod container c m False True nodes)"
      "cacheGet (taCache ta) (pUID pod) (cName container) = Some info"
      "nodes = cachedNodes (taTree ta1) info" "nodes \<noteq> []"
      "taCache ta1 = taCache ta" "taQueue ta1 = taQueue ta" "upd_ok (taTree ta) (taTree ta1)"
      "taFiles ta1 = taFiles ta"
  | (fresh) ta1 t nodes where "allocateOne cfg e ta pod container ids =
        map_sum id (map_prod id (Inr \<circ> Some)) (commitAllocation cfg e ta1 pod container c m (c < 100) False nodes)"
      "cacheGet (taCache ta) (pUID pod) (cName container) = None" "1 \<le> c" "nodes \<noteq> []"
      "taCache ta1 = taCache ta" "taQueue ta1 = taQueue ta" "upd_ok (taTree ta) t" "upd_ok t (taTree ta1)"
      "chosen_ok t (pAnnotations pod) c m (taTree ta1) nodes" "taFiles ta1 = taFiles ta"
proof -
  define nv where "nv = eNvml e (now ta)"
  have b: "books_ok (taTree ta) (taCache ta)" using assms(1) by (simp add: alloc_inv_def)
  obtain t w where t: "PrintGraph (UpdateTree nv (taTree ta)) = Inr (t, w)" "upd_ok (taTree ta) t" "books_ok t (taCache ta)"
    using refresh_ok [OF b] by metis
  note tb = books_okD [OF t(3)]
  define ta1 where "ta1 = (bump (ta\<lparr>taTree := UpdateTree nv (taTree ta)\<rparr>))\<lparr>taTree := t\<rparr>"
  have same: "taTree ta1 = t" "taCache ta1 = taCache ta" "taUnfinished ta1 = taUnfinished ta" "taQueue ta1 = taQueue ta"
    "taResp ta1 = taResp ta" "taFiles ta1 = taFiles ta" by (simp_all add: ta1_def)
  obtain t' r where ch: "chooseNodes cfg e nv t pod container c m (i64 (GetLeaveMaxTotalMemory (taTree ta))) = Inr (t', r)"
    "upd_ok t t'" "case r of Inl _ \<Rightarrow> True | Inr (ns, sh) \<Rightarrow> chosen_ok t (pAnnotations pod) c m t' ns \<and> 1 \<le> c \<and> sh = (c < 100)"
    using chooseNodes_ok [OF tb(6,7), of e c] assms(2) ids_bounded_req(2) [OF assms(3)] unfolding assms(4) env_ok_def by metis
  have run: "allocateOne cfg e ta pod container ids =
      (if c = 0 \<and> countBlocks ids = 0 then Inr (ta, Inr None)
       else case cacheGet (taCache ta) (pUID pod) (cName container) of
         Some info \<Rightarrow>
           (case cachedNodes t info of
              [] \<Rightarrow> Inr (ta1, Inl ''no free node'')
            | nodes \<Rightarrow> map_sum id (map_prod id (Inr \<circ> Some)) (commitAllocation cfg e ta1 pod container c m False True nodes))
       | None \<Rightarrow>
           (case r of
              Inl err \<Rightarrow> Inr (ta1\<lparr>taTree := t'\<rparr>, Inl err)
            | Inr ([], _) \<Rightarrow> Inr (ta1\<lparr>taTree := t'\<rparr>, Inl ''no free node'')
            | Inr (nodes, sh) \<Rightarrow> map_sum id (map_prod id (Inr \<circ> Some))
                (commitAllocation cfg e (ta1\<lparr>taTree := t'\<rparr>) pod container c m sh False nodes)))"
    using t(1) same ch(1) unfolding allocateOne_def Let_def assms(4,5) nv_def ta1_def cachedNodes_def
    by (cases r) (simp_all split: option.split)
  have up: "upd_ok (taTree ta) t'" using upd_ok_trans [OF t(2) ch(2)] .
  have ta1: "ta1\<lparr>taTree := t\<rparr> = ta1" by (simp add: ta1_def)
  show ?thesis
  proof (cases "c = 0 \<and> countBlocks ids = 0")
    case True
    show ?thesis by (rule nothing) (use run True in simp_all)
  next
    case False
    note run = run [unfolded if_not_P [OF False]]
    show ?thesis
    proof (cases "cacheGet (taCache ta) (pUID pod) (cName container)")
      case (Some info)
      show ?thesis
      proof (cases "cachedNodes t info")
        case Nil
        show ?thesis by (rule error [of t ta1]) (use run Some Nil same t(2) ta1 in simp_all)
      next
        case (Cons a as)
        show ?thesis
          by (rule again [of ta1 "cachedNodes t info", OF _ Some]) (use run Some Cons same t(2) in simp_all)
      qed
    next
      case None
      consider (err) err where "r = Inl err" | (none) sh where "r = Inr ([], sh)"
        | (some) a as sh where "r = Inr (a # as, sh)"
        by (metis sumE surj_pair list.exhaust)
      then show ?thesis
      proof cases
        case err
        show ?thesis by (rule error [of t' ta1]) (use run None err same up in simp_all)
      next
        case none
        show ?thesis by (rule error [of t' ta1]) (use run None none same up in simp_all)
      next
        case some
        show ?thesis
          by (rule fresh [of "ta1\<lparr>taTree := t'\<rparr>" "a # as" t, OF _ None]) (use run None some same t(2) ch in simp_all)
      qed
    qed
  qed
qed

lemma map_sum_InrD:
  "map_sum id (map_prod id f) x = Inr (a, b) \<Longrightarrow> \<exists>y. x = Inr (a, y) \<and> b = f y"
  by (cases x) auto

lemma alloc_inv_tree:
  "alloc_inv ta \<Longrightarrow> upd_ok (taTree ta) t \<Longrightarrow> taCache ta1 = taCache ta \<Longrightarrow> taUnfinished ta1 = taUnfinished ta
     \<Longrightarrow> taTree ta1 = t \<Longrightarrow> alloc_inv ta1"
  using books_ok_upd [of "taTree ta" "taCache ta" t] by (simp add: alloc_inv_def unfinished_ok_def split: option.splits)

lemma fresh_granted:
  assumes "books_ok (taTree ta) (taCache ta)" "upd_ok (taTree ta) t" "upd_ok t (taTree ta1)" "taCache ta1 = taCache ta"
    "chosen_ok t ann c m (taTree ta1) nodes" "nodes \<noteq> []" "req_ok c m" "1 \<le> c"
    "cacheGet (taCache ta) (pUID pod) (cName container) = None" "range_order (eOrdS e)"
    and "ta2 = granted e ta1 pod container c m False nodes"
  shows "books_ok (taTree ta2) (taCache ta2)" "entry_ok (devNames (taTree ta1)) (newInfo e (taTree ta1) nodes c m)"
    "same_shape (taTree ta) (taTree ta2)"
proof -
  note ch = chosen_books [OF books_ok_upd [OF assms(1,2)] assms(3,5,6,7,8,9,10)]
  show "books_ok (taTree ta2) (taCache ta2)" "entry_ok (devNames (taTree ta1)) (newInfo e (taTree ta1) nodes c m)"
    using ch assms(4,11) by (auto simp: granted_def)
  have "same_shape (taTree ta) (taTree ta1)" using upd_ok_trans [OF assms(2,3)] by (simp add: upd_ok_def)
  from same_shape_trans [OF this] ch show "same_shape (taTree ta) (taTree ta2)" using assms(11) by (simp add: granted_def)
qed

lemma allocateOne_evolves:
  assumes "alloc_inv ta" "env_ok e" "pod_bounded pod" "ids_bounded ids"
    and "allocateOne cfg e ta pod container ids = Inr (ta', r)"
  shows "evolves cfg e ta ta'"
proof -
  have ord: "range_order (eOrdS e)" using assms(2) by (simp add: env_ok_def)
  have b: "books_ok (taTree ta) (taCache ta)" using assms(1) by (simp add: alloc_inv_def)
  note req = ids_bounded_req(1) [OF assms(4)]
  from assms(1,2,4) refl refl show ?thesis
  proof (cases rule: allocateOne_cases [where cfg = cfg and pod = pod and container = container])
    case nothing
    then show ?thesis using assms(5) by (simp add: evolves.stay)
  next
    case (error ta1 t err)
    have "evolves cfg e ta (ta1\<lparr>taTree := t\<rparr>)"
      by (rule evolves_change) (use alloc_inv_tree [OF assms(1) error(6), of "ta1\<lparr>taTree := t\<rparr>"] error in \<open>simp_all add: upd_ok_def\<close>)
    then show ?thesis using assms(5) error(1) by simp
  next
    case (again ta1 nodes info)
    obtain resp where "commitAllocation cfg e ta1 pod container (countCores ids) (i64 (countBlocks ids * MemoryBlockSize))
        False True nodes = Inr (ta', resp)"
      using map_sum_InrD assms(5) again(1) by metis
    from commitAllocation_evolves [OF this ord assms(3) refl _ _ again(8) assms(1)] show ?thesis
      using books_ok_upd [OF b again(7)] again(5,7) by (simp add: granted_def upd_ok_def)
  next
    case (fresh ta1 t nodes)
    obtain resp where "commitAllocation cfg e ta1 pod container (countCores ids) (i64 (countBlocks ids * MemoryBlockSize))
        (countCores ids < 100) False nodes = Inr (ta', resp)"
      using map_sum_InrD assms(5) fresh(1) by metis
    from commitAllocation_evolves [OF this ord assms(3) refl _ _ fresh(10) assms(1)] show ?thesis
      using fresh_granted(1,3) [OF b fresh(7,8,5,9,4) req fresh(3,2) ord refl] by blast
  qed
qed

section \<open>Allocate\<close>

lemma PatchPodAllocation_frame [simp]:
  "taTree (PatchPodAllocation cfg e ph ta pod) = taTree ta" "taCache (PatchPodAllocation cfg e ph ta pod) = taCache ta"
  "taUnfinished (PatchPodAllocation cfg e ph ta pod) = taUnfinished ta" "taQueue (PatchPodAllocation cfg e ph ta pod) = taQueue ta"
  "taResp (PatchPodAllocation cfg e ph ta pod) = taResp ta"
  "alloc_inv (PatchPodAllocation cfg e ph ta pod) = alloc_inv ta"
  by (simp_all add: PatchPodAllocation_def split: prod.split)

text \<open>The identities a request carries once the blocks of memory of its container are added.\<close>

definition requestIds :: "Container \<Rightarrow> string list \<Rightarrow> string list" where
  "requestIds container ids =
     ids @ replicate (nat (i64 (GetGPUResourceOfContainer container VMemoryAnnotation))) VMemoryAnnotation"

lemma requestIds_bounded:
  assumes "pod_bounded pod" "container \<in> set (pContainers pod)" "length ids < 2 ^ 32"
  shows "ids_bounded (requestIds container ids)"
proof -
  have "GetGPUResourceOfContainer container VMemoryAnnotation < 2 ^ 32"
    using assms(1,2) by (simp add: pod_bounded_def list_all_iff)
  moreover have "0 \<le> GetGPUResourceOfContainer container VMemoryAnnotation"
    using GetGPUResourceOfContainer_range by blast
  ultimately have "nat (i64 (GetGPUResourceOfContainer container VMemoryAnnotation)) < 2 ^ 32"
    by (simp add: i64_id)
  then show ?thesis using assms(3) by (simp add: ids_bounded_def requestIds_def)
qed

lemma PatchPodAllocation_evolves: "evolves cfg e ta ta1 \<Longrightarrow> alloc_inv ta \<Longrightarrow> evolves cfg e ta (PatchPodAllocation cfg' e' ph ta1 pod)"
  by (auto simp: PatchPodAllocation_def split: prod.split)

lemma allocateFound_evolves:
  assumes "alloc_inv ta" "env_ok e" "pod_bounded pod" "container \<in> set (pContainers pod)" "length ids < 2 ^ 32"
    and "allocateFound cfg e ta pod container ids = Inr (ta', r)"
  shows "evolves cfg e ta ta'"
proof -
  have "evolves cfg e ta ta1" if "allocateOne cfg e ta pod container (requestIds container ids) = Inr (ta1, r1)" for ta1 r1
    by (rule allocateOne_evolves [OF assms(1-3) requestIds_bounded [OF assms(3-5)] that])
  then show ?thesis
    using assms(6) PatchPodAllocation_evolves [OF _ assms(1)] unfolding allocateFound_def Let_def requestIds_def [symmetric]
    by (auto simp: Let_def PatchPodAllocationFailed_def PatchPodAllocationSuccess_def split: sum.splits)
qed

lemma nextContainer_Some: "nextContainer cache k cs = Inr (Some c) \<Longrightarrow> c \<in> set cs \<and> map_of cache (cName c) = None
    \<and> IsGPURequiredContainer c \<and> GetGPUResourceOfContainer c VCoreAnnotation = k"
  by (induction cs) (auto split: if_splits)

lemma findCandidate_Some: "findCandidate cache k ps = Some (p, c) \<Longrightarrow> p \<in> set ps \<and> matchContainer cache k p = Some c"
  by (induction ps) (auto split: option.splits)

lemma matchContainer_Some: "matchContainer cache k p = Some c \<Longrightarrow> c \<in> set (pContainers p) \<and> IsGPURequiredContainer c
    \<and> cacheGet cache (pUID p) (cName c) = None \<and> GetGPUResourceOfContainer c VCoreAnnotation = k"
  unfolding matchContainer_def by (auto dest: find_SomeD)

lemma getCandidatePods_Some:
  assumes "getCandidatePods e w host = (w', Inr pods)" "p \<in> set pods"
  shows "isCandidate p" "env_ok e \<Longrightarrow> pod_bounded p"
  using assms
  by (auto simp: getCandidatePods_def getPodsOnNode_def listPodsApi_def Let_def OrderPodsdByBindTime_def env_ok_def list_all_iff
      split: sum.splits)

lemma Allocate_evolves:
  assumes "alloc_inv ta" "env_ok e" "list_all (\<lambda>ids. length ids < 2 ^ 32) reqs" "Allocate cfg e ta reqs = Inr (ta', r)"
  shows "evolves cfg e ta ta'"
proof (cases reqs)
  case Nil
  then show ?thesis using assms by (auto simp: Allocate_def intro: evolves.stay)
next
  case (Cons ids rest)
  have ord: "range_order (eOrdS e)" using assms(2) by (simp add: env_ok_def)
  have len: "length ids < 2 ^ 32" using assms(3) Cons by simp
  note ev = recycle_evolves [OF assms(1) ord, of cfg]
  note inv = evolves_inv [OF ev assms(1)] and world = evolves_frame(1) [OF ev assms(1)]
  have un: "pod_bounded p" if "taUnfinished (recycle cfg e ta) = Some p" for p
    using inv that by (simp add: alloc_inv_def unfinished_ok_def)
  have found: "evolves cfg e ta ta2" if "allocateFound cfg e ta1 pod c ids = Inr (ta2, r)" "evolves cfg e ta ta1" "pod_bounded pod"
    "c \<in> set (pContainers pod)" for ta1 ta2 pod c
    by (rule evolves_trans [OF allocateFound_evolves [OF evolves_inv [OF that(2) assms(1)] assms(2) that(3,4) len that(1)] that(2)])
  show ?thesis
  proof (cases "taUnfinished (recycle cfg e ta)")
    case (Some pod)
    then show ?thesis
      using assms(4) Cons ev found un nextContainer_Some PatchPodAllocation_evolves [OF ev assms(1)]
      by (auto simp: Allocate_def Let_def PatchPodAllocationFailed_def split: option.splits sum.splits)
  next
    case None
    obtain w pods where g: "getCandidatePods e (taWorld (recycle cfg e ta)) (Hostname cfg) = (w, pods)" by fastforce
    have "evolves cfg e ta ta'" if "findCandidate (taCache (recycle cfg e ta)) (int (length ids)) ps = Some (pod, c)"
      "pods = Inr ps" "allocateFound cfg e ((recycle cfg e ta)\<lparr>taWorld := w\<rparr>) pod c ids = Inr (ta', r)" for ps pod c
      using found [OF that(3) world] findCandidate_Some [OF that(1)] matchContainer_Some
        getCandidatePods_Some(2) g that(2) assms(2) by simp blast
    then show ?thesis
      using assms(4) Cons None world g by (auto simp: Allocate_def Let_def split: sum.splits option.splits)
  qed
qed

lemma Allocate_inv:
  assumes "alloc_inv ta" "env_ok e" "list_all (\<lambda>ids. length ids < 2 ^ 32) reqs" "Allocate cfg e ta reqs = Inr (ta', r)"
  shows "alloc_inv ta'"
  by (rule evolves_inv [OF Allocate_evolves [OF assms] assms(1)])

end
