(* ===== verification/Recovery_Laws.thy ===== *)
theory Recovery_Laws
  imports Allocate_Laws
begin

text \<open>
  The remaining operations of the allocator keep its invariant: the check before a container starts, the
  periodic check, and the recovery of the tree from the checkpoint after a restart.
\<close>

section \<open>PreStartContainer and the periodic check\<close>

lemma PreStartContainer_evolves:
  assumes "alloc_inv ta" "range_order (eOrdS e)" "PreStartContainer cfg e ta ids = Inr (ta', err)"
  shows "evolves cfg e ta ta'"
proof -
  note stay = evolves_frame [OF evolves.stay [of cfg e ta] assms(1)]
  have asked: "evolves cfg e ta (bump ((bump ta)\<lparr>taVCuda := v\<rparr>))" for v
    using evolves_frame(5) [OF evolves_frame(4) [OF stay(5) assms(1)] assms(1)] .
  have wait: "evolves cfg e ta ta2" if "map_sum id (\<lambda>ta. (ta, None)) (enqueueAndWait cfg e (bump ((bump ta)\<lparr>taVCuda := v\<rparr>)) pod ALLOCATE_SUCCESS)
      = Inr (ta2, err)" for v pod ta2 err
    using that evolves_trans [OF enqueueAndWait_evolves [OF _ evolves_inv [OF asked assms(1)] assms(2)] asked]
    by (cases "enqueueAndWait cfg e (bump ((bump ta)\<lparr>taVCuda := v\<rparr>)) pod ALLOCATE_SUCCESS") auto
  have "evolves cfg e ta (fst (enqueue (bump ta) pod res msg reason))" for pod res msg reason
    using evolves_frame(5) [OF evolves_frame(2) [OF stay(5) assms(1)] assms(1)] by (simp add: enqueue_def)
  then show ?thesis
    using assms(3) wait asked stay
    by (auto simp: PreStartContainer_def Let_def split: sum.splits option.splits if_splits)
qed

lemma PreStartContainer_inv:
  "alloc_inv ta \<Longrightarrow> range_order (eOrdS e) \<Longrightarrow> PreStartContainer cfg e ta ids = Inr (ta', err) \<Longrightarrow> alloc_inv ta'"
  using PreStartContainer_evolves evolves_inv by metis

lemma deletePodWithOwnerRef_evolves:
  assumes "alloc_inv ta" "range_order (eOrdS e)"
  shows "evolves cfg e ta (fst (deletePodWithOwnerRef cfg e ta pod))"
  using freeGPU_evolves [OF assms, of cfg "[pUID pod]"] assms(1)
  by (auto simp: deletePodWithOwnerRef_def Let_def split: prod.split)

lemma checkPod_evolves:
  assumes "alloc_inv ta" "range_order (eOrdS e)" "checkPod cfg e ta p = Inr ta'"
  shows "evolves cfg e ta ta'"
  using assms deletePodWithOwnerRef_evolves [OF assms(1,2), of cfg p] enqueueAndWait_evolves [OF _ assms(1,2)] evolves.stay
  by (auto simp: checkPod_def split: if_splits sum.splits)

lemma checkPods_evolves:
  assumes "range_order (eOrdS e)"
  shows "checkPods cfg e ta ps = Inr ta' \<Longrightarrow> alloc_inv ta \<Longrightarrow> evolves cfg e ta ta'"
proof (induction ps arbitrary: ta)
  case (Cons p ps)
  obtain ta1 where c: "checkPod cfg e ta p = Inr ta1" "checkPods cfg e ta1 ps = Inr ta'"
    using Cons.prems(1) by (auto split: sum.splits)
  note ev = checkPod_evolves [OF Cons.prems(2) assms c(1)]
  show ?case by (rule evolves_trans [OF Cons.IH [OF c(2) evolves_inv [OF ev Cons.prems(2)]] ev])
qed (auto intro: evolves.stay)

lemma checkAllocation_evolves:
  assumes "checkAllocation cfg e ta = Inr ta'" "alloc_inv ta" "range_order (eOrdS e)"
  shows "evolves cfg e ta ta'"
proof -
  note w = evolves_frame(1) [OF evolves.stay [of cfg e ta] assms(2)]
  show ?thesis
    using assms(1) w evolves_trans [OF checkPods_evolves [OF assms(3)] w] assms(2) unfolding checkAllocation_def
    by (auto split: sum.splits prod.splits)
qed

lemma checkAllocation_inv:
  "checkAllocation cfg e ta = Inr ta' \<Longrightarrow> alloc_inv ta \<Longrightarrow> range_order (eOrdS e) \<Longrightarrow> alloc_inv ta'"
  using checkAllocation_evolves evolves_inv by metis

section \<open>Recovery\<close>

definition recoverStep :: "NvidiaTree \<Rightarrow> string \<times> int \<times> int \<Rightarrow> NvidiaTree" where
  "recoverStep t g = (case g of (d, c, m) \<Rightarrow>
     if IsValidGPUPath d then MarkOccupied t (bareNode (fst (GetGPUMinorID d))) c m else t)"

text \<open>The recovery as one fold over the named grants of the cache.\<close>

definition namedGrants :: "(string list \<Rightarrow> string list) \<Rightarrow> PodCache \<Rightarrow> (string \<times> int \<times> int) list" where
  "namedGrants ord c = concat (map (\<lambda>(u, m). concat (map (\<lambda>(n, i).
     map (\<lambda>d. (d, iCores i, iMemory i)) (Devices i)) (gorange ord m))) (gorange ord (PodGPUMapping c)))"

lemma recoverTree_fold: "recoverTree e t c = foldl recoverStep t (namedGrants (eOrdS e) c)"
proof -
  have "recoverInfo t i = foldl recoverStep t (map (\<lambda>d. (d, iCores i, iMemory i)) (Devices i))" for t i
    by (simp add: recoverInfo_def recoverStep_def foldl_map)
  then show ?thesis
    by (simp add: recoverTree_def namedGrants_def case_prod_unfold foldl_nested)
qed

lemma recover_replay:
  assumes "pool_ok t" "minors_ok t" "\<And>d c m. (d, c, m) \<in> set xs \<Longrightarrow> d \<in> set (devNames t) \<and> req_ok c m"
    and "f = (\<lambda>(d, c, m). (devIndex (devNames t) d, c, m))"
  shows "foldl recoverStep t xs = tp.replay (map f xs) t \<and> same_shape t (foldl recoverStep t xs)"
  using assms
proof (induction xs arbitrary: t)
  case (Cons x xs)
  obtain d c m where x: "x = (d, c, m)" by (cases x)
  have d: "d \<in> set (devNames t)" "req_ok c m" using Cons.prems(3) x by auto
  let ?i = "devIndex (devNames t) d"
  have i: "?i < devices t" using devIndex_less [OF d(1)] by simp
  note o = occupyDev_laws [OF Cons.prems(1) i d(2)] and bn = bareNode_names [OF Cons.prems(2) d(1)]
  have "MinorName (bareNode (fst (GetGPUMinorID d))) = MinorName (nodeAt t (leaves t ! ?i))"
    using bn(1) devIndex_nth [OF d(1)] devNames_nth [OF i] by simp
  then have step: "recoverStep t x = occupyDev t ?i c m"
    using bn(2) MarkOccupied_cong [of _ _ t c m] unfolding recoverStep_def x occupyDev_def prod.case if_P [OF bn(2)] by blast
  have sh: "same_shape t (recoverStep t x)" using o(1) step by (simp add: dev_op_def)
  have ok: "tree_ok t" using Cons.prems(1) by (simp add: pool_ok_def)
  note ds = devNames_shape [OF ok sh]
  have "foldl recoverStep (recoverStep t x) xs = tp.replay (map f xs) (recoverStep t x)
      \<and> same_shape (recoverStep t x) (foldl recoverStep (recoverStep t x) xs)"
  proof (rule Cons.IH)
    show "pool_ok (recoverStep t x)" unfolding step by (rule o(3))
    show "minors_ok (recoverStep t x)" using ds(2) Cons.prems(2) by blast
    show "d \<in> set (devNames (recoverStep t x)) \<and> req_ok c m" if "(d, c, m) \<in> set xs" for d c m
      using Cons.prems(3) [of d c m] that unfolding ds(1) by simp
    show "f = (\<lambda>(d, c, m). (devIndex (devNames (recoverStep t x)) d, c, m))" unfolding ds(1) by (rule Cons.prems(4))
  qed
  note ih = this
  have "same_shape t (foldl recoverStep t (x # xs))"
    using same_shape_trans [OF sh conjunct2 [OF ih]] by simp
  moreover have "tp.replay (map f (x # xs)) t = tp.replay (map f xs) (recoverStep t x)"
    unfolding step by (simp add: tp.replay_def Cons.prems(4) x)
  ultimately show ?case using ih by simp
qed (simp add: tp.replay_def)

lemma tp_replay_Nil [simp]: "tp.replay [] t = t"
  by (simp add: tp.replay_def)

lemma set_namedGrants:
  assumes "cache_ok c" "range_order ord"
  shows "mset (map (\<lambda>(d, c, m). (devIndex ns d, c, m)) (namedGrants ord c)) = mset (cacheGrants ns c)"
proof -
  let ?g = "\<lambda>(n :: string, i :: Info). infoGrants ns i"
  have "map (\<lambda>(d, c, m). (devIndex ns d, c, m)) (namedGrants ord c) =
      concat (map (\<lambda>(u, m). concat (map ?g (gorange ord m))) (gorange ord (PodGPUMapping c)))"
    by (simp add: namedGrants_def infoGrants_def map_concat case_prod_unfold comp_def)
  also have "mset \<dots> = (\<Sum>x\<in>#mset (PodGPUMapping c). mset (concat (map ?g (gorange ord (snd x)))))"
    using assms by (simp add: mset_concat_map mset_gorange cache_ok_def case_prod_unfold)
  also have "\<dots> = (\<Sum>x\<in>#mset (PodGPUMapping c). mset (podGrants ns (snd x)))"
  proof (rule arg_cong [where f = sum_mset], rule image_mset_cong)
    fix x
    assume "x \<in># mset (PodGPUMapping c)"
    then have "gomap_ok (snd x)" using assms(1) by (auto simp: cache_ok_def list_all_iff)
    then show "mset (concat (map ?g (gorange ord (snd x)))) = mset (podGrants ns (snd x))"
      by (simp only: podGrants_def mset_concat_map mset_gorange [OF assms(2)])
  qed
  finally show ?thesis by (simp add: cacheGrants_def mset_concat_map case_prod_unfold)
qed

lemma namedGrants_entries:
  assumes "cache_ok c" "range_order ord" "entries_ok ns c" "(d, k, m) \<in> set (namedGrants ord c)"
  shows "d \<in> set ns \<and> req_ok k m"
proof -
  obtain u pm n i where g: "(u, pm) \<in> set (PodGPUMapping c)" "(n, i) \<in> set (gorange ord pm)" "d \<in> set (Devices i)"
    "k = iCores i" "m = iMemory i"
    using assms(4) set_gorange [OF assms(2), of "PodGPUMapping c"] assms(1) by (auto simp: namedGrants_def cache_ok_def)
  then have "(n, i) \<in> set pm"
    using set_gorange [OF assms(2)] assms(1) by (auto simp: cache_ok_def list_all_iff)
  then have "entry_ok ns i" using assms(3) g(1) by (auto simp: entries_ok_def list_all_iff)
  then show ?thesis using g by (auto simp: entry_ok_def)
qed

text \<open>A fresh tree with the same devices is brought back to the books of the cache.\<close>

lemma recoverTree_books:
  assumes "books_ok t c" "range_order (eOrdS e)" "tree_ledger t0 []" "minors_ok t0"
    "devNames t0 = devNames t" "\<And>i. i < devices t0 \<Longrightarrow> devTotal t0 i = devTotal t i"
  shows "books_ok (recoverTree e t0 c) c" "same_shape t0 (recoverTree e t0 c)"
proof -
  note b = books_okD [OF assms(1)]
  define f where "f = (\<lambda>(d :: string, k :: int, m :: int). (devIndex (devNames t0) d, k, m))"
  let ?G = "map f (namedGrants (eOrdS e) c)" and ?L = "cacheGrants (devNames t) c"
  have ok0: "pool_ok t0" "tree_ok t0" using ledger_ok [OF assms(3)] by auto
  have dev: "devices t0 = devices t" using assms(5) by (metis devNames_length)
  have nm: "d \<in> set (devNames t0) \<and> req_ok k m" if "(d, k, m) \<in> set (namedGrants (eOrdS e) c)" for d k m
    using namedGrants_entries [OF b(3) assms(2) b(4) that] assms(5) by simp
  note r = recover_replay [OF ok0(1) assms(4) nm f_def, of "namedGrants (eOrdS e) c", folded recoverTree_fold]
  have ms: "mset ?G = mset ?L"
    unfolding f_def assms(5) by (rule set_namedGrants [OF b(3) assms(2)])
  have ms': "mset (rev ?G @ []) = mset ?L" using ms by simp
  have tl: "tp.ledger t ?L" using b(1) by (simp add: tree_ledger_eq)
  have "tp.ledger (tp.replay ?G t0) (rev ?G @ [])"
  proof (rule tp.ledger_replay)
    show "tp.ledger t0 []" using assms(3) by (simp add: tree_ledger_eq)
    show "grants_ok (devices t0) ?G" using tl used_mset(3) [OF ms] dev by (simp add: tp.ledger_def)
    show "usedCores (rev ?G @ []) i \<le> 100 \<and> usedMemory (devTotal t0 i) (rev ?G @ []) i \<le> devTotal t0 i"
      if "i < devices t0" for i
      using tp.ledger_bounds [OF tl, of i] that assms(6) [OF that] dev used_mset(1,2) [OF ms'] by simp
  qed
  then have "tree_ledger (recoverTree e t0 c) ?L"
    using r tree_ledger_mset [OF _ ms'] by (simp add: tree_ledger_eq)
  moreover show sh: "same_shape t0 (recoverTree e t0 c)" using r by blast
  ultimately show "books_ok (recoverTree e t0 c) c"
    using b assms(4,5) devNames_shape [OF ok0(2) sh] by (simp add: books_ok_def)
qed

end
