(* ===== verification/Sample_Machine.thy ===== *)
theory Sample_Machine
  imports Recovery_Laws
begin

text \<open>
  A concrete allocator for the witnesses: the sample machine with its four cards, an API server that
  accepts every call and lists one pod that waits for a shared card, an empty informer, and a file
  system without errors.
\<close>

definition sampleContainer :: Container where
  "sampleContainer = \<lparr>cName = ''main'', cLimits = [(VCoreAnnotation, 2), (VMemoryAnnotation, 3)], cRequests = [(VCoreAnnotation, 2), (VMemoryAnnotation, 3)], cEnv = []\<rparr>"

definition samplePod :: Pod where
  "samplePod = \<lparr>pName = ''p'', pNamespace = ''ns'', pUID = ''u1'', pKind = ''Pod'', pAnnotations = [],
     pLabels = [(PodLabelBindTime, ''5'')], pCreationNano = 1, pOwnerKinds = [], pNodeName = ''n'',
     pContainers = [sampleContainer], pPhase = ''Pending'', pReason = [], pMessage = [], pStatuses = [],
     pDeleting = False, pQOSClass = []\<rparr>"

definition sampleKube :: kube where
  "sampleKube = \<lparr>kGetNode = (\<lambda>i nm. Inr \<lparr>nName = nm, nAnnotations = Some [(NodeLockTime, ''7'')]\<rparr>),
     kUpdateNode = (\<lambda>i n. None), kListPods = (\<lambda>i h sel. Inr [samplePod]), kGetPod = (\<lambda>i ns nm. Inr samplePod),
     kPatchPod = (\<lambda>i ns nm p. None), kUpdateStatus = (\<lambda>i p. None), kDeletePod = (\<lambda>i ns nm. None),
     kNow = (\<lambda>i. 9), kPolls = 10\<rparr>"

definition quietOs :: os_answers where
  "quietOs = \<lparr>osMkdir = None, osTempFile = Inr ''.tmp'', osWrite = None, osSync = None, osClose = None,
     osRename = None, osRemove = None\<rparr>"

definition sampleEnv :: env where
  "sampleEnv = \<lparr>eKube = sampleKube, eNvml = (\<lambda>i. sampleNvml), eOs = (\<lambda>i. quietOs), eStore = (\<lambda>i. Some [samplePod]),
     eKubelet = (\<lambda>i. Inl NotExist), eVCudaDone = (\<lambda>i u. None), eOrdS = (\<lambda>ks. ks), eOrdI = (\<lambda>ks. ks),
     eRounds = 3, eNodeName = ''n''\<rparr>"

definition sampleCfg :: Config where
  "sampleCfg = \<lparr>Hostname = ''n'', VirtualManagerPath = ''/etc/gpu-manager/vm'', EnableShare = True,
     CheckpointFile = ''ckpt'', DeviceMemoryScaling = Fin 1, extraConfig = [], DriverLibraryPath = ''/vdriver/nvidia'',
     DriverOriginLibraryPath = ''/vdriver/origin''\<rparr>"

definition sampleTa :: NvidiaTopoAllocator where
  "sampleTa = \<lparr>taTree = sampleTree, taCache = NewAllocateCache, taUnfinished = None, taQueue = [], taResp = [],
     taFiles = [], taWorld = startWorld, taVCuda = []\<rparr>"

lemma sample_inv: "alloc_inv sampleTa"
proof -
  have "minors_ok sampleTree" by code_simp
  then show ?thesis
    using sample_ledger
    by (simp add: alloc_inv_def books_ok_def unfinished_ok_def sampleTa_def NewAllocateCache_def cacheGrants_def
        entries_ok_def cache_ok_def)
qed

lemma sample_pod_bounded: "pod_bounded samplePod"
  by code_simp

lemma sample_env_ok: "env_ok sampleEnv"
  using sample_pod_bounded by (simp add: env_ok_def sampleEnv_def sampleKube_def)

text \<open>The request of the sample pod and what an allocation makes of it.\<close>

definition sampleIds :: "string list" where
  "sampleIds = [''nvidia.com/vcuda-core-1'', ''nvidia.com/vcuda-core-7'']"

definition sampleInfo :: Info where
  "sampleInfo = \<lparr>Devices = [''/dev/nvidia0''], iCores = 2, iMemory = 3145728\<rparr>"

lemma sample_allocate:
  "map_sum id (\<lambda>(ta, r). (PodGPUMapping (taCache ta), taQueue ta, map_sum id length r, devNames (taTree ta),
       map (devTotal (taTree ta)) [0, 1, 2, 3]))
     (Allocate sampleCfg sampleEnv sampleTa [sampleIds]) =
   Inr ([(''u1'', [(''main'', sampleInfo)])], [], Inr 1, devNames sampleTree, map (devTotal sampleTree) [0, 1, 2, 3])"
  by code_simp

lemma PodCache_eta [simp]: "\<lparr>PodGPUMapping = PodGPUMapping c\<rparr> = (c :: PodCache)"
  by (cases c) simp

lemma sample_allocateE:
  obtains ta r where "Allocate sampleCfg sampleEnv sampleTa [sampleIds] = Inr (ta, Inr [r])"
    "taCache ta = \<lparr>PodGPUMapping = [(''u1'', [(''main'', sampleInfo)])]\<rparr>" "taQueue ta = []" "alloc_inv ta"
    "devNames (taTree ta) = devNames sampleTree" "\<And>i. i < 4 \<Longrightarrow> devTotal (taTree ta) i = devTotal sampleTree i"
proof -
  obtain ta r where a: "Allocate sampleCfg sampleEnv sampleTa [sampleIds] = Inr (ta, r)"
    "PodGPUMapping (taCache ta) = [(''u1'', [(''main'', sampleInfo)])]" "taQueue ta = []" "map_sum id length r = Inr 1"
    "devNames (taTree ta) = devNames sampleTree" "map (devTotal (taTree ta)) [0, 1, 2, 3] = map (devTotal sampleTree) [0, 1, 2, 3]"
    using sample_allocate by (cases "Allocate sampleCfg sampleEnv sampleTa [sampleIds]") auto
  obtain x where x: "r = Inr [x]"
    using a(4) by (cases r) (auto simp: length_Suc_conv)
  have inv: "alloc_inv ta"
    by (rule Allocate_inv [OF sample_inv sample_env_ok _ a(1)]) (simp add: sampleIds_def)
  have tot: "devTotal (taTree ta) i = devTotal sampleTree i" if "i < 4" for i
    using a(6) that by (auto simp: less_Suc_eq numeral_eq_Suc)
  show ?thesis
    by (rule that [OF a(1) [unfolded x] _ a(3) inv a(5) tot]) (simp_all flip: a(2))
qed

end
