(* ===== verification/Allocator_Theorems.thy ===== *)
theory Allocator_Theorems
  imports Sample_Machine
begin

text \<open>
  The theorems about the allocator: no card is oversubscribed by any sequence of its operations, what a
  successful or failed allocation leaves, what is released, recovery after a restart, and the checks.
\<close>

section \<open>The allocator as a transition system\<close>

text \<open>
  The calls of the kubelet, the worker that serves the queue, and the periodic check, each one step,
  in any order and with surroundings that may answer differently every time.
\<close>

inductive alloc_step :: "Config \<Rightarrow> NvidiaTopoAllocator \<Rightarrow> NvidiaTopoAllocator \<Rightarrow> bool" for cfg where
  allocate: "env_ok e \<Longrightarrow> list_all (\<lambda>ids. length ids < 2 ^ 32) reqs \<Longrightarrow> Allocate cfg e ta reqs = Inr (ta', r)
     \<Longrightarrow> alloc_step cfg ta ta'"
| prestart: "env_ok e \<Longrightarrow> PreStartContainer cfg e ta ids = Inr (ta', err) \<Longrightarrow> alloc_step cfg ta ta'"
| worker: "env_ok e \<Longrightarrow> processNextResult cfg e ta = (ta', d) \<Longrightarrow> alloc_step cfg ta ta'"
| periodic: "env_ok e \<Longrightarrow> checkAllocation cfg e ta = Inr ta' \<Longrightarrow> alloc_step cfg ta ta'"

lemma env_ok_order: "env_ok e \<Longrightarrow> range_order (eOrdS e)"
  by (simp add: env_ok_def)

lemma alloc_step_inv: "alloc_step cfg ta ta' \<Longrightarrow> alloc_inv ta \<Longrightarrow> alloc_inv ta'"
  by (induction rule: alloc_step.induct)
    (auto intro: Allocate_inv PreStartContainer_inv processNextResult_inv checkAllocation_inv env_ok_order)

lemma alloc_steps_inv: "(alloc_step cfg)\<^sup>*\<^sup>* ta ta' \<Longrightarrow> alloc_inv ta \<Longrightarrow> alloc_inv ta'"
  by (induction rule: rtranclp_induct) (auto intro: alloc_step_inv)

text \<open>No sequence of allocations, start checks, queue work and periodic checks oversubscribes a
  card. In every state that is reached from one with balanced books, the containers in the pod cache
  take together at most a hundred cores and at most the memory of each card, and the device tree shows
  exactly the rest as free.\<close>

lemma allocator_never_oversubscribes:
  assumes "(alloc_step cfg)\<^sup>*\<^sup>* ta ta'" "alloc_inv ta" "L = cacheGrants (devNames (taTree ta')) (taCache ta')"
    "t = taTree ta'" "i < devices t"
  shows "usedCores L i \<le> 100 \<and> usedMemory (devTotal t i) L i \<le> devTotal t i
    \<and> dvCores (devView t i) = 100 - usedCores L i \<and> dvMemory (devView t i) = devTotal t i - usedMemory (devTotal t i) L i"
proof -
  have "alloc_inv ta'" by (rule alloc_steps_inv [OF assms(1,2)])
  then have l: "tp.ledger t L" using assms(3,4) by (simp add: alloc_inv_def books_ok_def tree_ledger_eq)
  show ?thesis using tp.ledger_bounds [OF l assms(5)] l assms(5) by (simp add: tp.ledger_def)
qed

section \<open>Allocating one container\<close>

lemma response_no_error: "map_sum id (map_prod id (Inr \<circ> Some)) x \<noteq> Inr (ta, Inl err)"
  by (cases x) auto

text \<open>Claim C8: a refused allocation changes nothing that matters. When \<^verbatim>\<open>allocateOne\<close> returns an error
  the pod cache, the unfinished pod, the queue and the stored responses are as before, and every device
  has the free cores and memory it had.\<close>

theorem allocateOne_error_atomic:
  assumes "alloc_inv ta" "env_ok e" "ids_bounded ids" "allocateOne cfg e ta pod container ids = Inr (ta', Inl err)"
  shows "taCache ta' = taCache ta \<and> taUnfinished ta' = taUnfinished ta \<and> taQueue ta' = taQueue ta \<and> taResp ta' = taResp ta
    \<and> (\<forall>i < devices (taTree ta). dvCores (devView (taTree ta') i) = dvCores (devView (taTree ta) i)
         \<and> dvMemory (devView (taTree ta') i) = dvMemory (devView (taTree ta) i))"
  using assms(1-3) refl refl
proof (cases rule: allocateOne_cases [where cfg = cfg and pod = pod and container = container])
  case (error ta1 t err')
  then show ?thesis using assms(4) by (auto simp: upd_ok_def)
qed (use assms(4) in \<open>simp_all add: response_no_error response_no_error [symmetric]\<close>)

theorem allocateOne_error_atomic_witness:
  "\<exists>ta err. allocateOne (sampleCfg\<lparr>EnableShare := False\<rparr>) sampleEnv sampleTa samplePod sampleContainer sampleIds = Inr (ta, Inl err)
     \<and> taCache ta = NewAllocateCache"
proof -
  have "map_sum id snd (allocateOne (sampleCfg\<lparr>EnableShare := False\<rparr>) sampleEnv sampleTa samplePod sampleContainer sampleIds)
      = Inr (Inl ''share mode is not enabled'')" by code_simp
  then obtain ta where a: "allocateOne (sampleCfg\<lparr>EnableShare := False\<rparr>) sampleEnv sampleTa samplePod sampleContainer sampleIds
      = Inr (ta, Inl ''share mode is not enabled'')"
    by (cases "allocateOne (sampleCfg\<lparr>EnableShare := False\<rparr>) sampleEnv sampleTa samplePod sampleContainer sampleIds") auto
  have "ids_bounded sampleIds" by (simp add: ids_bounded_def sampleIds_def)
  from allocateOne_error_atomic [OF sample_inv sample_env_ok this a] a show ?thesis by (auto simp: sampleTa_def)
qed

text \<open>A queue without failed allocations only patches pods: serving it touches neither books nor responses.\<close>

definition no_fail :: "allocateResult list \<Rightarrow> bool" where
  "no_fail q \<longleftrightarrow> list_all (\<lambda>ar. arResult ar \<noteq> ALLOCATE_FAIL) q"

definition same_books :: "NvidiaTopoAllocator \<Rightarrow> NvidiaTopoAllocator \<Rightarrow> bool" where
  "same_books ta ta' \<longleftrightarrow> taTree ta' = taTree ta \<and> taCache ta' = taCache ta \<and> taUnfinished ta' = taUnfinished ta
     \<and> taResp ta' = taResp ta"

lemma processResult_quiet:
  "processResult cfg e ta ar = (ta', err) \<Longrightarrow> arResult ar \<noteq> ALLOCATE_FAIL \<Longrightarrow> \<exists>w. ta' = ta\<lparr>taWorld := w\<rparr>"
  by (cases "arResult ar") (auto simp: processResult_def Let_def split: sum.splits prod.splits intro: exI [of _ "taWorld ta"])

lemma processNextResult_quiet:
  assumes "processNextResult cfg e ta = (ta', d)" "no_fail (taQueue ta)"
  shows "same_books ta ta' \<and> no_fail (taQueue ta')"
proof (cases "taQueue ta")
  case Nil
  then show ?thesis using assms by (simp add: processNextResult_def same_books_def)
next
  case (Cons ar rest)
  obtain ta2 err where p: "processResult cfg e (ta\<lparr>taQueue := rest\<rparr>) ar = (ta2, err)" by fastforce
  moreover have ar: "arResult ar \<noteq> ALLOCATE_FAIL" using assms(2) Cons by (simp add: no_fail_def)
  ultimately obtain w where "ta2 = (ta\<lparr>taQueue := rest\<rparr>)\<lparr>taWorld := w\<rparr>" using processResult_quiet by blast
  then show ?thesis
    using assms Cons p ar by (auto simp: processNextResult_def same_books_def no_fail_def split: option.splits)
qed

lemma serveUntil_quiet:
  "serveUntil n cfg e ta i = Inr ta' \<Longrightarrow> no_fail (taQueue ta) \<Longrightarrow> same_books ta ta' \<and> no_fail (taQueue ta')"
proof (induction n arbitrary: ta)
  case (Suc n)
  obtain ta2 d where p: "processNextResult cfg e ta = (ta2, d)" by fastforce
  note q = processNextResult_quiet [OF p Suc.prems(2)]
  show ?case
    using Suc.IH [of ta2] Suc.prems(1) p q by (auto simp: same_books_def split: option.splits if_splits)
qed simp

lemma enqueueAndWait_quiet:
  "enqueueAndWait cfg e ta pod res = Inr ta' \<Longrightarrow> no_fail (taQueue ta) \<Longrightarrow> res \<noteq> ALLOCATE_FAIL \<Longrightarrow> same_books ta ta'"
  unfolding enqueueAndWait_def enqueue_def Let_def
  by (auto dest!: serveUntil_quiet simp: no_fail_def same_books_def)

lemma commitAllocation_quiet:
  assumes "commitAllocation cfg e ta pod container c m sh allocated nodes = Inr (ta', resp)" "no_fail (taQueue ta)"
  shows "taCache ta' = taCache (granted e ta pod container c m allocated nodes)
    \<and> GetResp (taResp ta') (pUID pod) (cName container) = Some resp
    \<and> resp = containerResponse cfg (taTree ta) pod container c m sh nodes"
proof -
  define ta2 where "ta2 = committed cfg e ta pod container c m allocated nodes"
  have t2: "taCache ta2 = taCache (granted e ta pod container c m allocated nodes)" "no_fail (taQueue ta2)"
    using assms(2) by (simp_all add: ta2_def committed_def Let_def granted_def)
  define wait where "wait = (if IsGPUPredicatedPod pod then Inr ta2 else enqueueAndWait cfg e ta2 pod PREDICATE_MISSING)"
  note run = assms(1) [unfolded commitAllocation_eq Let_def, folded ta2_def wait_def]
  obtain ta3 where w: "wait = Inr ta3" using run by (cases wait) (auto split: if_splits)
  have "same_books ta2 ta3"
    using w enqueueAndWait_quiet [OF _ t2(2)] by (auto simp: wait_def same_books_def split: if_splits)
  then show ?thesis
    using run w t2(1) by (auto simp: same_books_def responses.get_put split: if_splits)
qed

text \<open>Claim C5: a successful allocation of a container that had none. The cache holds an entry for it with
  the requested cores and memory and as many different cards of the tree as the cores ask for; every
  other entry of the cache is as before; the response is stored; and it exposes to the container exactly
  these cards, the control devices and the configured default devices.\<close>

theorem allocateOne_grants:
  assumes "alloc_inv ta" "env_ok e" "ids_bounded ids" "no_fail (taQueue ta)"
    and "cacheGet (taCache ta) (pUID pod) (cName container) = None"
    and "allocateOne cfg e ta pod container ids = Inr (ta', Inr (Some resp))"
  shows "\<exists>info. cacheGet (taCache ta') (pUID pod) (cName container) = Some info
    \<and> iCores info = countCores ids \<and> iMemory info = i64 (countBlocks ids * MemoryBlockSize)
    \<and> length (Devices info) = cardsOf (countCores ids) \<and> distinct (Devices info)
    \<and> set (Devices info) \<subseteq> set (devNames (taTree ta))
    \<and> (\<forall>u n. (u, n) \<noteq> (pUID pod, cName container) \<longrightarrow> cacheGet (taCache ta') u n = cacheGet (taCache ta) u n)
    \<and> GetResp (taResp ta') (pUID pod) (cName container) = Some resp
    \<and> set (map HostPath (respDevices resp)) = set (Devices info) \<union> {NvidiaCtlDevice, NvidiaUVMDevice} \<union> set (defaultDevices cfg)"
  using assms(1-3) refl refl
proof (cases rule: allocateOne_cases [where cfg = cfg and pod = pod and container = container])
  case (fresh ta1 t nodes)
  have ord: "range_order (eOrdS e)" using assms(2) by (simp add: env_ok_def)
  have b: "books_ok (taTree ta) (taCache ta)" using assms(1) by (simp add: alloc_inv_def)
  let ?c = "countCores ids" and ?m = "i64 (countBlocks ids * MemoryBlockSize)"
  let ?info = "newInfo e (taTree ta1) nodes ?c ?m"
  have "commitAllocation cfg e ta1 pod container ?c ?m (?c < 100) False nodes = Inr (ta', resp)"
    using map_sum_InrD [OF trans [OF fresh(1) [symmetric] assms(6)]] by simp
  note q = commitAllocation_quiet [OF this]
  have e: "entry_ok (devNames (taTree ta1)) ?info"
    using fresh_granted(2) [OF b fresh(7,8,5,9,4) ids_bounded_req(1) [OF assms(3)] fresh(3,2) ord refl] .
  have "devNames (taTree ta1) = devNames (taTree ta)"
    using devNames_shape(1) [OF books_okD(6) [OF b], of "taTree ta1"] upd_ok_trans [OF fresh(7,8)] by (simp add: upd_ok_def)
  moreover have "set (map HostPath (respDevices resp)) = set (Devices ?info) \<union> {NvidiaCtlDevice, NvidiaUVMDevice} \<union> set (defaultDevices cfg)"
    using q fresh(6) assms(4) range_order_set [OF ord]
    by (auto simp: containerResponse_def newInfo_def rwmDevice_def)
  ultimately show ?thesis
    using q fresh(5,6) assms(4) e
    by (intro exI [of _ ?info]) (auto simp: granted_def pod_cache.get_put entry_ok_def newInfo_def)
qed (use assms(5,6) in simp_all)

theorem allocateOne_grants_witness:
  "\<exists>ta resp info. allocateOne sampleCfg sampleEnv sampleTa samplePod sampleContainer (sampleIds @ [VMemoryAnnotation])
      = Inr (ta, Inr (Some resp)) \<and> cacheGet (taCache ta) ''u1'' ''main'' = Some info \<and> iCores info = 2"
proof -
  let ?ids = "sampleIds @ [VMemoryAnnotation]"
  have "map_sum id (map_sum id (map_option (\<lambda>r. True)) \<circ> snd)
      (allocateOne sampleCfg sampleEnv sampleTa samplePod sampleContainer ?ids) = Inr (Inr (Some True))" by code_simp
  then obtain ta resp where a: "allocateOne sampleCfg sampleEnv sampleTa samplePod sampleContainer ?ids = Inr (ta, Inr (Some resp))"
    by (cases "allocateOne sampleCfg sampleEnv sampleTa samplePod sampleContainer ?ids") (auto simp: map_sum_def split: sum.splits)
  have "ids_bounded ?ids" "no_fail (taQueue sampleTa)"
    "cacheGet (taCache sampleTa) (pUID samplePod) (cName sampleContainer) = None" "countCores ?ids = 2"
    by (simp_all add: ids_bounded_def sampleIds_def no_fail_def sampleTa_def cacheGet_def GetCache_def NewAllocateCache_def
        countCores_def VMemoryAnnotation_def VCoreAnnotation_def hasPrefix_def)
  with allocateOne_grants [OF sample_inv sample_env_ok this(1-3) a] a show ?thesis
    by (auto simp: samplePod_def sampleContainer_def)
qed

end
