(* ===== verification/Release_Theorems.thy ===== *)
theory Release_Theorems
  imports Sample_Machine
begin

text \<open>
  The theorems about releasing devices and about restarts: what \<^verbatim>\<open>freeGPU\<close> and \<^verbatim>\<open>recycle\<close> remove,
  the check before a container starts, and the recovery of the books from the checkpoint file.
\<close>

lemma taResp_freeContainers:
  "GetResp (taResp (foldl (\<lambda>ta (contName, info). ta\<lparr>taTree := freeDevices (eNvml e (now ta)) (taTree ta) info,
       taResp := DeleteResp (taResp ta) uid contName\<rparr>) ta xs)) u n =
     (if u = uid \<and> n \<in> fst ` set xs then None else GetResp (taResp ta) u n)"
  by (induction xs arbitrary: ta) (auto simp: responses.get_del)

lemma freePod_resp:
  assumes "range_order (eOrdS e)" "cache_ok (taCache ta)"
  shows "GetResp (taResp (freePod e ta uid)) u n =
    (if u = uid \<and> cacheGet (taCache ta) u n \<noteq> None then None else GetResp (taResp ta) u n)"
proof -
  let ?m = "case GetCache (taCache ta) uid of None \<Rightarrow> [] | Some m \<Rightarrow> m"
  have "gomap_ok ?m"
    using assms(2) by (auto simp: cache_ok_def GetCache_def list_all_iff dest: map_of_SomeD split: option.split)
  then have s: "set (gorange (eOrdS e) ?m) = set ?m" by (rule set_gorange [OF assms(1)])
  have "n \<in> fst ` set ?m \<longleftrightarrow> cacheGet (taCache ta) uid n \<noteq> None"
    by (cases "GetCache (taCache ta) uid") (simp_all add: cacheGet_def map_of_eq_None_iff)
  then show ?thesis
    by (auto simp: freePod_def Let_def freeContainers_def taResp_freeContainers s split: option.split)
qed

lemma freePods_resp:
  assumes "alloc_inv ta" "range_order (eOrdS e)"
  shows "GetResp (taResp (foldl (freePod e) ta uids)) u n =
    (if u \<in> set uids \<and> cacheGet (taCache ta) u n \<noteq> None then None else GetResp (taResp ta) u n)"
  using assms(1)
proof (induction uids arbitrary: ta)
  case (Cons x uids)
  note f = freePod_inv [OF Cons.prems assms(2), of x]
  have "cache_ok (taCache ta)" using Cons.prems by (simp add: alloc_inv_def books_ok_def)
  then show ?case
    using Cons.IH [OF f(1)] freePod_resp [OF assms(2), of ta x u n] f(2)
    by (auto simp: pod_cache.get_drop)
qed simp

text \<open>Claim C7: \<^verbatim>\<open>freeGPU\<close> releases exactly the given pods. The invariant is kept; afterwards the cache has
  no container of these pods and every other entry it had; each card shows as free what the remaining
  entries leave; and of the stored responses exactly those of the released containers are gone.\<close>

theorem freeGPU_exact:
  assumes "alloc_inv ta" "range_order (eOrdS e)" "ta' = freeGPU cfg e ta uids"
  shows "alloc_inv ta'
    \<and> cacheGet (taCache ta') u n = (if u \<in> set uids then None else cacheGet (taCache ta) u n)
    \<and> (\<forall>i < devices (taTree ta'). dvCores (devView (taTree ta') i) =
          100 - usedCores (cacheGrants (devNames (taTree ta)) (foldl cacheDelete (taCache ta) uids)) i)
    \<and> GetResp (taResp ta') u n =
        (if u \<in> set uids \<and> cacheGet (taCache ta) u n \<noteq> None then None else GetResp (taResp ta) u n)"
proof -
  note f = freeGPU_inv [OF assms(1,2), of cfg uids, folded assms(3)]
  have ok: "tree_ok (taTree ta)" using assms(1) books_okD(6) by (auto simp: alloc_inv_def)
  have "tree_ledger (taTree ta') (cacheGrants (devNames (taTree ta)) (foldl cacheDelete (taCache ta) uids))"
    using f(1,2) devNames_shape(1) [OF ok f(3)] by (simp add: alloc_inv_def books_ok_def)
  moreover have "cacheGet (taCache ta') u n = (if u \<in> set uids then None else cacheGet (taCache ta) u n)"
    by (simp add: f(2) cacheGet_def GetCache_deletes)
  moreover have "taResp ta' = taResp (foldl (freePod e) ta uids)" by (simp add: assms(3) freeGPU_def)
  ultimately show ?thesis
    using f(1) freePods_resp [OF assms(1,2), of uids u n] by (auto simp: tree_ledger_def list_all_iff)
qed

theorem freeGPU_exact_witness:
  "\<exists>ta. alloc_inv ta \<and> cacheGet (taCache ta) ''u1'' ''main'' = Some sampleInfo
     \<and> cacheGet (taCache (freeGPU sampleCfg sampleEnv ta [''u1''])) ''u1'' ''main'' = None"
proof -
  obtain ta where a: "alloc_inv ta" "taCache ta = \<lparr>PodGPUMapping = [(''u1'', [(''main'', sampleInfo)])]\<rparr>"
    using sample_allocateE by metis
  have "range_order (eOrdS sampleEnv)" by (simp add: sampleEnv_def)
  from freeGPU_exact [OF a(1) this refl, of sampleCfg "[''u1'']" "''u1''" "''main''"] a show ?thesis
    by (intro exI [of _ ta]) (simp add: cacheGet_def GetCache_def)
qed

text \<open>\<^verbatim>\<open>recycle\<close> drops from the cache exactly the pods that the watchdog does not report as
  active, and keeps the books balanced.\<close>

lemma recycle_exact:
  assumes "alloc_inv ta" "range_order (eOrdS e)"
  shows "alloc_inv (recycle cfg e ta)
    \<and> GetCache (taCache (recycle cfg e ta)) u =
        (if map_of (GetActivePods (eStore e (now ta))) u = None then None else GetCache (taCache ta) u)"
proof -
  have ok: "gomap_ok (PodGPUMapping (taCache ta))" using assms(1) by (simp add: alloc_inv_def books_ok_def cache_ok_def)
  have "u \<in> set (podsToBeRemoved e ta) \<longleftrightarrow> GetCache (taCache ta) u \<noteq> None \<and> u \<notin> fst ` set (GetActivePods (eStore e (now ta)))"
    by (auto simp: podsToBeRemoved_def Let_def Pods_def set_gorange [OF assms(2) ok] GetCache_def map_of_eq_None_iff
        domIff [symmetric] dom_map_of_conv_image_fst)
  then show ?thesis
    using recycle_inv [OF assms, of cfg] by (auto simp: GetCache_deletes map_of_eq_None_iff)
qed

text \<open>The check before a container starts accepts exactly the containers whose cached cores and
  memory are what the kubelet reports; in a reachable state the number of cached devices always matches,
  so that check never refuses a container.\<close>

lemma preStart_accepts_iff:
  assumes "alloc_inv ta"
  shows "preStartContainerCheck (taCache ta) u n vcore vmemory = None \<longleftrightarrow>
    (\<exists>info. cacheGet (taCache ta) u n = Some info \<and> iCores info = vcore \<and> iMemory info = i64 (vmemory * MemoryBlockSize))"
proof -
  have e: "entries_ok (devNames (taTree ta)) (taCache ta)" using assms by (simp add: alloc_inv_def books_ok_def)
  have "entry_ok (devNames (taTree ta)) i" if "GetCache (taCache ta) u = Some m" "map_of m n = Some i" for m i
    using entries_ok_get [OF e that(1)] map_of_SomeD [OF that(2)] by blast
  then have len: "int (length (Devices i)) = (if 100 \<le> iCores i then iCores i sdiv 100 else 1)"
    if "GetCache (taCache ta) u = Some m" "map_of m n = Some i" for m i
    using that by (fastforce simp: entry_ok_def cardsOf_def sdiv_nonneg)
  show ?thesis
    using len by (fastforce simp: preStartContainerCheck_def cacheGet_def HundredCore_def split: option.splits if_splits)
qed

section \<open>Restart\<close>

lemma ckWrite_success: "ckWrite os nodata fs path data = (fs', None) \<Longrightarrow> map_of fs' path = Some data"
  by (auto simp: ckWrite_def writeFile_def cleanUp_def removePath_def Let_def go_map
      split: option.splits sum.splits if_splits)

lemma derefInfos_Some: "derefInfos (map (\<lambda>(n, i). (n, Some i)) m) = Some m"
  by (induction m) auto

lemma derefPods_Some: "derefPods (map (\<lambda>(u, m). (u, map (\<lambda>(n, i). (n, Some i)) m)) ps) = Some ps"
  by (induction ps) (auto simp: derefInfos_Some)

lemma serveUntil_fault: "serveUntil n cfg e ta i = Inl f \<Longrightarrow> f = Hang"
  by (induction n arbitrary: ta) (auto split: prod.splits option.splits if_splits)

lemma checkPods_no_panic: "checkPods cfg e ta ps = Inl f \<Longrightarrow> f = Hang"
proof (induction ps arbitrary: ta)
  case (Cons p ps)
  have "checkPod cfg e ta p = Inl f \<Longrightarrow> f = Hang"
    by (auto simp: checkPod_def enqueueAndWait_def Let_def enqueue_def dest: serveUntil_fault split: if_splits sum.splits)
  then show ?case using Cons by (auto split: sum.splits)
qed simp

lemma checkAllocation_no_panic: "checkAllocation cfg e ta \<noteq> Inl Panic"
  using checkPods_no_panic by (fastforce simp: checkAllocation_def split: prod.splits sum.splits)

lemma entry_info_ok: "entry_ok ns i \<Longrightarrow> info_ok i"
  by (simp add: entry_ok_def info_ok_def req_ok_def)

text \<open>What is read back from a checkpoint that holds the books of a state.\<close>

lemma readCheckpoint_books:
  assumes "books_ok t c" "map_of (taFiles ta) (CheckpointFile cfg) = Some (encCache c)" "PodGPUMapping (taCache ta) = []"
  shows "derefPods (readCheckpoint cfg ta) = Some (PodGPUMapping c)"
proof -
  note b = books_okD [OF assms(1)]
  have "\<forall>(u, m) \<in> set (PodGPUMapping c). \<forall>(n, i) \<in> set m. info_ok i"
    using b(4) entry_info_ok unfolding entries_ok_def list_all_iff by fast
  from decCache_encCache [OF b(3) this] show ?thesis
    by (simp add: readCheckpoint_def ckRead_def assms(2,3) derefPods_Some)
qed

text \<open>Claim C6: a restart recovers the books. Suppose the last write of the checkpoint by an allocator with
  balanced books succeeded and the plugin starts again on the same cards with a fresh tree. Then
  \<^verbatim>\<open>recoverInUsed\<close> reads the same pods, the replay of their devices brings every card to the same free
  cores and memory, and the state it returns is balanced again.\<close>

theorem restart_recovers_books:
  assumes "alloc_inv ta" "range_order (eOrdS e)"
    and "ckWrite (eOs e (now ta)) JNull (taFiles ta) (CheckpointFile cfg) (encCache (taCache ta)) = (fs, None)"
    and "tree_ledger t0 []" "minors_ok t0" "devNames t0 = devNames (taTree ta)"
      "\<And>i. i < devices t0 \<Longrightarrow> devTotal t0 i = devTotal (taTree ta) i"
    and "taTree ta0 = t0" "taCache ta0 = NewAllocateCache" "taUnfinished ta0 = None" "taFiles ta0 = fs"
  shows "recoverInUsed cfg e ta0 \<noteq> Inl Panic
    \<and> derefPods (readCheckpoint cfg ta0) = Some (PodGPUMapping (taCache ta))
    \<and> (\<forall>i < devices t0. dvCores (devView (recoverTree e t0 (taCache ta)) i) = dvCores (devView (taTree ta) i)
         \<and> dvMemory (devView (recoverTree e t0 (taCache ta)) i) = dvMemory (devView (taTree ta) i))
    \<and> (\<forall>ta'. recoverInUsed cfg e ta0 = Inr ta' \<longrightarrow> alloc_inv ta')"
proof -
  have b: "books_ok (taTree ta) (taCache ta)" using assms(1) by (simp add: alloc_inv_def)
  let ?t = "recoverTree e t0 (taCache ta)"
  note r = recoverTree_books [OF b assms(2,4,5,6,7)]
  have rd: "derefPods (readCheckpoint cfg ta0) = Some (PodGPUMapping (taCache ta))"
    by (rule readCheckpoint_books [OF b]) (use ckWrite_success [OF assms(3)] assms(9,11) in \<open>simp_all add: NewAllocateCache_def\<close>)
  let ?ta1 = "ta0\<lparr>taCache := taCache ta, taTree := ?t\<rparr>"
  have inv: "alloc_inv ?ta1" using r(1) assms(10) by (simp add: alloc_inv_def unfinished_ok_def)
  have run: "recoverInUsed cfg e ta0 = checkAllocation cfg e (writeCheckpoint cfg e (recycle cfg e ?ta1))"
    by (simp add: recoverInUsed_def rd Let_def assms(8))
  have dev: "devices t0 = devices (taTree ta)" using assms(6) by (metis devNames_length)
  have sh: "devices ?t = devices t0" "\<And>i. i < devices t0 \<Longrightarrow> devTotal ?t i = devTotal t0 i" "devNames ?t = devNames t0"
    using r(2) devTotal_same_shape [OF r(2)] devNames_shape(1) [OF _ r(2)] ledger_ok [OF assms(4)]
    by (auto simp: same_shape_def devices_def)
  have "dvCores (devView ?t i) = dvCores (devView (taTree ta) i) \<and> dvMemory (devView ?t i) = dvMemory (devView (taTree ta) i)"
    if "i < devices t0" for i
    using books_okD(1) [OF r(1)] books_okD(1) [OF b] that sh assms(6) assms(7) [OF that] dev
    by (auto simp: tree_ledger_def list_all_iff)
  moreover have "alloc_inv ta'" if "recoverInUsed cfg e ta0 = Inr ta'" for ta'
    using checkAllocation_inv [OF that [unfolded run] _ assms(2)] recycle_inv(1) [OF inv assms(2)] by simp
  moreover have "recoverInUsed cfg e ta0 \<noteq> Inl Panic" unfolding run by (rule checkAllocation_no_panic)
  ultimately show ?thesis using rd by blast
qed

theorem restart_recovers_books_witness:
  "\<exists>(ta :: NvidiaTopoAllocator) fs. cacheGet (taCache ta) ''u1'' ''main'' = Some sampleInfo
     \<and> recoverInUsed sampleCfg sampleEnv (sampleTa\<lparr>taFiles := fs\<rparr>) \<noteq> Inl Panic
     \<and> derefPods (readCheckpoint sampleCfg (sampleTa\<lparr>taFiles := fs\<rparr>)) = Some (PodGPUMapping (taCache ta))"
proof -
  obtain ta where a: "alloc_inv ta" "taCache ta = \<lparr>PodGPUMapping = [(''u1'', [(''main'', sampleInfo)])]\<rparr>"
    "devNames (taTree ta) = devNames sampleTree" "\<And>i. i < 4 \<Longrightarrow> devTotal (taTree ta) i = devTotal sampleTree i"
    using sample_allocateE by metis
  obtain fs where w: "ckWrite (eOs sampleEnv (now ta)) JNull (taFiles ta) (CheckpointFile sampleCfg) (encCache (taCache ta)) = (fs, None)"
    by (simp add: sampleEnv_def quietOs_def ckWrite_def writeFile_def cleanUp_def Let_def)
  have "range_order (eOrdS sampleEnv)" by (simp add: sampleEnv_def)
  moreover have "minors_ok sampleTree" by code_simp
  moreover have "devTotal sampleTree i = devTotal (taTree ta) i" if "i < devices sampleTree" for i
    using a(4) that by (simp add: sample_devices)
  ultimately have "recoverInUsed sampleCfg sampleEnv (sampleTa\<lparr>taFiles := fs\<rparr>) \<noteq> Inl Panic
     \<and> derefPods (readCheckpoint sampleCfg (sampleTa\<lparr>taFiles := fs\<rparr>)) = Some (PodGPUMapping (taCache ta))"
    using restart_recovers_books [OF a(1) _ w sample_ledger _ a(3) [symmetric], of "sampleTa\<lparr>taFiles := fs\<rparr>"]
    by (simp add: sampleTa_def)
  moreover have "cacheGet (taCache ta) ''u1'' ''main'' = Some sampleInfo" by (simp add: a(2) cacheGet_def GetCache_def)
  ultimately show ?thesis by blast
qed

end
