(* ===== verification/Request_Theorems.thy ===== *)
theory Request_Theorems
  imports Sample_Machine
begin

text \<open>
  The theorems about how a request of the kubelet is matched with a pod, about the answers of
  \<^verbatim>\<open>Allocate\<close>, the work queue, and the devices that are reported.
\<close>

section \<open>Candidates\<close>

text \<open>The order of the candidates compares with \<^verbatim>\<open><=\<close>, which is no strict order, but sorts.\<close>

interpretation bind_sort: sort_contract podBindLess podBindLess
  by unfold_locales (auto simp: podBindLess_def)

lemma findCandidate_first:
  assumes "findCandidate cache k ps = Some (p, c)"
  shows "\<exists>as bs. ps = as @ p # bs \<and> (\<forall>q \<in> set as. matchContainer cache k q = None)"
  using assms
proof (induction ps)
  case (Cons q ps)
  then show ?case
    by (cases "matchContainer cache k q") (auto intro: exI [of _ "[]"] exI [of _ "q # _"], metis append_Cons set_ConsD)
qed simp

lemma findCandidate_None: "findCandidate cache k ps = None \<longleftrightarrow> (\<forall>q \<in> set ps. matchContainer cache k q = None)"
  by (induction ps) (auto split: option.splits)

text \<open>Claim C15: which container gets a request. Among the pods that the API server lists, the search finds one
  exactly when some candidate has a container that needs cards, is not in the cache, and asks for as many
  cores as the request has devices; the pod it picks has the earliest bind time among these, and the
  container is the first such one of the pod.\<close>

theorem findCandidate_earliest:
  assumes "pods = OrderPodsdByBindTime (filter isCandidate allPods)"
  shows "(findCandidate cache k pods = None \<longleftrightarrow> (\<forall>q \<in> set allPods. isCandidate q \<longrightarrow> matchContainer cache k q = None))
    \<and> (findCandidate cache k pods = Some (p, c) \<longrightarrow>
         p \<in> set allPods \<and> isCandidate p \<and> matchContainer cache k p = Some c
         \<and> (\<forall>q \<in> set allPods. isCandidate q \<and> matchContainer cache k q \<noteq> None \<longrightarrow> GetBindTimeOfPod p \<le> GetBindTimeOfPod q))"
proof (intro conjI impI)
  have set: "set pods = {q \<in> set allPods. isCandidate q}" by (simp add: assms OrderPodsdByBindTime_def)
  then show "findCandidate cache k pods = None \<longleftrightarrow> (\<forall>q \<in> set allPods. isCandidate q \<longrightarrow> matchContainer cache k q = None)"
    by (auto simp: findCandidate_None)
  assume f: "findCandidate cache k pods = Some (p, c)"
  show "p \<in> set allPods" "isCandidate p" "matchContainer cache k p = Some c"
    using findCandidate_Some [OF f] set by auto
  obtain as bs where s: "pods = as @ p # bs" "\<forall>q \<in> set as. matchContainer cache k q = None"
    using findCandidate_first [OF f] by blast
  have "sorted_wrt podBindLess pods" unfolding assms OrderPodsdByBindTime_def by (rule bind_sort.sort_sorted)
  then have "\<forall>q \<in> set bs. GetBindTimeOfPod p \<le> GetBindTimeOfPod q"
    unfolding s(1) sorted_wrt_append by (simp add: podBindLess_def)
  then show "\<forall>q \<in> set allPods. isCandidate q \<and> matchContainer cache k q \<noteq> None \<longrightarrow> GetBindTimeOfPod p \<le> GetBindTimeOfPod q"
    using set s by auto
qed

theorem findCandidate_earliest_witness:
  "findCandidate NewAllocateCache 2 (OrderPodsdByBindTime (filter isCandidate [samplePod])) = Some (samplePod, sampleContainer)
   \<and> GetBindTimeOfPod samplePod \<le> GetBindTimeOfPod samplePod"
proof -
  have f: "findCandidate NewAllocateCache 2 (OrderPodsdByBindTime (filter isCandidate [samplePod])) = Some (samplePod, sampleContainer)"
    by code_simp
  have "isCandidate samplePod" "matchContainer NewAllocateCache 2 samplePod \<noteq> None" by code_simp+
  with findCandidate_earliest [OF refl, of NewAllocateCache 2 "[samplePod]" samplePod sampleContainer] f show ?thesis by simp
qed

section \<open>Allocate\<close>

lemma nextContainer_find:
  "nextContainer cache k cs =
     (case find (\<lambda>c. map_of cache (cName c) = None \<and> IsGPURequiredContainer c) cs of
        None \<Rightarrow> Inr None
      | Some c \<Rightarrow> if k \<noteq> GetGPUResourceOfContainer c VCoreAnnotation then Inl () else Inr (Some c))"
  by (induction cs) auto

lemma freePods_world [simp]: "taWorld (foldl (freePod e) ta uids) = taWorld ta"
proof -
  have "taWorld (foldl (\<lambda>ta (contName, info). ta\<lparr>taTree := freeDevices (eNvml e (now ta)) (taTree ta) info,
       taResp := DeleteResp (taResp ta) uid contName\<rparr>) ta xs) = taWorld ta" for xs uid ta
    by (induction xs arbitrary: ta) auto
  then have "taWorld (freePod e ta uid) = taWorld ta" for ta uid
    by (simp add: freePod_def Let_def freeContainers_def split: option.split)
  then show ?thesis by (induction uids arbitrary: ta) simp_all
qed

lemma apiLog_recycle [simp]: "apiLog (taWorld (recycle cfg e ta)) = apiLog (taWorld ta)"
  by (simp add: recycle_def freeGPU_def writeCheckpoint_def bump_def)

text \<open>Claim C16: a pod whose containers are not all allocated is continued. While such a pod is remembered it is
  in the cache and has a container left, so \<^verbatim>\<open>Allocate\<close> neither fails to find it nor reports a missing
  candidate: it serves the first container that is left when the number of devices matches, and otherwise
  returns an error without any call to the API server, so that the node stays locked.\<close>

theorem Allocate_continues_unfinished:
  assumes "alloc_inv ta" "env_ok e" "ta1 = recycle cfg e ta" "taUnfinished ta1 = Some pod"
  shows "\<exists>c m. GetCache (taCache ta1) (pUID pod) = Some m
    \<and> find (\<lambda>c. map_of m (cName c) = None \<and> IsGPURequiredContainer c) (pContainers pod) = Some c
    \<and> Allocate cfg e ta (ids # rest) =
        (if GetGPUResourceOfContainer c VCoreAnnotation = int (length ids) then allocateFound cfg e ta1 pod c ids
         else Inr (ta1, Inl (''allocation request mismatch for pod '' @ pUID pod)))
    \<and> apiLog (taWorld ta1) = apiLog (taWorld ta)"
proof -
  have "alloc_inv ta1" using recycle_inv(1) [OF assms(1)] assms(2,3) by (simp add: env_ok_def)
  then have "podUnfinished (taCache ta1) pod" using assms(4) by (simp add: alloc_inv_def unfinished_ok_def)
  then obtain m where m: "GetCache (taCache ta1) (pUID pod) = Some m"
    "list_ex (\<lambda>c. IsGPURequiredContainer c \<and> map_of m (cName c) = None) (pContainers pod)"
    by (auto simp: podUnfinished_def split: option.splits)
  obtain c where c: "find (\<lambda>c. map_of m (cName c) = None \<and> IsGPURequiredContainer c) (pContainers pod) = Some c"
    using m(2) by (cases "find (\<lambda>c. map_of m (cName c) = None \<and> IsGPURequiredContainer c) (pContainers pod)")
      (auto simp: find_None_iff list_ex_iff)
  show ?thesis
    using m(1) c assms(3,4)
    by (intro exI [of _ c] exI [of _ m]) (auto simp: Allocate_def Let_def nextContainer_find)
qed

theorem Allocate_continues_unfinished_witness:
  "\<exists>ta (pod :: Pod). alloc_inv ta \<and> Allocate sampleCfg sampleEnv ta [[]] =
     Inr (recycle sampleCfg sampleEnv ta, Inl (''allocation request mismatch for pod '' @ pUID pod))"
proof -
  obtain ta where a: "alloc_inv ta" "taCache ta = \<lparr>PodGPUMapping = [(''u1'', [(''main'', sampleInfo)])]\<rparr>"
    using sample_allocateE by metis
  define pod where "pod = samplePod\<lparr>pContainers := [sampleContainer, sampleContainer\<lparr>cName := ''side''\<rparr>]\<rparr>"
  define ta1 where "ta1 = ta\<lparr>taUnfinished := Some pod\<rparr>"
  have "podUnfinished \<lparr>PodGPUMapping = [(''u1'', [(''main'', sampleInfo)])]\<rparr> pod" "pod_bounded pod"
    unfolding pod_def by code_simp+
  then have inv: "alloc_inv ta1" using a by (simp add: alloc_inv_def unfinished_ok_def ta1_def)
  have act: "map fst (GetActivePods (Some [samplePod])) = [''u1'']" by code_simp
  have "podsToBeRemoved sampleEnv ta1 = []"
    by (simp add: podsToBeRemoved_def Let_def sampleEnv_def act a(2) Pods_def gorange_def ta1_def)
  then have r: "taUnfinished (recycle sampleCfg sampleEnv ta1) = Some pod"
    by (simp add: recycle_def freeGPU_def ta1_def)
  obtain c and m :: containerToInfo where c: "find (\<lambda>c. map_of m (cName c) = None \<and> IsGPURequiredContainer c) (pContainers pod) = Some c"
    "Allocate sampleCfg sampleEnv ta1 [[]] =
      (if GetGPUResourceOfContainer c VCoreAnnotation = int (length ([] :: string list))
       then allocateFound sampleCfg sampleEnv (recycle sampleCfg sampleEnv ta1) pod c []
       else Inr (recycle sampleCfg sampleEnv ta1, Inl (''allocation request mismatch for pod '' @ pUID pod)))"
    using Allocate_continues_unfinished [OF inv sample_env_ok refl r, of "[]" "[]"] by blast
  have "GetGPUResourceOfContainer c VCoreAnnotation = 2"
    using find_SomeD [OF c(1)]
    by (auto simp: GetGPUResourceOfContainer_def sampleContainer_def u64_def pod_def)
  then have "Allocate sampleCfg sampleEnv ta1 [[]] =
      Inr (recycle sampleCfg sampleEnv ta1, Inl (''allocation request mismatch for pod '' @ pUID pod))"
    using c(2) by simp
  then show ?thesis using inv by blast
qed

section \<open>The work queue\<close>

lemma patchPod_progress:
  assumes "patchPodWithAnnotations e w pod m = (w', err)" "0 < kPolls (eKube e)"
  shows "tick w < tick w'" "kPatchPod (eKube e) (tick w) (pNamespace pod) (pName pod) (annotationPatch m) = None \<Longrightarrow> err = None"
proof -
  define cond where "cond = (\<lambda>w. case patchPodApi (eKube e) w (pNamespace pod) (pName pod) (annotationPatch m) of
      (w, None) \<Rightarrow> (w, Inr True) | (w, Some err) \<Rightarrow> if ShouldRetry err then (w, Inr False) else (w, Inl err))"
  obtain n where n: "kPolls (eKube e) = Suc n" using assms(2) gr0_implies_Suc by blast
  have step: "tick (fst (cond w)) = tick w + 1" for w
    by (auto simp: cond_def patchPodApi_def logCall_def split: option.split)
  have run: "patchPodWithAnnotations e w pod m = (case poll (Suc n) cond w of (w, None) \<Rightarrow> (w, None)
      | (w, Some err) \<Rightarrow> (w, Some (''failed to add annotation to pod '' @ pUID pod @ '' due to '' @ errStr err)))"
    unfolding patchPodWithAnnotations_def cond_def n ..
  have later: "tick w < tick v" if "poll n cond (fst (cond w)) = (v, x)" for v x
    using poll_invariant [OF that, of "\<lambda>s. tick w < tick s"] step by (simp add: less_SucI)
  obtain v x where p: "poll (Suc n) cond w = (v, x)" by fastforce
  have v: "w' = v" using assms(1) run p by (cases x) simp_all
  obtain u r where c: "cond w = (u, r)" by fastforce
  have "v = u \<or> poll n cond u = (v, x)" using p c by (cases r) (auto split: bool.splits)
  then show "tick w < tick w'" unfolding v using later [of v x] step [of w] c by auto
  assume "kPatchPod (eKube e) (tick w) (pNamespace pod) (pName pod) (annotationPatch m) = None"
  then have "snd (cond w) = Inr True" by (simp add: cond_def patchPodApi_def)
  then have "x = None" using p by (simp add: prod.case_eq_if)
  then show "err = None" using assms(1) run p by simp
qed

text \<open>The results whose work is to patch annotations: they fail only when the server refuses.\<close>

definition patches :: "NvidiaTopoAllocator \<Rightarrow> allocateResult \<Rightarrow> bool" where
  "patches ta ar \<longleftrightarrow> arResult ar = PREDICATE_MISSING
     \<or> (arResult ar = ALLOCATE_SUCCESS \<and> GetCache (taCache ta) (pUID (arPod ar)) \<noteq> None)"

lemma processResult_progress:
  assumes "processResult cfg e ta ar = (ta', err)" "patches ta ar" "0 < kPolls (eKube e)"
  shows "\<exists>w. ta' = ta\<lparr>taWorld := w\<rparr> \<and> now ta < tick w
    \<and> ((\<forall>ns nm p. kPatchPod (eKube e) (now ta) ns nm p = None) \<longrightarrow> err = None)"
proof -
  obtain m where run: "processResult cfg e ta ar = (case patchPodWithAnnotations e (taWorld ta) (arPod ar) m of
      (w, err) \<Rightarrow> (ta\<lparr>taWorld := w\<rparr>, map_option (annotateFailed (arPod ar)) err))"
    using assms(2) by (auto simp: patches_def processResult_def getReadyAnnotations_def Let_def)
  obtain w x where p: "patchPodWithAnnotations e (taWorld ta) (arPod ar) m = (w, x)" by fastforce
  show ?thesis
    using patchPod_progress [OF p assms(3)] run p assms(1) by (intro exI [of _ w]) auto
qed

lemma serveUntil_returns:
  assumes "0 < kPolls (eKube e)" "\<forall>n \<ge> N. \<forall>ns nm p. kPatchPod (eKube e) n ns nm p = None"
    and "taQueue ta = [ar]" "patches ta ar" "N < k + now ta" "0 < k"
  shows "\<exists>w. serveUntil k cfg e ta (arId ar) = Inr (ta\<lparr>taQueue := [], taWorld := w\<rparr>)"
  using assms(3-)
proof (induction k arbitrary: ta)
  case (Suc k)
  obtain ta1 err where p: "processResult cfg e (ta\<lparr>taQueue := []\<rparr>) ar = (ta1, err)" by fastforce
  have "patches (ta\<lparr>taQueue := []\<rparr>) ar" using Suc.prems(2) by (simp add: patches_def)
  from processResult_progress [OF p this assms(1)] obtain w where
    w: "ta1 = ta\<lparr>taQueue := [], taWorld := w\<rparr>" "now ta < tick w"
      "(\<forall>ns nm p. kPatchPod (eKube e) (now ta) ns nm p = None) \<longrightarrow> err = None"
    by auto
  have late: "N \<le> now ta \<longrightarrow> err = None" using w(3) assms(2) by blast
  show ?case
  proof (cases err)
    case None
    then show ?thesis using p w(1) Suc.prems(1) by (intro exI [of _ w]) (simp add: processNextResult_def)
  next
    case (Some x)
    let ?ta = "ta\<lparr>taQueue := [ar], taWorld := w\<rparr>"
    have "processNextResult cfg e ta = (?ta, None)"
      using p w(1) Some Suc.prems(1) by (simp add: processNextResult_def)
    moreover have "\<exists>v. serveUntil k cfg e ?ta (arId ar) = Inr (?ta\<lparr>taQueue := [], taWorld := v\<rparr>)"
      using Suc.prems w(2) late Some by (intro Suc.IH) (auto simp: patches_def)
    ultimately show ?thesis by auto
  qed
qed simp

text \<open>Claim C17: waiting for the queue ends. When the API server accepts patches from some point on, an
  allocation that waits for its annotations to be patched, or a start check that waits for the success
  to be recorded, returns: the item is retried until it succeeds, the queue is empty again, and the books
  are untouched.\<close>

theorem enqueueAndWait_returns:
  assumes "0 < kPolls (eKube e)" "\<forall>n \<ge> N. \<forall>ns nm p. kPatchPod (eKube e) n ns nm p = None" "N < eRounds e"
    and "taQueue ta = []"
    and "res = PREDICATE_MISSING \<or> res = ALLOCATE_SUCCESS \<and> GetCache (taCache ta) (pUID pod) \<noteq> None"
  shows "\<exists>ta'. enqueueAndWait cfg e ta pod res = Inr ta' \<and> taQueue ta' = [] \<and> taTree ta' = taTree ta \<and> taCache ta' = taCache ta"
proof -
  define ar where "ar = \<lparr>arId = now ta, arPod = pod, arResult = res, arMessage = [], arReason = []\<rparr>"
  let ?ta = "bump (ta\<lparr>taQueue := [ar]\<rparr>)"
  have "patches ?ta ar" using assms(5) by (auto simp: patches_def ar_def)
  from serveUntil_returns [OF assms(1,2) _ this, of "eRounds e" cfg] obtain w where
    "serveUntil (eRounds e) cfg e ?ta (arId ar) = Inr (?ta\<lparr>taQueue := [], taWorld := w\<rparr>)"
    using assms(3) by auto
  then show ?thesis
    using assms(4) by (simp add: enqueueAndWait_def enqueue_def Let_def ar_def)
qed

theorem enqueueAndWait_returns_witness:
  "\<exists>ta. enqueueAndWait sampleCfg sampleEnv sampleTa samplePod PREDICATE_MISSING = Inr ta \<and> taQueue ta = []"
  using enqueueAndWait_returns [of sampleEnv 0 sampleTa PREDICATE_MISSING samplePod sampleCfg]
  by (auto simp: sampleEnv_def sampleKube_def sampleTa_def)

section \<open>Reported devices\<close>

lemma hasPrefix_self: "hasPrefix (p @ s) p"
  by (simp add: hasPrefix_def)

lemma resource_prefixes:
  "\<not> hasPrefix (VMemoryAnnotation @ s) VCoreAnnotation" "\<not> hasPrefix (VCoreAnnotation @ s) VMemoryAnnotation"
  by (simp_all add: hasPrefix_def VMemoryAnnotation_def VCoreAnnotation_def)

text \<open>The memory of all cards; the sum of the code does not overflow for sizes below the exact integers of
  \<^verbatim>\<open>float64\<close>.\<close>

definition memoryOfCards :: "NvidiaTree \<Rightarrow> int" where
  "memoryOfCards t = (\<Sum>a \<leftarrow> leaves t. TotalMemory (Meta (nodeAt t a)))"

lemma totalMemoryOf_sum:
  assumes "\<forall>a \<in> set (leaves t). 0 \<le> TotalMemory (Meta (nodeAt t a))" "memoryOfCards t < 2 ^ 53"
  shows "totalMemoryOf t = memoryOfCards t" "0 \<le> memoryOfCards t"
proof -
  let ?m = "\<lambda>a. TotalMemory (Meta (nodeAt t a))"
  have nonneg: "0 \<le> sum_list (map ?m as)" if "\<forall>a \<in> set as. 0 \<le> ?m a" for as using that by (intro sum_list_nonneg) auto
  have "foldl (\<lambda>m a. i64 (m + i64 (?m a))) k as = k + sum_list (map ?m as)"
    if "\<forall>a \<in> set as. 0 \<le> ?m a" "0 \<le> k" "k + sum_list (map ?m as) < 2 ^ 53" for k as
    using that
  proof (induction as arbitrary: k)
    case (Cons a as)
    have "0 \<le> ?m a" "0 \<le> sum_list (map ?m as)" using Cons.prems(1) nonneg by simp_all
    with Cons.prems(2,3) have "i64 (?m a) = ?m a" "i64 (k + ?m a) = k + ?m a" by (simp_all add: i64_id)
    with Cons.IH [of "k + ?m a"] Cons.prems show ?case by (simp add: add.assoc)
  qed simp
  from this [of "leaves t" 0] assms nonneg [of "leaves t"]
  show "totalMemoryOf t = memoryOfCards t" "0 \<le> memoryOfCards t"
    by (simp_all add: totalMemoryOf_def memoryOfCards_def)
qed

text \<open>Claim C18: the devices the plugin reports. With a scaling between zero and one, a hundred different
  identities per card are reported for the cores, and for the memory exactly one per whole block of the
  product of the scaling and the memory of all cards, as the floating point multiplication rounds it, which
  is the exact product up to half a byte; with the scaling one these are all blocks of the cards, and never
  more. The identities of the two resources are told apart by their prefix, also by the counting of
  \<^verbatim>\<open>allocateOne\<close>.\<close>

theorem reported_devices:
  assumes "DeviceMemoryScaling cfg = Fin s" "0 \<le> s" "s \<le> 1"
    and "\<forall>a \<in> set (leaves t). 0 \<le> TotalMemory (Meta (nodeAt t a))" "memoryOfCards t < 2 ^ 53"
  shows "\<exists>cores blocks. ListAndWatchWithResourceName cfg t VCoreAnnotation = Inr cores
    \<and> ListAndWatchWithResourceName cfg t VMemoryAnnotation = Inr blocks \<and> capacity cfg t = Inr (cores @ blocks)
    \<and> distinct (cores @ blocks) \<and> length cores = 100 * devices t
    \<and> countCores cores = 100 * int (devices t) \<and> countBlocks cores = 0
    \<and> countCores blocks = 0 \<and> countBlocks blocks = int (length blocks)
    \<and> int (length blocks) = \<lfloor>f64 (s * of_int (memoryOfCards t))\<rfloor> div MemoryBlockSize
    \<and> of_int (int (length blocks) * MemoryBlockSize) \<le> s * of_int (memoryOfCards t) + 1 / 2
    \<and> s * of_int (memoryOfCards t) < of_int ((int (length blocks) + 1) * MemoryBlockSize) + 1 / 2
    \<and> int (length blocks) \<le> memoryOfCards t div MemoryBlockSize
    \<and> (s = 1 \<longrightarrow> int (length blocks) = memoryOfCards t div MemoryBlockSize)"
proof -
  define k where "k = scaleInt (DeviceMemoryScaling cfg) (totalMemoryOf t) sdiv MemoryBlockSize"
  note total = totalMemoryOf_sum [OF assms(4,5)]
  have pos: "0 < MemoryBlockSize" by (simp add: MemoryBlockSize_def)
  have k: "k = \<lfloor>f64 (s * of_int (memoryOfCards t))\<rfloor> div MemoryBlockSize"
    unfolding k_def assms(1) total(1) by (rule scaled_blocks(1) [OF assms(2,3) total(2) assms(5)])
  note size = scaled_div [OF assms(2,3) total(2) assms(5) pos, folded k]
  define cs where "cs = map (\<lambda>i. VCoreAnnotation @ ''-'' @ natStr i) [0..<length (leaves t) * nat HundredCore]"
  define bs where "bs = map (\<lambda>i. VMemoryAnnotation @ ''-'' @ itoa MemoryBlockSize @ ''-'' @ natStr i) [0..<nat k]"
  have cap: "capacity cfg t = Inr (cs @ bs)" using size(1) by (simp add: capacity_def Let_def cs_def bs_def k_def)
  have p: "hasPrefix x VCoreAnnotation" "\<not> hasPrefix x VMemoryAnnotation" if "x \<in> set cs" for x
    using that resource_prefixes hasPrefix_self by (auto simp: cs_def)
  have q: "hasPrefix x VMemoryAnnotation" "\<not> hasPrefix x VCoreAnnotation" if "x \<in> set bs" for x
    using that resource_prefixes hasPrefix_self by (auto simp: bs_def)
  have l: "ListAndWatchWithResourceName cfg t VCoreAnnotation = Inr cs" "ListAndWatchWithResourceName cfg t VMemoryAnnotation = Inr bs"
    using p q by (simp_all add: ListAndWatchWithResourceName_def cap filter_id_conv filter_empty_conv)
  have "distinct cs" "distinct bs" by (auto simp: cs_def bs_def distinct_map inj_on_def natStr_inj)
  moreover have "set cs \<inter> set bs = {}" using p q by blast
  moreover have "length cs = 100 * devices t" by (simp add: cs_def devices_def HundredCore_def)
  moreover have "filter (\<lambda>v. hasPrefix v VCoreAnnotation) cs = cs" "filter (\<lambda>v. hasPrefix v VCoreAnnotation) bs = []"
    using p q by (simp_all add: filter_id_conv filter_empty_conv)
  moreover have "filter (\<lambda>v. \<not> hasPrefix v VCoreAnnotation \<and> hasPrefix v VMemoryAnnotation) cs = []"
    "filter (\<lambda>v. \<not> hasPrefix v VCoreAnnotation \<and> hasPrefix v VMemoryAnnotation) bs = bs"
    using p q by (simp_all add: filter_id_conv filter_empty_conv)
  moreover have len: "int (length bs) = k" using size(1) by (simp add: bs_def)
  moreover have "k \<le> memoryOfCards t div MemoryBlockSize"
    using size(2) pos by (metis zdiv_mono1 nonzero_mult_div_cancel_right less_irrefl)
  moreover have "s = 1 \<longrightarrow> k = memoryOfCards t div MemoryBlockSize"
    using total(2) assms(5) by (simp add: k f64_int)
  ultimately show ?thesis using l cap size(3,4) k
    by (intro exI [of _ cs] exI [of _ bs]) (simp add: countCores_def countBlocks_def)
qed

theorem reported_devices_witness:
  "\<exists>cores blocks. ListAndWatchWithResourceName (sampleCfg\<lparr>DeviceMemoryScaling := Fin (1 / 2)\<rparr>) sampleTree VCoreAnnotation = Inr cores
     \<and> ListAndWatchWithResourceName (sampleCfg\<lparr>DeviceMemoryScaling := Fin (1 / 2)\<rparr>) sampleTree VMemoryAnnotation = Inr blocks
     \<and> length cores = 400 \<and> int (length blocks) = 32768"
proof -
  have "memoryOfCards sampleTree = 68719476736" "\<forall>a \<in> set (leaves sampleTree). 0 \<le> TotalMemory (Meta (nodeAt sampleTree a))"
    "\<lfloor>f64 (1 / 2 * of_int 68719476736)\<rfloor> div MemoryBlockSize = 32768" by code_simp+
  then show ?thesis
    using reported_devices [of "sampleCfg\<lparr>DeviceMemoryScaling := Fin (1 / 2)\<rparr>" "1 / 2" sampleTree] by (auto simp: sample_devices)
qed

text \<open>With a scaling that is not a number, reporting the devices is a panic, on any machine.\<close>

lemma capacity_NaN:
  "DeviceMemoryScaling cfg = NaN \<Longrightarrow> ListAndWatchWithResourceName cfg t resourceName = Inl Panic"
proof -
  have "- (2 ^ 63) sdiv MemoryBlockSize < 0" by code_simp
  then show "DeviceMemoryScaling cfg = NaN \<Longrightarrow> ListAndWatchWithResourceName cfg t resourceName = Inl Panic"
    by (simp add: ListAndWatchWithResourceName_def capacity_def scaleInt_NaN Let_def)
qed

end
