(* ===== verification/Cgroup.thy ===== *)
theory Cgroup
  imports Go_Paths
begin

text \<open>
  \<^verbatim>\<open>pkg/utils/cgroup/cgroup.go\<close>: abstract cgroup names and their systemd and cgroupfs forms.
  The expansion of a slice name to its path (\<^verbatim>\<open>ExpandSlice\<close> of runc) is a library function and
  the parameter \<open>expandSlice\<close>; \<open>expand_ok\<close> states what its documentation says about a slice name
  whose parts are joined by dashes.
\<close>

type_synonym CgroupName = "string list"

definition systemdSuffix :: string where "systemdSuffix = ''.slice''"

definition NewCgroupName :: "CgroupName \<Rightarrow> string list \<Rightarrow> go_fault + CgroupName" where
  "NewCgroupName base components =
     (if list_ex (\<lambda>c. containsStr c ''/'' \<or> containsStr c ''_'') components then Inl Panic
      else Inr (base @ components))"

definition escapeSystemdCgroupName :: "string \<Rightarrow> string" where
  "escapeSystemdCgroupName part = replaceChar part (CHR ''-'') (CHR ''_'')"

definition ToSystemd2 :: "CgroupName \<Rightarrow> string" where
  "ToSystemd2 cgroupName =
     (if cgroupName = [] \<or> cgroupName = [''''] then ''/''
      else joinStr (map escapeSystemdCgroupName cgroupName) ''-'' @ systemdSuffix)"

definition ToSystemd :: "(string \<Rightarrow> string + string) \<Rightarrow> CgroupName \<Rightarrow> go_fault + string" where
  "ToSystemd expandSlice cgroupName =
     (if cgroupName = [] \<or> cgroupName = [''''] then Inr ''/''
      else case expandSlice (joinStr (map escapeSystemdCgroupName cgroupName) ''-'' @ systemdSuffix) of
             Inl _ \<Rightarrow> Inl Panic
           | Inr result \<Rightarrow> Inr result)"

definition ToCgroupfs :: "CgroupName \<Rightarrow> string" where
  "ToCgroupfs cgroupName = ''/'' @ pathJoinAll cgroupName"

definition SystemdPathPrefixOfRuntime :: "string \<Rightarrow> string" where
  "SystemdPathPrefixOfRuntime runtimeName =
     (if runtimeName = ''cri-o'' then ''crio''
      else if runtimeName = ''containerd'' then ''cri-containerd''
      else runtimeName)"

section \<open>Slices\<close>

text \<open>The path of the slice \<^verbatim>\<open>a-b-c.slice\<close>: \<^verbatim>\<open>/a.slice/a-b.slice/a-b-c.slice\<close>.\<close>

definition sliceSegs :: "string list \<Rightarrow> string list" where
  "sliceSegs parts = map (\<lambda>i. joinStr (take (Suc i) parts) ''-'' @ ''.slice'') [0..<length parts]"

definition slicePart :: "string \<Rightarrow> bool" where
  "slicePart s \<longleftrightarrow> s \<noteq> [] \<and> CHR ''-'' \<notin> set s \<and> CHR ''/'' \<notin> set s"

definition expand_ok :: "(string \<Rightarrow> string + string) \<Rightarrow> bool" where
  "expand_ok expandSlice \<longleftrightarrow> (\<forall>parts. parts \<noteq> [] \<longrightarrow> list_all slicePart parts \<longrightarrow>
     expandSlice (joinStr parts ''-'' @ ''.slice'') = Inr (CHR ''/'' # joinStr (sliceSegs parts) ''/''))"

text \<open>A function with that behaviour.\<close>

definition expandDashes :: "string \<Rightarrow> string + string" where
  "expandDashes nm =
     (if \<not> hasSuffix nm ''.slice'' \<or> containsStr nm ''/'' then Inl ''invalid slice name''
      else let parts = splitStr (trimSuffix nm ''.slice'') ''-''
           in if list_ex (\<lambda>p. p = []) parts then Inl ''invalid slice name''
              else Inr (CHR ''/'' # joinStr (sliceSegs parts) ''/''))"

lemma containsStr_char: "containsStr s [c] \<longleftrightarrow> c \<in> set s"
proof
  assume "c \<in> set s"
  then obtain a b where "s = a @ c # b" "c \<notin> set a" by (meson split_list_first)
  then show "containsStr s [c]" by (simp add: containsStr_def indexOf_char)
qed (metis containsStr_def indexOf_char_None)

lemma expandDashes_ok: "expand_ok expandDashes"
  unfolding expand_ok_def
proof (intro allI impI)
  fix parts :: "string list"
  assume p: "parts \<noteq> []" "list_all slicePart parts"
  then have noslash: "CHR ''/'' \<notin> set (joinStr parts ''-'' @ ''.slice'')"
    using set_joinStr [of parts "''-''"] by (auto simp: list_all_iff slicePart_def)
  have "splitStr (joinStr parts ''-'') ''-'' = parts" "\<not> list_ex (\<lambda>p. p = []) parts"
    using p by (auto simp: splitStr_joinStr list_all_iff list_ex_iff slicePart_def)
  with noslash show "expandDashes (joinStr parts ''-'' @ ''.slice'') = Inr (CHR ''/'' # joinStr (sliceSegs parts) ''/'')"
    by (simp add: expandDashes_def containsStr_char)
qed

lemma NewCgroupName_ok:
  "\<forall>c \<in> set cs. CHR ''/'' \<notin> set c \<and> CHR ''_'' \<notin> set c \<Longrightarrow> NewCgroupName b cs = Inr (b @ cs)"
  by (auto simp: NewCgroupName_def list_ex_iff containsStr_char)

text \<open>
  Escaping is reversible on the parts a name can have: the constructor refuses underscores.
\<close>

lemma escape_inverse:
  "CHR ''_'' \<notin> set s \<Longrightarrow> replaceChar (escapeSystemdCgroupName s) (CHR ''_'') (CHR ''-'') = s"
  by (simp add: escapeSystemdCgroupName_def replaceChar_inverse)

lemma escape_slicePart:
  assumes "s \<noteq> []" "CHR ''/'' \<notin> set s"
  shows "slicePart (escapeSystemdCgroupName s)"
proof -
  have "set (escapeSystemdCgroupName s) \<subseteq> (set s - {CHR ''-''}) \<union> {CHR ''_''}"
    unfolding escapeSystemdCgroupName_def by (rule set_replaceChar)
  moreover have "escapeSystemdCgroupName s \<noteq> []"
    using assms by (simp add: escapeSystemdCgroupName_def replaceChar_def)
  ultimately show ?thesis using assms unfolding slicePart_def by auto
qed

end
