(* ===== verification/Runtime.thy ===== *)
theory Runtime
  imports Cgroup Watchdog
begin

text \<open>
  \<^verbatim>\<open>pkg/runtime/runtime.go\<close>: the cgroup directory of a container and the processes in it. The
  container runtime, the pod lister, the file system, the class \<^verbatim>\<open>qos.GetPodQOS\<close> gives a pod and
  the expansion of slices are answered by the record \<open>runtime_env\<close>; a nil status or a status
  without metadata is \<open>None\<close>.
\<close>

section \<open>State\<close>

record containerRuntimeManager =
  cgroupDriver :: string
  runtimeName :: string
  isCGroupV2 :: bool

record criStatus =
  crId :: string
  crMetadataName :: "string option"
  crLabels :: "(string, string) gomap"
  crAnnotations :: "(string, string) gomap"

datatype stat_result = Present | Missing | StatFailed string

record runtime_env =
  rInspect :: "string \<Rightarrow> string + criStatus option"
  rLister :: "string \<Rightarrow> string \<Rightarrow> string + Pod"
  rStat :: "string \<Rightarrow> stat_result"
  rAllPids :: "string \<Rightarrow> int list \<times> string option"
  rPodQOS :: "Pod \<Rightarrow> string"
  rExpandSlice :: "string \<Rightarrow> string + string"

definition PodNamespaceLabelKey :: string where "PodNamespaceLabelKey = ''io.kubernetes.pod.namespace''"
definition PodNameLabelKey :: string where "PodNameLabelKey = ''io.kubernetes.pod.name''"
definition PodCgroupNamePrefix :: string where "PodCgroupNamePrefix = ''pod''"
definition CGROUP_BASE :: string where "CGROUP_BASE = ''/sys/fs/cgroup''"
definition CGROUP_MEMORY :: string where "CGROUP_MEMORY = CGROUP_BASE @ ''/memory''"

text \<open>The lookup of a missing key gives the empty string.\<close>

definition labelOf :: "(string, string) gomap \<Rightarrow> string \<Rightarrow> string" where
  "labelOf labels k = (case map_of labels k of None \<Rightarrow> [] | Some v \<Rightarrow> v)"

definition PodQOSGuaranteed :: string where "PodQOSGuaranteed = ''Guaranteed''"
definition PodQOSBurstable :: string where "PodQOSBurstable = ''Burstable''"
definition PodQOSBestEffort :: string where "PodQOSBestEffort = ''BestEffort''"

section \<open>The cgroup of a container\<close>

definition containerRoot :: CgroupName where "containerRoot = [''kubepods'']"

definition scopePath :: "(string \<Rightarrow> string + string) \<Rightarrow> string \<Rightarrow> string \<Rightarrow> CgroupName \<Rightarrow> go_fault + string" where
  "scopePath expandSlice rtName containerId cgroupName =
     (case ToSystemd expandSlice cgroupName of
        Inl f \<Rightarrow> Inl f
      | Inr p \<Rightarrow> Inr (p @ ''/'' @ SystemdPathPrefixOfRuntime rtName @ ''-'' @ containerId @ ''.scope''))"

definition convertCgroupPathBySystemd ::
  "(string \<Rightarrow> string + string) \<Rightarrow> string \<Rightarrow> string \<Rightarrow> CgroupName \<Rightarrow> bool \<Rightarrow> go_fault + string" where
  "convertCgroupPathBySystemd expandSlice rtName containerId cgroupName oldVersion =
     (if rtName = ''containerd'' then
        (if oldVersion then scopePath expandSlice rtName containerId cgroupName
         else Inr (''system.slice/'' @ rtName @ ''.service/'' @ ToSystemd2 cgroupName @ '':''
                   @ SystemdPathPrefixOfRuntime rtName @ '':'' @ containerId))
      else if rtName = ''docker'' then
        (if oldVersion then scopePath expandSlice rtName containerId cgroupName
         else case ToSystemd expandSlice cgroupName of
                Inl f \<Rightarrow> Inl f
              | Inr p \<Rightarrow> Inr (p @ ''/'' @ containerId))
      else scopePath expandSlice rtName containerId cgroupName)"

definition qosParent :: "string \<Rightarrow> go_fault + CgroupName" where
  "qosParent podQos =
     (if podQos = PodQOSGuaranteed then NewCgroupName containerRoot []
      else if podQos = PodQOSBurstable then NewCgroupName containerRoot [toLower PodQOSBurstable]
      else if podQos = PodQOSBestEffort then NewCgroupName containerRoot [toLower PodQOSBestEffort]
      else Inr [])"

definition getCgroupName ::
  "runtime_env \<Rightarrow> containerRuntimeManager \<Rightarrow> Pod \<Rightarrow> string \<Rightarrow> bool \<Rightarrow> go_fault + string + string" where
  "getCgroupName re m pod containerID oldVersion =
     (let podQos = (if pQOSClass pod = [] then rPodQOS re pod else pQOSClass pod)
      in case qosParent podQos of
           Inl f \<Rightarrow> Inl f
         | Inr parentContainer \<Rightarrow>
             (case NewCgroupName parentContainer [PodCgroupNamePrefix @ pUID pod] of
                Inl f \<Rightarrow> Inl f
              | Inr cgroupName \<Rightarrow>
                  if cgroupDriver m = ''systemd''
                  then map_sum id Inr (convertCgroupPathBySystemd (rExpandSlice re) (runtimeName m) containerID
                         cgroupName oldVersion)
                  else if cgroupDriver m = ''cgroupfs''
                  then Inr (Inr (ToCgroupfs cgroupName @ ''/'' @ containerID))
                  else Inr (Inl ''unsupported cgroup driver'')))"

text \<open>The directory \<^verbatim>\<open>GetPidsInContainerByStatus\<close> looks into.\<close>

definition containerDir ::
  "runtime_env \<Rightarrow> containerRuntimeManager \<Rightarrow> Pod \<Rightarrow> string \<Rightarrow> bool \<Rightarrow> go_fault + string + string" where
  "containerDir re m pod containerID oldVersion =
     (case getCgroupName re m pod containerID oldVersion of
        Inl f \<Rightarrow> Inl f
      | Inr (Inl err) \<Rightarrow> Inr (Inl err)
      | Inr (Inr cgroupPath) \<Rightarrow>
          Inr (Inr (pathClean (pathJoinAll [if isCGroupV2 m then CGROUP_BASE else CGROUP_MEMORY, cgroupPath]))))"

section \<open>Processes\<close>

text \<open>
  The jump back to \<^verbatim>\<open>outer\<close> happens at most once, when the first directory does not exist. The
  result is the processes and the error, if any.
\<close>

definition GetPidsInContainerByStatus ::
  "runtime_env \<Rightarrow> containerRuntimeManager \<Rightarrow> criStatus option \<Rightarrow> go_fault + int list \<times> string option" where
  "GetPidsInContainerByStatus re m containerStatus =
     (case containerStatus of
        None \<Rightarrow> Inl Panic
      | Some st \<Rightarrow>
          (case watchdogGetPod (rLister re (labelOf (crLabels st) PodNamespaceLabelKey)
                                           (labelOf (crLabels st) PodNameLabelKey)) of
             Inl err \<Rightarrow> Inr ([], Some err)
           | Inr pod \<Rightarrow>
               (case containerDir re m pod (crId st) False of
                  Inl f \<Rightarrow> Inl f
                | Inr (Inl err) \<Rightarrow> Inr ([], Some err)
                | Inr (Inr dir) \<Rightarrow>
                    if rStat re dir = Missing
                    then (case containerDir re m pod (crId st) True of
                            Inl f \<Rightarrow> Inl f
                          | Inr (Inl err) \<Rightarrow> Inr ([], Some err)
                          | Inr (Inr dir) \<Rightarrow> Inr (rAllPids re dir))
                    else Inr (rAllPids re dir))))"

definition InspectContainer :: "runtime_env \<Rightarrow> string \<Rightarrow> string + criStatus option" where
  "InspectContainer re containerID = rInspect re containerID"

definition GetPidsInContainerById ::
  "runtime_env \<Rightarrow> containerRuntimeManager \<Rightarrow> string \<Rightarrow> go_fault + int list \<times> string option" where
  "GetPidsInContainerById re m containerID =
     (case InspectContainer re containerID of
        Inl err \<Rightarrow> Inr ([], Some err)
      | Inr st \<Rightarrow> GetPidsInContainerByStatus re m st)"

end
