(* ===== verification/Client.thy ===== *)
theory Client
  imports Runtime
begin

text \<open>
  \<^verbatim>\<open>cmd/client/client.go\<close>, the program a container runs to register itself: the pod and the
  container are read off the memory line of its cgroup file. The lemmas relate this line to the
  directory in which the manager looks for the processes of the container, so that the identity the
  client reports is the identity of the container it runs in.
\<close>

section \<open>Reading the cgroup\<close>

definition UUIDLength :: nat where "UUIDLength = 36"

definition containerIdOf :: "string \<Rightarrow> string" where
  "containerIdOf s =
     (let c = trimSuffix (trimSpace s) ''.scope''
      in case lastIndexChar c (CHR ''-'') of None \<Rightarrow> c | Some i \<Rightarrow> drop (i + 1) c)"

definition podUidOf :: "bool \<Rightarrow> string \<Rightarrow> string \<Rightarrow> string" where
  "podUidOf isSystemd s podUid =
     (if isSystemd then
        (case indexOf s ''-pod'' of
           None \<Rightarrow> podUid
         | Some i \<Rightarrow>
             (let t = trimSuffix (drop (i + 4) s) ''.slice''
              in if length t = UUIDLength then replaceChar t (CHR ''_'') (CHR ''-'') else podUid))
      else if hasPrefix s ''pod'' then
        (let t = drop 3 s in if length t = UUIDLength then t else podUid)
      else podUid)"

text \<open>The loop over the parts; the last one holds the container.\<close>

fun extractParts :: "bool \<Rightarrow> string list \<Rightarrow> string \<Rightarrow> string \<times> string" where
  "extractParts isSystemd [] podUid = (podUid, [])"
| "extractParts isSystemd [s] podUid = (podUid, containerIdOf s)"
| "extractParts isSystemd (s # t # ss) podUid = extractParts isSystemd (t # ss) (podUidOf isSystemd s podUid)"

definition extractIds :: "string \<Rightarrow> string \<times> string" where
  "extractIds memoryLine =
     (let isSystemd = containsStr memoryLine ''.slice'';
          split = splitStr (trimSpace (replaceChar memoryLine (CHR '':'') (CHR ''/''))) ''/''
      in extractParts isSystemd split [])"

definition readCgroupFileMemoryLine :: "(string \<Rightarrow> string + string) \<Rightarrow> string \<Rightarrow> string + string" where
  "readCgroupFileMemoryLine readFile filePath =
     (case readFile filePath of
        Inl err \<Rightarrow> Inl err
      | Inr content \<Rightarrow>
          (case find (\<lambda>line. containsStr line ''memory'') (scanLines content) of
             None \<Rightarrow> Inr []
           | Some line \<Rightarrow> Inr line))"

section \<open>The program\<close>

record client_args =
  caAddr :: string
  caBusID :: string
  caPodUID :: string
  caContName :: string
  caContID :: string
  caCgroupPath :: string

record VDeviceRequest =
  rqBusId :: string
  rqPodUid :: string
  rqContainerName :: string
  rqContainerId :: string

definition argsMissing :: "client_args \<Rightarrow> bool" where
  "argsMissing a \<longleftrightarrow> caPodUID a = [] \<or> (caContName a = [] \<and> caContID a = [])"

text \<open>The checks of \<^verbatim>\<open>main\<close> up to the label \<^verbatim>\<open>outer\<close>.\<close>

definition clientIdentity :: "(string \<Rightarrow> string + string) \<Rightarrow> client_args \<Rightarrow> go_fault + client_args" where
  "clientIdentity readFile a =
     (if caAddr a = [] then Inl Fatal
      else if caCgroupPath a = [] then (if argsMissing a then Inl Fatal else Inr a)
      else case readCgroupFileMemoryLine readFile (caCgroupPath a) of
             Inl _ \<Rightarrow> Inl Fatal
           | Inr memoryLine \<Rightarrow>
               if memoryLine = [] then (if argsMissing a then Inl Fatal else Inr a)
               else let (uid, containerId) = extractIds memoryLine
                    in if uid = [] \<or> (caContName a = [] \<and> containerId = []) then Inl Fatal
                       else if caContID a \<noteq> [] \<and> caContID a \<noteq> containerId then Inl Fatal
                       else Inr (a\<lparr>caPodUID := uid, caContID := containerId\<rparr>))"

definition clientRequest :: "client_args \<Rightarrow> VDeviceRequest" where
  "clientRequest a =
     (let req = \<lparr>rqBusId = caBusID a, rqPodUid = caPodUID a, rqContainerName = caContName a, rqContainerId = []\<rparr>
      in if caContID a \<noteq> [] then req\<lparr>rqContainerName := [], rqContainerId := caContID a\<rparr> else req)"

text \<open>
  The whole program: the request it sent, or its fatal end. Dialling the manager and the call are
  answered by the surroundings.
\<close>

definition clientMain ::
  "(string \<Rightarrow> string + string) \<Rightarrow> (string \<Rightarrow> string option) \<Rightarrow> (VDeviceRequest \<Rightarrow> string option)
     \<Rightarrow> client_args \<Rightarrow> go_fault + VDeviceRequest" where
  "clientMain readFile dial call a =
     (case clientIdentity readFile a of
        Inl f \<Rightarrow> Inl f
      | Inr a \<Rightarrow>
          if dial (caAddr a) \<noteq> None then Inl Fatal
          else if call (clientRequest a) \<noteq> None then Inl Fatal
          else Inr (clientRequest a))"

section \<open>Identifiers\<close>

text \<open>What Kubernetes and the runtimes use: UUIDs, hexadecimal container ids, and names without separators
  or spaces for the runtimes.\<close>

definition hexChar :: "char \<Rightarrow> bool" where
  "hexChar c \<longleftrightarrow> c \<in> set ''0123456789abcdef''"

definition uuidOk :: "string \<Rightarrow> bool" where
  "uuidOk u \<longleftrightarrow> length u = 36 \<and> list_all (\<lambda>c. hexChar c \<or> c = CHR ''-'') u"

definition containerIdOk :: "string \<Rightarrow> bool" where
  "containerIdOk c \<longleftrightarrow> c \<noteq> [] \<and> list_all hexChar c"

definition runtimeNameOk :: "string \<Rightarrow> bool" where
  "runtimeNameOk r \<longleftrightarrow> r \<noteq> [] \<and> list_all (\<lambda>c. c \<noteq> CHR ''/'' \<and> c \<noteq> CHR '':'' \<and> \<not> isSpace c) r"

lemma hexChar_not: "hexChar c \<Longrightarrow> c \<noteq> CHR ''/'' \<and> c \<noteq> CHR '':'' \<and> c \<noteq> CHR ''_'' \<and> c \<noteq> CHR ''-'' \<and> c \<noteq> CHR ''.'' \<and> \<not> isSpace c"
  by (auto simp: hexChar_def isSpace_def)

lemma containerIdOk_chars:
  assumes "containerIdOk c"
  shows "c \<noteq> []" "CHR ''/'' \<notin> set c" "CHR '':'' \<notin> set c" "CHR ''-'' \<notin> set c" "CHR ''.'' \<notin> set c"
    "\<not> isSpace (hd c)" "\<not> isSpace (last c)"
  using assms hexChar_not by (auto simp: containerIdOk_def list_all_iff)

lemma uuidOk_chars:
  assumes "uuidOk u"
  shows "CHR ''/'' \<notin> set u" "CHR '':'' \<notin> set u" "CHR ''_'' \<notin> set u" "CHR ''.'' \<notin> set u" "u \<noteq> []"
  using assms hexChar_not by (fastforce simp: uuidOk_def list_all_iff)+

lemma runtimeNameOk_chars:
  assumes "runtimeNameOk r"
  shows "CHR ''/'' \<notin> set (SystemdPathPrefixOfRuntime r)" "CHR '':'' \<notin> set (SystemdPathPrefixOfRuntime r)"
    "SystemdPathPrefixOfRuntime r \<noteq> []" "\<not> isSpace (hd (SystemdPathPrefixOfRuntime r))"
proof -
  have "CHR ''/'' \<notin> set r" "CHR '':'' \<notin> set r" "\<forall>c \<in> set r. \<not> isSpace c" "r \<noteq> []"
    using assms by (auto simp: runtimeNameOk_def list_all_iff)
  then show "CHR ''/'' \<notin> set (SystemdPathPrefixOfRuntime r)" "CHR '':'' \<notin> set (SystemdPathPrefixOfRuntime r)"
    "SystemdPathPrefixOfRuntime r \<noteq> []" "\<not> isSpace (hd (SystemdPathPrefixOfRuntime r))"
    by (simp_all add: SystemdPathPrefixOfRuntime_def isSpace_def)
qed

section \<open>Directories\<close>

lemma CGROUP_MEMORY_segs: "CGROUP_MEMORY = CHR ''/'' # joinStr [''sys'', ''fs'', ''cgroup'', ''memory''] ''/''"
  by (simp add: CGROUP_MEMORY_def CGROUP_BASE_def)

lemma memorySegs: "list_all properSeg [''sys'', ''fs'', ''cgroup'', ''memory'']"
  by (simp add: properSeg_def)

text \<open>The directory of a path below the memory hierarchy, rooted or not.\<close>

lemma memory_dir:
  assumes "list_all properSeg segs" "segs \<noteq> []" "s = joinStr segs ''/'' \<or> s = CHR ''/'' # joinStr segs ''/''"
  shows "pathClean (pathJoinAll [CGROUP_MEMORY, s]) = CGROUP_MEMORY @ ''/'' @ joinStr segs ''/''"
proof -
  define ms where "ms = [''sys'', ''fs'', ''cgroup'', ''memory'']"
  define mid where "mid = (if s = joinStr segs ''/'' then [] else [[] :: string])"
  have ms: "CGROUP_MEMORY = CHR ''/'' # joinStr ms ''/''" "list_all properSeg ms" "ms \<noteq> []"
    unfolding ms_def using CGROUP_MEMORY_segs memorySegs by auto
  have "CGROUP_MEMORY @ ''/'' @ s = CHR ''/'' # joinStr (ms @ mid @ segs) ''/''"
    using assms(2,3) ms(1,3) by (auto simp: mid_def joinStr_append joinStr_Cons)
  moreover have filt: "filter (\<lambda>s. s \<noteq> []) (ms @ mid @ segs) = ms @ segs"
    using assms(1) ms(2) by (auto simp: mid_def properSeg_def list_all_iff intro!: filter_True)
  moreover have "\<forall>p \<in> set (ms @ mid @ segs). CHR ''/'' \<notin> set p"
    using assms(1) ms(2) by (auto simp: mid_def properSeg_def list_all_iff split: if_splits)
  ultimately have one: "pathClean (CGROUP_MEMORY @ ''/'' @ s) = CHR ''/'' # joinStr (ms @ segs) ''/''"
    using assms(1) ms by (simp add: pathClean_rooted)
  have "filter (\<lambda>s. s \<noteq> []) (ms @ segs) = ms @ segs"
    using assms(1) ms(2) by (auto simp: properSeg_def list_all_iff intro!: filter_True)
  then have "pathClean (CHR ''/'' # joinStr (ms @ segs) ''/'') = CHR ''/'' # joinStr (ms @ segs) ''/''"
    using assms(1) ms by (subst pathClean_rooted) (auto simp: properSeg_def list_all_iff)
  moreover have "CGROUP_MEMORY \<noteq> []" by (simp add: CGROUP_MEMORY_def)
  ultimately show ?thesis
    using one ms assms(2) by (simp add: pathJoinAll_def joinStr_append)
qed

section \<open>Extraction\<close>

lemma extractParts_snoc:
  "extractParts b (xs @ [y]) u = (foldl (\<lambda>u s. podUidOf b s u) u xs, containerIdOf y)"
proof (induction xs arbitrary: u)
  case (Cons x xs)
  then show ?case by (cases xs) auto
qed simp

lemma indexOf_absent: "x \<in> set p \<Longrightarrow> x \<notin> set s \<Longrightarrow> indexOf s p = None"
proof (induction s)
  case (Cons a s)
  have "\<not> hasPrefix (a # s) p"
    unfolding hasPrefix_def using Cons.prems by (metis in_set_takeD)
  with Cons show ?case by auto
qed auto

lemma containsStr_mid: "containsStr (a @ p @ b) p"
proof (induction a)
  case Nil
  have "hasPrefix (p @ b) p" by (simp add: hasPrefix_def)
  then show ?case by (cases "p @ b") (auto simp: containsStr_def)
qed (auto simp: containsStr_def)

lemma podUidOf_other: "CHR ''-'' \<notin> set s \<Longrightarrow> \<not> hasPrefix s ''pod'' \<Longrightarrow> podUidOf b s u = u"
  by (simp add: podUidOf_def indexOf_absent [where x = "CHR ''-''"])

lemma natStr_chars: "x \<in> set (natStr n) \<Longrightarrow> isDigit x"
  using natStr_digits [of n] by (simp add: list_all_iff)

lemma natStr_no: "\<not> isDigit c \<Longrightarrow> c \<notin> set (natStr n)"
  using natStr_chars by blast

text \<open>The memory line of a path, cut at slashes and colons.\<close>

lemma extract_line:
  assumes path: "replaceChar (joinStr segs ''/'') (CHR '':'') (CHR ''/'') = joinStr parts ''/''"
    and parts: "parts \<noteq> []" "\<forall>p \<in> set parts. CHR ''/'' \<notin> set p" "last parts \<noteq> []" "\<not> isSpace (last (last parts))"
  shows "extractIds (natStr n @ '':memory:/'' @ joinStr segs ''/'')
           = extractParts (containsStr (natStr n @ '':memory:/'' @ joinStr segs ''/'') ''.slice'') parts []"
proof -
  let ?line = "natStr n @ '':memory:/'' @ joinStr segs ''/''"
  have digit: "CHR ''-'' \<notin> set (natStr n)" "CHR ''/'' \<notin> set (natStr n)" "CHR '':'' \<notin> set (natStr n)"
    by (rule natStr_no, simp add: isDigit_def)+
  have hd: "\<not> isSpace (hd (natStr n))" "hd (natStr n) \<noteq> CHR ''p''"
    using natStr_hd [of n] by (auto simp: isDigit_def isSpace_def Let_def)
  have rep: "replaceChar ?line (CHR '':'') (CHR ''/'') = natStr n @ ''/memory//'' @ joinStr parts ''/''"
    using path digit(3) by (simp add: replaceChar_append replaceChar_id) (simp add: replaceChar_def)
  have "joinStr parts ''/'' \<noteq> [] \<and> last (joinStr parts ''/'') = last (last parts)"
    using parts(1,3)
  proof (induction parts)
    case (Cons a ps)
    then show ?case by (cases ps) auto
  qed simp
  then have trim: "trimSpace (natStr n @ ''/memory//'' @ joinStr parts ''/'') = natStr n @ ''/memory//'' @ joinStr parts ''/''"
    using hd parts(4) by (intro trimSpace_id) auto
  have "splitStr (natStr n @ CHR ''/'' # (''memory'' @ CHR ''/'' # ([] @ CHR ''/'' # joinStr parts ''/''))) ''/''
      = natStr n # ''memory'' # [] # parts"
    using digit(2) parts(1,2) by (subst splitStr_append, simp, subst splitStr_append, simp, subst splitStr_append)
      (simp_all add: splitStr_joinStr)
  then have split: "splitStr (natStr n @ ''/memory//'' @ joinStr parts ''/'') ''/'' = natStr n # ''memory'' # [] # parts"
    by simp
  have np: "\<not> hasPrefix (natStr n) ''pod''"
    using hd(2) by (cases "natStr n") (auto simp: hasPrefix_def)
  have skip: "extractParts b (natStr n # ''memory'' # [] # parts) [] = extractParts b parts []" for b
    using parts(1) podUidOf_other [OF digit(1) np] podUidOf_other [of "''memory''"] podUidOf_other [of "[]"]
    by (cases parts) (simp_all add: hasPrefix_def)
  show ?thesis unfolding extractIds_def Let_def rep trim split skip ..
qed

lemma containerIdOf_plain: "containerIdOk c \<Longrightarrow> containerIdOf c = c"
  using containerIdOk_chars [of c]
  by (simp add: containerIdOf_def trimSpace_id trimSuffix_absent [where x = "CHR ''.''"] lastIndexChar_None)

lemma containerIdOf_scope:
  assumes "containerIdOk c" "p \<noteq> []" "\<not> isSpace (hd p)"
  shows "containerIdOf (p @ ''-'' @ c @ ''.scope'') = c"
proof -
  have "trimSpace (p @ ''-'' @ c @ ''.scope'') = p @ ''-'' @ c @ ''.scope''"
    using assms(2,3) by (intro trimSpace_id) (auto simp: isSpace_def)
  moreover have "trimSuffix (p @ ''-'' @ c @ ''.scope'') ''.scope'' = p @ ''-'' @ c"
    using trimSuffix_append [of "p @ ''-'' @ c" "''.scope''"] by simp
  ultimately show ?thesis
    using containerIdOk_chars(4) [OF assms(1)] by (simp add: containerIdOf_def lastIndexChar_append)
qed

end
