(* ===== verification/Virtual_Manager.thy ===== *)
theory Virtual_Manager
  imports Client Stores Kube_Api
begin

text \<open>
  \<^verbatim>\<open>pkg/services/virtual-manager/manager.go\<close>: the service that gives every pod a directory with a
  socket, answers the registration of its containers by writing the files \<^verbatim>\<open>pids.config\<close> and
  \<^verbatim>\<open>vcuda.config\<close>, and removes the directories of pods that are gone. The state holds the servers
  by directory, the servers that were stopped, and the files of the node. The answers of the operating
  system, of the container runtime and of the informer come from \<open>vm_env\<close> and depend on the number of
  steps taken so far. Holding the mutex makes every update of the map of servers one step.
\<close>

section \<open>State\<close>

definition PIDS_CONFIG_NAME :: string where "PIDS_CONFIG_NAME = ''pids.config''"
definition CONTROLLER_CONFIG_NAME :: string where "CONTROLLER_CONFIG_NAME = ''vcuda.config''"

text \<open>The C structure \<^verbatim>\<open>resource_data_t\<close>, its strings read up to the terminating zero. The fields
  the manager never sets, \<^verbatim>\<open>occupied\<close> and \<^verbatim>\<open>bus_id\<close>, stay zero and are left out.\<close>

record resource_data =
  pod_uid :: string
  limit :: int
  container_name :: string
  gpu_memory :: int
  utilization :: int
  hard_limit :: int
  driver_major :: int
  driver_minor :: int
  enable :: int

text \<open>The errors of creating a directory that the code tells apart.\<close>

datatype path_err = EExist | ENoEnt | EOther string

definition pathErrStr :: "path_err \<Rightarrow> string" where
  "pathErrStr err = (case err of EExist \<Rightarrow> ''file exists'' | ENoEnt \<Rightarrow> ''no such file or directory'' | EOther s \<Rightarrow> s)"

datatype vfile = Dir | Socket nat | Pids "int list" | VConfig resource_data | Torn

record VirtualManager =
  vmServers :: "(string, nat) gomap"
  vmNext :: nat
  vmStopped :: "nat list"
  vmResp :: respData
  vmFiles :: "(string, vfile) gomap"
  vmTick :: nat

record vm_env =
  vPath :: string
  vRuntimeManager :: containerRuntimeManager
  vRuntime :: "nat \<Rightarrow> runtime_env"
  vStore :: "nat \<Rightarrow> Pod list option"
  vMkdirErr :: "nat \<Rightarrow> string \<Rightarrow> path_err option"
  vStatErr :: "nat \<Rightarrow> string \<Rightarrow> string option"
  vUnlinkErr :: "nat \<Rightarrow> string \<Rightarrow> string option"
  vListenErr :: "nat \<Rightarrow> string \<Rightarrow> string option"
  vChmodErr :: "nat \<Rightarrow> string \<Rightarrow> string option"
  vServeErr :: "nat \<Rightarrow> string \<Rightarrow> string option"
  vRemoves :: "nat \<Rightarrow> string \<Rightarrow> bool"
  vOpens :: "nat \<Rightarrow> string \<Rightarrow> bool"
  vLocks :: "nat \<Rightarrow> string \<Rightarrow> bool"
  vWritesAll :: "nat \<Rightarrow> string \<Rightarrow> bool"
  vOrd :: "string list \<Rightarrow> string list"
  vPolls :: nat
  vDriverMajor :: int
  vDriverMinor :: int

definition NewVirtualManager :: "respData \<Rightarrow> (string, vfile) gomap \<Rightarrow> VirtualManager" where
  "NewVirtualManager responses files =
     \<lparr>vmServers = [], vmNext = 0, vmStopped = [], vmResp = responses, vmFiles = files, vmTick = 0\<rparr>"

definition vtick :: "VirtualManager \<Rightarrow> VirtualManager" where
  "vtick vm = vm\<lparr>vmTick := vmTick vm + 1\<rparr>"

section \<open>Files\<close>

definition osStat :: "vm_env \<Rightarrow> VirtualManager \<Rightarrow> string \<Rightarrow> stat_result" where
  "osStat e vm path =
     (case vStatErr e (vmTick vm) path of
        Some err \<Rightarrow> StatFailed err
      | None \<Rightarrow> (case map_of (vmFiles vm) path of None \<Rightarrow> Missing | Some _ \<Rightarrow> Present))"

text \<open>\<^verbatim>\<open>os.MkdirAll\<close>.\<close>

definition mkDir :: "(string, vfile) gomap \<Rightarrow> string \<Rightarrow> (string, vfile) gomap" where
  "mkDir fs p = (if map_of fs p = None then AList.update p Dir fs else fs)"

definition osMkdirAll :: "vm_env \<Rightarrow> VirtualManager \<Rightarrow> string \<Rightarrow> VirtualManager \<times> path_err option" where
  "osMkdirAll e vm path =
     (case vMkdirErr e (vmTick vm) path of
        Some err \<Rightarrow> (vtick vm, Some err)
      | None \<Rightarrow> (vtick (vm\<lparr>vmFiles := foldl mkDir (vmFiles vm) (pathPrefixes path)\<rparr>), None))"

text \<open>Creating a directory that may exist already: the error the caller returns.\<close>

definition ensureDir :: "vm_env \<Rightarrow> VirtualManager \<Rightarrow> string \<Rightarrow> VirtualManager \<times> string option" where
  "ensureDir e vm path =
     (case osMkdirAll e vm path of
        (vm, None) \<Rightarrow> (vm, None)
      | (vm, Some err) \<Rightarrow> (vm, if err = EExist then None else Some (pathErrStr err)))"

text \<open>\<^verbatim>\<open>os.RemoveAll\<close> removes what the system lets it remove; its error is dropped.\<close>

definition osRemoveAll :: "vm_env \<Rightarrow> VirtualManager \<Rightarrow> string \<Rightarrow> VirtualManager" where
  "osRemoveAll e vm dir =
     vtick (vm\<lparr>vmFiles := filter (\<lambda>(p, _). \<not> (belowDir dir p \<and> vRemoves e (vmTick vm) p)) (vmFiles vm)\<rparr>)"

section \<open>Servers\<close>

definition socketOf :: "string \<Rightarrow> string" where
  "socketOf dir = pathJoinAll [dir, VDeviceSocket]"

text \<open>The server, or \<open>None\<close> for the nil the caller gets after an error.\<close>

definition runVDeviceServer :: "vm_env \<Rightarrow> VirtualManager \<Rightarrow> string \<Rightarrow> VirtualManager \<times> nat option" where
  "runVDeviceServer e vm dir =
     (let socketFile = socketOf dir; t = vmTick vm
      in if map_of (vmFiles vm) socketFile \<noteq> None \<and> vUnlinkErr e t socketFile \<noteq> None then (vtick vm, None)
         else let vm = vm\<lparr>vmFiles := AList.delete socketFile (vmFiles vm)\<rparr>
           in if vListenErr e t socketFile \<noteq> None then (vtick vm, None)
              else let srv = vmNext vm;
                       vm = vm\<lparr>vmFiles := AList.update socketFile (Socket srv) (vmFiles vm), vmNext := srv + 1\<rparr>
                in if vChmodErr e t socketFile \<noteq> None then (vtick vm, None)
                   else if vServeErr e t socketFile \<noteq> None then (vtick vm, None)
                   else (vtick vm, Some srv))"

definition addServer :: "VirtualManager \<Rightarrow> string \<Rightarrow> nat \<Rightarrow> VirtualManager" where
  "addServer vm dir srv = vm\<lparr>vmServers := AList.update dir srv (vmServers vm)\<rparr>"

definition recoverServer :: "vm_env \<Rightarrow> VirtualManager \<Rightarrow> string \<Rightarrow> go_fault + VirtualManager" where
  "recoverServer e vm dir =
     (case runVDeviceServer e vm dir of
        (vm, None) \<Rightarrow> Inl Fatal
      | (vm, Some srv) \<Rightarrow> Inr (addServer vm dir srv))"

text \<open>The body of the loop of \<^verbatim>\<open>vDeviceWatcher\<close> over the containers of an active pod: the server is
  started twice when the path of its socket is short enough.\<close>

definition recoverDir :: "vm_env \<Rightarrow> VirtualManager \<Rightarrow> ContainerAllocateResponse \<Rightarrow> go_fault + VirtualManager" where
  "recoverDir e vm resp =
     (let dirName = GetVirtualControllerMountPath resp
      in if dirName = [] then Inr vm
         else if osStat e vm dirName \<noteq> Present then Inr vm
         else case (if length (socketOf dirName) < 108 then recoverServer e vm dirName else Inr vm) of
                Inl f \<Rightarrow> Inl f
              | Inr vm \<Rightarrow> recoverServer e vm dirName)"

fun recoverDirs :: "vm_env \<Rightarrow> VirtualManager \<Rightarrow> ContainerAllocateResponse list \<Rightarrow> go_fault + VirtualManager" where
  "recoverDirs e vm [] = Inr vm"
| "recoverDirs e vm (resp # resps) =
     (case recoverDir e vm resp of Inl f \<Rightarrow> Inl f | Inr vm \<Rightarrow> recoverDirs e vm resps)"

definition podResponses :: "vm_env \<Rightarrow> VirtualManager \<Rightarrow> (string \<Rightarrow> bool) \<Rightarrow> ContainerAllocateResponse list" where
  "podResponses e vm P =
     concat (map (\<lambda>(uid, m). if P uid then map snd (gorange (vOrd e) m) else [])
       (gorange (vOrd e) (ListAll (vOrd e) (vmResp vm))))"

definition isActive :: "vm_env \<Rightarrow> VirtualManager \<Rightarrow> string \<Rightarrow> bool" where
  "isActive e vm uid \<longleftrightarrow> map_of (GetActivePods (vStore e (vmTick vm))) uid \<noteq> None"

text \<open>\<^verbatim>\<open>vDeviceWatcher\<close> up to closing its channel, and one round of its loop.\<close>

definition vDeviceWatcher :: "vm_env \<Rightarrow> VirtualManager \<Rightarrow> go_fault + VirtualManager" where
  "vDeviceWatcher e vm = recoverDirs e (vtick vm) (podResponses e vm (isActive e vm))"

definition closeOrphan :: "vm_env \<Rightarrow> VirtualManager \<Rightarrow> string \<times> nat \<Rightarrow> VirtualManager" where
  "closeOrphan e vm entry =
     (if osStat e vm (fst entry) = Missing
      then vm\<lparr>vmStopped := snd entry # vmStopped vm, vmServers := AList.delete (fst entry) (vmServers vm)\<rparr>
      else vm)"

definition closeOrphans :: "vm_env \<Rightarrow> VirtualManager \<Rightarrow> VirtualManager" where
  "closeOrphans e vm = vtick (foldl (closeOrphan e) vm (gorange (vOrd e) (vmServers vm)))"

text \<open>One round of the garbage collector.\<close>

definition garbage :: "vm_env \<Rightarrow> VirtualManager \<Rightarrow> string list" where
  "garbage e vm =
     filter (\<lambda>d. d \<noteq> []) (map GetVirtualControllerMountPath (podResponses e vm (\<lambda>uid. \<not> isActive e vm uid)))"

definition garbageCollector :: "vm_env \<Rightarrow> VirtualManager \<Rightarrow> VirtualManager" where
  "garbageCollector e vm = foldl (\<lambda>vm dir. osRemoveAll e vm (pathClean dir)) (vtick vm) (garbage e vm)"

section \<open>Requests of the allocator\<close>

definition vcudaConfigFunc :: "vm_env \<Rightarrow> VirtualManager \<Rightarrow> string \<Rightarrow> VirtualManager \<times> string option" where
  "vcudaConfigFunc e vm podUID =
     (let dirName = pathClean (pathJoinAll [vPath e, podUID])
      in case ensureDir e vm dirName of
           (vm, Some err) \<Rightarrow> (vm, Some err)
         | (vm, None) \<Rightarrow>
             (case runVDeviceServer e vm dirName of
                (vm, None) \<Rightarrow> (vm, Some (''can't recover vDevice server for '' @ dirName))
              | (vm, Some srv) \<Rightarrow> (addServer vm dirName srv, None)))"

text \<open>The requests of the queue with the answers sent to their channels.\<close>

fun process :: "vm_env \<Rightarrow> VirtualManager \<Rightarrow> VCudaRequest list \<Rightarrow> VirtualManager \<times> string option list" where
  "process e vm [] = (vm, [])"
| "process e vm (evt # evts) =
     (let (vm, answer) = vcudaConfigFunc e vm (vrPodUID evt);
          (vm, answers) = process e vm evts
      in (vm, answer # answers))"

text \<open>\<^verbatim>\<open>Run\<close>, up to the start of its loops.\<close>

definition runVM :: "vm_env \<Rightarrow> VirtualManager \<Rightarrow> go_fault + VirtualManager" where
  "runVM e vm =
     (if vPath e = [] then Inl Fatal
      else case osMkdirAll e vm (vPath e) of
             (vm, Some err) \<Rightarrow> if err \<noteq> ENoEnt then Inl Fatal else vDeviceWatcher e vm
           | (vm, None) \<Rightarrow> vDeviceWatcher e vm)"

section \<open>Registration\<close>

text \<open>The C functions: \<open>None\<close> for the result 0. A file that cannot be written in full is torn.\<close>

definition pids_to_disk :: "vm_env \<Rightarrow> VirtualManager \<Rightarrow> string \<Rightarrow> int list \<Rightarrow> go_fault + VirtualManager \<times> nat" where
  "pids_to_disk e vm filename pids =
     (let t = vmTick vm
      in if \<not> vOpens e t filename then Inr (vtick vm, 1)
         else if \<not> vLocks e t filename then Inl Hang
         else if \<not> vWritesAll e t filename
           then Inr (vtick (vm\<lparr>vmFiles := AList.update filename Torn (vmFiles vm)\<rparr>), 2)
         else Inr (vtick (vm\<lparr>vmFiles := AList.update filename (Pids pids) (vmFiles vm)\<rparr>), 0))"

definition setting_to_disk :: "vm_env \<Rightarrow> VirtualManager \<Rightarrow> string \<Rightarrow> resource_data \<Rightarrow> VirtualManager \<times> nat" where
  "setting_to_disk e vm filename d =
     (let t = vmTick vm
      in if \<not> vOpens e t filename then (vtick vm, 1)
         else if \<not> vWritesAll e t filename
           then (vtick (vm\<lparr>vmFiles := AList.update filename Torn (vmFiles vm)\<rparr>), 2)
         else (vtick (vm\<lparr>vmFiles := AList.update filename (VConfig d) (vmFiles vm)\<rparr>), 0))"

definition writePidFile ::
  "vm_env \<Rightarrow> VirtualManager \<Rightarrow> string \<Rightarrow> string \<Rightarrow> go_fault + VirtualManager \<times> string option" where
  "writePidFile e vm filename contID =
     (case GetPidsInContainerById (vRuntime e (vmTick vm)) (vRuntimeManager e) contID of
        Inl f \<Rightarrow> Inl f
      | Inr (_, Some err) \<Rightarrow> Inr (vtick vm, Some err)
      | Inr (pidsInContainer, None) \<Rightarrow>
          if pidsInContainer = [] then Inr (vtick vm, Some ''empty pids'')
          else (case pids_to_disk e vm filename (map i32 pidsInContainer) of
                  Inl f \<Rightarrow> Inl f
                | Inr (vm, ret) \<Rightarrow> Inr (vm, if ret \<noteq> 0 then Some ''can't sink pids file'' else None)))"

text \<open>The limit of \<^verbatim>\<open>writeConfigFile\<close>: whether the pod has the annotation, and the cores; \<open>None\<close> when
  the annotation is not a number.\<close>

definition coreLimit :: "Pod \<Rightarrow> (bool \<times> int) option" where
  "coreLimit pod =
     (case map_of (pAnnotations pod) VCoreLimitAnnotation of
        None \<Rightarrow> Some (False, 100)
      | Some limitData \<Rightarrow>
          (let (l, ok) = parseInt 64 limitData
           in if \<not> ok then None else Some (True, if l < 100 then l else 100)))"

definition limitValue :: "Container \<Rightarrow> string \<Rightarrow> int" where
  "limitValue c r = (case map_of (cLimits c) r of None \<Rightarrow> 0 | Some v \<Rightarrow> v)"

definition vcudaConfig :: "vm_env \<Rightarrow> string \<Rightarrow> string \<Rightarrow> bool \<Rightarrow> int \<Rightarrow> Container \<Rightarrow> resource_data" where
  "vcudaConfig e podUID name hasLimitCore limitCores cont =
     (let cores = limitValue cont VCoreAnnotation;
          memory = i64 (limitValue cont VMemoryAnnotation * MemoryBlockSize)
      in \<lparr>pod_uid = podUID, limit = (if hasLimitCore then i32 limitCores else 0), container_name = name,
          gpu_memory = u64 memory, utilization = i32 cores, hard_limit = (if hasLimitCore then 0 else 1),
          driver_major = i32 (vDriverMajor e), driver_minor = i32 (vDriverMinor e),
          enable = (if HundredCore \<le> cores then 0 else 1)\<rparr>)"

text \<open>The two \<^verbatim>\<open>strcpy\<close> calls stay in their buffers.\<close>

definition stringsFit :: "string \<Rightarrow> string \<Rightarrow> bool" where
  "stringsFit podUID name \<longleftrightarrow> length podUID < 48 \<and> length name < 4096"

definition matchesName :: "string \<Rightarrow> Container \<Rightarrow> bool" where
  "matchesName name cont \<longleftrightarrow> cName cont = name \<or> hasPrefix name (MakeContainerNamePrefix (cName cont))"

fun writeConfigs ::
  "vm_env \<Rightarrow> VirtualManager \<Rightarrow> string \<Rightarrow> string \<Rightarrow> string \<Rightarrow> bool \<Rightarrow> int \<Rightarrow> bool \<Rightarrow> Container list
     \<Rightarrow> go_fault + VirtualManager \<times> string option" where
  "writeConfigs e vm filename podUID name hasLimitCore limitCores found [] =
     Inr (vm, if found then None else Some (''can't locate '' @ podUID @ ''('' @ name @ '')''))"
| "writeConfigs e vm filename podUID name hasLimitCore limitCores found (cont # conts) =
     (if matchesName name cont then
        (if \<not> stringsFit podUID name then Inl Undefined
         else case setting_to_disk e vm filename (vcudaConfig e podUID name hasLimitCore limitCores cont) of
                (vm, ret) \<Rightarrow>
                  if ret \<noteq> 0 then Inr (vm, Some (''can't sink config '' @ filename))
                  else writeConfigs e vm filename podUID name hasLimitCore limitCores True conts)
      else writeConfigs e vm filename podUID name hasLimitCore limitCores found conts)"

definition writeConfigFile ::
  "vm_env \<Rightarrow> VirtualManager \<Rightarrow> string \<Rightarrow> string \<Rightarrow> string \<Rightarrow> go_fault + VirtualManager \<times> string option" where
  "writeConfigFile e vm filename podUID name =
     (case osStat e vm filename of
        Present \<Rightarrow> Inr (vtick vm, None)
      | StatFailed err \<Rightarrow> Inr (vtick vm, Some err)
      | Missing \<Rightarrow>
          (case map_of (GetActivePods (vStore e (vmTick vm))) podUID of
             None \<Rightarrow> Inr (vtick vm, Some (''can't locate '' @ podUID))
           | Some pod \<Rightarrow>
               (case coreLimit pod of
                  None \<Rightarrow> Inr (vtick vm, Some ''strconv.Atoi: parsing core limit'')
                | Some (hasLimitCore, limitCores) \<Rightarrow>
                    writeConfigs e (vtick vm) filename podUID name hasLimitCore limitCores False (pContainers pod))))"

text \<open>The common end of both registrations: the files of the container below the mount.\<close>

definition writeFiles ::
  "vm_env \<Rightarrow> VirtualManager \<Rightarrow> string \<Rightarrow> string \<Rightarrow> string \<Rightarrow> string \<Rightarrow> string \<Rightarrow> go_fault + VirtualManager \<times> string option" where
  "writeFiles e vm pidFilename configFilename podUID contID name =
     (case writePidFile e vm pidFilename contID of
        Inl f \<Rightarrow> Inl f
      | Inr (vm, Some err) \<Rightarrow> Inr (vm, Some err)
      | Inr (vm, None) \<Rightarrow> writeConfigFile e vm configFilename podUID name)"

definition registerVDeviceWithContainerId ::
  "vm_env \<Rightarrow> VirtualManager \<Rightarrow> string \<Rightarrow> string \<Rightarrow> go_fault + VirtualManager \<times> string option" where
  "registerVDeviceWithContainerId e vm podUID contID =
     (case InspectContainer (vRuntime e (vmTick vm)) contID of
        Inl err \<Rightarrow> Inr (vtick vm, Some (''can't find '' @ contID @ '' from '' @ runtimeName (vRuntimeManager e)
          @ '', err: '' @ err))
      | Inr None \<Rightarrow> Inl Panic
      | Inr (Some containerInfo) \<Rightarrow>
          (case crMetadataName containerInfo of
             None \<Rightarrow> Inl Panic
           | Some name \<Rightarrow>
               (case GetResp (vmResp vm) podUID name of
                  None \<Rightarrow> Inr (vtick vm, Some (''unable to load allocResp for '' @ podUID @ ''/'' @ contID))
                | Some resp \<Rightarrow>
                    (let baseDir = GetVirtualControllerMountPath resp
                     in if baseDir = [] then Inr (vtick vm, Some ''unable to find virtual manager controller path'')
                        else let pidFilename = pathJoinAll [baseDir, contID, PIDS_CONFIG_NAME];
                                 configFilename = pathJoinAll [baseDir, contID, CONTROLLER_CONFIG_NAME]
                          in case ensureDir e (vtick vm) (pathDir configFilename) of
                               (vm, Some err) \<Rightarrow> Inr (vm, Some err)
                             | (vm, None) \<Rightarrow> writeFiles e vm pidFilename configFilename podUID contID name))))"

text \<open>One round of the poll for the container id: the state carries the id found so far.\<close>

definition findContainerID ::
  "vm_env \<Rightarrow> string \<Rightarrow> string \<Rightarrow> VirtualManager \<times> string \<Rightarrow> (VirtualManager \<times> string) \<times> (api_err + bool)" where
  "findContainerID e podUID contName s =
     (let (vm, containerID) = s
      in case map_of (GetActivePods (vStore e (vmTick vm))) podUID of
           None \<Rightarrow> ((vtick vm, containerID), Inl (OtherErr (''can't locate '' @ podUID)))
         | Some pod \<Rightarrow>
             (let found = (case find (\<lambda>stat. hasPrefix (csName stat) contName) (pStatuses pod) of
                             None \<Rightarrow> containerID
                           | Some stat \<Rightarrow> csContainerID stat);
                  containerID = trimPrefix found ''docker://''
              in ((vtick vm, containerID), Inr (containerID \<noteq> []))))"

definition registerVDeviceWithContainerName ::
  "vm_env \<Rightarrow> VirtualManager \<Rightarrow> string \<Rightarrow> string \<Rightarrow> go_fault + VirtualManager \<times> string option" where
  "registerVDeviceWithContainerName e vm podUID contName =
     (case GetResp (vmResp vm) podUID contName of
        None \<Rightarrow> Inr (vtick vm, Some (''unable to load allocResp for '' @ podUID @ ''/'' @ contName))
      | Some resp \<Rightarrow>
          (let baseDir = GetVirtualControllerMountPath resp
           in if baseDir = [] then Inr (vtick vm, Some ''unable to find virtual manager controller path'')
              else let pidFilename = pathJoinAll [baseDir, contName, PIDS_CONFIG_NAME];
                       configFilename = pathJoinAll [baseDir, contName, CONTROLLER_CONFIG_NAME]
                in case ensureDir e vm (pathDir configFilename) of
                     (vm, Some err) \<Rightarrow> Inr (vm, Some err)
                   | (vm, None) \<Rightarrow>
                       (case poll (vPolls e) (findContainerID e podUID contName) (vm, []) of
                          ((vm, _), Some err) \<Rightarrow> Inr (vm, Some (errStr err))
                        | ((vm, containerID), None) \<Rightarrow>
                            writeFiles e vm pidFilename configFilename podUID containerID contName)))"

definition RegisterVDevice ::
  "vm_env \<Rightarrow> VirtualManager \<Rightarrow> VDeviceRequest \<Rightarrow> go_fault + VirtualManager \<times> string option" where
  "RegisterVDevice e vm req =
     (if rqContainerName req \<noteq> [] then registerVDeviceWithContainerName e vm (rqPodUid req) (rqContainerName req)
      else registerVDeviceWithContainerId e vm (rqPodUid req) (rqContainerId req))"

end
