(* ===== verification/Virtual_Laws.thy ===== *)
theory Virtual_Laws
  imports Virtual_Manager
begin

text \<open>
  Laws of the virtual manager: what each operation keeps of the map of servers, which files an operation
  touches, and the steps of the running service as a relation.
\<close>

section \<open>The map of servers\<close>

text \<open>Every directory has a server of its own that was started and not stopped.\<close>

definition servers_ok :: "VirtualManager \<Rightarrow> bool" where
  "servers_ok vm \<longleftrightarrow> gomap_ok (vmServers vm) \<and> distinct (map snd (vmServers vm))
     \<and> (\<forall>s \<in> set (map snd (vmServers vm)) \<union> set (vmStopped vm). s < vmNext vm)
     \<and> set (map snd (vmServers vm)) \<inter> set (vmStopped vm) = {}"

text \<open>Two states with the same servers.\<close>

definition same_servers :: "VirtualManager \<Rightarrow> VirtualManager \<Rightarrow> bool" where
  "same_servers vm vm' \<longleftrightarrow> vmServers vm' = vmServers vm \<and> vmStopped vm' = vmStopped vm \<and> vmNext vm \<le> vmNext vm'"

named_theorems vm_frame \<open>operations that leave the servers alone\<close>

lemma same_servers_refl [simp]: "same_servers vm vm"
  by (simp add: same_servers_def)

lemma same_servers_trans: "same_servers a b \<Longrightarrow> same_servers b c \<Longrightarrow> same_servers a c"
  by (auto simp: same_servers_def)

lemma same_servers_ok: "same_servers vm vm' \<Longrightarrow> servers_ok vm \<Longrightarrow> servers_ok vm'"
  unfolding same_servers_def servers_ok_def by (metis order_less_le_trans)

lemma vtick_frame [simp, vm_frame]: "same_servers vm (vtick vm)"
  by (simp add: same_servers_def vtick_def)

lemma vtick_simps [simp]:
  "vmServers (vtick vm) = vmServers vm" "vmFiles (vtick vm) = vmFiles vm" "vmResp (vtick vm) = vmResp vm"
  "vmNext (vtick vm) = vmNext vm" "vmStopped (vtick vm) = vmStopped vm" "vmTick (vtick vm) = Suc (vmTick vm)"
  by (simp_all add: vtick_def)

lemma ensureDir_frame [vm_frame]: "ensureDir e vm p = (vm', r) \<Longrightarrow> same_servers vm vm'"
  by (auto simp: ensureDir_def osMkdirAll_def same_servers_def split: option.splits)

lemma osMkdirAll_frame [vm_frame]: "osMkdirAll e vm p = (vm', r) \<Longrightarrow> same_servers vm vm'"
  by (auto simp: osMkdirAll_def same_servers_def split: option.splits)

lemma osRemoveAll_frame [vm_frame]: "same_servers vm (osRemoveAll e vm d)"
  by (simp add: osRemoveAll_def same_servers_def)

lemma garbageCollector_frame [vm_frame]: "same_servers vm (garbageCollector e vm)"
proof -
  have "same_servers v (foldl (\<lambda>vm dir. osRemoveAll e vm (pathClean dir)) v ds)" for v ds
    by (induction ds arbitrary: v) (auto intro: same_servers_trans osRemoveAll_frame)
  from this [of "vtick vm"] show ?thesis
    unfolding garbageCollector_def by (rule same_servers_trans [OF vtick_frame])
qed

lemma pids_to_disk_frame [vm_frame]: "pids_to_disk e vm f ps = Inr (vm', r) \<Longrightarrow> same_servers vm vm'"
  by (auto simp: pids_to_disk_def same_servers_def Let_def split: if_splits)

lemma setting_to_disk_frame [vm_frame]: "setting_to_disk e vm f d = (vm', r) \<Longrightarrow> same_servers vm vm'"
  by (auto simp: setting_to_disk_def same_servers_def Let_def split: if_splits)

lemma writePidFile_frame [vm_frame]: "writePidFile e vm f c = Inr (vm', r) \<Longrightarrow> same_servers vm vm'"
  by (auto simp: writePidFile_def split: sum.splits prod.splits option.splits if_splits intro: pids_to_disk_frame)

lemma writeConfigs_frame [vm_frame]:
  "writeConfigs e vm f u n hl l found cs = Inr (vm', r) \<Longrightarrow> same_servers vm vm'"
proof (induction cs arbitrary: vm found)
  case (Cons c cs)
  show ?case
  proof (cases "matchesName n c")
    case True
    obtain v ret where v: "setting_to_disk e vm f (vcudaConfig e u n hl l c) = (v, ret)" by fastforce
    then have "same_servers vm v" by (rule setting_to_disk_frame)
    moreover have "same_servers v vm'"
      using Cons.prems True v Cons.IH [of v True] by (auto split: if_splits)
    ultimately show ?thesis by (rule same_servers_trans)
  next
    case False
    with Cons show ?thesis by simp
  qed
qed simp

lemma writeConfigFile_frame [vm_frame]: "writeConfigFile e vm f u n = Inr (vm', r) \<Longrightarrow> same_servers vm vm'"
  by (auto simp: writeConfigFile_def split: stat_result.splits option.splits prod.splits
      intro: same_servers_trans [OF vtick_frame writeConfigs_frame])

lemma writeFiles_frame [vm_frame]: "writeFiles e vm pf cf u c n = Inr (vm', r) \<Longrightarrow> same_servers vm vm'"
  by (auto simp: writeFiles_def split: sum.splits prod.splits option.splits
      intro: same_servers_trans writePidFile_frame writeConfigFile_frame)

lemma registerById_frame [vm_frame]:
  "registerVDeviceWithContainerId e vm u c = Inr (vm', r) \<Longrightarrow> same_servers vm vm'"
  unfolding registerVDeviceWithContainerId_def Let_def
  by (auto split: sum.splits option.splits if_splits prod.splits
      dest!: ensureDir_frame writeFiles_frame simp: same_servers_def)

lemma findContainerID_frame: "same_servers (fst s) (fst (fst (findContainerID e u n s)))"
  by (auto simp: findContainerID_def Let_def split: prod.splits option.splits)

lemma registerByName_frame [vm_frame]:
  assumes "registerVDeviceWithContainerName e vm u n = Inr (vm', r)"
  shows "same_servers vm vm'"
proof -
  have poll: "same_servers v v'" if "poll k (findContainerID e u n) (v, c) = ((v', c'), x)" for k v c v' c' x
    using poll_invariant [OF that, of "\<lambda>s. same_servers v (fst s)"] findContainerID_frame same_servers_trans
    by (metis fst_conv same_servers_refl)
  show ?thesis
    using assms unfolding registerVDeviceWithContainerName_def Let_def
    by (auto split: sum.splits option.splits if_splits prod.splits
        dest!: ensureDir_frame poll writeFiles_frame simp: same_servers_def)
qed

lemma RegisterVDevice_frame [vm_frame]: "RegisterVDevice e vm req = Inr (vm', r) \<Longrightarrow> same_servers vm vm'"
  by (auto simp: RegisterVDevice_def intro: registerById_frame registerByName_frame split: if_splits)

lemma runVDeviceServer_frame:
  assumes "runVDeviceServer e vm d = (vm', r)"
  shows "same_servers vm vm'" "r = Some s \<Longrightarrow> s = vmNext vm \<and> vmNext vm' = Suc s"
  using assms by (auto simp: runVDeviceServer_def same_servers_def Let_def split: if_splits)

lemma snd_update_subset: "set (map snd (AList.update k v m)) \<subseteq> insert v (set (map snd m))"
  by (induction m) auto

lemma distinct_snd_update:
  "distinct (map snd m) \<Longrightarrow> v \<notin> set (map snd m) \<Longrightarrow> distinct (map snd (AList.update k v m))"
proof (induction m)
  case (Cons p m)
  then show ?case using snd_update_subset [of k v m] by (cases p) auto
qed simp

lemma addServer_ok:
  assumes "servers_ok vm" "runVDeviceServer e vm d = (vm', Some s)"
  shows "servers_ok (addServer vm' dir s)"
proof -
  note f = runVDeviceServer_frame [OF assms(2)]
  have old: "\<And>x. x \<in> set (map snd (vmServers vm)) \<union> set (vmStopped vm) \<Longrightarrow> x < s"
    using assms(1) f(2) unfolding servers_ok_def by blast
  then have new: "s \<notin> set (map snd (vmServers vm)) \<union> set (vmStopped vm)" by blast
  define S where "S = set (map snd (AList.update dir s (vmServers vm)))"
  have S: "S \<subseteq> insert s (set (map snd (vmServers vm)))" unfolding S_def by (rule snd_update_subset)
  have dis: "set (map snd (vmServers vm)) \<inter> set (vmStopped vm) = {}" "gomap_ok (vmServers vm)"
    "distinct (map snd (vmServers vm))"
    using assms(1) unfolding servers_ok_def by blast+
  have vm': "vmServers vm' = vmServers vm" "vmStopped vm' = vmStopped vm" "vmNext vm' = Suc s"
    using f unfolding same_servers_def by auto
  have "\<forall>x \<in> S \<union> set (vmStopped vm). x < Suc s" using S old by (fastforce simp: less_Suc_eq)
  moreover have "S \<inter> set (vmStopped vm) = {}" using S dis new by blast
  moreover have "distinct (map snd (AList.update dir s (vmServers vm)))"
    using dis(3) new by (intro distinct_snd_update) auto
  ultimately show ?thesis
    using dis(2) unfolding servers_ok_def addServer_def S_def by (simp add: vm')
qed

lemma vcudaConfigFunc_ok: "vcudaConfigFunc e vm u = (vm', r) \<Longrightarrow> servers_ok vm \<Longrightarrow> servers_ok vm'"
  by (auto simp: vcudaConfigFunc_def Let_def split: prod.splits option.splits
      intro: same_servers_ok ensureDir_frame addServer_ok runVDeviceServer_frame(1))

lemma process_ok: "servers_ok vm \<Longrightarrow> servers_ok (fst (process e vm evts))"
proof (induction evts arbitrary: vm)
  case (Cons evt evts)
  then show ?case
    by (auto split: prod.splits) (metis fst_conv vcudaConfigFunc_ok)
qed simp

lemma recoverServer_ok: "recoverServer e vm d = Inr vm' \<Longrightarrow> servers_ok vm \<Longrightarrow> servers_ok vm'"
  by (auto simp: recoverServer_def split: prod.splits option.splits intro: addServer_ok)

lemma recoverDir_ok: "recoverDir e vm resp = Inr vm' \<Longrightarrow> servers_ok vm \<Longrightarrow> servers_ok vm'"
  by (auto simp: recoverDir_def Let_def split: if_splits sum.splits intro: recoverServer_ok)

lemma recoverDirs_ok: "recoverDirs e vm resps = Inr vm' \<Longrightarrow> servers_ok vm \<Longrightarrow> servers_ok vm'"
proof (induction resps arbitrary: vm)
  case (Cons resp resps)
  then show ?case by (auto split: sum.splits dest: recoverDir_ok)
qed simp

lemma runVM_ok: "runVM e vm = Inr vm' \<Longrightarrow> servers_ok vm \<Longrightarrow> servers_ok vm'"
  by (auto simp: runVM_def vDeviceWatcher_def split: if_splits prod.splits option.splits
      intro: recoverDirs_ok same_servers_ok [OF vtick_frame] same_servers_ok [OF osMkdirAll_frame])

section \<open>Closing orphans\<close>

lemma closeOrphan_servers:
  "vmServers (closeOrphan e vm p) = (if osStat e vm (fst p) = Missing then AList.delete (fst p) (vmServers vm) else vmServers vm)"
  "vmFiles (closeOrphan e vm p) = vmFiles vm" "vmTick (closeOrphan e vm p) = vmTick vm"
  "vmNext (closeOrphan e vm p) = vmNext vm"
  by (simp_all add: closeOrphan_def)

lemma osStat_cong: "vmFiles vm = vmFiles vm' \<Longrightarrow> vmTick vm = vmTick vm' \<Longrightarrow> osStat e vm p = osStat e vm' p"
  by (simp add: osStat_def split: option.split)

text \<open>One sweep over entries of the map.\<close>

lemma closeOrphan_fold:
  "vmServers (foldl (closeOrphan e) vm ps)
     = filter (\<lambda>(d, s). \<not> (d \<in> fst ` set ps \<and> osStat e vm d = Missing)) (vmServers vm)
   \<and> set (vmStopped (foldl (closeOrphan e) vm ps))
     = set (vmStopped vm) \<union> {s. \<exists>d. (d, s) \<in> set ps \<and> osStat e vm d = Missing}
   \<and> vmNext (foldl (closeOrphan e) vm ps) = vmNext vm"
proof (induction ps arbitrary: vm)
  case (Cons p ps)
  have same: "osStat e (closeOrphan e vm p) d = osStat e vm d" for d
    by (rule osStat_cong) (simp_all add: closeOrphan_servers)
  obtain d0 s0 where p: "p = (d0, s0)" by fastforce
  define v where "v = closeOrphan e vm p"
  have v: "vmServers v = (if osStat e vm d0 = Missing then filter (\<lambda>(d, s). d0 \<noteq> d) (vmServers vm) else vmServers vm)"
    "set (vmStopped v) = (if osStat e vm d0 = Missing then insert s0 (set (vmStopped vm)) else set (vmStopped vm))"
    "vmNext v = vmNext vm"
    by (auto simp: v_def p closeOrphan_def AList.delete_eq)
  note ih = Cons.IH [of v, unfolded v_def same, folded v_def]
  have fold: "foldl (closeOrphan e) vm (p # ps) = foldl (closeOrphan e) v ps" by (simp add: v_def)
  show ?case
    unfolding fold ih [THEN conjunct1] ih [THEN conjunct2, THEN conjunct1] ih [THEN conjunct2, THEN conjunct2] v
    unfolding p by (intro conjI) (auto intro!: filter_cong)
qed simp

lemma closeOrphans_eq:
  assumes "range_order (vOrd e)" "gomap_ok (vmServers vm)"
  shows "vmServers (closeOrphans e vm) = filter (\<lambda>(d, s). osStat e vm d \<noteq> Missing) (vmServers vm)"
    "set (vmStopped (closeOrphans e vm)) = set (vmStopped vm) \<union> {s. \<exists>d. (d, s) \<in> set (vmServers vm) \<and> osStat e vm d = Missing}"
    "vmNext (closeOrphans e vm) = vmNext vm"
proof -
  have g: "set (gorange (vOrd e) (vmServers vm)) = set (vmServers vm)"
    using assms by (metis set_gorange)
  then have "fst ` set (gorange (vOrd e) (vmServers vm)) = fst ` set (vmServers vm)" by simp
  then show "vmServers (closeOrphans e vm) = filter (\<lambda>(d, s). osStat e vm d \<noteq> Missing) (vmServers vm)"
    using closeOrphan_fold [of e vm "gorange (vOrd e) (vmServers vm)"]
    by (simp add: closeOrphans_def) (rule filter_cong, simp, force)
  show "set (vmStopped (closeOrphans e vm)) = set (vmStopped vm) \<union> {s. \<exists>d. (d, s) \<in> set (vmServers vm) \<and> osStat e vm d = Missing}"
    "vmNext (closeOrphans e vm) = vmNext vm"
    using closeOrphan_fold [of e vm "gorange (vOrd e) (vmServers vm)"] g by (auto simp: closeOrphans_def)
qed

lemma closeOrphans_ok:
  assumes "range_order (vOrd e)" "servers_ok vm"
  shows "servers_ok (closeOrphans e vm)"
proof -
  have gm: "gomap_ok (vmServers vm)" and d: "distinct (map snd (vmServers vm))" using assms(2) by (auto simp: servers_ok_def)
  note eq = closeOrphans_eq [OF assms(1) gm]
  have inj: "s = s' \<Longrightarrow> d = d'" if "(d, s) \<in> set (vmServers vm)" "(d', s') \<in> set (vmServers vm)" for d d' s s'
    using that d by (metis distinct_map inj_onD prod.inject snd_conv)
  show ?thesis
    unfolding servers_ok_def eq
  proof (intro conjI)
    show "gomap_ok (filter (\<lambda>(d, s). osStat e vm d \<noteq> Missing) (vmServers vm))"
      using gm unfolding gomap_ok_def by (rule distinct_map_filter)
    show "distinct (map snd (filter (\<lambda>(d, s). osStat e vm d \<noteq> Missing) (vmServers vm)))"
      using d by (rule distinct_map_filter)
    show "\<forall>s \<in> set (map snd (filter (\<lambda>(d, s). osStat e vm d \<noteq> Missing) (vmServers vm))) \<union>
        (set (vmStopped vm) \<union> {s. \<exists>d. (d, s) \<in> set (vmServers vm) \<and> osStat e vm d = Missing}). s < vmNext vm"
      using assms(2) unfolding servers_ok_def by force
    show "set (map snd (filter (\<lambda>(d, s). osStat e vm d \<noteq> Missing) (vmServers vm))) \<inter>
        (set (vmStopped vm) \<union> {s. \<exists>d. (d, s) \<in> set (vmServers vm) \<and> osStat e vm d = Missing}) = {}"
    proof -
      have "set (map snd (vmServers vm)) \<inter> set (vmStopped vm) = {}" using assms(2) unfolding servers_ok_def by blast
      then have "s \<notin> set (vmStopped vm)" if "(d, s) \<in> set (vmServers vm)" for d s using that by force
      then show ?thesis using inj by fastforce
    qed
  qed
qed

section \<open>The running service\<close>

text \<open>
  The steps of the service after \<^verbatim>\<open>Run\<close>: a request of the allocator, a registration, a sweep of the
  watcher, a round of the garbage collector; and between them the allocator changes the responses and
  anyone changes the files.
\<close>

inductive vm_step :: "vm_env \<Rightarrow> VirtualManager \<Rightarrow> VirtualManager \<Rightarrow> bool" for e where
  request: "process e vm [evt] = (vm', answers) \<Longrightarrow> vm_step e vm vm'"
| register: "RegisterVDevice e vm req = Inr (vm', r) \<Longrightarrow> vm_step e vm vm'"
| sweep: "vm_step e vm (closeOrphans e vm)"
| collect: "vm_step e vm (garbageCollector e vm)"
| responses: "vm_step e vm (vm\<lparr>vmResp := d\<rparr>)"
| files: "vm_step e vm (vm\<lparr>vmFiles := fs\<rparr>)"

inductive vm_reach :: "vm_env \<Rightarrow> VirtualManager \<Rightarrow> bool" for e where
  start: "runVM e (NewVirtualManager d fs) = Inr vm \<Longrightarrow> vm_reach e vm"
| step: "vm_reach e vm \<Longrightarrow> vm_step e vm vm' \<Longrightarrow> vm_reach e vm'"

lemma vm_step_ok:
  assumes "range_order (vOrd e)"
  shows "vm_step e vm vm' \<Longrightarrow> servers_ok vm \<Longrightarrow> servers_ok vm'"
proof (induction rule: vm_step.induct)
  case (request vm evt vm' answers)
  then show ?case using process_ok [of vm e "[evt]"] by simp
next
  case (register vm req vm' r)
  then show ?case using same_servers_ok RegisterVDevice_frame by blast
next
  case (sweep vm)
  with assms show ?case by (rule closeOrphans_ok)
next
  case (collect vm)
  then show ?case using same_servers_ok garbageCollector_frame by blast
qed (auto simp: servers_ok_def)

lemma vm_reach_ok:
  assumes "range_order (vOrd e)"
  shows "vm_reach e vm \<Longrightarrow> servers_ok vm"
proof (induction rule: vm_reach.induct)
  case (start d fs vm)
  then show ?case by (rule runVM_ok) (simp add: NewVirtualManager_def servers_ok_def)
next
  case (step vm vm')
  then show ?case using vm_step_ok [OF assms] by blast
qed

end
