(* ===== verification/Virtual_Files.thy ===== *)
theory Virtual_Files
  imports Virtual_Laws Store_Theorems
begin

text \<open>
  The files of the virtual manager: the directories below its path, what the garbage collector removes,
  and what a registration writes.
\<close>

section \<open>The responses a walk over all pods sees\<close>

lemma ListAll_ok: "gomap_ok (ListAll ord d) \<and> list_all (\<lambda>(u, m). gomap_ok m) (ListAll ord d)"
proof -
  have inner: "gomap_ok (foldl (\<lambda>p (nm, r). AList.update nm r p) acc xs)" if "gomap_ok acc" for acc :: containerResponseDataMapping and xs
    using that by (induction xs arbitrary: acc) auto
  have "gomap_ok s \<and> list_all (\<lambda>(u, m). gomap_ok m) s \<Longrightarrow>
      gomap_ok (foldl (\<lambda>snapshot (uid, cm).
        let podData = (case map_of snapshot uid of None \<Rightarrow> [] | Some p \<Rightarrow> p)
        in AList.update uid (foldl (\<lambda>p (nm, r). AList.update nm r p) podData (gorange ord cm)) snapshot) s xs)
      \<and> list_all (\<lambda>(u, m). gomap_ok m) (foldl (\<lambda>snapshot (uid, cm).
        let podData = (case map_of snapshot uid of None \<Rightarrow> [] | Some p \<Rightarrow> p)
        in AList.update uid (foldl (\<lambda>p (nm, r). AList.update nm r p) podData (gorange ord cm)) snapshot) s xs)"
    for s :: respData and xs
  proof (induction xs arbitrary: s)
    case (Cons x xs)
    obtain uid cm where x: "x = (uid, cm)" by fastforce
    define pd where "pd = (case map_of s uid of None \<Rightarrow> [] | Some p \<Rightarrow> p)"
    define s' where "s' = AList.update uid (foldl (\<lambda>p (nm, r). AList.update nm r p) pd (gorange ord cm)) s"
    have "gomap_ok pd" using Cons.prems by (auto simp: pd_def list_all_iff split: option.split dest: map_of_SomeD)
    then have "gomap_ok (foldl (\<lambda>p (nm, r). AList.update nm r p) pd (gorange ord cm))" by (rule inner)
    then have "gomap_ok s' \<and> list_all (\<lambda>(u, m). gomap_ok m) s'"
      using Cons.prems set_update_subset [of uid _ s] unfolding s'_def list_all_iff by fastforce
    from Cons.IH [OF this] show ?case by (simp add: x s'_def pd_def Let_def)
  qed simp
  then show ?thesis unfolding ListAll_def by simp
qed

lemma podResponses_iff:
  assumes "range_order (vOrd e)" "resp_ok (vmResp vm)"
  shows "r \<in> set (podResponses e vm P) \<longleftrightarrow> (\<exists>uid nm. P uid \<and> GetResp (vmResp vm) uid nm = Some r)"
proof -
  let ?l = "ListAll (vOrd e) (vmResp vm)"
  have l: "gomap_ok ?l" "\<And>u m. (u, m) \<in> set ?l \<Longrightarrow> gomap_ok m"
    using ListAll_ok [of "vOrd e" "vmResp vm"] by (auto simp: list_all_iff)
  have "r \<in> set (podResponses e vm P) \<longleftrightarrow> (\<exists>uid m. (uid, m) \<in> set ?l \<and> P uid \<and> r \<in> snd ` set (gorange (vOrd e) m))"
    by (auto simp: podResponses_def set_gorange [OF assms(1) l(1)] split: if_splits)
  also have "\<dots> \<longleftrightarrow> (\<exists>uid m. map_of ?l uid = Some m \<and> P uid \<and> r \<in> snd ` set m)"
    using l set_gorange [OF assms(1)] by (metis gomap_ok_def map_of_SomeD map_of_is_SomeI)
  also have "\<dots> \<longleftrightarrow> (\<exists>uid nm. P uid \<and> GetResp ?l uid nm = Some r)"
  proof -
    have "r \<in> snd ` set m \<longleftrightarrow> (\<exists>nm. map_of m nm = Some r)" if "map_of ?l uid = Some m" for uid m
      using l(2) [OF map_of_SomeD [OF that]] by (force simp: gomap_ok_def dest: map_of_SomeD)
    moreover have "GetResp ?l uid nm = Some r \<longleftrightarrow> (\<exists>m. map_of ?l uid = Some m \<and> map_of m nm = Some r)" for uid nm
      by (simp add: GetResp_def split: option.split)
    ultimately show ?thesis by (simp cong: conj_cong) blast
  qed
  finally show ?thesis by (simp add: ListAll_get [OF assms(2,1)])
qed

section \<open>Garbage\<close>

lemma removeAll_files:
  "map_of (vmFiles (osRemoveAll e vm dir)) p
     = (if belowDir dir p \<and> vRemoves e (vmTick vm) p then None else map_of (vmFiles vm) p)"
proof -
  have "map_of (filter (\<lambda>(q, _). \<not> (belowDir dir q \<and> R q)) fs) p = (if belowDir dir p \<and> R p then None else map_of fs p)"
    for R and fs :: "(string, vfile) gomap"
    by (induction fs) auto
  then show ?thesis by (simp add: osRemoveAll_def)
qed

lemma removeAll_fold:
  fixes vm :: VirtualManager
  shows "(\<forall>d \<in> set ds. \<not> belowDir (pathClean d) p) \<Longrightarrow>
     map_of (vmFiles (foldl (\<lambda>vm dir. osRemoveAll e vm (pathClean dir)) vm ds)) p = map_of (vmFiles vm) p"
    "(\<exists>d \<in> set ds. belowDir (pathClean d) p) \<Longrightarrow> (\<And>t. vRemoves e t p) \<Longrightarrow>
     map_of (vmFiles (foldl (\<lambda>vm dir. osRemoveAll e vm (pathClean dir)) vm ds)) p = None"
proof -
  show "(\<forall>d \<in> set ds. \<not> belowDir (pathClean d) p) \<Longrightarrow>
     map_of (vmFiles (foldl (\<lambda>vm dir. osRemoveAll e vm (pathClean dir)) vm ds)) p = map_of (vmFiles vm) p"
    by (induction ds arbitrary: vm) (auto simp: removeAll_files)
  have none: "map_of (vmFiles vm) p = None \<Longrightarrow>
      map_of (vmFiles (foldl (\<lambda>vm dir. osRemoveAll e vm (pathClean dir)) vm ds)) p = None" for ds and vm :: VirtualManager
    by (induction ds arbitrary: vm) (auto simp: removeAll_files)
  show "(\<exists>d \<in> set ds. belowDir (pathClean d) p) \<Longrightarrow> (\<And>t. vRemoves e t p) \<Longrightarrow>
     map_of (vmFiles (foldl (\<lambda>vm dir. osRemoveAll e vm (pathClean dir)) vm ds)) p = None"
  proof (induction ds arbitrary: vm)
    case (Cons d ds)
    then show ?case using none by (auto simp: removeAll_files)
  qed simp
qed

section \<open>Registration\<close>

text \<open>The directory of a container below an absolute, clean directory.\<close>

abbreviation absPath :: "string list \<Rightarrow> string" where
  "absPath segs \<equiv> CHR ''/'' # joinStr segs ''/''"

lemma pathJoinAll_abs:
  assumes "list_all properSeg segs" "segs \<noteq> []" "list_all properSeg xs"
  shows "pathJoinAll (absPath segs # xs) = absPath (segs @ xs)"
proof -
  have "joinStr (absPath segs # xs) ''/'' = absPath (segs @ xs)"
    using assms(2) by (cases "xs = []") (simp_all add: joinStr_Cons joinStr_append)
  moreover have proper: "list_all properSeg (segs @ xs)" using assms by simp
  moreover have "filter (\<lambda>s. s \<noteq> []) (segs @ xs) = segs @ xs"
    using proper by (intro filter_True) (auto simp: list_all_iff properSeg_def)
  ultimately show ?thesis
    using pathClean_rooted [of "segs @ xs"] properSeg_noslash [OF proper] assms(2) by (simp add: pathJoinAll_def)
qed

lemma pathDir_abs:
  assumes "list_all properSeg segs" "segs \<noteq> []" "properSeg x"
  shows "pathDir (absPath (segs @ [x])) = absPath segs"
proof -
  have x: "CHR ''/'' \<notin> set x" using assms(3) by (simp add: properSeg_def)
  have eq: "absPath (segs @ [x]) = (CHR ''/'' # joinStr segs ''/'') @ CHR ''/'' # x"
    using assms(2) by (simp add: joinStr_append)
  then have "lastIndexChar (absPath (segs @ [x])) (CHR ''/'') = Some (length (absPath segs))"
    using lastIndexChar_append [OF x, of "absPath segs"] by simp
  moreover have "take (Suc (length (absPath segs))) (absPath (segs @ [x])) = absPath (segs @ [[]])"
    using assms(2) by (simp add: joinStr_append)
  moreover have "pathClean (absPath (segs @ [[]])) = absPath segs"
  proof -
    have f: "filter (\<lambda>s. s \<noteq> []) (segs @ [[]]) = segs"
      using assms(1) by (simp, intro filter_True) (auto simp: list_all_iff properSeg_def)
    show ?thesis
      using pathClean_rooted [of "segs @ [[]]"] f assms(1) properSeg_noslash [OF assms(1)] by simp
  qed
  ultimately show ?thesis by (simp add: pathDir_def)
qed

lemma length_joinStr_take: "length (joinStr (take n xs) sep) \<le> length (joinStr xs sep)"
proof (induction xs arbitrary: n)
  case (Cons x xs)
  show ?case
  proof (cases n)
    case (Suc k)
    then show ?thesis
      using Cons.IH [of k] by (cases "xs = []"; cases "take k xs = []") (auto simp: joinStr_Cons)
  qed simp
qed simp

lemma pathPrefixes_length: "p \<in> set (pathPrefixes q) \<Longrightarrow> length p \<le> length q"
  using length_joinStr_take [of _ "splitStr q ''/''" "''/''"]
  by (auto simp: pathPrefixes_def Let_def joinStr_splitStr)

lemma mkDirs_file: "p \<notin> set ps \<Longrightarrow> map_of (foldl mkDir fs ps) p = map_of fs p"
  by (induction ps arbitrary: fs) (auto simp: mkDir_def go_map)

lemma ensureDir_file:
  assumes "ensureDir e vm d = (vm', r)" "length d < length p"
  shows "map_of (vmFiles vm') p = map_of (vmFiles vm) p" "vmTick vm' = Suc (vmTick vm)" "vmResp vm' = vmResp vm"
proof -
  have "p \<notin> set (pathPrefixes d)" using pathPrefixes_length [of p d] assms(2) by auto
  then show "map_of (vmFiles vm') p = map_of (vmFiles vm) p" "vmTick vm' = Suc (vmTick vm)" "vmResp vm' = vmResp vm"
    using assms(1) by (auto simp: ensureDir_def osMkdirAll_def mkDirs_file split: option.splits)
qed

lemma writePidFile_ok:
  assumes "writePidFile e vm f cid = Inr (vm', None)"
  obtains pids where "GetPidsInContainerById (vRuntime e (vmTick vm)) (vRuntimeManager e) cid = Inr (pids, None)"
    "pids \<noteq> []" "vmFiles vm' = AList.update f (Pids (map i32 pids)) (vmFiles vm)" "vmTick vm' = Suc (vmTick vm)"
  using assms that
  by (auto simp: writePidFile_def pids_to_disk_def Let_def split: sum.splits prod.splits option.splits if_splits)

text \<open>A successful walk over the containers: the last container that matches the name decides.\<close>

lemma writeConfigs_ok:
  assumes "writeConfigs e vm f u n hl l found cs = Inr (vm', None)"
  shows "(filter (matchesName n) cs = [] \<longrightarrow> found \<and> vmFiles vm' = vmFiles vm)
    \<and> (filter (matchesName n) cs \<noteq> [] \<longrightarrow> stringsFit u n
        \<and> map_of (vmFiles vm') f = Some (VConfig (vcudaConfig e u n hl l (last (filter (matchesName n) cs)))))
    \<and> (\<forall>p. p \<noteq> f \<longrightarrow> map_of (vmFiles vm') p = map_of (vmFiles vm) p)"
  using assms
proof (induction cs arbitrary: vm found)
  case (Cons c cs)
  show ?case
  proof (cases "matchesName n c")
    case True
    obtain v where v: "setting_to_disk e vm f (vcudaConfig e u n hl l c) = (v, 0)" "stringsFit u n"
      "writeConfigs e v f u n hl l True cs = Inr (vm', None)"
      using Cons.prems True by (auto split: if_splits prod.splits)
    then have "vmFiles v = AList.update f (VConfig (vcudaConfig e u n hl l c)) (vmFiles vm)"
      by (auto simp: setting_to_disk_def Let_def split: if_splits)
    with Cons.IH [OF v(3)] v(2) True show ?thesis by (auto simp: go_map)
  next
    case False
    then have "writeConfigs e vm f u n hl l found cs = Inr (vm', None)" using Cons.prems by simp
    from Cons.IH [OF this] False show ?thesis by simp
  qed
qed (simp split: if_splits)

lemma writeConfigFile_ok:
  assumes "writeConfigFile e vm f u n = Inr (vm', None)"
  shows "(\<forall>p. p \<noteq> f \<longrightarrow> map_of (vmFiles vm') p = map_of (vmFiles vm) p)
    \<and> (\<forall>x. map_of (vmFiles vm) f = Some x \<longrightarrow> map_of (vmFiles vm') f = Some x)
    \<and> (map_of (vmFiles vm) f = None \<longrightarrow> (\<exists>pod hl l. map_of (GetActivePods (vStore e (vmTick vm))) u = Some pod
        \<and> coreLimit pod = Some (hl, l) \<and> filter (matchesName n) (pContainers pod) \<noteq> []
        \<and> map_of (vmFiles vm') f = Some (VConfig (vcudaConfig e u n hl l (last (filter (matchesName n) (pContainers pod)))))))"
proof (cases "map_of (vmFiles vm) f")
  case (Some x)
  with assms show ?thesis
    by (auto simp: writeConfigFile_def osStat_def split: option.splits)
next
  case None
  then have "osStat e vm f = Missing"
    using assms by (auto simp: writeConfigFile_def osStat_def split: option.splits)
  then obtain pod hl l where "map_of (GetActivePods (vStore e (vmTick vm))) u = Some pod" "coreLimit pod = Some (hl, l)"
    "writeConfigs e (vtick vm) f u n hl l False (pContainers pod) = Inr (vm', None)"
    using assms by (auto simp: writeConfigFile_def split: option.splits)
  then show ?thesis using writeConfigs_ok [of e "vtick vm" f u n hl l False "pContainers pod" vm'] None by auto
qed

end
