(* ===== verification/Client_Theorems.thy ===== *)
theory Client_Theorems
  imports Client
begin

text \<open>
  The client and the manager agree: the identity the client reads off its cgroup is that of the
  container whose processes the manager finds in the directory it computes.
\<close>

section \<open>Paths of a container\<close>

text \<open>A path below the memory hierarchy from which the client extracts a pod and a container.\<close>

definition leadsTo :: "string list \<Rightarrow> string \<Rightarrow> string \<Rightarrow> bool" where
  "leadsTo segs uid cid \<longleftrightarrow> list_all properSeg segs \<and> segs \<noteq> []
     \<and> (\<forall>n. extractIds (natStr n @ '':memory:/'' @ joinStr segs ''/'') = (uid, cid))"

definition parents :: "CgroupName list" where
  "parents = [[''kubepods''], [''kubepods'', ''burstable''], [''kubepods'', ''besteffort'']]"

lemma qosParent_known:
  assumes "q \<in> {PodQOSGuaranteed, PodQOSBurstable, PodQOSBestEffort}"
  obtains b where "qosParent q = Inr b" "b \<in> set parents"
proof -
  have "qosParent PodQOSGuaranteed = Inr [''kubepods'']"
    "qosParent PodQOSBurstable = Inr [''kubepods'', ''burstable'']"
    "qosParent PodQOSBestEffort = Inr [''kubepods'', ''besteffort'']" by code_simp+
  with assms show thesis by (auto simp: parents_def intro: that)
qed

definition podSlices :: "CgroupName \<Rightarrow> string \<Rightarrow> string list" where
  "podSlices b uid = sliceSegs (map escapeSystemdCgroupName (b @ [''pod'' @ uid]))"

lemma esc_simps [simp]:
  "escapeSystemdCgroupName ''kubepods'' = ''kubepods''"
  "escapeSystemdCgroupName ''burstable'' = ''burstable''"
  "escapeSystemdCgroupName ''besteffort'' = ''besteffort''"
  "escapeSystemdCgroupName (''pod'' @ u) = ''pod'' @ escapeSystemdCgroupName u"
  by (simp_all add: escapeSystemdCgroupName_def replaceChar_def)

lemma podSlices_eqs:
  "podSlices [''kubepods''] u = [''kubepods.slice'', ''kubepods-pod'' @ escapeSystemdCgroupName u @ ''.slice'']"
  "podSlices [''kubepods'', ''burstable''] u = [''kubepods.slice'', ''kubepods-burstable.slice'',
     ''kubepods-burstable-pod'' @ escapeSystemdCgroupName u @ ''.slice'']"
  "podSlices [''kubepods'', ''besteffort''] u = [''kubepods.slice'', ''kubepods-besteffort.slice'',
     ''kubepods-besteffort-pod'' @ escapeSystemdCgroupName u @ ''.slice'']"
  by (simp_all add: podSlices_def sliceSegs_def upt_rec esc_simps(4) [simplified] del: upt_Suc)

lemma escape_chars:
  assumes "uuidOk u"
  shows "CHR ''/'' \<notin> set (escapeSystemdCgroupName u)" "CHR '':'' \<notin> set (escapeSystemdCgroupName u)"
    "length (escapeSystemdCgroupName u) = 36"
  using uuidOk_chars [OF assms] assms set_replaceChar [of u "CHR ''-''" "CHR ''_''"]
  by (auto simp: escapeSystemdCgroupName_def uuidOk_def)

lemma podSlices_proper:
  "b \<in> set parents \<Longrightarrow> uuidOk u \<Longrightarrow> list_all properSeg (podSlices b u)"
  "b \<in> set parents \<Longrightarrow> uuidOk u \<Longrightarrow> \<forall>s \<in> set (podSlices b u). CHR '':'' \<notin> set s"
  using escape_chars [of u] by (auto simp: parents_def podSlices_eqs properSeg_def)

lemma podUidOf_slice:
  assumes "uuidOk u"
  shows "podUidOf True (''kubepods-pod'' @ escapeSystemdCgroupName u @ ''.slice'') v = u"
    "podUidOf True (''kubepods-burstable-pod'' @ escapeSystemdCgroupName u @ ''.slice'') v = u"
    "podUidOf True (''kubepods-besteffort-pod'' @ escapeSystemdCgroupName u @ ''.slice'') v = u"
  using escape_chars(3) [OF assms] escape_inverse [OF uuidOk_chars(3) [OF assms]]
  by (simp_all add: podUidOf_def hasPrefix_def UUIDLength_def)

lemma podUidOf_parent: "podUidOf True ''kubepods.slice'' v = v"
  "podUidOf True ''kubepods-burstable.slice'' v = v" "podUidOf True ''kubepods-besteffort.slice'' v = v"
  by (simp_all add: podUidOf_def hasPrefix_def)

lemma podSlices_uid:
  "b \<in> set parents \<Longrightarrow> uuidOk u \<Longrightarrow> foldl (\<lambda>v s. podUidOf True s v) [] (podSlices b u) = u"
  by (auto simp: parents_def podSlices_eqs podUidOf_slice [simplified] podUidOf_parent)

lemma no_colon_join:
  "\<forall>s \<in> set segs. CHR '':'' \<notin> set s \<Longrightarrow> replaceChar (joinStr segs ''/'') (CHR '':'') (CHR ''/'') = joinStr segs ''/''"
  using set_joinStr [of segs "''/''"] by (intro replaceChar_id) auto

text \<open>The container below the slices of its pod.\<close>

lemma leadsTo_below_slices:
  assumes b: "b \<in> set parents" "uuidOk u"
    and x: "properSeg x" "CHR '':'' \<notin> set x" "\<not> isSpace (last x)" "containerIdOf x = cid"
  shows "leadsTo (podSlices b u @ [x]) u cid"
proof -
  let ?segs = "podSlices b u @ [x]"
  have proper: "list_all properSeg ?segs" using podSlices_proper(1) [OF b] x(1) by simp
  have colon: "\<forall>s \<in> set ?segs. CHR '':'' \<notin> set s" using podSlices_proper(2) [OF b] x(2) by simp
  have "podSlices b u \<noteq> []" "hd (podSlices b u) = ''kubepods.slice''"
    using b by (auto simp: parents_def podSlices_eqs)
  then obtain ss where ss: "podSlices b u = ''kubepods.slice'' # ss" by (metis list.exhaust_sel)
  have sysd: "containsStr (natStr n @ '':memory:/'' @ joinStr ?segs ''/'') ''.slice''" for n
  proof -
    have "\<exists>r. joinStr ?segs ''/'' = ''kubepods.slice'' @ r" by (auto simp: ss joinStr_Cons)
    then obtain r where "joinStr ?segs ''/'' = ''kubepods.slice'' @ r" by blast
    then show ?thesis
      using containsStr_mid [of "natStr n @ '':memory:/kubepods''" "''.slice''" r] by simp
  qed
  have "extractIds (natStr n @ '':memory:/'' @ joinStr ?segs ''/'') = extractParts True ?segs []" for n
    using extract_line [of ?segs ?segs n] no_colon_join [OF colon] properSeg_noslash [OF proper] x sysd [of n]
    by (simp add: properSeg_def)
  then show ?thesis
    unfolding leadsTo_def using proper podSlices_uid [OF b] x(4) by (simp add: extractParts_snoc)
qed

lemma leadsTo_containerd:
  assumes b: "b \<in> set parents" "uuidOk u" "containerIdOk cid"
  shows "leadsTo [''system.slice'', ''containerd.service'',
     last (podSlices b u) @ '':cri-containerd:'' @ cid] u cid"
proof -
  define y where "y = last (podSlices b u)"
  have cid: "CHR ''/'' \<notin> set cid" "CHR '':'' \<notin> set cid" "cid \<noteq> []" "\<not> isSpace (last cid)"
    using containerIdOk_chars [OF b(3)] by auto
  have y: "y \<in> set (podSlices b u)" "podUidOf True y v = u" for v
    using b by (auto simp: y_def parents_def podSlices_eqs podUidOf_slice [simplified])
  then have yc: "CHR ''/'' \<notin> set y" "CHR '':'' \<notin> set y" "y \<noteq> []"
    using podSlices_proper [OF b(1,2)] by (auto simp: list_all_iff properSeg_def)
  let ?segs = "[''system.slice'', ''containerd.service'', y @ '':cri-containerd:'' @ cid]"
  let ?parts = "[''system.slice'', ''containerd.service'', y, ''cri-containerd'', cid]"
  have proper: "list_all properSeg ?segs"
    using yc cid by (auto simp: properSeg_def append_eq_Cons_conv)
  have rep: "replaceChar (joinStr ?segs ''/'') (CHR '':'') (CHR ''/'') = joinStr ?parts ''/''"
    using replaceChar_id [OF yc(2), of "CHR ''/''"] replaceChar_id [OF cid(2), of "CHR ''/''"]
    by (simp add: replaceChar_def)
  have sysd: "containsStr (natStr n @ '':memory:/'' @ joinStr ?segs ''/'') ''.slice''" for n
    using containsStr_mid [of "natStr n @ '':memory:/system''" "''.slice''"] by simp
  have line: "extractIds (natStr n @ '':memory:/'' @ joinStr ?segs ''/'') = extractParts True ?parts []" for n
    using extract_line [OF rep, of n] yc cid sysd [of n] by simp
  have "podUidOf True ''system.slice'' [] = []" "podUidOf True ''containerd.service'' [] = []"
    "podUidOf True ''cri-containerd'' u = u" by (simp_all add: podUidOf_def hasPrefix_def)
  then have "extractParts True ?parts [] = (u, cid)"
    by (simp add: y(2) containerIdOf_plain [OF b(3)])
  with line proper show ?thesis unfolding leadsTo_def y_def [symmetric] by simp
qed

lemma leadsTo_cgroupfs:
  assumes b: "b \<in> set parents" "uuidOk u" "containerIdOk cid"
  shows "leadsTo (b @ [''pod'' @ u, cid]) u cid"
proof -
  let ?segs = "b @ [''pod'' @ u, cid]"
  have cid: "CHR ''/'' \<notin> set cid" "CHR '':'' \<notin> set cid" "CHR ''.'' \<notin> set cid" "cid \<noteq> []" "\<not> isSpace (last cid)"
    using containerIdOk_chars [OF b(3)] by auto
  have u: "CHR ''/'' \<notin> set u" "CHR '':'' \<notin> set u" "CHR ''.'' \<notin> set u"
    using uuidOk_chars [OF b(2)] by auto
  have chars: "\<forall>s \<in> set ?segs. CHR '':'' \<notin> set s \<and> CHR ''.'' \<notin> set s \<and> CHR ''/'' \<notin> set s"
    using u cid b(1) by (auto simp: parents_def)
  have proper: "list_all properSeg ?segs"
    using chars cid b(1) by (auto simp: parents_def properSeg_def)
  have notsysd: "\<not> containsStr (natStr n @ '':memory:/'' @ joinStr ?segs ''/'') ''.slice''" for n
  proof -
    have "CHR ''.'' \<notin> set (natStr n @ '':memory:/'' @ joinStr ?segs ''/'')"
      using chars set_joinStr [of ?segs "''/''"] natStr_no [of "CHR ''.''" n] by (auto simp: isDigit_def)
    then show ?thesis by (simp add: containsStr_def indexOf_absent [where x = "CHR ''.''"])
  qed
  have "extractIds (natStr n @ '':memory:/'' @ joinStr ?segs ''/'') = extractParts False ?segs []" for n
    using extract_line [of ?segs ?segs n] no_colon_join [of ?segs] chars cid notsysd [of n] by simp
  moreover have "foldl (\<lambda>v s. podUidOf False s v) [] (b @ [''pod'' @ u]) = u"
    using b(1,2) by (auto simp: parents_def podUidOf_def hasPrefix_def UUIDLength_def uuidOk_def)
  ultimately show ?thesis
    unfolding leadsTo_def
    using proper extractParts_snoc [of False "b @ [''pod'' @ u]" cid "[]"] containerIdOf_plain [OF b(3)] by simp
qed


text \<open>Every path \<^verbatim>\<open>getCgroupName\<close> computes leads back to the pod and the container.\<close>

lemma ToSystemd_pod:
  assumes "expand_ok ex" "b \<in> set parents" "uuidOk u"
  shows "ToSystemd ex (b @ [''pod'' @ u]) = Inr (CHR ''/'' # joinStr (podSlices b u) ''/'')"
    "ToSystemd2 (b @ [''pod'' @ u]) = last (podSlices b u)"
proof -
  have "list_all slicePart (map escapeSystemdCgroupName (b @ [''pod'' @ u]))"
    using assms(2) uuidOk_chars [OF assms(3)]
    by (auto simp: parents_def list_all_iff intro!: escape_slicePart)
  then show "ToSystemd ex (b @ [''pod'' @ u]) = Inr (CHR ''/'' # joinStr (podSlices b u) ''/'')"
    using assms(1) unfolding expand_ok_def ToSystemd_def podSlices_def systemdSuffix_def
    by (simp del: map_append)
  show "ToSystemd2 (b @ [''pod'' @ u]) = last (podSlices b u)"
    using assms(2)
    by (auto simp: parents_def podSlices_eqs ToSystemd2_def systemdSuffix_def esc_simps(4) [simplified])
qed

lemma getCgroupName_leads:
  fixes m :: containerRuntimeManager
  assumes ex: "expand_ok (rExpandSlice re)"
    and qos: "(if pQOSClass pod = [] then rPodQOS re pod else pQOSClass pod)
                \<in> {PodQOSGuaranteed, PodQOSBurstable, PodQOSBestEffort}"
    and ids: "uuidOk (pUID pod)" "containerIdOk cid" "runtimeNameOk (runtimeName m)"
    and driver: "cgroupDriver m \<in> {''systemd'', ''cgroupfs''}"
  obtains s segs where "getCgroupName re m pod cid oldVersion = Inr (Inr s)"
    "s = joinStr segs ''/'' \<or> s = CHR ''/'' # joinStr segs ''/''" "leadsTo segs (pUID pod) cid"
proof -
  obtain b where b: "qosParent (if pQOSClass pod = [] then rPodQOS re pod else pQOSClass pod) = Inr b" "b \<in> set parents"
    using qosParent_known [OF qos] by blast
  define u where "u = pUID pod"
  have u: "uuidOk u" "CHR ''/'' \<notin> set u" "CHR ''_'' \<notin> set u" using ids(1) uuidOk_chars by (auto simp: u_def)
  define x where "x = SystemdPathPrefixOfRuntime (runtimeName m) @ ''-'' @ cid @ ''.scope''"
  have nm: "NewCgroupName b [PodCgroupNamePrefix @ u] = Inr (b @ [''pod'' @ u])"
    using u by (simp add: NewCgroupName_ok PodCgroupNamePrefix_def)
  have x: "leadsTo (podSlices b u @ [x]) u cid"
    using runtimeNameOk_chars [OF ids(3)] containerIdOk_chars [OF ids(2)]
    by (intro leadsTo_below_slices b(2) u(1) containerIdOf_scope [OF ids(2)] refl)
      (auto simp: x_def properSeg_def append_eq_Cons_conv isSpace_def containerIdOf_scope [OF ids(2), simplified])
  have plain: "leadsTo (podSlices b u @ [cid]) u cid"
    using containerIdOk_chars [OF ids(2)]
    by (intro leadsTo_below_slices b(2) u(1)) (auto simp: properSeg_def containerIdOf_plain [OF ids(2)])
  have ne: "podSlices b u \<noteq> []" using b(2) by (auto simp: parents_def podSlices_eqs)
  note sysd = ToSystemd_pod [OF ex b(2) u(1), simplified]
  have scope: "scopePath (rExpandSlice re) (runtimeName m) cid (b @ [''pod'' @ u])
      = Inr (CHR ''/'' # joinStr (podSlices b u @ [x]) ''/'')"
    using ne by (simp add: scopePath_def sysd x_def joinStr_append)
  show thesis
  proof (cases "cgroupDriver m = ''systemd''")
    case False
    have bp: "b \<noteq> []" "hd b \<noteq> []" "list_all properSeg (b @ [''pod'' @ u])"
      using b(2) u by (auto simp: parents_def properSeg_def)
    then have "ToCgroupfs (b @ [''pod'' @ u]) = CHR ''/'' # joinStr (b @ [''pod'' @ u]) ''/''"
      using pathClean_relative [OF bp(3)] by (cases b) (auto simp: ToCgroupfs_def pathJoinAll_def)
    then have "ToCgroupfs (b @ [''pod'' @ u]) @ ''/'' @ cid = CHR ''/'' # joinStr (b @ [''pod'' @ u, cid]) ''/''"
      using joinStr_append [of "b @ [''pod'' @ u]" "[cid]" "''/''"] by simp
    then have "getCgroupName re m pod cid oldVersion = Inr (Inr (CHR ''/'' # joinStr (b @ [''pod'' @ u, cid]) ''/''))"
      using False driver b(1) nm by (simp add: getCgroupName_def u_def)
    then show thesis
      using leadsTo_cgroupfs [OF b(2) u(1) ids(2)] by (intro that) (auto simp: u_def)
  next
    case True
    then have get: "getCgroupName re m pod cid oldVersion
        = map_sum id Inr (convertCgroupPathBySystemd (rExpandSlice re) (runtimeName m) cid (b @ [''pod'' @ u]) oldVersion)"
      using b(1) nm by (simp add: getCgroupName_def u_def)
    consider (containerd) "runtimeName m = ''containerd''" "\<not> oldVersion"
      | (docker) "runtimeName m = ''docker''" "\<not> oldVersion"
      | (scope) "convertCgroupPathBySystemd (rExpandSlice re) (runtimeName m) cid (b @ [''pod'' @ u]) oldVersion
           = scopePath (rExpandSlice re) (runtimeName m) cid (b @ [''pod'' @ u])"
      by (cases oldVersion; cases "runtimeName m = ''containerd''"; cases "runtimeName m = ''docker''";
        simp add: convertCgroupPathBySystemd_def)
    then show thesis
    proof cases
      case containerd
      have "getCgroupName re m pod cid oldVersion = Inr (Inr (joinStr [''system.slice'', ''containerd.service'',
          last (podSlices b u) @ '':cri-containerd:'' @ cid] ''/''))"
        unfolding get using containerd by (simp add: convertCgroupPathBySystemd_def SystemdPathPrefixOfRuntime_def sysd(2))
      then show thesis using leadsTo_containerd [OF b(2) u(1) ids(2)] by (intro that) (auto simp: u_def)
    next
      case docker
      have "getCgroupName re m pod cid oldVersion = Inr (Inr (CHR ''/'' # joinStr (podSlices b u @ [cid]) ''/''))"
        unfolding get using docker ne by (simp add: convertCgroupPathBySystemd_def sysd(1) joinStr_append)
      then show thesis using plain by (intro that) (auto simp: u_def)
    next
      case scope
      then have "getCgroupName re m pod cid oldVersion = Inr (Inr (CHR ''/'' # joinStr (podSlices b u @ [x]) ''/''))"
        unfolding get scope \<open>scopePath _ _ _ _ = _\<close> by simp
      then show thesis using x by (intro that) (auto simp: u_def)
    qed
  qed
qed

section \<open>The client and the manager agree\<close>

text \<open>Claim C29: for every cgroup driver, container runtime and quality of service class the manager
  supports, the directory in which the manager looks for the processes of a container lies below the
  memory hierarchy, and a client that finds the path of that directory in the memory line of its cgroup
  file asks, by container id, to be registered as exactly this pod and container, whatever name it was
  given. Expansion of slices is assumed to be as runc documents it.\<close>

theorem client_reports_its_container:
  fixes m :: containerRuntimeManager
  assumes "expand_ok (rExpandSlice re)"
    and "(if pQOSClass pod = [] then rPodQOS re pod else pQOSClass pod)
           \<in> {PodQOSGuaranteed, PodQOSBurstable, PodQOSBestEffort}"
    and "uuidOk (pUID pod)" "containerIdOk cid" "runtimeNameOk (runtimeName m)"
    and "cgroupDriver m \<in> {''systemd'', ''cgroupfs''}" "\<not> isCGroupV2 m"
    and "caAddr a \<noteq> []" "caCgroupPath a \<noteq> []" "caContID a = [] \<or> caContID a = cid"
    and "dial (caAddr a) = None" "\<And>rq. call rq = None"
  shows "\<exists>p. containerDir re m pod cid oldVersion = Inr (Inr (CGROUP_MEMORY @ p))
    \<and> (\<forall>n content. find (\<lambda>l. containsStr l ''memory'') (scanLines content) = Some (natStr n @ '':memory:'' @ p) \<longrightarrow>
        clientMain (\<lambda>f. Inr content) dial call a
          = Inr \<lparr>rqBusId = caBusID a, rqPodUid = pUID pod, rqContainerName = [], rqContainerId = cid\<rparr>)"
proof -
  obtain s segs where s: "getCgroupName re m pod cid oldVersion = Inr (Inr s)"
      "s = joinStr segs ''/'' \<or> s = CHR ''/'' # joinStr segs ''/''" "leadsTo segs (pUID pod) cid"
    using getCgroupName_leads [OF assms(1-6)] by blast
  then have segs: "list_all properSeg segs" "segs \<noteq> []"
    and ids: "extractIds (natStr n @ '':memory:/'' @ joinStr segs ''/'') = (pUID pod, cid)" for n
    by (auto simp: leadsTo_def)
  have "containerDir re m pod cid oldVersion = Inr (Inr (CGROUP_MEMORY @ ''/'' @ joinStr segs ''/''))"
    using memory_dir [OF segs s(2)] s(1) assms(7) by (simp add: containerDir_def)
  moreover have "clientMain (\<lambda>f. Inr content) dial call a
        = Inr \<lparr>rqBusId = caBusID a, rqPodUid = pUID pod, rqContainerName = [], rqContainerId = cid\<rparr>"
    if "find (\<lambda>l. containsStr l ''memory'') (scanLines content) = Some (natStr n @ '':memory:'' @ ''/'' @ joinStr segs ''/'')"
    for n content
  proof -
    have "pUID pod \<noteq> []" "cid \<noteq> []" using uuidOk_chars(5) [OF assms(3)] containerIdOk_chars(1) [OF assms(4)] .
    then have "clientIdentity (\<lambda>f. Inr content) a = Inr (a\<lparr>caPodUID := pUID pod, caContID := cid\<rparr>)"
      using that ids [of n] assms(8-10) by (simp add: clientIdentity_def readCgroupFileMemoryLine_def)
    with \<open>cid \<noteq> []\<close> assms(11,12) show ?thesis by (simp add: clientMain_def clientRequest_def)
  qed
  ultimately show ?thesis by blast
qed

definition clientPod :: Pod where
  "clientPod = \<lparr>pName = ''p'', pNamespace = ''d'', pUID = ''95831d1c-3379-4239-8731-5d2e0f96cfca'', pKind = [],
     pAnnotations = [], pLabels = [], pCreationNano = 0, pOwnerKinds = [], pNodeName = ''n'', pContainers = [],
     pPhase = ''Running'', pReason = [], pMessage = [], pStatuses = [], pDeleting = False, pQOSClass = ''BestEffort''\<rparr>"

definition clientRuntimeEnv :: runtime_env where
  "clientRuntimeEnv = \<lparr>rInspect = (\<lambda>i. Inl ''none''), rLister = (\<lambda>a b. Inr clientPod), rStat = (\<lambda>d. Present),
     rAllPids = (\<lambda>d. ([1], None)), rPodQOS = (\<lambda>p. PodQOSBestEffort), rExpandSlice = expandDashes\<rparr>"

theorem client_reports_its_container_witness:
  "\<exists>p. containerDir clientRuntimeEnv \<lparr>cgroupDriver = ''systemd'', runtimeName = ''containerd'', isCGroupV2 = False\<rparr>
        clientPod ''0adf2e3d'' False = Inr (Inr (CGROUP_MEMORY @ p))
    \<and> (\<forall>n content. find (\<lambda>l. containsStr l ''memory'') (scanLines content) = Some (natStr n @ '':memory:'' @ p) \<longrightarrow>
        clientMain (\<lambda>f. Inr content) (\<lambda>_. None) (\<lambda>_. None)
          \<lparr>caAddr = ''/etc/vcuda/vcuda.sock'', caBusID = ''0'', caPodUID = [], caContName = ''c'', caContID = [], caCgroupPath = ''/proc/self/cgroup''\<rparr>
          = Inr \<lparr>rqBusId = ''0'', rqPodUid = ''95831d1c-3379-4239-8731-5d2e0f96cfca'', rqContainerName = [],
                 rqContainerId = ''0adf2e3d''\<rparr>)"
proof -
  have "uuidOk (pUID clientPod)" "containerIdOk ''0adf2e3d''" "runtimeNameOk ''containerd''" by code_simp+
  then show ?thesis
    using client_reports_its_container [of clientRuntimeEnv clientPod "''0adf2e3d''"
        "\<lparr>cgroupDriver = ''systemd'', runtimeName = ''containerd'', isCGroupV2 = False\<rparr>"
        "\<lparr>caAddr = ''/etc/vcuda/vcuda.sock'', caBusID = ''0'', caPodUID = [], caContName = ''c'', caContID = [], caCgroupPath = ''/proc/self/cgroup''\<rparr>"
        "\<lambda>_. None" "\<lambda>_. None" False]
    by (simp add: clientRuntimeEnv_def clientPod_def expandDashes_ok PodQOSBestEffort_def)
qed

text \<open>Computing the cgroup of a container panics exactly when the pod's UID holds a slash or
  an underscore, reports an error for a driver that is neither systemd nor cgroupfs, and otherwise
  succeeds, provided the expansion of slices does.\<close>

lemma getCgroupName_errors:
  fixes m :: containerRuntimeManager
  assumes "\<And>s. \<exists>p. rExpandSlice re s = Inr p"
  shows "(getCgroupName re m pod cid oldVersion = Inl Panic \<longleftrightarrow> CHR ''/'' \<in> set (pUID pod) \<or> CHR ''_'' \<in> set (pUID pod))
    \<and> (CHR ''/'' \<notin> set (pUID pod) \<and> CHR ''_'' \<notin> set (pUID pod) \<longrightarrow>
        (if cgroupDriver m \<in> {''systemd'', ''cgroupfs''} then \<exists>p. getCgroupName re m pod cid oldVersion = Inr (Inr p)
         else getCgroupName re m pod cid oldVersion = Inr (Inl ''unsupported cgroup driver'')))"
proof -
  define q where "q = (if pQOSClass pod = [] then rPodQOS re pod else pQOSClass pod)"
  have "qosParent q = Inr [] \<or> q \<in> {PodQOSGuaranteed, PodQOSBurstable, PodQOSBestEffort}" by (simp add: qosParent_def)
  then obtain b where b: "qosParent q = Inr b" using qosParent_known [of q] by blast
  have nm: "NewCgroupName b [PodCgroupNamePrefix @ pUID pod]
      = (if CHR ''/'' \<in> set (pUID pod) \<or> CHR ''_'' \<in> set (pUID pod) then Inl Panic else Inr (b @ [PodCgroupNamePrefix @ pUID pod]))"
    by (simp add: NewCgroupName_def containsStr_char PodCgroupNamePrefix_def)
  obtain E where "rExpandSlice re s = Inr (E s)" for s using assms by metis
  then have "\<exists>p. ToSystemd (rExpandSlice re) c = Inr p" for c by (simp add: ToSystemd_def)
  then obtain S where S: "ToSystemd (rExpandSlice re) c = Inr (S c)" for c by metis
  have conv: "\<exists>p. convertCgroupPathBySystemd (rExpandSlice re) r i c old = Inr p" for r i c old
    by (simp add: convertCgroupPathBySystemd_def scopePath_def S)
  obtain p where p: "convertCgroupPathBySystemd (rExpandSlice re) (runtimeName m) cid (b @ [PodCgroupNamePrefix @ pUID pod]) oldVersion = Inr p"
    using conv by blast
  show ?thesis
    by (auto simp: getCgroupName_def q_def [symmetric] b nm p)
qed

end
