(* ===== verification/Virtual_Theorems.thy ===== *)
theory Virtual_Theorems
  imports Virtual_Files Client_Theorems Sample_Machine
begin

text \<open>
  The properties of the virtual manager: its servers, its garbage collector, the files a registration
  writes, and the directory it shares with the allocator.
\<close>

section \<open>Servers\<close>

definition quietVm :: vm_env where
  "quietVm = \<lparr>vPath = ''/vm'', vRuntimeManager = \<lparr>cgroupDriver = ''cgroupfs'', runtimeName = ''docker'', isCGroupV2 = False\<rparr>,
     vRuntime = (\<lambda>t. clientRuntimeEnv), vStore = (\<lambda>t. None), vMkdirErr = (\<lambda>t p. None), vStatErr = (\<lambda>t p. None),
     vUnlinkErr = (\<lambda>t p. None), vListenErr = (\<lambda>t p. None), vChmodErr = (\<lambda>t p. None), vServeErr = (\<lambda>t p. None),
     vRemoves = (\<lambda>t p. True), vOpens = (\<lambda>t p. True), vLocks = (\<lambda>t p. True), vWritesAll = (\<lambda>t p. True),
     vOrd = (\<lambda>ks. ks), vPolls = 60, vDriverMajor = 535, vDriverMinor = 54\<rparr>"

definition freshVm :: VirtualManager where
  "freshVm = NewVirtualManager [] []"

text \<open>Claim C33: in every state the service can reach, whatever the operating system answers and however
  requests, registrations, sweeps and garbage collections are interleaved with changes to the responses
  and the files, the map of servers gives every directory a server of its own, and none of the servers in
  it has been stopped.\<close>

theorem reachable_servers:
  assumes "range_order (vOrd e)" "vm_reach e vm"
  shows "gomap_ok (vmServers vm) \<and> distinct (map snd (vmServers vm))
    \<and> set (map snd (vmServers vm)) \<inter> set (vmStopped vm) = {} \<and> (\<forall>s \<in> set (map snd (vmServers vm)). s < vmNext vm)"
  using vm_reach_ok [OF assms] by (auto simp: servers_ok_def)

theorem reachable_servers_witness:
  "vm_reach quietVm (fst (process quietVm (vtick (vtick (freshVm\<lparr>vmFiles := [(''/vm'', Dir)]\<rparr>))) [\<lparr>vrPodUID = ''u'', vrAllocateResponse = None, vrContainerName = [], vrCores = 0, vrMemory = 0\<rparr>]))
   \<and> gomap_ok (vmServers (fst (process quietVm (vtick (vtick (freshVm\<lparr>vmFiles := [(''/vm'', Dir)]\<rparr>)))
       [\<lparr>vrPodUID = ''u'', vrAllocateResponse = None, vrContainerName = [], vrCores = 0, vrMemory = 0\<rparr>])))"
proof -
  let ?vm = "vtick (vtick (freshVm\<lparr>vmFiles := [(''/vm'', Dir)]\<rparr>))"
  let ?evt = "\<lparr>vrPodUID = ''u'', vrAllocateResponse = None, vrContainerName = [], vrCores = 0, vrMemory = 0\<rparr>"
  have "runVM quietVm (NewVirtualManager [] []) = Inr ?vm"
    unfolding freshVm_def by code_simp
  then have "vm_reach quietVm ?vm" by (rule vm_reach.start)
  then have r: "vm_reach quietVm (fst (process quietVm ?vm [?evt]))"
    by (rule vm_reach.step [OF _ vm_step.request [OF surjective_pairing]])
  moreover have "range_order (vOrd quietVm)" by (simp add: quietVm_def)
  ultimately show ?thesis using reachable_servers [of quietVm "fst (process quietVm ?vm [?evt])"] by blast
qed

text \<open>One sweep of the watcher stops exactly the servers whose directory does not exist any
  more and takes exactly their entries out of the map; a directory whose state cannot be determined
  keeps its server.\<close>

lemma sweep_closes_orphans:
  assumes "range_order (vOrd e)" "gomap_ok (vmServers vm)"
  shows "map_of (vmServers (closeOrphans e vm)) d
      = (if osStat e vm d = Missing then None else map_of (vmServers vm) d)
    \<and> (s \<in> set (vmStopped (closeOrphans e vm)) \<longleftrightarrow>
        s \<in> set (vmStopped vm) \<or> (\<exists>d. map_of (vmServers vm) d = Some s \<and> osStat e vm d = Missing))"
proof
  have "map_of (filter (\<lambda>(d, s). osStat e vm d \<noteq> Missing) m) d = (if osStat e vm d = Missing then None else map_of m d)"
    for m :: "(string, nat) gomap" by (induction m) auto
  then show "map_of (vmServers (closeOrphans e vm)) d = (if osStat e vm d = Missing then None else map_of (vmServers vm) d)"
    using closeOrphans_eq(1) [OF assms] by simp
  show "s \<in> set (vmStopped (closeOrphans e vm)) \<longleftrightarrow>
      s \<in> set (vmStopped vm) \<or> (\<exists>d. map_of (vmServers vm) d = Some s \<and> osStat e vm d = Missing)"
    using closeOrphans_eq(2) [OF assms] assms(2) by (simp add: gomap_ok_def)
qed

lemma recoverServer_Inr:
  assumes "recoverServer e vm d = Inr vm'"
  obtains v where "runVDeviceServer e vm d = (v, Some (vmNext vm))" "vm' = addServer v d (vmNext vm)"
proof -
  obtain v r where v: "runVDeviceServer e vm d = (v, r)" by fastforce
  with assms show thesis
    using runVDeviceServer_frame(2) [OF v] by (cases r) (auto simp: recoverServer_def intro: that)
qed

text \<open>Claim C39: recovering the directory of a running pod at start-up leaks a server. When the path of
  the socket is short enough, two servers are started and only the second is kept in the map: the first is
  neither in the map nor among the stopped ones, so no later sweep can stop it.\<close>

theorem recovery_leaks_server:
  assumes "servers_ok vm" "GetVirtualControllerMountPath resp = dir" "dir \<noteq> []" "osStat e vm dir = Present"
    and "length (socketOf dir) < 108" "recoverDir e vm resp = Inr vm'"
  shows "map_of (vmServers vm') dir = Some (vmNext vm + 1)
    \<and> vmNext vm \<notin> set (map snd (vmServers vm')) \<and> vmNext vm \<notin> set (vmStopped vm') \<and> vmNext vm < vmNext vm'"
proof -
  obtain vm2 where r: "recoverServer e vm dir = Inr vm2" "recoverServer e vm2 dir = Inr vm'"
    using assms(2-6) by (auto simp: recoverDir_def split: sum.splits)
  obtain vm1 where 1: "runVDeviceServer e vm dir = (vm1, Some (vmNext vm))" "vm2 = addServer vm1 dir (vmNext vm)"
    using r(1) by (rule recoverServer_Inr)
  obtain vm3 where 2: "runVDeviceServer e vm2 dir = (vm3, Some (vmNext vm2))" "vm' = addServer vm3 dir (vmNext vm2)"
    using r(2) by (rule recoverServer_Inr)
  note f1 = runVDeviceServer_frame [OF 1(1)] and f2 = runVDeviceServer_frame [OF 2(1)]
  have n: "vmNext vm2 = vmNext vm + 1" using f1(2) 1(2) by (simp add: addServer_def)
  have sv: "vmServers vm' = AList.update dir (vmNext vm + 1) (vmServers vm)" "vmStopped vm' = vmStopped vm"
    using f1(1) f2(1) 1(2) 2(2) n by (simp_all add: addServer_def same_servers_def update_update_same)
  have old: "vmNext vm \<notin> set (map snd (vmServers vm)) \<union> set (vmStopped vm)"
    using assms(1) unfolding servers_ok_def by blast
  show ?thesis
    using sv old snd_update_subset [of dir "vmNext vm + 1" "vmServers vm"] f2(2) [OF refl] n 2(2)
    by (auto simp: go_map addServer_def)
qed

definition vmResponse :: ContainerAllocateResponse where
  "vmResponse = \<lparr>respEnvs = [], respMounts = [\<lparr>mContainerPath = ''/etc/vcuda'', mHostPath = ''/vm/u'', mReadOnly = True\<rparr>],
     respDevices = [], respAnnotations = []\<rparr>"

theorem recovery_leaks_server_witness:
  "\<exists>vm'. recoverDir quietVm (freshVm\<lparr>vmFiles := [(''/vm/u'', Dir)]\<rparr>) vmResponse = Inr vm'
     \<and> map_of (vmServers vm') ''/vm/u'' = Some 1 \<and> 0 \<notin> set (vmStopped vm')"
proof -
  let ?vm = "freshVm\<lparr>vmFiles := [(''/vm/u'', Dir)]\<rparr>"
  have run: "(case recoverDir quietVm ?vm vmResponse of Inl _ \<Rightarrow> False | Inr _ \<Rightarrow> True)"
    "GetVirtualControllerMountPath vmResponse = ''/vm/u''" "osStat quietVm ?vm ''/vm/u'' = Present"
    "length (socketOf ''/vm/u'') < 108" by code_simp+
  then obtain vm' where v: "recoverDir quietVm ?vm vmResponse = Inr vm'" by (auto split: sum.splits)
  have "servers_ok ?vm" by (simp add: servers_ok_def freshVm_def NewVirtualManager_def)
  from recovery_leaks_server [OF this run(2) _ run(3,4) v] v show ?thesis
    by (simp add: freshVm_def NewVirtualManager_def)
qed

section \<open>Garbage collection\<close>

text \<open>Claim C31: when every response mounts the directory of its pod below the manager's path, as the
  allocator writes it, a round of the garbage collector changes no file in the directory of an active pod,
  and, if the system lets it, removes every file in the directory of a pod that has a response and is not
  active any more.\<close>

theorem garbage_collector_spares_active_pods:
  assumes "range_order (vOrd e)" "resp_ok (vmResp vm)" "vPath e \<noteq> []"
    and mounts: "\<And>uid nm r. GetResp (vmResp vm) uid nm = Some r \<Longrightarrow>
      properSeg uid \<and> GetVirtualControllerMountPath r = pathJoinAll [vPath e, uid]"
    and p: "properSeg uid" "belowDir (pathJoinAll [vPath e, uid]) p"
  shows "(isActive e vm uid \<longrightarrow> map_of (vmFiles (garbageCollector e vm)) p = map_of (vmFiles vm) p)
    \<and> (\<not> isActive e vm uid \<and> GetResp (vmResp vm) uid nm \<noteq> None \<and> (\<forall>t. vRemoves e t p)
        \<longrightarrow> map_of (vmFiles (garbageCollector e vm)) p = None)"
proof -
  have dirs: "set (garbage e vm) = {d. \<exists>u n r. \<not> isActive e vm u \<and> GetResp (vmResp vm) u n = Some r
      \<and> d = pathJoinAll [vPath e, u] \<and> d \<noteq> []}"
  proof -
    have "d \<in> set (garbage e vm) \<longleftrightarrow> (\<exists>u n r. \<not> isActive e vm u \<and> GetResp (vmResp vm) u n = Some r
        \<and> d = GetVirtualControllerMountPath r \<and> d \<noteq> [])" for d
      using podResponses_iff [OF assms(1,2), of _ "\<lambda>uid. \<not> isActive e vm uid"]
      unfolding garbage_def set_filter set_map mem_Collect_eq image_iff Bex_def by metis
    then show ?thesis using mounts by (auto cong: conj_cong)
  qed
  have clean: "pathClean (pathJoinAll [vPath e, u]) = pathJoinAll [vPath e, u]" for u using assms(3) by simp
  have "\<forall>d \<in> set (garbage e vm). \<not> belowDir (pathClean d) p" if act: "isActive e vm uid"
  proof (intro ballI notI)
    fix d
    assume "d \<in> set (garbage e vm)" "belowDir (pathClean d) p"
    then obtain u n r where u: "\<not> isActive e vm u" "GetResp (vmResp vm) u n = Some r" "belowDir (pathJoinAll [vPath e, u]) p"
      unfolding dirs by (auto simp: clean)
    then have "uid = u" using below_one_dir [OF p(1) _ p(2)] mounts by blast
    with act u(1) show False by simp
  qed
  then have "isActive e vm uid \<Longrightarrow> map_of (vmFiles (garbageCollector e vm)) p = map_of (vmFiles vm) p"
    unfolding garbageCollector_def by (subst removeAll_fold(1)) auto
  moreover have "map_of (vmFiles (garbageCollector e vm)) p = None"
    if "\<not> isActive e vm uid" "GetResp (vmResp vm) uid nm \<noteq> None" "\<forall>t. vRemoves e t p"
  proof -
    have "pathJoinAll [vPath e, uid] \<noteq> []" using p(1) assms(3) by (simp add: pathJoinAll_pre properSeg_def)
    then have "pathJoinAll [vPath e, uid] \<in> set (garbage e vm)"
      using that(1,2) unfolding dirs by blast
    then have "\<exists>d \<in> set (garbage e vm). belowDir (pathClean d) p"
      using p(2) clean by (intro bexI) simp_all
    then show ?thesis unfolding garbageCollector_def using that(3) by (intro removeAll_fold(2)) auto
  qed
  ultimately show ?thesis by blast
qed

theorem garbage_collector_spares_active_pods_witness:
  "map_of (vmFiles (garbageCollector quietVm (freshVm\<lparr>vmResp := [(''u'', [(''c'', vmResponse)])], vmFiles := [(''/vm/u/vcuda.sock'', Torn)]\<rparr>)))
     ''/vm/u/vcuda.sock'' = None"
proof -
  let ?vm = "freshVm\<lparr>vmResp := [(''u'', [(''c'', vmResponse)])], vmFiles := [(''/vm/u/vcuda.sock'', Torn)]\<rparr>"
  have ev: "pathJoinAll [vPath quietVm, ''u''] = ''/vm/u''" "GetVirtualControllerMountPath vmResponse = ''/vm/u''"
    "properSeg ''u''" "belowDir ''/vm/u'' ''/vm/u/vcuda.sock''" "\<not> isActive quietVm ?vm ''u''" by code_simp+
  have get: "GetResp (vmResp ?vm) u n = Some r \<Longrightarrow> u = ''u'' \<and> r = vmResponse" for u n r
    by (auto simp: GetResp_def split: option.splits if_splits)
  have "range_order (vOrd quietVm)" "resp_ok (vmResp ?vm)" "vPath quietVm \<noteq> []" "\<forall>t p. vRemoves quietVm t p"
    "GetResp (vmResp ?vm) ''u'' ''c'' \<noteq> None"
    by (simp_all add: quietVm_def resp_ok_def gomap_ok_def GetResp_def)
  then show ?thesis
    using garbage_collector_spares_active_pods [of quietVm ?vm "''u''" "''/vm/u/vcuda.sock''" "''c''",
        OF _ _ _ conjI] get ev by metis
qed

section \<open>The directory of a pod\<close>

text \<open>Claim C32: when the virtual manager has answered the allocator's request for a pod without error, it
  has a running server for exactly the directory that the allocator's response mounts into the pod's
  containers, and the socket in that directory belongs to this server.\<close>

theorem allocator_directory_is_served:
  assumes "vcudaConfigFunc e vm (pUID pod) = (vm', None)" "VirtualManagerPath cfg = vPath e" "vPath e \<noteq> []"
    and dir: "dir = GetVirtualControllerMountPath (containerResponse cfg t pod container cores memory share nodes)"
  shows "\<exists>srv. map_of (vmServers vm') dir = Some srv \<and> map_of (vmFiles vm') (socketOf dir) = Some (Socket srv)
    \<and> vmNext vm \<le> srv"
proof -
  have d: "dir = pathJoinAll [vPath e, pUID pod]"
    unfolding dir by (simp add: GetVirtualControllerMountPath_def containerResponse_def VCUDA_MOUNTPOINT_def assms(2))
  then have dc: "pathClean (pathJoinAll [vPath e, pUID pod]) = dir" using assms(3) by simp
  obtain vm1 where 1: "ensureDir e vm dir = (vm1, None)"
    using assms(1) by (auto simp: vcudaConfigFunc_def dc Let_def split: prod.splits option.splits)
  obtain vm2 srv where 2: "runVDeviceServer e vm1 dir = (vm2, Some srv)" "vm' = addServer vm2 dir srv"
    using assms(1) 1 by (auto simp: vcudaConfigFunc_def dc Let_def split: prod.splits option.splits)
  have "map_of (vmFiles vm2) (socketOf dir) = Some (Socket srv)"
    using 2(1) by (auto simp: runVDeviceServer_def Let_def go_map split: if_splits)
  moreover have "vmNext vm \<le> srv"
    using ensureDir_frame [OF 1] runVDeviceServer_frame(2) [OF 2(1) refl] by (simp add: same_servers_def)
  ultimately show ?thesis by (simp add: 2(2) addServer_def go_map)
qed

theorem allocator_directory_is_served_witness:
  "\<exists>srv. map_of (vmServers (fst (vcudaConfigFunc quietVm freshVm (pUID samplePod)))) (GetVirtualControllerMountPath
     (containerResponse (sampleCfg\<lparr>VirtualManagerPath := ''/vm''\<rparr>) sampleTree samplePod sampleContainer 2 3 True [])) = Some srv"
proof -
  have "snd (vcudaConfigFunc quietVm freshVm (pUID samplePod)) = None" by code_simp
  then have "vcudaConfigFunc quietVm freshVm (pUID samplePod) = (fst (vcudaConfigFunc quietVm freshVm (pUID samplePod)), None)"
    by (metis prod.collapse)
  from allocator_directory_is_served [OF this, of "sampleCfg\<lparr>VirtualManagerPath := ''/vm''\<rparr>" _ sampleTree sampleContainer 2 3 True "[]"]
  show ?thesis by (auto simp: quietVm_def)
qed

section \<open>Registration\<close>

text \<open>Claim C30: a registration by container id that succeeds leaves, in the directory that the response
  of the pod's container mounts, a file with the processes the runtime reports for the container, which are
  never none, and a configuration. A configuration that was there before is kept as it is; a new one holds
  the limits of the pod's container of that name and the pod's core limit. \<close>

theorem registration_writes_files:
  assumes reg: "RegisterVDevice e vm \<lparr>rqBusId = b, rqPodUid = uid, rqContainerName = [], rqContainerId = cid\<rparr> = Inr (vm', None)"
    and mounts: "\<forall>nm r. GetResp (vmResp vm) uid nm = Some r \<longrightarrow> GetVirtualControllerMountPath r = absPath segs"
    and segs: "list_all properSeg segs" "segs \<noteq> []" "properSeg cid"
  shows "\<exists>st name pids. InspectContainer (vRuntime e (vmTick vm)) cid = Inr (Some st) \<and> crMetadataName st = Some name
    \<and> GetPidsInContainerById (vRuntime e (vmTick vm + 2)) (vRuntimeManager e) cid = Inr (pids, None) \<and> pids \<noteq> []
    \<and> map_of (vmFiles vm') (absPath (segs @ [cid, PIDS_CONFIG_NAME])) = Some (Pids (map i32 pids))
    \<and> (\<forall>x. map_of (vmFiles vm) (absPath (segs @ [cid, CONTROLLER_CONFIG_NAME])) = Some x
        \<longrightarrow> map_of (vmFiles vm') (absPath (segs @ [cid, CONTROLLER_CONFIG_NAME])) = Some x)
    \<and> (map_of (vmFiles vm) (absPath (segs @ [cid, CONTROLLER_CONFIG_NAME])) = None \<longrightarrow>
        (\<exists>pod hl l. map_of (GetActivePods (vStore e (vmTick vm + 3))) uid = Some pod \<and> coreLimit pod = Some (hl, l)
          \<and> filter (matchesName name) (pContainers pod) \<noteq> []
          \<and> map_of (vmFiles vm') (absPath (segs @ [cid, CONTROLLER_CONFIG_NAME]))
              = Some (VConfig (vcudaConfig e uid name hl l (last (filter (matchesName name) (pContainers pod)))))))"
proof -
  obtain st name resp where st: "InspectContainer (vRuntime e (vmTick vm)) cid = Inr (Some st)" "crMetadataName st = Some name"
      "GetResp (vmResp vm) uid name = Some resp"
    using reg by (auto simp: RegisterVDevice_def registerVDeviceWithContainerId_def split: sum.splits option.splits)
  have dir: "GetVirtualControllerMountPath resp = absPath segs" using mounts st(3) by blast
  have names: "properSeg PIDS_CONFIG_NAME" "properSeg CONTROLLER_CONFIG_NAME"
    by (simp_all add: properSeg_def PIDS_CONFIG_NAME_def CONTROLLER_CONFIG_NAME_def)
  define pf where "pf = absPath (segs @ [cid, PIDS_CONFIG_NAME])"
  define cf where "cf = absPath (segs @ [cid, CONTROLLER_CONFIG_NAME])"
  have files: "pathJoinAll [absPath segs, cid, PIDS_CONFIG_NAME] = pf" "pathJoinAll [absPath segs, cid, CONTROLLER_CONFIG_NAME] = cf"
    using segs names by (simp_all add: pathJoinAll_abs pf_def cf_def)
  have pdir: "pathDir cf = absPath (segs @ [cid])"
    using pathDir_abs [of "segs @ [cid]" CONTROLLER_CONFIG_NAME] segs names by (simp add: cf_def)
  have ne: "pf \<noteq> cf" and len: "length (pathDir cf) < length cf"
    using segs(2) joinStr_append [of "segs @ [cid]" "[PIDS_CONFIG_NAME]" "''/''"]
      joinStr_append [of "segs @ [cid]" "[CONTROLLER_CONFIG_NAME]" "''/''"]
    unfolding pdir by (simp_all add: pf_def cf_def PIDS_CONFIG_NAME_def CONTROLLER_CONFIG_NAME_def)
  obtain vm1 where 1: "ensureDir e (vtick vm) (pathDir cf) = (vm1, None)" "writeFiles e vm1 pf cf uid cid name = Inr (vm', None)"
    using reg by (auto simp: RegisterVDevice_def registerVDeviceWithContainerId_def st dir files Let_def
        split: prod.splits option.splits)
  obtain vm2 where 2: "writePidFile e vm1 pf cid = Inr (vm2, None)" "writeConfigFile e vm2 cf uid name = Inr (vm', None)"
    using 1(2) by (auto simp: writeFiles_def split: sum.splits prod.splits option.splits)
  note d = ensureDir_file [OF 1(1) len]
  obtain pids where p: "GetPidsInContainerById (vRuntime e (vmTick vm1)) (vRuntimeManager e) cid = Inr (pids, None)" "pids \<noteq> []"
      "vmFiles vm2 = AList.update pf (Pids (map i32 pids)) (vmFiles vm1)" "vmTick vm2 = Suc (vmTick vm1)"
    using 2(1) by (rule writePidFile_ok)
  note c = writeConfigFile_ok [OF 2(2)]
  have ticks: "vmTick vm1 = vmTick vm + 2" "vmTick vm2 = vmTick vm + 3" using d(2) p(4) by simp_all
  have pids: "map_of (vmFiles vm') pf = Some (Pids (map i32 pids))"
    using c ne p(3) by (simp add: go_map)
  have cfg: "map_of (vmFiles vm2) cf = map_of (vmFiles vm) cf" using d(1) ne p(3) by (simp add: go_map)
  show ?thesis
    unfolding pf_def [symmetric] cf_def [symmetric]
    by (intro exI [of _ st] exI [of _ name] exI [of _ pids] conjI st(1,2) p(1,2) [unfolded ticks] pids
        c [THEN conjunct2, THEN conjunct1, unfolded cfg] c [THEN conjunct2, THEN conjunct2, unfolded cfg ticks])
qed

definition regPod :: Pod where
  "regPod = clientPod\<lparr>pAnnotations := [(VCoreLimitAnnotation, ''50'')],
     pContainers := [\<lparr>cName = ''c'', cLimits = [(VCoreAnnotation, 20), (VMemoryAnnotation, 10)],
       cRequests = [], cEnv = []\<rparr>]\<rparr>"

definition regEnv :: vm_env where
  "regEnv = quietVm\<lparr>vStore := (\<lambda>t. Some [regPod]), vRuntime := (\<lambda>t. clientRuntimeEnv\<lparr>rLister := (\<lambda>a b. Inr regPod),
     rAllPids := (\<lambda>d. ([7, 8], None)), rInspect := (\<lambda>i. Inr (Some \<lparr>crId = i, crMetadataName = Some ''c'', crLabels = [], crAnnotations = []\<rparr>))\<rparr>)\<rparr>"

definition regVm :: VirtualManager where
  "regVm = freshVm\<lparr>vmResp := [(pUID regPod, [(''c'', vmResponse)])]\<rparr>"

theorem registration_writes_files_witness:
  "\<exists>vm' pids. RegisterVDevice regEnv regVm \<lparr>rqBusId = [], rqPodUid = pUID regPod, rqContainerName = [], rqContainerId = ''0adf''\<rparr> = Inr (vm', None)
     \<and> map_of (vmFiles vm') ''/vm/u/0adf/pids.config'' = Some (Pids (map i32 pids))"
proof -
  let ?req = "\<lparr>rqBusId = [], rqPodUid = pUID regPod, rqContainerName = [], rqContainerId = ''0adf''\<rparr>"
  have "(case RegisterVDevice regEnv regVm ?req of Inr (_, None) \<Rightarrow> True | _ \<Rightarrow> False)" by code_simp
  then obtain vm' where reg: "RegisterVDevice regEnv regVm ?req = Inr (vm', None)"
    by (auto split: sum.splits prod.splits option.splits)
  have seg: "list_all properSeg [''vm'', ''u'']" "properSeg ''0adf''" "absPath [''vm'', ''u''] = ''/vm/u''"
    "absPath ([''vm'', ''u''] @ [''0adf'', PIDS_CONFIG_NAME]) = ''/vm/u/0adf/pids.config''"
    "GetVirtualControllerMountPath vmResponse = ''/vm/u''" by code_simp+
  have m: "\<forall>nm r. GetResp (vmResp regVm) (pUID regPod) nm = Some r \<longrightarrow> GetVirtualControllerMountPath r = absPath [''vm'', ''u'']"
    using seg(3,5) by (auto simp: regVm_def GetResp_def split: if_splits)
  obtain pids where "map_of (vmFiles vm') (absPath ([''vm'', ''u''] @ [''0adf'', PIDS_CONFIG_NAME])) = Some (Pids (map i32 pids))"
    using registration_writes_files [OF reg m seg(1) _ seg(2)] by blast
  then show ?thesis using reg unfolding seg(4) by blast
qed

section \<open>Limits\<close>

text \<open>The configuration of a container whose requests fit the structure holds exactly the
  memory in bytes and the cores it asked for, limiting is switched off exactly for a container that asks
  for a whole card or more, the limit is hard exactly when the pod has no annotation for a soft one, and a
  soft limit is the annotated number of cores, never above a whole card.\<close>

lemma config_holds_limits:
  assumes "coreLimit pod = Some (hl, l)"
    and "0 \<le> limitValue c VCoreAnnotation" "limitValue c VCoreAnnotation < 2 ^ 31"
    and "0 \<le> limitValue c VMemoryAnnotation" "limitValue c VMemoryAnnotation < 2 ^ 43"
    and cfg: "cfg = vcudaConfig e uid name hl l c"
  shows "gpu_memory cfg = limitValue c VMemoryAnnotation * 1048576 \<and> utilization cfg = limitValue c VCoreAnnotation
    \<and> (enable cfg = 0 \<longleftrightarrow> 100 \<le> limitValue c VCoreAnnotation)
    \<and> (hard_limit cfg = 1 \<longleftrightarrow> map_of (pAnnotations pod) VCoreLimitAnnotation = None)
    \<and> (map_of (pAnnotations pod) VCoreLimitAnnotation = None \<longrightarrow> limit cfg = 0)
    \<and> (\<forall>s. map_of (pAnnotations pod) VCoreLimitAnnotation = Some s \<and> - (2 ^ 31) \<le> fst (parseInt 64 s) \<longrightarrow>
        limit cfg = min 100 (fst (parseInt 64 s)))"
proof -
  have mem: "i64 (limitValue c VMemoryAnnotation * MemoryBlockSize) = limitValue c VMemoryAnnotation * 1048576"
    "u64 (limitValue c VMemoryAnnotation * 1048576) = limitValue c VMemoryAnnotation * 1048576"
    using assms(4,5) by (simp_all add: MemoryBlockSize_def i64_id u64_id)
  have cores: "i32 (limitValue c VCoreAnnotation) = limitValue c VCoreAnnotation"
    using assms(2,3) by (intro i32_id) simp_all
  show ?thesis
  proof (cases "map_of (pAnnotations pod) VCoreLimitAnnotation")
    case None
    then have "\<not> hl" using assms(1) by (simp add: coreLimit_def)
    with None mem cores show ?thesis by (simp add: cfg vcudaConfig_def Let_def HundredCore_def)
  next
    case (Some s)
    then have hl: "hl" "l = min 100 (fst (parseInt 64 s))" "snd (parseInt 64 s)"
      using assms(1) by (auto simp: coreLimit_def Let_def split: prod.splits if_splits)
    have "i32 l = l" if "- (2 ^ 31) \<le> fst (parseInt 64 s)"
      using that hl(2) by (intro i32_id) auto
    with Some hl mem cores show ?thesis by (simp add: cfg vcudaConfig_def Let_def HundredCore_def)
  qed
qed

end
