(* ===== verification/Ldcache.thy ===== *)
theory Ldcache
  imports Go_Paths
begin

text \<open>
  \<^verbatim>\<open>pkg/services/volume/ldcache/ldcache.go\<close>: the parser of \<^verbatim>\<open>/etc/ld.so.cache\<close> and the lookup of
  libraries in it, on the bytes of the file. Numbers are little endian words of their width. The locale
  \<open>codec\<close> is the contract of a fixed-width encoding; its list lemma serves every table of the file.
  Resolving symbolic links is the parameter \<open>evalLinks\<close>. The model does not run out of memory for the
  table of entries.
\<close>

unbundle bit_operations_syntax

section \<open>Little endian encodings\<close>

type_synonym byte = "8 word"

definition leNat :: "byte list \<Rightarrow> nat" where
  "leNat bs = foldr (\<lambda>b n. unat b + 256 * n) bs 0"

primrec leBytes :: "nat \<Rightarrow> nat \<Rightarrow> byte list" where
  "leBytes 0 n = []"
| "leBytes (Suc k) n = word_of_nat n # leBytes k (n div 256)"

lemma length_leBytes [simp]: "length (leBytes k n) = k"
  by (induction k arbitrary: n) auto

lemma leNat_leBytes: "leNat (leBytes k n) = n mod 256 ^ k"
proof (induction k arbitrary: n)
  case (Suc k)
  have "unat (word_of_nat n :: byte) = n mod 256" by (simp add: unat_of_nat)
  then have "leNat (leBytes (Suc k) n) = n mod 256 + 256 * (n div 256 mod 256 ^ k)"
    using Suc.IH [of "n div 256"] by (simp add: leNat_def)
  also have "\<dots> = n mod (256 * 256 ^ k)" by (simp add: mod_mult2_eq)
  finally show ?case by simp
qed (simp add: leNat_def)

locale codec =
  fixes width :: nat and enc :: "'a \<Rightarrow> byte list" and dec :: "byte list \<Rightarrow> 'a"
  assumes enc_width: "length (enc x) = width"
    and dec_enc: "dec (enc x) = x"

text \<open>A table of \<open>n\<close> values of the same width.\<close>

primrec decTable :: "nat \<Rightarrow> (byte list \<Rightarrow> 'a) \<Rightarrow> nat \<Rightarrow> byte list \<Rightarrow> 'a list" where
  "decTable width dec 0 bs = []"
| "decTable width dec (Suc n) bs = dec (take width bs) # decTable width dec n (drop width bs)"

context codec
begin

lemma length_table: "length (concat (map enc xs)) = width * length xs"
  by (induction xs) (auto simp: enc_width)

lemma decTable_enc: "decTable width dec (length xs) (concat (map enc xs) @ bs) = xs"
  by (induction xs) (simp_all add: enc_width dec_enc)

end

definition encU32 :: "32 word \<Rightarrow> byte list" where "encU32 w = leBytes 4 (unat w)"
definition decU32 :: "byte list \<Rightarrow> 32 word" where "decU32 bs = word_of_nat (leNat bs)"
definition encU64 :: "64 word \<Rightarrow> byte list" where "encU64 w = leBytes 8 (unat w)"
definition decU64 :: "byte list \<Rightarrow> 64 word" where "decU64 bs = word_of_nat (leNat bs)"

interpretation u32: codec 4 encU32 decU32
proof unfold_locales
  fix w :: "32 word"
  have "unat w < 2 ^ LENGTH(32)" by (rule unsigned_less)
  then show "decU32 (encU32 w) = w" by (simp add: decU32_def encU32_def leNat_leBytes)
qed (simp add: encU32_def)

interpretation u64: codec 8 encU64 decU64
proof unfold_locales
  fix w :: "64 word"
  have "unat w < 2 ^ LENGTH(64)" by (rule unsigned_less)
  then show "decU64 (encU64 w) = w" by (simp add: decU64_def encU64_def leNat_leBytes)
qed (simp add: encU64_def)

section \<open>The file\<close>

definition byteChar :: "byte \<Rightarrow> char" where "byteChar b = char_of (unat b)"
definition charByte :: "char \<Rightarrow> byte" where "charByte c = word_of_nat (of_char c)"

definition bytesOf :: "string \<Rightarrow> byte list" where "bytesOf s = map charByte s"
definition strOf :: "byte list \<Rightarrow> string" where "strOf bs = map byteChar bs"

definition magicString1 :: string where "magicString1 = ''ld.so-1.7.0''"
definition magicString2 :: string where "magicString2 = ''glibc-ld.so.cache''"
definition magicVersion :: string where "magicVersion = ''1.1''"

definition flagTypeMask :: "32 word" where "flagTypeMask = 0x00ff"
definition flagTypeELF :: "32 word" where "flagTypeELF = 0x0001"
definition flagArchMask :: "32 word" where "flagArchMask = 0xff00"
definition flagArchI386 :: "32 word" where "flagArchI386 = 0x0000"
definition flagArchX8664 :: "32 word" where "flagArchX8664 = 0x0300"
definition flagArchX32 :: "32 word" where "flagArchX32 = 0x0800"
definition flagArchPpc64le :: "32 word" where "flagArchPpc64le = 0x0500"

text \<open>The header without its unused fields, which still take 20 bytes of the file.\<close>

record Header2 =
  hMagic :: "byte list"
  hVersion :: "byte list"
  hNLibs :: "32 word"
  hTableSize :: "32 word"

record Entry2 =
  eFlags :: "32 word"
  eKey :: "32 word"
  eValue :: "32 word"
  eOSVersion :: "32 word"
  eHWCap :: "64 word"

definition header1Size :: nat where "header1Size = 16"
definition entry1Size :: nat where "entry1Size = 12"
definition header2Size :: nat where "header2Size = 48"
definition entry2Size :: nat where "entry2Size = 24"

definition decHeader2 :: "byte list \<Rightarrow> Header2" where
  "decHeader2 bs =
     \<lparr>hMagic = take 17 bs, hVersion = take 3 (drop 17 bs), hNLibs = decU32 (take 4 (drop 20 bs)),
      hTableSize = decU32 (take 4 (drop 24 bs))\<rparr>"

definition decEntry2 :: "byte list \<Rightarrow> Entry2" where
  "decEntry2 bs =
     \<lparr>eFlags = decU32 (take 4 bs), eKey = decU32 (take 4 (drop 4 bs)), eValue = decU32 (take 4 (drop 8 bs)),
      eOSVersion = decU32 (take 4 (drop 12 bs)), eHWCap = decU64 (take 8 (drop 16 bs))\<rparr>"

record LDCache =
  ldLibs :: "byte list"
  ldHeader :: Header2
  ldEntries :: "Entry2 list"

datatype ld_error = ErrInvalidCache | UnexpectedEOF

text \<open>\<^verbatim>\<open>binary.Read\<close> of \<open>n\<close> bytes from a position.\<close>

definition readAt :: "byte list \<Rightarrow> nat \<Rightarrow> nat \<Rightarrow> byte list option" where
  "readAt bs pos n = (if pos + n \<le> length bs then Some (take n (drop pos bs)) else None)"

text \<open>Where the new format starts: after the entries of the old format, aligned to eight bytes. Seeking
  past the end is no error.\<close>

definition newFormatAt :: "byte list \<Rightarrow> nat" where
  "newFormatAt bs =
     (if strOf (take (length magicString1) bs) = magicString1
      then let n = unat (decU32 (take 4 (drop 12 bs))); offset = header1Size + n * entry1Size
           in offset + nat ((- int offset) mod 8)
      else 0)"

definition parseCache :: "byte list \<Rightarrow> ld_error + LDCache" where
  "parseCache bs =
     (if length bs \<le> header1Size then Inl ErrInvalidCache
      else let pos = newFormatAt bs; libs = drop pos bs
        in case readAt bs pos header2Size of
             None \<Rightarrow> Inl UnexpectedEOF
           | Some hb \<Rightarrow>
               let h = decHeader2 hb
               in if strOf (hMagic h) \<noteq> magicString2 \<or> strOf (hVersion h) \<noteq> magicVersion then Inl ErrInvalidCache
                  else (case readAt bs (pos + header2Size) (entry2Size * unat (hNLibs h)) of
                          None \<Rightarrow> Inl UnexpectedEOF
                        | Some eb \<Rightarrow> Inr \<lparr>ldLibs = libs, ldHeader = h,
                                          ldEntries = decTable entry2Size decEntry2 (unat (hNLibs h)) eb\<rparr>))"

section \<open>Lookup\<close>

text \<open>The list an entry belongs to: \<open>True\<close> for 64 bit; \<open>None\<close> for an entry that is skipped.\<close>

definition entryArch :: "Entry2 \<Rightarrow> bool option" where
  "entryArch e =
     (if (eFlags e AND flagTypeMask) AND flagTypeELF = 0 then None
      else let arch = eFlags e AND flagArchMask
           in if arch = flagArchX8664 \<or> arch = flagArchPpc64le then Some True
              else if arch = flagArchX32 \<or> arch = flagArchI386 then Some False
              else None)"

text \<open>\<^verbatim>\<open>strn(value, bytes.IndexByte(value, 0))\<close>; \<open>None\<close> when there is no zero byte.\<close>

definition cString :: "byte list \<Rightarrow> string option" where
  "cString bs = (if 0 \<in> set bs then Some (strOf (takeWhile (\<lambda>b. b \<noteq> 0) bs)) else None)"

text \<open>The path an entry leads to when one of the wanted names is a prefix of its key.\<close>

definition entryPath :: "(string \<Rightarrow> string option) \<Rightarrow> byte list \<Rightarrow> string list \<Rightarrow> Entry2 \<Rightarrow> string option" where
  "entryPath evalLinks libs names e =
     (if length libs mod 2 ^ 32 < unat (eKey e) \<or> length libs mod 2 ^ 32 < unat (eValue e) then None
      else if list_ex (\<lambda>p. hasPrefix (strOf (drop (unat (eKey e)) libs)) p) names
      then case cString (drop (unat (eValue e)) libs) of None \<Rightarrow> None | Some s \<Rightarrow> evalLinks s
      else None)"

record lookup_state =
  lkSet :: "string list"
  paths32 :: "string list"
  paths64 :: "string list"

definition lookupEntry ::
  "(string \<Rightarrow> string option) \<Rightarrow> byte list \<Rightarrow> string list \<Rightarrow> lookup_state \<Rightarrow> Entry2 \<Rightarrow> lookup_state" where
  "lookupEntry evalLinks libs names s e =
     (case entryArch e of
        None \<Rightarrow> s
      | Some is64 \<Rightarrow>
          (case entryPath evalLinks libs names e of
             None \<Rightarrow> s
           | Some path \<Rightarrow>
               if path \<in> set (lkSet s) then s
               else let s = s\<lparr>lkSet := path # lkSet s\<rparr>
                    in if is64 then s\<lparr>paths64 := paths64 s @ [path]\<rparr> else s\<lparr>paths32 := paths32 s @ [path]\<rparr>))"

definition Lookup :: "(string \<Rightarrow> string option) \<Rightarrow> LDCache \<Rightarrow> string list \<Rightarrow> string list \<times> string list" where
  "Lookup evalLinks c names =
     (let s = foldl (lookupEntry evalLinks (ldLibs c) names) \<lparr>lkSet = [], paths32 = [], paths64 = []\<rparr> (ldEntries c)
      in (paths32 s, paths64 s))"

section \<open>Writing a cache\<close>

text \<open>The file format from the writing side: an optional part in the old format, the header, the table and
  the strings the table points to.\<close>

definition encHeader2 :: "Header2 \<Rightarrow> byte list" where
  "encHeader2 h = hMagic h @ hVersion h @ encU32 (hNLibs h) @ encU32 (hTableSize h) @ replicate 20 0"

definition encEntry2 :: "Entry2 \<Rightarrow> byte list" where
  "encEntry2 e = encU32 (eFlags e) @ encU32 (eKey e) @ encU32 (eValue e) @ encU32 (eOSVersion e) @ encU64 (eHWCap e)"

interpretation entry2: codec entry2Size encEntry2 decEntry2
proof unfold_locales
  fix e :: Entry2
  have w: "length (encU32 w) = 4" "length (encU64 v) = 8" for w v by (simp_all add: u32.enc_width u64.enc_width)
  show "length (encEntry2 e) = entry2Size" by (simp add: encEntry2_def entry2Size_def w)
  have "take 8 (encU64 v) = encU64 v" for v using w(2) by simp
  then show "decEntry2 (encEntry2 e) = e"
    by (cases e) (simp add: decEntry2_def encEntry2_def w u32.dec_enc u64.dec_enc)
qed

definition newHeader :: "nat \<Rightarrow> 32 word \<Rightarrow> Header2" where
  "newHeader n tableSize = \<lparr>hMagic = bytesOf magicString2, hVersion = bytesOf magicVersion,
     hNLibs = word_of_nat n, hTableSize = tableSize\<rparr>"

definition oldPart :: "byte list \<Rightarrow> byte list" where
  "oldPart entries =
     (let n = length entries div entry1Size; offset = header1Size + n * entry1Size
      in bytesOf magicString1 @ [0] @ encU32 (word_of_nat n) @ entries @ replicate (nat ((- int offset) mod 8)) 0)"

definition newPart :: "Entry2 list \<Rightarrow> 32 word \<Rightarrow> byte list \<Rightarrow> byte list" where
  "newPart es tableSize strings =
     encHeader2 (newHeader (length es) tableSize) @ concat (map encEntry2 es) @ strings"

end
