(* ===== verification/Volume.thy ===== *)
theory Volume
  imports Ldcache Json Stores
begin

text \<open>
  \<^verbatim>\<open>pkg/services/volume/volume.go\<close> and \<^verbatim>\<open>util.go\<close>: the volume manager, which mirrors the driver's
  programs and libraries into volumes by hard links or copies, links their sonames, and in share mode puts
  the control library in the place of the driver's own. The file system has names and inodes, because a
  hard link shares its content with the original: a name is a directory, a hard link to an inode, or a
  symbolic link. Names are full paths in one flat table: a link is followed where it is the last element of a
  path and not inside of it, so that the directories of the volumes, which the manager creates itself, are
  taken not to be symbolic links to other places. Errors of the operating system and the ELF reader come from
  \<open>vol_env\<close>.
\<close>

section \<open>File system\<close>

datatype vnode = VDir | VHard nat | VSym string

datatype fs_err = FNotExist | FExist | FErr string

text \<open>Why a name that exists cannot be removed: the first is an error for which \<^verbatim>\<open>os.IsExist\<close> holds.\<close>

datatype rm_err = NotEmpty | RmFailed string

record vfs =
  vNames :: "(string, vnode) gomap"
  vInodes :: "nat \<Rightarrow> string"
  vFresh :: nat
  vClock :: nat

text \<open>What \<^verbatim>\<open>debug/elf\<close> reports of a file; a missing section is \<open>None\<close>, and reading its data a nil
  dereference.\<close>

record elf_file =
  elfSoname :: "string + string list"
  elfNeeded :: "string + string list"
  elfAbiTag :: "(string + byte list) option"

record vol_env =
  oMkdirErr :: "nat \<Rightarrow> string \<Rightarrow> fs_err option"
  oStatErr :: "nat \<Rightarrow> string \<Rightarrow> string option"
  oRemoveErr :: "nat \<Rightarrow> string \<Rightarrow> rm_err option"
  oLinkErr :: "nat \<Rightarrow> string \<Rightarrow> string option"
  oOpenErr :: "nat \<Rightarrow> string \<Rightarrow> string option"
  oCreateErr :: "nat \<Rightarrow> string \<Rightarrow> string option"
  oCopied :: "nat \<Rightarrow> string \<Rightarrow> string option"
  oCloseErr :: "nat \<Rightarrow> string \<Rightarrow> string option"
  oSymlinkErr :: "nat \<Rightarrow> string \<Rightarrow> fs_err option"
  oElf :: "string \<Rightarrow> string + elf_file"
  oWhich :: "string list \<Rightarrow> string"
  oEvalLinks :: "string \<Rightarrow> string option"
  oLdcache :: "string + byte list"
  oUnmapErr :: "string option"
  oOrd :: "string list \<Rightarrow> string list"

definition fsTick :: "vfs \<Rightarrow> vfs" where
  "fsTick fs = fs\<lparr>vClock := vClock fs + 1\<rparr>"

definition setName :: "vfs \<Rightarrow> string \<Rightarrow> vnode \<Rightarrow> vfs" where
  "setName fs p n = fs\<lparr>vNames := AList.update p n (vNames fs)\<rparr>"

text \<open>\<^verbatim>\<open>os.Remove\<close>, \<^verbatim>\<open>os.Link\<close>, \<^verbatim>\<open>os.Symlink\<close>, \<^verbatim>\<open>os.MkdirAll\<close>.\<close>

definition fsRemove :: "vol_env \<Rightarrow> vfs \<Rightarrow> string \<Rightarrow> vfs \<times> fs_err option" where
  "fsRemove e fs p =
     (if map_of (vNames fs) p = None then (fsTick fs, Some FNotExist)
      else case oRemoveErr e (vClock fs) p of
             Some NotEmpty \<Rightarrow> (fsTick fs, Some FExist)
           | Some (RmFailed s) \<Rightarrow> (fsTick fs, Some (FErr s))
           | None \<Rightarrow> (fsTick (fs\<lparr>vNames := AList.delete p (vNames fs)\<rparr>), None))"

definition fsLink :: "vol_env \<Rightarrow> vfs \<Rightarrow> string \<Rightarrow> string \<Rightarrow> vfs \<times> string option" where
  "fsLink e fs src dst =
     (case oLinkErr e (vClock fs) dst of
        Some err \<Rightarrow> (fsTick fs, Some err)
      | None \<Rightarrow>
          (case map_of (vNames fs) src of
             Some (VHard i) \<Rightarrow> if map_of (vNames fs) dst = None then (fsTick (setName fs dst (VHard i)), None)
                              else (fsTick fs, Some ''file exists'')
           | Some (VSym t) \<Rightarrow> if map_of (vNames fs) dst = None then (fsTick (setName fs dst (VSym t)), None)
                             else (fsTick fs, Some ''file exists'')
           | _ \<Rightarrow> (fsTick fs, Some ''no such file or not permitted'')))"

definition fsSymlink :: "vol_env \<Rightarrow> vfs \<Rightarrow> string \<Rightarrow> string \<Rightarrow> vfs \<times> fs_err option" where
  "fsSymlink e fs target l =
     (case oSymlinkErr e (vClock fs) l of
        Some err \<Rightarrow> (fsTick fs, Some err)
      | None \<Rightarrow> if map_of (vNames fs) l = None then (fsTick (setName fs l (VSym target)), None)
                else (fsTick fs, Some FExist))"

definition fsMkdirAll :: "vol_env \<Rightarrow> vfs \<Rightarrow> string \<Rightarrow> vfs \<times> fs_err option" where
  "fsMkdirAll e fs p =
     (case oMkdirErr e (vClock fs) p of
        Some err \<Rightarrow> (fsTick fs, Some err)
      | None \<Rightarrow> (fsTick (foldl (\<lambda>fs q. if map_of (vNames fs) q = None then setName fs q VDir else fs) fs
                   (pathPrefixes p)), None))"

text \<open>Opening and creating follow symbolic links, forty at most.\<close>

definition linkTarget :: "string \<Rightarrow> string \<Rightarrow> string" where
  "linkTarget p t = (if hasPrefix t ''/'' then t else pathJoinAll [pathDir p, t])"

fun follow :: "nat \<Rightarrow> vfs \<Rightarrow> string \<Rightarrow> string option" where
  "follow 0 fs p = None"
| "follow (Suc n) fs p = (case map_of (vNames fs) p of Some (VSym t) \<Rightarrow> follow n fs (linkTarget p t) | _ \<Rightarrow> Some p)"

definition inodeAt :: "vfs \<Rightarrow> string \<Rightarrow> nat option" where
  "inodeAt fs p =
     (case follow 40 fs p of
        None \<Rightarrow> None
      | Some q \<Rightarrow> (case map_of (vNames fs) q of Some (VHard i) \<Rightarrow> Some i | _ \<Rightarrow> None))"

text \<open>\<^verbatim>\<open>os.Create\<close>: an existing file is truncated, which empties its inode under all its names.\<close>

definition fsCreate :: "vfs \<Rightarrow> string \<Rightarrow> (vfs \<times> nat) option" where
  "fsCreate fs p =
     (case follow 40 fs p of
        None \<Rightarrow> None
      | Some q \<Rightarrow>
          (case map_of (vNames fs) q of
             Some (VHard i) \<Rightarrow> Some (fs\<lparr>vInodes := (vInodes fs)(i := [])\<rparr>, i)
           | None \<Rightarrow> Some ((setName fs q (VHard (vFresh fs)))\<lparr>vInodes := (vInodes fs)(vFresh fs := []), vFresh := vFresh fs + 1\<rparr>,
                          vFresh fs)
           | Some _ \<Rightarrow> None))"

section \<open>util.go\<close>

text \<open>The copy reads the source after the target was created. \<open>oCopied\<close> is the part that was written when
  the copy fails.\<close>

definition fallbackCopy :: "vol_env \<Rightarrow> vfs \<Rightarrow> string \<Rightarrow> string \<Rightarrow> vfs \<times> string option" where
  "fallbackCopy e fs src dst =
     (case oOpenErr e (vClock fs) src of
        Some err \<Rightarrow> (fsTick fs, Some err)
      | None \<Rightarrow>
          (case inodeAt fs src of
             None \<Rightarrow> (fsTick fs, Some ''open: no such file'')
           | Some si \<Rightarrow>
               (case oCreateErr e (vClock fs) dst of
                  Some err \<Rightarrow> (fsTick fs, Some err)
                | None \<Rightarrow>
                    (case fsCreate fs dst of
                       None \<Rightarrow> (fsTick fs, Some ''create: not a file'')
                     | Some (fs', di) \<Rightarrow>
                         (case oCopied e (vClock fs) dst of
                            Some part \<Rightarrow> (fsTick (fs'\<lparr>vInodes := (vInodes fs')(di := part)\<rparr>), Some ''copy failed'')
                          | None \<Rightarrow>
                              (fsTick (fs'\<lparr>vInodes := (vInodes fs')(di := vInodes fs' si)\<rparr>), oCloseErr e (vClock fs) dst))))))"

definition clone :: "vol_env \<Rightarrow> vfs \<Rightarrow> string \<Rightarrow> string \<Rightarrow> vfs \<times> string option" where
  "clone e fs src dst =
     (case fsLink e fs src dst of
        (fs, None) \<Rightarrow> (fs, None)
      | (fs, Some _) \<Rightarrow> fallbackCopy e fs src dst)"

text \<open>\<^verbatim>\<open>which\<close>: the complete lines of the command's output that are absolute paths; the text after the last
  newline is not a line.\<close>

fun resolveAll :: "(string \<Rightarrow> string option) \<Rightarrow> string list \<Rightarrow> string + string list" where
  "resolveAll evalLinks [] = Inr []"
| "resolveAll evalLinks (p # ps) =
     (let p = trimSpace p
      in if \<not> hasPrefix p ''/'' then resolveAll evalLinks ps
         else case evalLinks p of
                None \<Rightarrow> Inl (''lstat '' @ p)
              | Some r \<Rightarrow> (case resolveAll evalLinks ps of Inl err \<Rightarrow> Inl err | Inr rs \<Rightarrow> Inr (r # rs)))"

definition which :: "vol_env \<Rightarrow> string list \<Rightarrow> string + string list" where
  "which e bins = resolveAll (oEvalLinks e) (butlast (splitStr (oWhich e bins) [CHR 0x0A]))"

text \<open>The name in \<^verbatim>\<open>^.*/lib([\w-]+)\.so[\d.]*$\<close>: the element after the last slash starts with
  \<^verbatim>\<open>lib\<close>, the name reaches to the first dot, and only digits and dots follow \<^verbatim>\<open>.so\<close>.\<close>

definition isWord :: "char \<Rightarrow> bool" where
  "isWord c \<longleftrightarrow> isDigit c \<or> c = CHR ''_'' \<or> c = CHR ''-'' \<or> (let n = of_char c :: nat in 65 \<le> n \<and> n \<le> 90 \<or> 97 \<le> n \<and> n \<le> 122)"

definition libName :: "string \<Rightarrow> string option" where
  "libName file =
     (case lastIndexChar file (CHR ''/'') of
        None \<Rightarrow> None
      | Some i \<Rightarrow>
          (let base = drop (i + 1) file; rest = drop 3 base;
               nm = takeWhile (\<lambda>c. c \<noteq> CHR ''.'') rest; ext = dropWhile (\<lambda>c. c \<noteq> CHR ''.'') rest
           in if CHR 0x0A \<notin> set (take i file) \<and> hasPrefix base ''lib'' \<and> nm \<noteq> [] \<and> list_all isWord nm
                 \<and> hasPrefix ext ''.so'' \<and> list_all (\<lambda>c. isDigit c \<or> c = CHR ''.'') (drop 3 ext)
              then Some nm else None))"

definition nvidiaGl :: "string \<Rightarrow> bool" where
  "nvidiaGl d \<longleftrightarrow> containsStr d ''libnvidia-glcore.so'' \<or> containsStr d ''libnvidia-eglcore.so'' \<or> containsStr d ''libGLdispatch.so''"

definition tlsAbi :: nat where "tlsAbi = 0x6300000003"

definition blacklisted :: "string \<Rightarrow> elf_file \<Rightarrow> go_fault + string + bool" where
  "blacklisted file obj =
     (case libName file of
        None \<Rightarrow> Inr (Inr False)
      | Some nm \<Rightarrow>
          if nm \<in> {''EGL'', ''GLESv1_CM'', ''GLESv2'', ''GL''} then
            (case elfNeeded obj of
               Inl err \<Rightarrow> Inr (Inl err)
             | Inr deps \<Rightarrow> Inr (Inr (\<not> list_ex nvidiaGl deps)))
          else if nm = ''nvidia-tls'' then
            (case elfAbiTag obj of
               None \<Rightarrow> Inl Panic
             | Some (Inl err) \<Rightarrow> Inr (Inl err)
             | Some (Inr s) \<Rightarrow>
                 if length s < 32 then Inl Panic
                 else Inr (Inr (leNat (take 8 (drop 24 s)) \<noteq> tlsAbi)))
          else Inr (Inr False))"

section \<open>The manager\<close>

definition binDir :: string where "binDir = ''bin''"
definition lib32Dir :: string where "lib32Dir = ''lib''"
definition lib64Dir :: string where "lib64Dir = ''lib64''"

record VolConfig =
  vcName :: string
  vcMode :: string
  vcComponents :: "(string, string list) gomap"
  vcBasePath :: string

record volumeDir =
  vdName :: string
  vdFiles :: "string list"

record VolumeT =
  volPath :: string
  volDirs :: "volumeDir list"

type_synonym VolumeMap = "(string, VolumeT) gomap"

record VolumeManager =
  vmgConfig :: "VolConfig list"
  vmgShare :: bool
  cudaControlFile :: string
  cudaSoname :: "(string, string) gomap"
  mlSoName :: "(string, string) gomap"
  DriverVersionMajor :: int
  DriverVersionMinor :: int
  libraryPath :: string
  originLibraryPath :: string
  vmgFs :: vfs

definition decVolConfig :: "VolConfig decoder" where
  "decVolConfig = decStruct
     [(''name'', fieldDec vcName vcName_update decString), (''mode'', fieldDec vcMode vcMode_update decString),
      (''components'', fieldDec vcComponents vcComponents_update (decMap (decList decString []) [])),
      (''base'', fieldDec vcBasePath vcBasePath_update decString)]"

definition zeroVolConfig :: VolConfig where
  "zeroVolConfig = \<lparr>vcName = [], vcMode = [], vcComponents = [], vcBasePath = []\<rparr>"

definition decVolumes :: "VolConfig list decoder" where
  "decVolumes = decStruct [(''volume'', decList decVolConfig zeroVolConfig)]"

definition NewVolumeManager :: "bool \<Rightarrow> vfs \<Rightarrow> io_error + jval option \<Rightarrow> io_error + VolumeManager" where
  "NewVolumeManager share fs file =
     (case file of
        Inl err \<Rightarrow> Inl err
      | Inr None \<Rightarrow> Inl JsonErr
      | Inr (Some j) \<Rightarrow>
          (case decVolumes j [] of
             (_, False) \<Rightarrow> Inl JsonErr
           | (cfgs, True) \<Rightarrow>
               Inr \<lparr>vmgConfig = cfgs, vmgShare = share, cudaControlFile = [], cudaSoname = [], mlSoName = [],
                    DriverVersionMajor = 0, DriverVersionMinor = 0, libraryPath = [], originLibraryPath = [],
                    vmgFs = fs\<rparr>))"

text \<open>A result: the manager after the call and the error, if any.\<close>

type_synonym 'e vol_result = "go_fault + VolumeManager \<times> 'e option"

definition fsErrStr :: "fs_err \<Rightarrow> string" where
  "fsErrStr err = (case err of FNotExist \<Rightarrow> ''not exist'' | FExist \<Rightarrow> ''exist'' | FErr s \<Rightarrow> s)"

definition removeFile :: "vol_env \<Rightarrow> vfs \<Rightarrow> string \<Rightarrow> vfs \<times> fs_err option" where
  "removeFile e fs file =
     (case fsRemove e fs file of
        (fs, Some err) \<Rightarrow> (fs, if err = FNotExist then None else Some err)
      | (fs, None) \<Rightarrow> (fs, None))"

definition isVersionChar :: "char \<Rightarrow> bool" where
  "isVersionChar c \<longleftrightarrow> c \<in> set ''.0123456789''"

definition symlinkTolerant :: "vol_env \<Rightarrow> vfs \<Rightarrow> string \<Rightarrow> string \<Rightarrow> vfs \<times> fs_err option" where
  "symlinkTolerant e fs src l =
     (case fsSymlink e fs src l of
        (fs, Some err) \<Rightarrow> (fs, if err = FExist then None else Some err)
      | (fs, None) \<Rightarrow> (fs, None))"

definition linkIfNotSameName :: "vol_env \<Rightarrow> vfs \<Rightarrow> string \<Rightarrow> string \<Rightarrow> vfs \<times> fs_err option" where
  "linkIfNotSameName e fs src dst =
     (if pathBase src = pathBase dst then (fs, None)
      else case removeFile e fs dst of
             (fs, Some err) \<Rightarrow> (fs, Some err)
           | (fs, None) \<Rightarrow>
               (let l = trimRight dst isVersionChar
                in case removeFile e fs l of
                     (fs, err) \<Rightarrow>
                       if err \<noteq> None \<and> err \<noteq> Some FExist then (fs, err)
                       else (case symlinkTolerant e fs src l of
                               (fs, Some err) \<Rightarrow> (fs, Some err)
                             | (fs, None) \<Rightarrow> symlinkTolerant e fs src dst)))"

text \<open>\<^verbatim>\<open>strings.Replace(l, "GLX_nvidia", "GLX_indirect", 1)\<close>.\<close>

definition indirectName :: "string \<Rightarrow> string" where
  "indirectName l =
     (case indexOf l ''GLX_nvidia'' of None \<Rightarrow> l | Some i \<Rightarrow> take i l @ ''GLX_indirect'' @ drop (i + 10) l)"

text \<open>The links for the soname of a mirrored file.\<close>

definition linkSoname ::
  "vol_env \<Rightarrow> VolumeManager \<Rightarrow> string \<Rightarrow> string \<Rightarrow> string \<Rightarrow> string \<Rightarrow> VolumeManager \<times> string option" where
  "linkSoname e vm driver vpath file soname =
     (let l = pathJoinAll [vpath, soname]
      in case linkIfNotSameName e (vmgFs vm) (pathBase file) l of
           (fs, err) \<Rightarrow>
             let vm = vm\<lparr>vmgFs := fs\<rparr>
             in if err \<noteq> None \<and> err \<noteq> Some FExist then (vm, map_option fsErrStr err)
                else if \<not> containsStr driver ''nvidia'' then (vm, None)
                else
                  let vm = (if vmgShare vm \<and> driver = ''nvidia'' \<and> hasPrefix soname ''libcuda.so''
                            then vm\<lparr>vmgFs := fst (fsRemove e (vmgFs vm) l), cudaSoname := AList.update l l (cudaSoname vm)\<rparr>
                            else vm);
                      vm = (if vmgShare vm \<and> driver = ''nvidia'' \<and> hasPrefix soname ''libnvidia-ml.so''
                            then vm\<lparr>vmgFs := fst (fsRemove e (vmgFs vm) l), mlSoName := AList.update l l (mlSoName vm)\<rparr>
                            else vm)
                  in if hasPrefix soname ''libGLX_nvidia''
                     then (case linkIfNotSameName e (vmgFs vm) (pathBase file) (indirectName l) of
                             (fs, err) \<Rightarrow> (vm\<lparr>vmgFs := fs\<rparr>, if err = Some FExist then None else map_option fsErrStr err))
                     else (vm, None))"

definition mirrorFiles :: "vol_env \<Rightarrow> VolumeManager \<Rightarrow> string \<Rightarrow> string \<Rightarrow> string \<Rightarrow> string vol_result" where
  "mirrorFiles e vm driver vpath file =
     (case oElf e file of
        Inl err \<Rightarrow> Inr (vm, Some (file @ '': '' @ err))
      | Inr obj \<Rightarrow>
          (case blacklisted file obj of
             Inl f \<Rightarrow> Inl f
           | Inr (Inl err) \<Rightarrow> Inr (vm, Some (file @ '': '' @ err))
           | Inr (Inr True) \<Rightarrow> Inr (vm, None)
           | Inr (Inr False) \<Rightarrow>
               (let l = pathJoinAll [vpath, pathBase file]
                in case removeFile e (vmgFs vm) l of
                     (fs, Some err) \<Rightarrow> Inr (vm\<lparr>vmgFs := fs\<rparr>, Some (fsErrStr err))
                   | (fs, None) \<Rightarrow>
                       (case clone e fs file l of
                          (fs, Some err) \<Rightarrow> Inr (vm\<lparr>vmgFs := fs\<rparr>, Some err)
                        | (fs, None) \<Rightarrow>
                            (case elfSoname obj of
                               Inl err \<Rightarrow> Inr (vm\<lparr>vmgFs := fs\<rparr>, Some (file @ '': '' @ err))
                             | Inr [] \<Rightarrow> Inr (vm\<lparr>vmgFs := fs\<rparr>, None)
                             | Inr (soname # _) \<Rightarrow> Inr (linkSoname e (vm\<lparr>vmgFs := fs\<rparr>) driver vpath file soname))))))"

text \<open>What \<^verbatim>\<open>mirror\<close> learns from the name of a mirrored file: the version of the driver and the control
  library. A driver library without a second number in its name is an index out of range.\<close>

definition noteFile :: "VolumeManager \<Rightarrow> string \<Rightarrow> go_fault + VolumeManager" where
  "noteFile vm file =
     (let base = pathBase file;
          control = (\<lambda>vm. if hasPrefix base ''libcuda-control.so'' then vm\<lparr>cudaControlFile := file\<rparr> else vm)
      in if hasPrefix base ''libcuda.so''
         then (case splitStr2 (trimPrefix base ''libcuda.so.'') ''.'' of
                 major # minor # _ \<Rightarrow>
                   Inr (control (vm\<lparr>DriverVersionMajor := fst (parseInt 64 major), DriverVersionMinor := fst (parseInt 64 minor)\<rparr>))
               | _ \<Rightarrow> Inl Panic)
         else Inr (control vm))"

fun mirrorDir :: "vol_env \<Rightarrow> VolumeManager \<Rightarrow> string \<Rightarrow> string \<Rightarrow> string list \<Rightarrow> string vol_result" where
  "mirrorDir e vm driver vpath [] = Inr (vm, None)"
| "mirrorDir e vm driver vpath (f # files) =
     (case mirrorFiles e vm driver vpath f of
        Inl x \<Rightarrow> Inl x
      | Inr (vm, Some err) \<Rightarrow> Inr (vm, Some err)
      | Inr (vm, None) \<Rightarrow>
          (case noteFile vm f of Inl x \<Rightarrow> Inl x | Inr vm \<Rightarrow> mirrorDir e vm driver vpath files))"

fun mirrorDirs :: "vol_env \<Rightarrow> VolumeManager \<Rightarrow> string \<Rightarrow> string \<Rightarrow> volumeDir list \<Rightarrow> string vol_result" where
  "mirrorDirs e vm driver path [] = Inr (vm, None)"
| "mirrorDirs e vm driver path (d # ds) =
     (let vpath = pathJoinAll [path, vdName d]
      in case fsMkdirAll e (vmgFs vm) vpath of
           (fs, Some err) \<Rightarrow> Inr (vm\<lparr>vmgFs := fs\<rparr>, Some (fsErrStr err))
         | (fs, None) \<Rightarrow>
             (case mirrorDir e (vm\<lparr>vmgFs := fs\<rparr>) driver vpath (vdFiles d) of
                Inl x \<Rightarrow> Inl x
              | Inr (vm, Some err) \<Rightarrow> Inr (vm, Some err)
              | Inr (vm, None) \<Rightarrow> mirrorDirs e vm driver path ds))"

definition volExist :: "vol_env \<Rightarrow> vfs \<Rightarrow> VolumeT \<Rightarrow> bool" where
  "volExist e fs v \<longleftrightarrow> oStatErr e (vClock fs) (volPath v) \<noteq> None \<or> map_of (vNames fs) (volPath v) \<noteq> None"

text \<open>\<^verbatim>\<open>os.RemoveAll\<close> goes on after an entry that cannot be removed.\<close>

definition volRemove :: "vol_env \<Rightarrow> vfs \<Rightarrow> VolumeT \<Rightarrow> vfs \<times> string option" where
  "volRemove e fs v =
     (let stays = (\<lambda>p. oRemoveErr e (vClock fs) p \<noteq> None)
      in (fsTick (fs\<lparr>vNames := filter (\<lambda>(p, _). \<not> belowDir (volPath v) p \<or> stays p) (vNames fs)\<rparr>),
          if list_ex (\<lambda>(p, _). belowDir (volPath v) p \<and> stays p) (vNames fs) then Some ''remove'' else None))"

definition mirrorVolume :: "vol_env \<Rightarrow> VolumeManager \<Rightarrow> string \<Rightarrow> VolumeT \<Rightarrow> string vol_result" where
  "mirrorVolume e vm driver vol =
     (if volExist e (vmgFs vm) vol then mirrorDirs e vm driver (volPath vol) (volDirs vol)
      else case fsMkdirAll e (vmgFs vm) (volPath vol) of
             (fs, Some err) \<Rightarrow> Inr (vm\<lparr>vmgFs := fs\<rparr>, Some (fsErrStr err))
           | (fs, None) \<Rightarrow> mirrorDirs e (vm\<lparr>vmgFs := fs\<rparr>) driver (volPath vol) (volDirs vol))"

fun mirrorVolumes :: "vol_env \<Rightarrow> VolumeManager \<Rightarrow> (string \<times> VolumeT) list \<Rightarrow> string vol_result" where
  "mirrorVolumes e vm [] = Inr (vm, None)"
| "mirrorVolumes e vm ((driver, vol) # vols) =
     (case mirrorVolume e vm driver vol of
        Inl x \<Rightarrow> Inl x
      | Inr (vm, Some err) \<Rightarrow> Inr (vm, Some err)
      | Inr (vm, None) \<Rightarrow> mirrorVolumes e vm vols)"

text \<open>\<^verbatim>\<open>vCudaFileFn\<close>: the control library in the place of one file and of its name without version.\<close>

definition replaceBy :: "vol_env \<Rightarrow> vfs \<Rightarrow> string \<Rightarrow> string \<Rightarrow> vfs \<times> string option" where
  "replaceBy e fs control p =
     (case removeFile e fs p of
        (fs, Some err) \<Rightarrow> (fs, Some (fsErrStr err))
      | (fs, None) \<Rightarrow> clone e fs control p)"

definition vCudaFile :: "vol_env \<Rightarrow> vfs \<Rightarrow> string \<Rightarrow> string \<Rightarrow> vfs \<times> string option" where
  "vCudaFile e fs control soFile =
     (case replaceBy e fs control soFile of
        (fs, Some err) \<Rightarrow> (fs, Some err)
      | (fs, None) \<Rightarrow> replaceBy e fs control (trimRight soFile isVersionChar))"

fun vCudaFiles :: "vol_env \<Rightarrow> vfs \<Rightarrow> string \<Rightarrow> string list \<Rightarrow> vfs \<times> string option" where
  "vCudaFiles e fs control [] = (fs, None)"
| "vCudaFiles e fs control (f # fl) =
     (case vCudaFile e fs control f of
        (fs, Some err) \<Rightarrow> (fs, Some err)
      | (fs, None) \<Rightarrow> vCudaFiles e fs control fl)"

definition mirror :: "vol_env \<Rightarrow> VolumeManager \<Rightarrow> VolumeMap \<Rightarrow> string vol_result" where
  "mirror e vm vols =
     (case mirrorVolumes e vm (gorange (oOrd e) vols) of
        Inl x \<Rightarrow> Inl x
      | Inr (vm, Some err) \<Rightarrow> Inr (vm, Some err)
      | Inr (vm, None) \<Rightarrow>
          if vmgShare vm \<and> cudaControlFile vm \<noteq> []
          then (case vCudaFiles e (vmgFs vm) (cudaControlFile vm)
                       (map snd (gorange (oOrd e) (cudaSoname vm)) @ map snd (gorange (oOrd e) (mlSoName vm))) of
                  (fs, err) \<Rightarrow> Inr (vm\<lparr>vmgFs := fs\<rparr>, err))
          else Inr (vm, None))"

text \<open>The volume of one configuration: components are visited in the order of the map, and a configuration
  without components gives no volume.\<close>

fun addComponents :: "vol_env \<Rightarrow> LDCache \<Rightarrow> VolumeT \<Rightarrow> (string \<times> string list) list \<Rightarrow> string + VolumeT" where
  "addComponents e cache vol [] = Inr vol"
| "addComponents e cache vol ((t, c) # cs) =
     (if t = ''binaries'' then
        (case which e c of
           Inl err \<Rightarrow> Inl err
         | Inr bins \<Rightarrow> addComponents e cache (vol\<lparr>volDirs := volDirs vol @ [\<lparr>vdName = binDir, vdFiles = bins\<rparr>]\<rparr>) cs)
      else if t = ''libraries'' then
        (case Lookup (oEvalLinks e) cache c of
           (libs32, libs64) \<Rightarrow>
             addComponents e cache (vol\<lparr>volDirs := volDirs vol
               @ [\<lparr>vdName = lib32Dir, vdFiles = libs32\<rparr>, \<lparr>vdName = lib64Dir, vdFiles = libs64\<rparr>]\<rparr>) cs)
      else addComponents e cache vol cs)"

fun buildVolumes :: "vol_env \<Rightarrow> LDCache \<Rightarrow> VolumeManager \<Rightarrow> VolumeMap \<Rightarrow> VolConfig list \<Rightarrow> VolumeManager \<times> (string + VolumeMap)" where
  "buildVolumes e cache vm vols [] = (vm, Inr vols)"
| "buildVolumes e cache vm vols (cfg # cfgs) =
     (let path = pathJoinAll [vcBasePath cfg, vcName cfg];
          vm = (if vcName cfg = ''nvidia'' then vm\<lparr>libraryPath := path\<rparr> else vm\<lparr>originLibraryPath := path\<rparr>)
      in case addComponents e cache \<lparr>volPath = path, volDirs = []\<rparr> (gorange (oOrd e) (vcComponents cfg)) of
           Inl err \<Rightarrow> (vm, Inl err)
         | Inr vol \<Rightarrow> buildVolumes e cache vm
             (if vcComponents cfg = [] then vols else AList.update (vcName cfg) vol vols) cfgs)"

text \<open>\<^verbatim>\<open>ldcache.Open\<close>, and \<^verbatim>\<open>Run\<close>: the error of unmapping the cache is returned when there is no other.\<close>

definition ldcacheOpen :: "vol_env \<Rightarrow> string + LDCache" where
  "ldcacheOpen e =
     (case oLdcache e of
        Inl err \<Rightarrow> Inl err
      | Inr bs \<Rightarrow> (case parseCache bs of
                    Inl ErrInvalidCache \<Rightarrow> Inl ''invalid ld.so.cache file''
                  | Inl UnexpectedEOF \<Rightarrow> Inl ''unexpected EOF''
                  | Inr c \<Rightarrow> Inr c))"

definition closing :: "vol_env \<Rightarrow> string option \<Rightarrow> string option" where
  "closing e err = (case err of None \<Rightarrow> oUnmapErr e | Some _ \<Rightarrow> err)"

definition runVolumes :: "vol_env \<Rightarrow> VolumeManager \<Rightarrow> string vol_result" where
  "runVolumes e vm =
     (case ldcacheOpen e of
        Inl err \<Rightarrow> Inr (vm, Some err)
      | Inr cache \<Rightarrow>
          (case buildVolumes e cache vm [] (vmgConfig vm) of
             (vm, Inl err) \<Rightarrow> Inr (vm, closing e (Some err))
           | (vm, Inr vols) \<Rightarrow> map_sum id (apsnd (closing e)) (mirror e vm vols)))"

end
