(* ===== verification/Volume_Laws.thy ===== *)
theory Volume_Laws
  imports Volume
begin

text \<open>
  What the volume manager does to the file system: every operation changes names inside a region only and
  no content that was there before. The laws are composed along the code.
\<close>

section \<open>Changes inside a region\<close>

text \<open>Outside the region names stay as they are, apart from new directories; the content of all inodes
  stays, whatever their names.\<close>

definition keeps :: "string set \<Rightarrow> vfs \<Rightarrow> vfs \<Rightarrow> bool" where
  "keeps R fs fs' \<longleftrightarrow>
     (\<forall>p. p \<notin> R \<longrightarrow> map_of (vNames fs') p = map_of (vNames fs) p
        \<or> map_of (vNames fs) p = None \<and> map_of (vNames fs') p = Some VDir)
   \<and> (\<forall>i < vFresh fs. vInodes fs' i = vInodes fs i) \<and> vFresh fs \<le> vFresh fs'"

text \<open>Hard links lead to inodes that exist.\<close>

definition fs_ok :: "vfs \<Rightarrow> bool" where
  "fs_ok fs \<longleftrightarrow> (\<forall>p i. map_of (vNames fs) p = Some (VHard i) \<longrightarrow> i < vFresh fs)"

definition safe :: "string set \<Rightarrow> vfs \<Rightarrow> vfs \<Rightarrow> bool" where
  "safe R fs fs' \<longleftrightarrow> keeps R fs fs' \<and> (fs_ok fs \<longrightarrow> fs_ok fs')"

lemma keeps_refl [simp]: "keeps R fs fs"
  by (simp add: keeps_def)

lemma keeps_trans: "keeps R a b \<Longrightarrow> keeps R b c \<Longrightarrow> keeps R a c"
  unfolding keeps_def by (smt (verit) dual_order.strict_trans1 le_trans option.distinct(1))

lemma safe_refl [simp]: "safe R fs fs"
  by (simp add: safe_def)

lemma safe_trans: "safe R a b \<Longrightarrow> safe R b c \<Longrightarrow> safe R a c"
  unfolding safe_def using keeps_trans by blast

lemma safe_mono: "safe R a b \<Longrightarrow> R \<subseteq> R' \<Longrightarrow> safe R' a b"
  unfolding safe_def keeps_def by blast

lemma safe_tick [simp]: "safe R fs (fsTick fs') = safe R fs fs'"
  by (simp add: safe_def keeps_def fs_ok_def fsTick_def)

lemma map_of_delete: "map_of (AList.delete p m) q = (if q = p then None else map_of m q)"
  by (simp add: delete_conv)

lemma map_of_update: "map_of (AList.update p v m) q = (if q = p then Some v else map_of m q)"
  by (simp add: update_conv)

lemmas fs_simps = setName_def fsTick_def map_of_delete map_of_update

section \<open>Operations of the file system\<close>

lemma fsRemove_safe:
  assumes "fsRemove e fs p = (fs', r)" "p \<in> R"
  shows "safe R fs fs'"
  using assms by (auto simp: fsRemove_def safe_def keeps_def fs_ok_def fs_simps split: if_splits option.splits rm_err.splits)

lemma removeFile_safe:
  assumes "removeFile e fs p = (fs', r)" "p \<in> R"
  shows "safe R fs fs'"
proof -
  obtain a b where a: "fsRemove e fs p = (a, b)" by fastforce
  then have "fs' = a" using assms(1) by (cases b) (auto simp: removeFile_def)
  with fsRemove_safe [OF a assms(2)] show ?thesis by simp
qed

lemma removeFile_gone:
  assumes "removeFile e fs p = (fs', None)"
  shows "map_of (vNames fs') p = None"
  using assms by (auto simp: removeFile_def fsRemove_def fs_simps split: if_splits option.splits rm_err.splits)

lemma fsSymlink_safe:
  assumes "fsSymlink e fs t l = (fs', r)" "l \<in> R"
  shows "safe R fs fs'"
  using assms by (auto simp: fsSymlink_def safe_def keeps_def fs_ok_def fs_simps split: if_splits option.splits)

lemma symlinkTolerant_safe:
  assumes "symlinkTolerant e fs t l = (fs', r)" "l \<in> R"
  shows "safe R fs fs'"
proof -
  obtain a b where a: "fsSymlink e fs t l = (a, b)" by fastforce
  then have "fs' = a" using assms(1) by (cases b) (auto simp: symlinkTolerant_def)
  with fsSymlink_safe [OF a assms(2)] show ?thesis by simp
qed

lemma mkdirs_safe: "safe R fs (foldl (\<lambda>fs q. if map_of (vNames fs) q = None then setName fs q VDir else fs) fs ps)"
proof (induction ps arbitrary: fs)
  case (Cons q ps)
  have "safe R fs (if map_of (vNames fs) q = None then setName fs q VDir else fs)"
    by (auto simp: safe_def keeps_def fs_ok_def fs_simps)
  from safe_trans [OF this Cons.IH] show ?case by simp
qed simp

lemma fsMkdirAll_safe: "fsMkdirAll e fs p = (fs', r) \<Longrightarrow> safe R fs fs'"
  using mkdirs_safe by (auto simp: fsMkdirAll_def split: option.splits)

text \<open>Cloning to a name that does not exist links it, or creates a new inode for it.\<close>

lemma follow_absent: "map_of (vNames fs) p = None \<Longrightarrow> follow 40 fs p = Some p"
  using follow.simps(2) [of 39 fs p] by (simp add: eval_nat_numeral)

lemma follow_hard: "map_of (vNames fs) p = Some (VHard i) \<Longrightarrow> follow 40 fs p = Some p"
  using follow.simps(2) [of 39 fs p] by (simp add: eval_nat_numeral)

lemma fallbackCopy_safe:
  assumes "fallbackCopy e fs src dst = (fs', r)" "map_of (vNames fs) dst = None" "dst \<in> R"
  shows "safe R fs fs'"
  using assms
  by (auto simp: fallbackCopy_def fsCreate_def follow_absent safe_def keeps_def fs_ok_def fs_simps less_Suc_eq
      split: option.splits if_splits)

lemma fsLink_safe:
  assumes "fsLink e fs src dst = (fs', r)" "dst \<in> R"
  shows "safe R fs fs'"
  using assms by (auto simp: fsLink_def safe_def keeps_def fs_ok_def fs_simps split: option.splits vnode.splits if_splits)

lemma fsLink_err: "fsLink e fs src dst = (fs', Some err) \<Longrightarrow> fs' = fsTick fs"
  by (auto simp: fsLink_def split: option.splits vnode.splits if_splits)

lemma clone_safe:
  assumes "clone e fs src dst = (fs', r)" "map_of (vNames fs) dst = None" "dst \<in> R"
  shows "safe R fs fs'"
proof -
  obtain a b where a: "fsLink e fs src dst = (a, b)" by fastforce
  show ?thesis
  proof (cases b)
    case None
    with a assms(1) fsLink_safe [OF a assms(3)] show ?thesis by (simp add: clone_def)
  next
    case (Some err)
    with a fsLink_err have t: "a = fsTick fs" by blast
    with Some a assms(1) have "fallbackCopy e (fsTick fs) src dst = (fs', r)" by (simp add: clone_def)
    moreover have "safe R fs (fsTick fs)" by simp
    ultimately show ?thesis using fallbackCopy_safe [of e "fsTick fs" src dst fs' r R] assms(2,3) safe_trans
      by (fastforce simp: fsTick_def)
  qed
qed

section \<open>Names in a directory\<close>

text \<open>All paths that start with the given string.\<close>

definition prefixed :: "string \<Rightarrow> string set" where
  "prefixed pre = {p. hasPrefix p pre}"

lemma prefixed_append [simp]: "pre @ u \<in> prefixed pre"
  by (simp add: prefixed_def hasPrefix_def)

lemma prefixed_mono: "prefixed (pre @ u) \<subseteq> prefixed pre"
proof
  fix p
  assume "p \<in> prefixed (pre @ u)"
  then have "p = (pre @ u) @ drop (length (pre @ u)) p"
    unfolding prefixed_def hasPrefix_def mem_Collect_eq by (metis append_take_drop_id)
  then show "p \<in> prefixed pre" by (metis append_assoc prefixed_append)
qed

text \<open>A directory in a volume whose path does not hold the name that is replaced in GLX libraries.\<close>

definition volDirPre :: "string \<Rightarrow> bool" where
  "volDirPre pre \<longleftrightarrow> (\<exists>x. pre = x @ ''/'' \<and> indexOf x ''GLX_nvidia'' = None)"

lemma version_slash: "\<not> isVersionChar (CHR ''/'')"
  by (simp add: isVersionChar_def)

lemma trimmed_in: "volDirPre pre \<Longrightarrow> trimRight (pre @ u) isVersionChar \<in> prefixed pre"
  unfolding volDirPre_def using trimRight_keep [of isVersionChar "CHR ''/''", OF version_slash]
  by (metis append.assoc append_Cons append_Nil prefixed_append)

lemma indirectName_pre:
  assumes "volDirPre pre"
  obtains u' where "indirectName (pre @ u) = pre @ u'"
proof (cases "indexOf (pre @ u) ''GLX_nvidia''")
  case None
  then show ?thesis using that by (simp add: indirectName_def)
next
  case (Some i)
  obtain x where x: "pre = x @ ''/''" "indexOf x ''GLX_nvidia'' = None" using assms by (auto simp: volDirPre_def)
  have "indexOf (x @ CHR ''/'' # u) ''GLX_nvidia'' = map_option (\<lambda>i. i + length x + 1) (indexOf u ''GLX_nvidia'')"
    using indexOf_cut [of "CHR ''/''" "''GLX_nvidia''" x u] x(2) by simp
  with Some obtain j where "i = j + length pre" by (auto simp: x(1))
  then have "indirectName (pre @ u) = pre @ take j u @ ''GLX_indirect'' @ drop (i + 10) (pre @ u)"
    using Some by (simp add: indirectName_def)
  then show ?thesis using that by blast
qed

section \<open>Operations of the manager\<close>

lemma linkIfNotSameName_safe:
  assumes "linkIfNotSameName e fs src dst = (fs', r)" "dst \<in> R" "trimRight dst isVersionChar \<in> R"
  shows "safe R fs fs'"
proof (cases "pathBase src = pathBase dst")
  case False
  define l where "l = trimRight dst isVersionChar"
  obtain f1 e1 where 1: "removeFile e fs dst = (f1, e1)" by fastforce
  obtain f2 e2 where 2: "removeFile e f1 l = (f2, e2)" by fastforce
  obtain f3 e3 where 3: "symlinkTolerant e f2 src l = (f3, e3)" by fastforce
  obtain f4 e4 where 4: "symlinkTolerant e f3 src dst = (f4, e4)" by fastforce
  have s1: "safe R fs f1" using removeFile_safe [OF 1 assms(2)] .
  have s2: "safe R fs f2" using safe_trans [OF s1 removeFile_safe [OF 2]] assms(3) by (simp add: l_def)
  have s3: "safe R fs f3" using safe_trans [OF s2 symlinkTolerant_safe [OF 3]] assms(3) by (simp add: l_def)
  have s4: "safe R fs f4" using safe_trans [OF s3 symlinkTolerant_safe [OF 4 assms(2)]] .
  have "fs' \<in> {f1, f2, f3, f4}"
    using assms(1) False 1 2 3 4
    by (auto simp: linkIfNotSameName_def Let_def l_def [symmetric] split: option.splits if_splits)
  with s1 s2 s3 s4 show ?thesis by auto
qed (use assms(1) in \<open>simp add: linkIfNotSameName_def\<close>)

text \<open>The names that are kept for the control library, with the names they are stripped to.\<close>

definition sonames :: "VolumeManager \<Rightarrow> string set" where
  "sonames vm = fst ` set (cudaSoname vm) \<union> fst ` set (mlSoName vm)"

definition sonames_in :: "string set \<Rightarrow> VolumeManager \<Rightarrow> bool" where
  "sonames_in R vm \<longleftrightarrow> (\<forall>p \<in> sonames vm. p \<in> R \<and> trimRight p isVersionChar \<in> R)
     \<and> (\<forall>(k, v) \<in> set (cudaSoname vm) \<union> set (mlSoName vm). v = k)"

definition vmsafe :: "string set \<Rightarrow> VolumeManager \<Rightarrow> VolumeManager \<Rightarrow> bool" where
  "vmsafe R vm vm' \<longleftrightarrow> safe R (vmgFs vm) (vmgFs vm') \<and> (sonames_in R vm \<longrightarrow> sonames_in R vm')
     \<and> vmgShare vm' = vmgShare vm \<and> sonames vm \<subseteq> sonames vm'"

lemma vmsafe_refl [simp]: "vmsafe R vm vm"
  by (simp add: vmsafe_def)

lemma vmsafe_trans: "vmsafe R a b \<Longrightarrow> vmsafe R b c \<Longrightarrow> vmsafe R a c"
  unfolding vmsafe_def using safe_trans by (metis subset_trans)

lemma vmsafe_fs: "safe R (vmgFs vm) fs \<Longrightarrow> vmsafe R vm (vm\<lparr>vmgFs := fs\<rparr>)"
  by (simp add: vmsafe_def sonames_in_def sonames_def)

lemma update_soname: "set (AList.update l l m) \<subseteq> insert (l, l) (set m)" "fst ` set (AList.update l l m) = insert l (fst ` set m)"
  using set_update_subset [of l l m] dom_update [of l l m] by (auto simp: dom_map_of_conv_image_fst)

lemma vmsafe_soname:
  assumes "safe R (vmgFs vm) fs" "l \<in> R" "trimRight l isVersionChar \<in> R"
  shows "vmsafe R vm (vm\<lparr>vmgFs := fs, cudaSoname := AList.update l l (cudaSoname vm)\<rparr>)"
    "vmsafe R vm (vm\<lparr>vmgFs := fs, mlSoName := AList.update l l (mlSoName vm)\<rparr>)"
  using assms update_soname [of l "cudaSoname vm"] update_soname [of l "mlSoName vm"]
  by (auto simp: vmsafe_def sonames_in_def sonames_def)

lemma linkSoname_safe:
  assumes "linkSoname e vm driver vpath file soname = (vm', r)" "properSeg soname"
    and "volDirPre (joinPre vpath)" "prefixed (joinPre vpath) \<subseteq> R"
  shows "vmsafe R vm vm'"
proof -
  define pre where "pre = joinPre vpath"
  define l where "l = pathJoinAll [vpath, soname]"
  have l: "l = pre @ soname" by (simp add: l_def pre_def pathJoinAll_pre [OF assms(2)])
  have R: "pre @ u \<in> R" "trimRight (pre @ u) isVersionChar \<in> R" for u
    using assms(3,4) trimmed_in [OF assms(3)] by (auto simp: pre_def)
  note lR = R [of soname, folded l]
  obtain f1 e1 where 1: "linkIfNotSameName e (vmgFs vm) (pathBase file) l = (f1, e1)" by fastforce
  define v1 where "v1 = vm\<lparr>vmgFs := f1\<rparr>"
  have s1: "vmsafe R vm v1" unfolding v1_def by (rule vmsafe_fs [OF linkIfNotSameName_safe [OF 1 lR]])
  define v2 where "v2 = (if vmgShare v1 \<and> driver = ''nvidia'' \<and> hasPrefix soname ''libcuda.so''
     then v1\<lparr>vmgFs := fst (fsRemove e (vmgFs v1) l), cudaSoname := AList.update l l (cudaSoname v1)\<rparr> else v1)"
  have "vmsafe R v1 v2" unfolding v2_def
    using vmsafe_soname(1) [OF fsRemove_safe [OF prod.collapse [symmetric] lR(1)] lR] by simp
  with s1 have s2: "vmsafe R vm v2" by (rule vmsafe_trans)
  define v3 where "v3 = (if vmgShare v2 \<and> driver = ''nvidia'' \<and> hasPrefix soname ''libnvidia-ml.so''
     then v2\<lparr>vmgFs := fst (fsRemove e (vmgFs v2) l), mlSoName := AList.update l l (mlSoName v2)\<rparr> else v2)"
  have "vmsafe R v2 v3" unfolding v3_def
    using vmsafe_soname(2) [OF fsRemove_safe [OF prod.collapse [symmetric] lR(1)] lR] by simp
  with s2 have s3: "vmsafe R vm v3" by (rule vmsafe_trans)
  obtain u' where u': "indirectName l = pre @ u'" unfolding l using indirectName_pre [OF assms(3)] by (auto simp: pre_def)
  obtain f4 e4 where 4: "linkIfNotSameName e (vmgFs v3) (pathBase file) (indirectName l) = (f4, e4)" by fastforce
  have "vmsafe R v3 (v3\<lparr>vmgFs := f4\<rparr>)" using vmsafe_fs [OF linkIfNotSameName_safe [OF 4]] R [of u'] u' by simp
  with s3 have s4: "vmsafe R vm (v3\<lparr>vmgFs := f4\<rparr>)" by (rule vmsafe_trans)
  have "vm' \<in> {v1, v3, v3\<lparr>vmgFs := f4\<rparr>}"
    using assms(1) unfolding linkSoname_def Let_def l_def [symmetric] 1 prod.case v1_def [symmetric] v2_def [symmetric]
      v3_def [symmetric] 4 by (auto split: if_splits)
  with s1 s3 s4 show ?thesis by auto
qed

text \<open>A file with the header of an ELF object is not a directory, and sonames are names with a letter.\<close>

definition elf_ok :: "vol_env \<Rightarrow> bool" where
  "elf_ok e \<longleftrightarrow> (\<forall>file obj. oElf e file = Inr obj \<longrightarrow> properSeg (pathBase file)
     \<and> (\<forall>s ss. elfSoname obj = Inr (s # ss) \<longrightarrow> properSeg s \<and> \<not> list_all isVersionChar s))"

lemma mirrorFiles_safe:
  assumes "mirrorFiles e vm driver vpath file = Inr (vm', r)" "elf_ok e"
    and "volDirPre (joinPre vpath)" "prefixed (joinPre vpath) \<subseteq> R"
  shows "vmsafe R vm vm'"
proof (cases "\<exists>obj. oElf e file = Inr obj \<and> blacklisted file obj = Inr (Inr False)")
  case False
  then have "vm' = vm" using assms(1) by (auto simp: mirrorFiles_def split: sum.splits bool.splits)
  then show ?thesis by simp
next
  case True
  then obtain obj where obj: "oElf e file = Inr obj" "blacklisted file obj = Inr (Inr False)" by blast
  have base: "properSeg (pathBase file)" and son: "\<And>s ss. elfSoname obj = Inr (s # ss) \<Longrightarrow> properSeg s"
    using assms(2) obj(1) by (auto simp: elf_ok_def)
  define l where "l = pathJoinAll [vpath, pathBase file]"
  have lR: "l \<in> R" using assms(4) by (auto simp: l_def pathJoinAll_pre [OF base])
  obtain f1 e1 where 1: "removeFile e (vmgFs vm) l = (f1, e1)" by fastforce
  have s1: "safe R (vmgFs vm) f1" by (rule removeFile_safe [OF 1 lR])
  note eq = assms(1) [unfolded mirrorFiles_def obj sum.case bool.case Let_def, folded l_def, unfolded 1 prod.case]
  show ?thesis
  proof (cases e1)
    case (Some err)
    with eq s1 show ?thesis by (auto intro: vmsafe_fs)
  next
    case None
    obtain f2 e2 where 2: "clone e f1 file l = (f2, e2)" by fastforce
    have "safe R f1 f2" using clone_safe [OF 2 removeFile_gone lR] 1 None by blast
    then have s2: "vmsafe R vm (vm\<lparr>vmgFs := f2\<rparr>)" by (rule vmsafe_fs [OF safe_trans [OF s1]])
    show ?thesis
    proof (cases "e2 = None \<and> (\<exists>s ss. elfSoname obj = Inr (s # ss))")
      case True
      then obtain s ss where s: "elfSoname obj = Inr (s # ss)" by blast
      with True eq None 2 have "linkSoname e (vm\<lparr>vmgFs := f2\<rparr>) driver vpath file s = (vm', r)" by simp
      from linkSoname_safe [OF this son [OF s] assms(3,4)] s2 show ?thesis by (rule vmsafe_trans [rotated])
    next
      case False
      then have "vm' = vm\<lparr>vmgFs := f2\<rparr>" using eq None 2 by (auto split: option.splits sum.splits list.splits)
      with s2 show ?thesis by simp
    qed
  qed
qed

lemma noteFile_frame:
  assumes "noteFile vm f = Inr vm'"
  shows "vmgFs vm' = vmgFs vm" "cudaSoname vm' = cudaSoname vm" "mlSoName vm' = mlSoName vm" "vmgShare vm' = vmgShare vm"
  using assms unfolding noteFile_def Let_def by (auto split: list.split_asm if_split_asm)

lemma noteFile_safe: "noteFile vm f = Inr vm' \<Longrightarrow> vmsafe R vm vm'"
  by (simp add: noteFile_frame vmsafe_def sonames_in_def sonames_def)

lemma mirrorDir_safe:
  assumes "elf_ok e" "volDirPre (joinPre vpath)" "prefixed (joinPre vpath) \<subseteq> R"
  shows "mirrorDir e vm driver vpath files = Inr (vm', r) \<Longrightarrow> vmsafe R vm vm'"
proof (induction files arbitrary: vm)
  case (Cons f files)
  from Cons.prems obtain v1 r1 where 1: "mirrorFiles e vm driver vpath f = Inr (v1, r1)"
    by (auto split: sum.splits)
  have s1: "vmsafe R vm v1" by (rule mirrorFiles_safe [OF 1 assms])
  show ?case
  proof (cases r1)
    case None
    with Cons.prems 1 obtain v2 where 2: "noteFile v1 f = Inr v2" "mirrorDir e v2 driver vpath files = Inr (vm', r)"
      by (auto split: sum.splits)
    show ?thesis using vmsafe_trans [OF vmsafe_trans [OF s1 noteFile_safe [OF 2(1)]] Cons.IH [OF 2(2)]] .
  qed (use Cons.prems 1 s1 in auto)
qed simp

text \<open>A volume of the manager: its path does not hold the replaced name, its directories are the three of
  the code.\<close>

definition volume_ok :: "string set \<Rightarrow> VolumeT \<Rightarrow> bool" where
  "volume_ok R v \<longleftrightarrow> \<not> containsStr (joinPre (volPath v)) ''GLX_nvidia'' \<and> prefixed (joinPre (volPath v)) \<subseteq> R
     \<and> list_all (\<lambda>d. vdName d \<in> {binDir, lib32Dir, lib64Dir}) (volDirs v)"

lemma joinPre_end: "joinPre d = [] \<or> (\<exists>x. joinPre d = x @ ''/'')"
  by (auto simp: joinPre_def)

lemma volume_dir:
  assumes "volume_ok R v" "d \<in> set (volDirs v)"
  defines "vpath \<equiv> pathJoinAll [volPath v, vdName d]"
  shows "volDirPre (joinPre vpath)" "prefixed (joinPre vpath) \<subseteq> R"
proof -
  have d: "properSeg (vdName d)" "indexOf (vdName d) ''GLX_nvidia'' = None"
    using assms(1,2) by (auto simp: volume_ok_def list_all_iff binDir_def lib32Dir_def lib64Dir_def properSeg_def hasPrefix_def)
  have pre: "joinPre vpath = joinPre (volPath v) @ vdName d @ ''/''" unfolding vpath_def by (rule joinPre_join [OF d(1)])
  with assms(1) prefixed_mono show "prefixed (joinPre vpath) \<subseteq> R" unfolding volume_ok_def by fastforce
  have no: "indexOf (joinPre (volPath v)) ''GLX_nvidia'' = None" using assms(1) by (simp add: volume_ok_def containsStr_def)
  have "indexOf (joinPre (volPath v) @ vdName d) ''GLX_nvidia'' = None"
  proof (cases "joinPre (volPath v) = []")
    case False
    then obtain x where x: "joinPre (volPath v) = x @ ''/''" using joinPre_end by blast
    have cut: "indexOf (x @ CHR ''/'' # b) ''GLX_nvidia'' = (case indexOf x ''GLX_nvidia'' of Some i \<Rightarrow> Some i
        | None \<Rightarrow> map_option (\<lambda>i. i + length x + 1) (indexOf b ''GLX_nvidia''))" for b
      by (rule indexOf_cut) simp_all
    from no have "indexOf x ''GLX_nvidia'' = None" unfolding x by (simp add: cut split: option.splits)
    with d(2) show ?thesis by (simp add: x cut)
  qed (use d(2) in simp)
  then show "volDirPre (joinPre vpath)" unfolding volDirPre_def pre by (metis append.assoc)
qed

lemma mirrorDirs_safe:
  assumes "elf_ok e" "volume_ok R v"
  shows "set ds \<subseteq> set (volDirs v) \<Longrightarrow> mirrorDirs e vm driver (volPath v) ds = Inr (vm', r) \<Longrightarrow> vmsafe R vm vm'"
proof (induction ds arbitrary: vm)
  case (Cons d ds)
  define vpath where "vpath = pathJoinAll [volPath v, vdName d]"
  have dir: "volDirPre (joinPre vpath)" "prefixed (joinPre vpath) \<subseteq> R"
    using volume_dir [OF assms(2)] Cons.prems(1) by (simp_all add: vpath_def)
  obtain f1 r1 where 1: "fsMkdirAll e (vmgFs vm) vpath = (f1, r1)" by fastforce
  have s1: "vmsafe R vm (vm\<lparr>vmgFs := f1\<rparr>)" by (rule vmsafe_fs [OF fsMkdirAll_safe [OF 1]])
  note eq = Cons.prems(2) [unfolded mirrorDirs.simps Let_def, folded vpath_def, unfolded 1 prod.case]
  show ?case
  proof (cases r1)
    case None
    with eq obtain v2 r2 where 2: "mirrorDir e (vm\<lparr>vmgFs := f1\<rparr>) driver vpath (vdFiles d) = Inr (v2, r2)"
      by (auto split: sum.splits)
    have s2: "vmsafe R vm v2" using vmsafe_trans [OF s1 mirrorDir_safe [OF assms(1) dir 2]] .
    show ?thesis
    proof (cases r2)
      case None
      with eq \<open>r1 = None\<close> 2 have "mirrorDirs e v2 driver (volPath v) ds = Inr (vm', r)" by simp
      with Cons.IH [of v2] Cons.prems(1) s2 show ?thesis by (auto intro: vmsafe_trans)
    qed (use eq \<open>r1 = None\<close> 2 s2 in auto)
  qed (use eq s1 in auto)
qed simp

lemma mirrorVolume_safe:
  assumes "elf_ok e" "volume_ok R v" "mirrorVolume e vm driver v = Inr (vm', r)"
  shows "vmsafe R vm vm'"
proof (cases "volExist e (vmgFs vm) v")
  case True
  with assms(3) mirrorDirs_safe [OF assms(1,2) subset_refl] show ?thesis by (simp add: mirrorVolume_def)
next
  case False
  obtain f1 r1 where 1: "fsMkdirAll e (vmgFs vm) (volPath v) = (f1, r1)" by fastforce
  have s1: "vmsafe R vm (vm\<lparr>vmgFs := f1\<rparr>)" by (rule vmsafe_fs [OF fsMkdirAll_safe [OF 1]])
  from False assms(3) 1 have "vm' = vm\<lparr>vmgFs := f1\<rparr> \<or> mirrorDirs e (vm\<lparr>vmgFs := f1\<rparr>) driver (volPath v) (volDirs v) = Inr (vm', r)"
    by (auto simp: mirrorVolume_def split: option.splits)
  with s1 mirrorDirs_safe [OF assms(1,2) subset_refl] show ?thesis by (blast intro: vmsafe_trans)
qed

lemma mirrorVolumes_safe:
  assumes "elf_ok e"
  shows "list_all (\<lambda>(n, v). volume_ok R v) vols \<Longrightarrow> mirrorVolumes e vm vols = Inr (vm', r) \<Longrightarrow> vmsafe R vm vm'"
proof (induction vols arbitrary: vm)
  case (Cons nv vols)
  obtain n v where nv: "nv = (n, v)" by fastforce
  with Cons.prems obtain v1 r1 where 1: "mirrorVolume e vm n v = Inr (v1, r1)" by (auto split: sum.splits)
  have s1: "vmsafe R vm v1" using mirrorVolume_safe [OF assms _ 1] Cons.prems(1) nv by simp
  show ?case
  proof (cases r1)
    case None
    with Cons.prems nv 1 have "mirrorVolumes e v1 vols = Inr (vm', r)" by simp
    with Cons.IH [of v1] Cons.prems(1) s1 show ?thesis by (auto intro: vmsafe_trans)
  qed (use Cons.prems nv 1 s1 in auto)
qed simp

section \<open>The control library\<close>

lemma replaceBy_safe:
  assumes "replaceBy e fs control p = (fs', r)" "p \<in> R"
  shows "safe R fs fs'"
proof -
  obtain f1 r1 where 1: "removeFile e fs p = (f1, r1)" by fastforce
  have s1: "safe R fs f1" by (rule removeFile_safe [OF 1 assms(2)])
  show ?thesis
  proof (cases r1)
    case None
    with assms(1) 1 have "clone e f1 control p = (fs', r)" by (simp add: replaceBy_def)
    from clone_safe [OF this removeFile_gone assms(2)] 1 None have "safe R f1 fs'" by blast
    with s1 show ?thesis by (rule safe_trans)
  qed (use assms(1) 1 s1 in \<open>auto simp: replaceBy_def\<close>)
qed

text \<open>A name that is a hard link to a file of the given content.\<close>

definition holds :: "vfs \<Rightarrow> string \<Rightarrow> string \<Rightarrow> bool" where
  "holds fs c p \<longleftrightarrow> (\<exists>i. map_of (vNames fs) p = Some (VHard i) \<and> i < vFresh fs \<and> vInodes fs i = c)"

lemma holds_safe: "holds fs c q \<Longrightarrow> safe R fs fs' \<Longrightarrow> q \<notin> R \<Longrightarrow> holds fs' c q"
  by (force simp: holds_def safe_def keeps_def)

lemma clone_holds:
  assumes "clone e fs src dst = (fs', None)" "map_of (vNames fs) dst = None" "holds fs c src"
  shows "holds fs' c dst"
proof -
  obtain i where i: "map_of (vNames fs) src = Some (VHard i)" "i < vFresh fs" "vInodes fs i = c"
    using assms(3) by (auto simp: holds_def)
  show ?thesis
  proof (cases "fsLink e fs src dst")
    case (Pair a b)
    show ?thesis
    proof (cases b)
      case None
      with Pair assms(1,2) i have "fs' = fsTick (setName fs dst (VHard i))"
        by (auto simp: clone_def fsLink_def split: option.splits if_splits)
      with i show ?thesis by (simp add: holds_def fs_simps)
    next
      case (Some err)
      with Pair fsLink_err have "a = fsTick fs" by blast
      with Some Pair assms(1) have c: "fallbackCopy e (fsTick fs) src dst = (fs', None)" by (simp add: clone_def)
      have n: "map_of (vNames (fsTick fs)) dst = None" "map_of (vNames (fsTick fs)) src = Some (VHard i)"
        using assms(2) i(1) by (simp_all add: fsTick_def)
      have "inodeAt (fsTick fs) src = Some i" using n(2) by (simp add: inodeAt_def follow_hard)
      with c n(1) i show ?thesis
        by (auto simp: fallbackCopy_def fsCreate_def follow_absent holds_def fs_simps split: option.splits)
    qed
  qed
qed

lemma replaceBy_holds:
  assumes "replaceBy e fs control p = (fs', None)" "holds fs c control" "control \<noteq> p"
  shows "holds fs' c p"
proof -
  obtain f1 where 1: "removeFile e fs p = (f1, None)" "clone e f1 control p = (fs', None)"
    using assms(1) by (auto simp: replaceBy_def split: prod.splits option.splits)
  have "holds f1 c control" using holds_safe [OF assms(2) removeFile_safe [OF 1(1), of "{p}"]] assms(3) by simp
  with clone_holds [OF 1(2) removeFile_gone [OF 1(1)]] show ?thesis .
qed

lemma vCudaFile_steps:
  assumes "vCudaFile e fs control f = (fs', r)"
  obtains "replaceBy e fs control f = (fs', r)" "r \<noteq> None"
  | f1 where "replaceBy e fs control f = (f1, None)" "replaceBy e f1 control (trimRight f isVersionChar) = (fs', r)"
  using assms by (cases "replaceBy e fs control f") (auto simp: vCudaFile_def split: option.splits)

lemma vCudaFile_safe:
  assumes "vCudaFile e fs control f = (fs', r)" "f \<in> R" "trimRight f isVersionChar \<in> R"
  shows "safe R fs fs'"
  using vCudaFile_steps [OF assms(1)] replaceBy_safe assms(2,3) safe_trans by metis

lemma holds_replaceBy:
  assumes "replaceBy e fs control p = (fs', None)" "holds fs c control" "control \<noteq> p" "holds fs c q"
  shows "holds fs' c q"
  using assms replaceBy_holds [OF assms(1-3)] holds_safe [OF assms(4) replaceBy_safe [OF assms(1), of "{p}"]]
  by (cases "q = p") auto

lemma vCudaFiles_safe:
  "vCudaFiles e fs control fl = (fs', r) \<Longrightarrow> \<forall>f \<in> set fl. f \<in> R \<and> trimRight f isVersionChar \<in> R \<Longrightarrow> safe R fs fs'"
proof (induction fl arbitrary: fs)
  case (Cons f fl)
  obtain f1 r1 where 1: "vCudaFile e fs control f = (f1, r1)" by fastforce
  have s1: "safe R fs f1" using vCudaFile_safe [OF 1] Cons.prems(2) by simp
  show ?case
  proof (cases r1)
    case None
    with Cons.prems(1) 1 have "vCudaFiles e f1 control fl = (fs', r)" by simp
    with Cons.IH Cons.prems(2) s1 show ?thesis by (auto intro: safe_trans)
  qed (use Cons.prems(1) 1 s1 in auto)
qed simp

lemma vCudaFiles_holds:
  assumes "vCudaFiles e fs control fl = (fs', None)" "holds fs c control"
    and "\<forall>f \<in> set fl. control \<noteq> f \<and> control \<noteq> trimRight f isVersionChar"
  shows "holds fs c q \<Longrightarrow> holds fs' c q" "f \<in> set fl \<Longrightarrow> holds fs' c f \<and> holds fs' c (trimRight f isVersionChar)"
proof -
  have "(holds fs c q \<longrightarrow> holds fs' c q) \<and> (f \<in> set fl \<longrightarrow> holds fs' c f \<and> holds fs' c (trimRight f isVersionChar))" for q f
    using assms
  proof (induction fl arbitrary: fs q f)
    case (Cons x fl)
    obtain f1 r1 where 1: "vCudaFile e fs control x = (f1, r1)" by fastforce
    with Cons.prems(1) have r: "r1 = None" "vCudaFiles e f1 control fl = (fs', None)" by (cases r1; simp)+
    with vCudaFile_steps [OF 1] obtain f0 where 0: "replaceBy e fs control x = (f0, None)"
      "replaceBy e f0 control (trimRight x isVersionChar) = (f1, None)" by metis
    have ne: "control \<noteq> x" "control \<noteq> trimRight x isVersionChar" using Cons.prems(3) by auto
    note a = holds_replaceBy [OF 0(1) Cons.prems(2) ne(1)] and x = replaceBy_holds [OF 0(1) Cons.prems(2) ne(1)]
    note b = holds_replaceBy [OF 0(2) a [OF Cons.prems(2)] ne(2)] and y = replaceBy_holds [OF 0(2) a [OF Cons.prems(2)] ne(2)]
    note ih = Cons.IH [OF r(2) b [OF a [OF Cons.prems(2)]]]
    have rest: "\<forall>f \<in> set fl. control \<noteq> f \<and> control \<noteq> trimRight f isVersionChar" using Cons.prems(3) by simp
    show ?case using ih [OF rest] a b b [OF x] y by auto
  qed simp
  then show "holds fs c q \<Longrightarrow> holds fs' c q" "f \<in> set fl \<Longrightarrow> holds fs' c f \<and> holds fs' c (trimRight f isVersionChar)" by blast+
qed

end
