(* ===== verification/Ldcache_Theorems.thy ===== *)
theory Ldcache_Theorems
  imports Ldcache
begin

text \<open>
  The parser reads back what the format's writer wrote, in the new format alone and behind a part in the
  old one; the lookup returns exactly the resolved paths of the matching entries; and both together find a
  library by its name.
\<close>

section \<open>Parsing\<close>

lemma byteChar_charByte [simp]: "byteChar (charByte c) = c"
proof -
  have "unat (word_of_nat (of_char c) :: byte) = of_char c mod 2 ^ 8" by (simp add: unat_of_nat)
  then show ?thesis by (simp add: byteChar_def charByte_def)
qed

lemma strOf_bytesOf [simp]: "strOf (bytesOf s) = s"
  by (simp add: strOf_def bytesOf_def map_idI)

lemma length_bytesOf [simp]: "length (bytesOf s) = length s"
  by (simp add: bytesOf_def)

lemma take_bytesOf: "take n (bytesOf s) = bytesOf (take n s)"
  by (simp add: bytesOf_def take_map)

lemma length_encHeader2: "length (encHeader2 (newHeader n ts)) = header2Size"
  by (simp add: encHeader2_def newHeader_def header2Size_def magicString2_def magicVersion_def u32.enc_width)

lemma decHeader2_enc: "decHeader2 (encHeader2 (newHeader n ts)) = newHeader n ts"
  by (simp add: decHeader2_def encHeader2_def newHeader_def magicString2_def magicVersion_def u32.enc_width u32.dec_enc)

definition validPrefix :: "byte list \<Rightarrow> bool" where
  "validPrefix pre \<longleftrightarrow> pre = [] \<or> (\<exists>olds. pre = oldPart olds \<and> length olds mod entry1Size = 0 \<and> length olds div entry1Size < 2 ^ 32)"

lemma newFormatAt_prefix:
  assumes "validPrefix pre"
  shows "newFormatAt (pre @ newPart es ts strings) = length pre"
proof (cases "pre = []")
  case True
  have "length magicString1 = 11" by (simp add: magicString1_def)
  moreover have "take 11 (newPart es ts strings) = bytesOf (take 11 magicString2)"
    by (simp add: newPart_def encHeader2_def newHeader_def take_bytesOf magicString2_def)
  moreover have "take 11 magicString2 \<noteq> magicString1" by (simp add: magicString1_def magicString2_def)
  ultimately show ?thesis using True by (simp add: newFormatAt_def)
next
  case False
  then obtain olds where olds: "pre = oldPart olds" "length olds mod entry1Size = 0" "length olds div entry1Size < 2 ^ 32"
    using assms by (auto simp: validPrefix_def)
  define n where "n = length olds div entry1Size"
  have len: "length olds = n * entry1Size" using olds(2) mult_div_mod_eq [of entry1Size "length olds"] by (simp add: n_def mult.commute)
  have "take (length magicString1) (pre @ newPart es ts strings) = bytesOf magicString1"
    by (simp add: olds(1) oldPart_def Let_def)
  moreover have "take 4 (drop 12 (pre @ newPart es ts strings)) = encU32 (word_of_nat n)"
    by (simp add: olds(1) oldPart_def Let_def magicString1_def u32.enc_width n_def)
  moreover have "unat (word_of_nat n :: 32 word) = n" using olds(3) by (simp add: unat_of_nat n_def)
  moreover have "length pre = header1Size + n * entry1Size + nat ((- int (header1Size + n * entry1Size)) mod 8)"
    by (simp add: olds(1) oldPart_def Let_def magicString1_def u32.enc_width header1Size_def len flip: n_def)
  ultimately show ?thesis by (simp add: newFormatAt_def u32.dec_enc Let_def)
qed

lemma parseCache_written:
  assumes "validPrefix pre" "length es < 2 ^ 32"
  shows "parseCache (pre @ newPart es ts strings)
    = Inr \<lparr>ldLibs = newPart es ts strings, ldHeader = newHeader (length es) ts, ldEntries = es\<rparr>"
proof -
  let ?h = "encHeader2 (newHeader (length es) ts)" and ?t = "concat (map encEntry2 es)"
  have n: "unat (hNLibs (newHeader (length es) ts)) = length es"
    using assms(2) by (simp add: newHeader_def unat_of_nat)
  have h: "length ?h = header2Size" by (rule length_encHeader2)
  have t: "length ?t = entry2Size * length es" by (rule entry2.length_table)
  have r1: "readAt (pre @ newPart es ts strings) (length pre) header2Size = Some ?h"
    using h by (simp add: readAt_def newPart_def)
  have r2: "readAt (pre @ newPart es ts strings) (length pre + header2Size) (entry2Size * length es) = Some ?t"
    using h t by (simp add: readAt_def newPart_def)
  have tab: "decTable entry2Size decEntry2 (length es) ?t = es"
    using entry2.decTable_enc [of es "[]"] by simp
  have magic: "strOf (hMagic (newHeader (length es) ts)) = magicString2" "strOf (hVersion (newHeader (length es) ts)) = magicVersion"
    by (simp_all add: newHeader_def)
  have "header1Size < length (pre @ newPart es ts strings)"
    using h by (simp add: newPart_def header1Size_def header2Size_def)
  then show ?thesis
    unfolding parseCache_def newFormatAt_prefix [OF assms(1)] Let_def r1 option.case decHeader2_enc magic n r2 tab
    by simp
qed

section \<open>Lookup\<close>

text \<open>What the lookup has collected after some entries.\<close>

definition found :: "(string \<Rightarrow> string option) \<Rightarrow> byte list \<Rightarrow> string list \<Rightarrow> Entry2 list \<Rightarrow> bool \<Rightarrow> string \<Rightarrow> bool" where
  "found evalLinks libs names es is64 path \<longleftrightarrow>
     (\<exists>e \<in> set es. entryArch e = Some is64 \<and> entryPath evalLinks libs names e = Some path)"

definition lookup_ok :: "(string \<Rightarrow> string option) \<Rightarrow> byte list \<Rightarrow> string list \<Rightarrow> Entry2 list \<Rightarrow> lookup_state \<Rightarrow> bool" where
  "lookup_ok evalLinks libs names es s \<longleftrightarrow>
     set (lkSet s) = set (paths32 s) \<union> set (paths64 s) \<and> distinct (paths32 s @ paths64 s)
     \<and> (\<forall>p. (p \<in> set (paths32 s) \<longrightarrow> found evalLinks libs names es False p)
          \<and> (p \<in> set (paths64 s) \<longrightarrow> found evalLinks libs names es True p)
          \<and> (\<forall>b. found evalLinks libs names es b p \<longrightarrow> p \<in> set (lkSet s)))"

lemma found_snoc:
  "found evalLinks libs names (es @ [e]) b p \<longleftrightarrow>
     found evalLinks libs names es b p \<or> (entryArch e = Some b \<and> entryPath evalLinks libs names e = Some p)"
  by (auto simp: found_def)

lemma lookupEntry_ok:
  assumes "lookup_ok evalLinks libs names es s"
  shows "lookup_ok evalLinks libs names (es @ [e]) (lookupEntry evalLinks libs names s e)"
proof (cases "entryArch e")
  case None
  then have "lookupEntry evalLinks libs names s e = s" by (simp add: lookupEntry_def)
  with assms None show ?thesis unfolding lookup_ok_def found_snoc by auto
next
  case (Some b)
  show ?thesis
  proof (cases "entryPath evalLinks libs names e")
    case None
    then have "lookupEntry evalLinks libs names s e = s" by (simp add: lookupEntry_def split: option.split)
    with assms None show ?thesis unfolding lookup_ok_def found_snoc by auto
  next
    case path: (Some p)
    with assms Some show ?thesis
      unfolding lookup_ok_def found_snoc by (cases b) (auto simp: lookupEntry_def)
  qed
qed

lemma Lookup_ok:
  assumes "Lookup evalLinks c names = (p32, p64)"
  shows "distinct (p32 @ p64)
    \<and> (\<forall>p. (p \<in> set p32 \<longrightarrow> found evalLinks (ldLibs c) names (ldEntries c) False p)
         \<and> (p \<in> set p64 \<longrightarrow> found evalLinks (ldLibs c) names (ldEntries c) True p)
         \<and> (\<forall>b. found evalLinks (ldLibs c) names (ldEntries c) b p \<longrightarrow> p \<in> set p32 \<union> set p64))"
proof -
  let ?s0 = "\<lparr>lkSet = [], paths32 = [], paths64 = []\<rparr>"
  have "lookup_ok evalLinks (ldLibs c) names es (foldl (lookupEntry evalLinks (ldLibs c) names) ?s0 es)" for es
    by (induction es rule: rev_induct) (simp_all add: lookupEntry_ok, simp add: lookup_ok_def found_def)
  from this [of "ldEntries c"] assms show ?thesis
    by (auto simp: Lookup_def Let_def lookup_ok_def)
qed

section \<open>A cache with its strings\<close>

text \<open>A library of the cache: its flags, its name and its path. The strings follow the table; the table
  points to them from the start of the new format.\<close>

record library =
  lbFlags :: "32 word"
  lbName :: string
  lbPath :: string

definition libStrings :: "library \<Rightarrow> byte list" where
  "libStrings l = bytesOf (lbName l) @ [0] @ bytesOf (lbPath l) @ [0]"

fun layout :: "nat \<Rightarrow> library list \<Rightarrow> Entry2 list" where
  "layout off [] = []"
| "layout off (l # ls) =
     \<lparr>eFlags = lbFlags l, eKey = word_of_nat off, eValue = word_of_nat (off + length (lbName l) + 1),
      eOSVersion = 0, eHWCap = 0\<rparr> # layout (off + length (libStrings l)) ls"

definition tableEnd :: "library list \<Rightarrow> nat" where
  "tableEnd ls = header2Size + entry2Size * length ls"

definition writeCache :: "library list \<Rightarrow> byte list" where
  "writeCache ls = newPart (layout (tableEnd ls) ls) 0 (concat (map libStrings ls))"

text \<open>The lookup on libraries: the specification.\<close>

text \<open>The word size of a library as the format defines it: the lowest bit marks an ELF library, the second
  byte its architecture, 3 for x86-64, 5 for 64 bit PowerPC, 8 for x32 and 0 for the others.\<close>

definition libArch :: "library \<Rightarrow> bool option" where
  "libArch l =
     (let f = unat (lbFlags l); arch = f div 256 mod 256
      in if even f then None else if arch \<in> {3, 5} then Some True else if arch \<in> {0, 8} then Some False else None)"

lemma arch_byte: "(w AND 0xff00 :: 32 word) = v \<longleftrightarrow> 256 * (unat w div 256 mod 256) = unat v"
proof -
  have m: "(0xff00 :: nat) = push_bit 8 (mask 8)" by (simp add: mask_eq_exp_minus_1 push_bit_eq_mult)
  have "unat (w AND 0xff00) = unat w AND 0xff00" by (simp add: unsigned_and_eq)
  also have "\<dots> = push_bit 8 (take_bit 8 (drop_bit 8 (unat w)))"
    unfolding m by (rule bit_eqI) (auto simp: bit_simps)
  also have "\<dots> = 256 * (unat w div 256 mod 256)" by (simp add: push_bit_eq_mult take_bit_eq_mod drop_bit_eq_div)
  finally show ?thesis by (metis unsigned_word_eqI)
qed

lemma elf_bit: "((w AND 0x00ff) AND 1 = (0 :: 32 word)) \<longleftrightarrow> even (unat w)"
proof -
  have "(w AND 0x00ff) AND 1 = w AND 1" by (simp add: and.assoc)
  also have "w AND 1 = 0 \<longleftrightarrow> even w" by (simp add: and_one_eq even_iff_mod_2_eq_zero)
  finally show ?thesis by transfer (simp add: even_take_bit_eq even_nat_iff)
qed

lemma entryArch_byte: "eFlags e = lbFlags l \<Longrightarrow> entryArch e = libArch l"
  by (simp add: entryArch_def libArch_def Let_def flagTypeMask_def flagTypeELF_def flagArchMask_def elf_bit arch_byte
      flagArchX8664_def flagArchPpc64le_def flagArchX32_def flagArchI386_def)


definition libMatches :: "(string \<Rightarrow> string option) \<Rightarrow> string list \<Rightarrow> library \<Rightarrow> bool \<Rightarrow> string \<Rightarrow> bool" where
  "libMatches evalLinks names l is64 path \<longleftrightarrow>
     libArch l = Some is64 \<and> list_ex (hasPrefix (lbName l)) names \<and> evalLinks (lbPath l) = Some path"

definition noNul :: "string \<Rightarrow> bool" where
  "noNul s \<longleftrightarrow> CHR 0x00 \<notin> set s"

lemma length_layout [simp]: "length (layout off ls) = length ls"
  by (induction ls arbitrary: off) auto

lemma byteChar_zero: "byteChar 0 = CHR 0x00"
  by (simp add: byteChar_def char_of_def)

lemma charByte_zero: "charByte c = 0 \<longleftrightarrow> c = CHR 0x00"
proof
  assume "charByte c = 0"
  then have "byteChar (charByte c) = byteChar 0" by (rule arg_cong)
  then show "c = CHR 0x00" unfolding byteChar_charByte byteChar_zero .
qed (simp add: charByte_def)

lemma noNul_bytes: "noNul s \<Longrightarrow> 0 \<notin> set (bytesOf s)"
  by (auto simp: noNul_def bytesOf_def charByte_zero dest: sym)

lemma hasPrefix_terminated:
  "noNul p \<Longrightarrow> hasPrefix (s @ CHR 0x00 # r) p \<longleftrightarrow> hasPrefix s p"
  by (rule hasPrefix_cut) (auto simp: noNul_def list_all_iff)

lemma cString_terminated: "noNul s \<Longrightarrow> cString (bytesOf s @ 0 # r) = Some s"
proof -
  assume "noNul s"
  then have "takeWhile (\<lambda>b. b \<noteq> 0) (bytesOf s @ 0 # r) = bytesOf s"
    using noNul_bytes [of s] by (subst takeWhile_append2) auto
  then show ?thesis by (simp add: cString_def)
qed

text \<open>Every entry of the table leads to the name and the path of its library.\<close>

lemma layout_entries:
  assumes "libs = before @ concat (map libStrings ls)" "length libs < 2 ^ 32"
    and "\<forall>l \<in> set ls. noNul (lbName l) \<and> noNul (lbPath l)" "list_all noNul names"
  shows "map (\<lambda>e. (entryArch e, entryPath evalLinks libs names e)) (layout (length before) ls)
    = map (\<lambda>l. (libArch l, if list_ex (hasPrefix (lbName l)) names then evalLinks (lbPath l) else None)) ls"
  using assms(1,3)
proof (induction ls arbitrary: before)
  case (Cons l ls)
  let ?off = "length before"
  define e where "e = \<lparr>eFlags = lbFlags l, eKey = word_of_nat ?off, eValue = word_of_nat (?off + length (lbName l) + 1),
      eOSVersion = 0, eHWCap = 0\<rparr>"
  define rest where "rest = concat (map libStrings ls)"
  have libs: "libs = before @ bytesOf (lbName l) @ [0] @ bytesOf (lbPath l) @ [0] @ rest"
    using Cons.prems(1) by (simp add: rest_def libStrings_def [of l])
  have len: "?off + length (lbName l) + 1 + length (lbPath l) + 1 \<le> length libs" unfolding libs by simp
  have off: "unat (eKey e) = ?off" "unat (eValue e) = ?off + length (lbName l) + 1"
  proof -
    have small: "unat (word_of_nat n :: 32 word) = n" if "n < 2 ^ 32" for n using that by (simp add: unat_of_nat)
    show "unat (eKey e) = ?off" "unat (eValue e) = ?off + length (lbName l) + 1"
      unfolding e_def Entry2.select_convs using len assms(2) by (intro small, linarith)+
  qed
  have "strOf (drop ?off libs) = lbName l @ CHR 0x00 # strOf (bytesOf (lbPath l) @ [0] @ rest)"
    using strOf_bytesOf [of "lbName l"] by (simp add: libs strOf_def byteChar_zero)
  then have pre: "hasPrefix (strOf (drop ?off libs)) p = hasPrefix (lbName l) p" if "p \<in> set names" for p
    using hasPrefix_terminated that assms(4) by (simp add: list_all_iff)
  have "drop (?off + length (lbName l) + 1) libs = bytesOf (lbPath l) @ 0 # rest" by (simp add: libs)
  then have cs: "cString (drop (?off + length (lbName l) + 1) libs) = Some (lbPath l)"
    using cString_terminated Cons.prems(2) by simp
  have ex: "list_ex (\<lambda>p. hasPrefix (strOf (drop ?off libs)) p) names = list_ex (hasPrefix (lbName l)) names"
    using pre by (simp add: list_ex_iff)
  have path: "entryPath evalLinks libs names e = (if list_ex (hasPrefix (lbName l)) names then evalLinks (lbPath l) else None)"
    using len assms(2) by (simp add: entryPath_def off ex cs [simplified])
  have arch: "entryArch e = libArch l" by (rule entryArch_byte) (simp add: e_def)
  have "libs = (before @ libStrings l) @ concat (map libStrings ls)" using Cons.prems(1) by simp
  from Cons.IH [OF this] Cons.prems(2) path arch show ?case by (simp add: e_def)
qed simp

lemma found_layout:
  assumes "length (writeCache ls) < 2 ^ 32" "\<forall>l \<in> set ls. noNul (lbName l) \<and> noNul (lbPath l)" "list_all noNul names"
  shows "found evalLinks (writeCache ls) names (layout (tableEnd ls) ls) b p \<longleftrightarrow> (\<exists>l \<in> set ls. libMatches evalLinks names l b p)"
proof -
  define before where "before = encHeader2 (newHeader (length ls) 0) @ concat (map encEntry2 (layout (tableEnd ls) ls))"
  have libs: "writeCache ls = before @ concat (map libStrings ls)"
    by (simp add: writeCache_def newPart_def before_def)
  have "length before = tableEnd ls"
    by (simp add: before_def length_encHeader2 entry2.length_table tableEnd_def)
  then have m: "map (\<lambda>e. (entryArch e, entryPath evalLinks (writeCache ls) names e)) (layout (tableEnd ls) ls)
      = map (\<lambda>l. (libArch l, if list_ex (hasPrefix (lbName l)) names then evalLinks (lbPath l) else None)) ls"
    using layout_entries [OF libs assms] by simp
  have "found evalLinks (writeCache ls) names (layout (tableEnd ls) ls) b p
      \<longleftrightarrow> (Some b, Some p) \<in> set (map (\<lambda>e. (entryArch e, entryPath evalLinks (writeCache ls) names e)) (layout (tableEnd ls) ls))"
    by (force simp: found_def)
  also have "\<dots> \<longleftrightarrow> (\<exists>l \<in> set ls. libMatches evalLinks names l b p)"
    unfolding m by (force simp: libMatches_def split: if_splits)
  finally show ?thesis .
qed

text \<open>Claim C34: a cache file written in the format of the dynamic linker, alone or behind a part in the
  old format, is parsed without error, and the lookup in it returns every resolved path of a matching
  library exactly once: 64 bit libraries and 32 bit libraries whose name starts with one of the wanted
  names, and nothing else.\<close>

theorem ldcache_finds_libraries:
  assumes "validPrefix pre" "length (writeCache ls) < 2 ^ 32"
    and "\<forall>l \<in> set ls. noNul (lbName l) \<and> noNul (lbPath l)" "list_all noNul names"
  shows "\<exists>c p32 p64. parseCache (pre @ writeCache ls) = Inr c \<and> Lookup evalLinks c names = (p32, p64)
    \<and> distinct (p32 @ p64)
    \<and> (\<forall>p \<in> set p32. \<exists>l \<in> set ls. libMatches evalLinks names l False p)
    \<and> (\<forall>p \<in> set p64. \<exists>l \<in> set ls. libMatches evalLinks names l True p)
    \<and> (\<forall>l \<in> set ls. \<forall>b p. libMatches evalLinks names l b p \<longrightarrow> p \<in> set p32 \<union> set p64)"
proof -
  define es where "es = layout (tableEnd ls) ls"
  define c where "c = \<lparr>ldLibs = writeCache ls, ldHeader = newHeader (length es) 0, ldEntries = es\<rparr>"
  have "length ls \<le> length (writeCache ls)"
    by (simp add: writeCache_def newPart_def entry2.length_table entry2Size_def)
  then have "length es < 2 ^ 32" using assms(2) by (simp add: es_def)
  then have parse: "parseCache (pre @ writeCache ls) = Inr c"
    using parseCache_written [OF assms(1), of es 0 "concat (map libStrings ls)"] by (simp add: writeCache_def es_def c_def)
  obtain p32 p64 where l: "Lookup evalLinks c names = (p32, p64)" by fastforce
  have "found evalLinks (ldLibs c) names (ldEntries c) b p \<longleftrightarrow> (\<exists>l \<in> set ls. libMatches evalLinks names l b p)" for b p
    using found_layout [OF assms(2-4)] by (simp add: c_def es_def)
  with Lookup_ok [OF l] parse l show ?thesis by blast
qed

definition sampleLibs :: "library list" where
  "sampleLibs = [\<lparr>lbFlags = 0x0303, lbName = ''libcuda.so.1'', lbPath = ''/lib/x''\<rparr>, \<lparr>lbFlags = 3, lbName = ''libm.so'', lbPath = ''/m''\<rparr>]"

theorem ldcache_finds_libraries_witness:
  "\<exists>c p32 p64. parseCache (writeCache sampleLibs) = Inr c \<and> Lookup Some c [''libcuda''] = (p32, p64) \<and> ''/lib/x'' \<in> set p32 \<union> set p64"
proof -
  have "\<forall>l \<in> set sampleLibs. noNul (lbName l) \<and> noNul (lbPath l)" "list_all noNul [''libcuda'']"
    by (simp_all add: sampleLibs_def noNul_def)
  moreover have "length (writeCache sampleLibs) < 2 ^ 32"
    by (simp add: writeCache_def newPart_def entry2.length_table length_encHeader2 header2Size_def entry2Size_def)
      (simp add: sampleLibs_def libStrings_def)
  moreover have "libMatches Some [''libcuda''] (hd sampleLibs) True ''/lib/x''" "hd sampleLibs \<in> set sampleLibs"
    by (code_simp, simp add: sampleLibs_def)
  ultimately show ?thesis
    using ldcache_finds_libraries [of "[]" sampleLibs "[''libcuda'']" Some] unfolding validPrefix_def append_Nil by blast
qed

end
