(* ===== verification/Volume_Theorems.thy ===== *)
theory Volume_Theorems
  imports Volume_Laws Ldcache_Theorems
begin

text \<open>
  The properties of the volume manager: the files of the host are not touched, and in share mode the
  control library takes the place of the driver's own.
\<close>

section \<open>A sample host\<close>

definition driverFile :: string where "driverFile = ''/usr/lib/libcuda.so.470.57''"
definition controlFile :: string where "controlFile = ''/usr/lib/libcuda-control.so''"

definition hostEnv :: vol_env where
  "hostEnv = \<lparr>oMkdirErr = (\<lambda>_ _. None), oStatErr = (\<lambda>_ _. None), oRemoveErr = (\<lambda>_ _. None), oLinkErr = (\<lambda>_ _. None),
     oOpenErr = (\<lambda>_ _. None), oCreateErr = (\<lambda>_ _. None), oCopied = (\<lambda>_ _. None), oCloseErr = (\<lambda>_ _. None),
     oSymlinkErr = (\<lambda>_ _. None),
     oElf = (\<lambda>f. if f = driverFile then Inr \<lparr>elfSoname = Inr [''libcuda.so.1''], elfNeeded = Inr [], elfAbiTag = None\<rparr>
              else if f = controlFile then Inr \<lparr>elfSoname = Inr [], elfNeeded = Inr [], elfAbiTag = None\<rparr>
              else Inl ''bad magic''),
     oWhich = (\<lambda>_. driverFile @ [CHR 0x0A] @ controlFile @ [CHR 0x0A]), oEvalLinks = Some,
     oLdcache = Inr (writeCache []), oUnmapErr = None, oOrd = id\<rparr>"

definition hostFs :: vfs where
  "hostFs = \<lparr>vNames = [(driverFile, VHard 0), (controlFile, VHard 1)], vInodes = (\<lambda>i. if i = 0 then ''driver'' else ''control''),
     vFresh = 2, vClock = 0\<rparr>"

definition hostConfig :: VolConfig where
  "hostConfig = \<lparr>vcName = ''nvidia'', vcMode = [], vcComponents = [(''binaries'', [''x''])], vcBasePath = ''/vol''\<rparr>"

definition hostManager :: VolumeManager where
  "hostManager = \<lparr>vmgConfig = [hostConfig], vmgShare = True, cudaControlFile = [], cudaSoname = [], mlSoName = [],
     DriverVersionMajor = 0, DriverVersionMinor = 0, libraryPath = [], originLibraryPath = [], vmgFs = hostFs\<rparr>"

definition hostCache :: LDCache where
  "hostCache = \<lparr>ldLibs = writeCache [], ldHeader = newHeader 0 0, ldEntries = []\<rparr>"

definition hostVolume :: VolumeT where
  "hostVolume = \<lparr>volPath = ''/vol/nvidia'', volDirs = [\<lparr>vdName = binDir, vdFiles = [driverFile, controlFile]\<rparr>]\<rparr>"

lemma host_elf: "elf_ok hostEnv"
proof -
  have "properSeg (pathBase driverFile)" "properSeg (pathBase controlFile)" "properSeg ''libcuda.so.1''"
    "\<not> list_all isVersionChar ''libcuda.so.1''" by code_simp+
  then show ?thesis by (simp add: elf_ok_def hostEnv_def)
qed

lemma host_fs: "fs_ok hostFs"
  by (simp add: fs_ok_def hostFs_def)

lemma host_open: "ldcacheOpen hostEnv = Inr hostCache"
proof -
  have "parseCache (writeCache []) = Inr hostCache"
    using parseCache_written [of "[]" "[]" 0 "[]"] by (simp add: writeCache_def hostCache_def validPrefix_def)
  then show ?thesis by (simp add: ldcacheOpen_def hostEnv_def)
qed

lemma host_build:
  "buildVolumes hostEnv hostCache hostManager [] (vmgConfig hostManager)
    = (hostManager\<lparr>libraryPath := ''/vol/nvidia''\<rparr>, Inr [(''nvidia'', hostVolume)])"
proof -
  have "which hostEnv [''x''] = Inr [driverFile, controlFile]" "pathJoinAll [''/vol'', ''nvidia''] = ''/vol/nvidia''"
    "oOrd hostEnv = id" by (code_simp, code_simp, simp add: hostEnv_def)
  then show ?thesis by (simp add: hostManager_def hostConfig_def hostVolume_def gorange_def Let_def)
qed

lemma host_mirror:
  obtains vm where "mirror hostEnv (hostManager\<lparr>libraryPath := ''/vol/nvidia''\<rparr>) [(''nvidia'', hostVolume)] = Inr (vm, None)"
    "cudaControlFile vm = controlFile"
proof -
  have "(case mirror hostEnv (hostManager\<lparr>libraryPath := ''/vol/nvidia''\<rparr>) [(''nvidia'', hostVolume)] of
      Inr (vm, None) \<Rightarrow> cudaControlFile vm = controlFile | _ \<Rightarrow> False)" by code_simp
  then show ?thesis using that by (auto split: sum.splits option.splits prod.splits)
qed

section \<open>A whole run\<close>

lemma gorange_mem:
  assumes "range_order ord"
  shows "(k, v) \<in> set (gorange ord m) \<longleftrightarrow> map_of m k = Some v"
proof -
  have "(k, v) \<in> set (gorange ord m) \<longleftrightarrow> k \<in> dom (map_of m) \<and> v = the (map_of m k)"
    using assms by (auto simp: gorange_def range_order_set dom_map_of_conv_image_fst)
  then show ?thesis by auto
qed

lemma sonames_list:
  assumes "range_order ord" "sonames_in R vm"
  shows "set (map snd (gorange ord (cudaSoname vm)) @ map snd (gorange ord (mlSoName vm))) = sonames vm"
proof -
  have "snd ` set (gorange ord m) = fst ` set m" if "\<forall>(k, v) \<in> set m. v = k" for m :: "(string, string) gomap"
  proof -
    have "the (map_of m k) = k" if "k \<in> fst ` set m" for k
      using that \<open>\<forall>(k, v) \<in> set m. v = k\<close> by (metis (mono_tags, lifting) case_prodD map_of_SomeD map_of_eq_None_iff not_None_eq option.sel)
    then show ?thesis using assms(1) by (auto simp: gorange_def range_order_set image_image)
  qed
  with assms(2) show ?thesis by (simp add: sonames_in_def sonames_def)
qed

lemma mirror_steps:
  assumes "mirror e vm vols = Inr (vm', r)"
  obtains v1 r1 where "mirrorVolumes e vm (gorange (oOrd e) vols) = Inr (v1, r1)" "r1 \<noteq> None \<or> \<not> vmgShare v1 \<or> cudaControlFile v1 = []"
      "vm' = v1" "r = r1"
  | v1 fs where "mirrorVolumes e vm (gorange (oOrd e) vols) = Inr (v1, None)" "vmgShare v1" "cudaControlFile v1 \<noteq> []"
      "vCudaFiles e (vmgFs v1) (cudaControlFile v1)
         (map snd (gorange (oOrd e) (cudaSoname v1)) @ map snd (gorange (oOrd e) (mlSoName v1))) = (fs, r)"
      "vm' = v1\<lparr>vmgFs := fs\<rparr>"
proof (cases "mirrorVolumes e vm (gorange (oOrd e) vols)")
  case (Inr x)
  obtain v1 r1 where x: "x = (v1, r1)" by fastforce
  show ?thesis
  proof (cases "r1 \<noteq> None \<or> \<not> vmgShare v1 \<or> cudaControlFile v1 = []")
    case True
    with assms Inr x that(1) show ?thesis by (cases r1) (auto simp: mirror_def split: if_splits)
  next
    case False
    with assms Inr x that(2) show ?thesis by (auto simp: mirror_def split: prod.splits)
  qed
qed (use assms in \<open>simp add: mirror_def\<close>)

lemma gorange_all: "range_order ord \<Longrightarrow> list_all P m \<Longrightarrow> list_all P (gorange ord m)"
  unfolding list_all_iff by (auto simp: gorange_mem dest!: map_of_SomeD)

lemma mirror_safe:
  assumes "elf_ok e" "range_order (oOrd e)" "list_all (\<lambda>(n, v). volume_ok R v) vols" "sonames_in R vm"
    and "mirror e vm vols = Inr (vm', r)"
  shows "safe R (vmgFs vm) (vmgFs vm')"
  using assms(5)
proof (cases rule: mirror_steps)
  case (1 v1 r1)
  with mirrorVolumes_safe [OF assms(1) gorange_all [OF assms(2,3)]] show ?thesis by (auto simp: vmsafe_def)
next
  case (2 v1 fs)
  have s: "vmsafe R vm v1" by (rule mirrorVolumes_safe [OF assms(1) gorange_all [OF assms(2,3)] 2(1)])
  then have "sonames_in R v1" using assms(4) by (simp add: vmsafe_def)
  with sonames_list [OF assms(2) this] have "safe R (vmgFs v1) fs"
    by (intro vCudaFiles_safe [OF 2(4)]) (simp only: sonames_in_def, blast)
  with s 2(5) show ?thesis by (auto simp: vmsafe_def intro: safe_trans)
qed

text \<open>Where the volume of a configuration is.\<close>

definition volumePath :: "VolConfig \<Rightarrow> string" where
  "volumePath c = pathJoinAll [vcBasePath c, vcName c]"

definition inVolumes :: "VolConfig list \<Rightarrow> string set" where
  "inVolumes cfgs = (\<Union>c \<in> set cfgs. prefixed (joinPre (volumePath c)))"

lemma addComponents_ok:
  "addComponents e cache vol cs = Inr vol' \<Longrightarrow> volume_ok R vol \<Longrightarrow> volume_ok R vol'"
proof (induction e cache vol cs rule: addComponents.induct)
  case (2 e cache vol t c cs)
  then show ?case by (auto simp: volume_ok_def split: if_splits sum.splits prod.splits)
qed simp

lemma buildVolumes_ok:
  assumes "\<forall>c \<in> set cfgs. \<not> containsStr (joinPre (volumePath c)) ''GLX_nvidia'' \<and> prefixed (joinPre (volumePath c)) \<subseteq> R"
    and "list_all (\<lambda>(n, v). volume_ok R v) vols" "buildVolumes e cache vm vols cfgs = (vm', r)"
  shows "vmgFs vm' = vmgFs vm \<and> cudaSoname vm' = cudaSoname vm \<and> mlSoName vm' = mlSoName vm
    \<and> (\<forall>vols'. r = Inr vols' \<longrightarrow> list_all (\<lambda>(n, v). volume_ok R v) vols')"
  using assms
proof (induction cfgs arbitrary: vm vols)
  case (Cons c cfgs)
  define v1 where "v1 = (if vcName c = ''nvidia'' then vm\<lparr>libraryPath := volumePath c\<rparr> else vm\<lparr>originLibraryPath := volumePath c\<rparr>)"
  have v1: "vmgFs v1 = vmgFs vm" "cudaSoname v1 = cudaSoname vm" "mlSoName v1 = mlSoName vm" by (simp_all add: v1_def)
  define vol where "vol = \<lparr>volPath = volumePath c, volDirs = []\<rparr>"
  note eq = Cons.prems(3) [unfolded buildVolumes.simps Let_def volumePath_def [symmetric] v1_def [symmetric] vol_def [symmetric]]
  have ok: "volume_ok R vol" using Cons.prems(1) by (simp add: volume_ok_def vol_def)
  show ?case
  proof (cases "addComponents e cache vol (gorange (oOrd e) (vcComponents c))")
    case (Inr vol')
    have "list_all (\<lambda>(n, v). volume_ok R v) (if vcComponents c = [] then vols else AList.update (vcName c) vol' vols)"
      using Cons.prems(2) addComponents_ok [OF Inr ok] set_update_subset [of "vcName c" vol' vols]
      unfolding list_all_iff by (auto split: if_splits)
    with Cons.IH [OF _ this, of v1] Cons.prems(1) eq Inr v1 show ?thesis by simp
  qed (use eq v1 in auto)
qed auto

text \<open>Claim C35: mirroring does not damage the host. Whatever the operating system answers and whether or
  not the run succeeds, every file, link and directory outside the volumes keeps its name and every file
  its content, also the files that were mirrored by a hard link and replaced in the volume later.\<close>

theorem host_files_untouched:
  assumes "elf_ok e" "range_order (oOrd e)" "cudaSoname vm = []" "mlSoName vm = []" "fs_ok (vmgFs vm)"
    and "\<forall>c \<in> set (vmgConfig vm). \<not> containsStr (joinPre (volumePath c)) ''GLX_nvidia''"
    and "runVolumes e vm = Inr (vm', err)"
    and "map_of (vNames (vmgFs vm)) p = Some n" "p \<notin> inVolumes (vmgConfig vm)"
  shows "map_of (vNames (vmgFs vm')) p = Some n \<and> (\<forall>i. n = VHard i \<longrightarrow> vInodes (vmgFs vm') i = vInodes (vmgFs vm) i)"
proof -
  define R where "R = inVolumes (vmgConfig vm)"
  have "safe R (vmgFs vm) (vmgFs vm')"
  proof (cases "ldcacheOpen e")
    case (Inr cache)
    obtain v1 r1 where 1: "buildVolumes e cache vm [] (vmgConfig vm) = (v1, r1)" by fastforce
    have b: "vmgFs v1 = vmgFs vm" "cudaSoname v1 = []" "mlSoName v1 = []"
      "\<And>vols. r1 = Inr vols \<Longrightarrow> list_all (\<lambda>(n, v). volume_ok R v) vols"
      using buildVolumes_ok [OF _ _ 1, of R] assms(3,4,6) by (auto simp: R_def inVolumes_def)
    show ?thesis
    proof (cases r1)
      case (Inr vols)
      with assms(7) \<open>ldcacheOpen e = Inr cache\<close> 1 obtain r where "mirror e v1 vols = Inr (vm', r)"
        by (cases "mirror e v1 vols") (auto simp: runVolumes_def)
      from mirror_safe [OF assms(1,2) b(4) [OF Inr] _ this] show ?thesis
        by (simp add: b(1-3) sonames_in_def sonames_def)
    qed (use assms(7) Inr 1 b(1) in \<open>auto simp: runVolumes_def\<close>)
  qed (use assms(7) in \<open>auto simp: runVolumes_def\<close>)
  with assms(5,8,9) show ?thesis by (force simp: safe_def keeps_def fs_ok_def R_def)
qed

theorem host_files_untouched_witness:
  "\<exists>vm'. runVolumes hostEnv hostManager = Inr (vm', None)
     \<and> map_of (vNames (vmgFs vm')) driverFile = Some (VHard 0) \<and> vInodes (vmgFs vm') 0 = ''driver''"
proof -
  obtain vm where vm: "mirror hostEnv (hostManager\<lparr>libraryPath := ''/vol/nvidia''\<rparr>) [(''nvidia'', hostVolume)] = Inr (vm, None)"
    by (rule host_mirror)
  then have run: "runVolumes hostEnv hostManager = Inr (vm, None)"
    by (simp add: runVolumes_def host_open host_build closing_def) (simp add: hostEnv_def)
  have "\<not> containsStr (joinPre (volumePath hostConfig)) ''GLX_nvidia''" "\<not> hasPrefix driverFile (joinPre (volumePath hostConfig))"
    by code_simp+
  then have cfg: "\<forall>c \<in> set (vmgConfig hostManager). \<not> containsStr (joinPre (volumePath c)) ''GLX_nvidia''"
    "driverFile \<notin> inVolumes (vmgConfig hostManager)"
    by (simp_all add: hostManager_def inVolumes_def prefixed_def)
  have "map_of (vNames (vmgFs hostManager)) driverFile = Some (VHard 0)" "vInodes (vmgFs hostManager) 0 = ''driver''"
    "cudaSoname hostManager = []" "mlSoName hostManager = []" "vmgFs hostManager = hostFs" "range_order (oOrd hostEnv)"
    by (simp_all add: hostManager_def hostFs_def hostEnv_def range_order_def)
  with host_files_untouched [OF host_elf _ _ _ _ cfg(1) run _ cfg(2), of "VHard 0"] host_fs run show ?thesis by simp
qed

section \<open>Share mode\<close>

text \<open>A library whose place the control library takes.\<close>

definition shadowed :: "vol_env \<Rightarrow> string \<Rightarrow> string \<Rightarrow> bool" where
  "shadowed e f s \<longleftrightarrow> (\<exists>obj ss. oElf e f = Inr obj \<and> blacklisted f obj = Inr (Inr False) \<and> elfSoname obj = Inr (s # ss)
     \<and> (hasPrefix s ''libcuda.so'' \<or> hasPrefix s ''libnvidia-ml.so''))"

lemma linkSoname_notes:
  assumes "linkSoname e vm ''nvidia'' vpath file s = (vm', None)" "vmgShare vm"
    and "hasPrefix s ''libcuda.so'' \<or> hasPrefix s ''libnvidia-ml.so''"
  shows "pathJoinAll [vpath, s] \<in> sonames vm'"
proof -
  define l where "l = pathJoinAll [vpath, s]"
  obtain f1 e1 where 1: "linkIfNotSameName e (vmgFs vm) (pathBase file) l = (f1, e1)" by fastforce
  have nv: "containsStr ''nvidia'' ''nvidia''" by (simp add: containsStr_def hasPrefix_def)
  define v1 where "v1 = vm\<lparr>vmgFs := f1\<rparr>"
  define v2 where "v2 = (if vmgShare v1 \<and> ''nvidia'' = ''nvidia'' \<and> hasPrefix s ''libcuda.so''
     then v1\<lparr>vmgFs := fst (fsRemove e (vmgFs v1) l), cudaSoname := AList.update l l (cudaSoname v1)\<rparr> else v1)"
  define v3 where "v3 = (if vmgShare v2 \<and> ''nvidia'' = ''nvidia'' \<and> hasPrefix s ''libnvidia-ml.so''
     then v2\<lparr>vmgFs := fst (fsRemove e (vmgFs v2) l), mlSoName := AList.update l l (mlSoName v2)\<rparr> else v2)"
  have share: "vmgShare v1" "vmgShare v2" using assms(2) by (simp_all add: v1_def v2_def)
  have mem: "l \<in> sonames v3"
    using assms(3) share update_soname(2) [of l] by (auto simp: v3_def v2_def sonames_def)
  have "vm' = v3 \<or> (\<exists>fs. vm' = v3\<lparr>vmgFs := fs\<rparr>)"
    using assms(1) unfolding linkSoname_def Let_def l_def [symmetric] 1 prod.case v1_def [symmetric]
      v2_def [symmetric] v3_def [symmetric] by (auto simp: nv split: if_splits prod.splits)
  with mem show ?thesis by (auto simp: l_def sonames_def)
qed

lemma mirrorFiles_notes:
  assumes "mirrorFiles e vm ''nvidia'' vpath file = Inr (vm', None)" "vmgShare vm" "shadowed e file s"
  shows "pathJoinAll [vpath, s] \<in> sonames vm'"
proof -
  obtain obj ss where obj: "oElf e file = Inr obj" "blacklisted file obj = Inr (Inr False)" "elfSoname obj = Inr (s # ss)"
    and s: "hasPrefix s ''libcuda.so'' \<or> hasPrefix s ''libnvidia-ml.so''"
    using assms(3) by (auto simp: shadowed_def)
  obtain f where "linkSoname e (vm\<lparr>vmgFs := f\<rparr>) ''nvidia'' vpath file s = (vm', None)"
    using assms(1) obj by (auto simp: mirrorFiles_def Let_def split: prod.splits option.splits)
  from linkSoname_notes [OF this _ s] assms(2) show ?thesis by simp
qed

lemma mirrorDir_notes:
  assumes "elf_ok e" "volDirPre (joinPre vpath)" "f \<in> set files" "shadowed e f s"
    and "mirrorDir e vm ''nvidia'' vpath files = Inr (vm', None)" "vmgShare vm"
  shows "pathJoinAll [vpath, s] \<in> sonames vm'"
  using assms(3,5,6)
proof (induction files arbitrary: vm)
  case (Cons g files)
  obtain v1 where 1: "mirrorFiles e vm ''nvidia'' vpath g = Inr (v1, None)"
    using Cons.prems(2) by (auto split: sum.splits option.splits)
  with Cons.prems(2) obtain v2 where 2: "noteFile v1 g = Inr v2" "mirrorDir e v2 ''nvidia'' vpath files = Inr (vm', None)"
    by (auto split: sum.splits)
  have s1: "vmsafe UNIV vm v1" by (rule mirrorFiles_safe [OF 1 assms(1,2)]) simp
  have share: "vmgShare v2" using s1 Cons.prems(3) noteFile_frame(4) [OF 2(1)] by (simp add: vmsafe_def)
  have s3: "sonames v1 \<subseteq> sonames vm'"
    using noteFile_safe [OF 2(1), of UNIV] mirrorDir_safe [OF assms(1,2) _ 2(2), of UNIV] by (auto simp: vmsafe_def)
  show ?case
  proof (cases "f = g")
    case True
    with mirrorFiles_notes [OF 1 Cons.prems(3)] assms(4) s3 show ?thesis by blast
  next
    case False
    with Cons.IH [OF _ 2(2) share] Cons.prems(1) show ?thesis by simp
  qed
qed simp

lemma mirrorDirs_notes:
  assumes "elf_ok e" "volume_ok R v" "d \<in> set ds" "f \<in> set (vdFiles d)" "shadowed e f s"
    and "set ds \<subseteq> set (volDirs v)" "mirrorDirs e vm ''nvidia'' (volPath v) ds = Inr (vm', None)" "vmgShare vm"
  shows "pathJoinAll [pathJoinAll [volPath v, vdName d], s] \<in> sonames vm'"
  using assms(3,6-8)
proof (induction ds arbitrary: vm)
  case (Cons x ds)
  define vpath where "vpath = pathJoinAll [volPath v, vdName x]"
  have dir: "volDirPre (joinPre vpath)" using volume_dir(1) [OF assms(2)] Cons.prems(2) by (simp add: vpath_def)
  obtain f1 v1 where 1: "mirrorDir e (vm\<lparr>vmgFs := f1\<rparr>) ''nvidia'' vpath (vdFiles x) = Inr (v1, None)"
    and 2: "mirrorDirs e v1 ''nvidia'' (volPath v) ds = Inr (vm', None)"
    using Cons.prems(3) by (auto simp: Let_def vpath_def split: prod.splits sum.splits option.splits)
  have s1: "vmsafe UNIV (vm\<lparr>vmgFs := f1\<rparr>) v1" by (rule mirrorDir_safe [OF assms(1) dir _ 1]) simp
  have share: "vmgShare v1" using s1 Cons.prems(4) by (simp add: vmsafe_def)
  have mono: "sonames v1 \<subseteq> sonames vm'"
    using mirrorDirs_safe [OF assms(1,2) _ 2] Cons.prems(2) by (auto simp: vmsafe_def)
  show ?case
  proof (cases "d = x")
    case True
    with mirrorDir_notes [OF assms(1) dir _ assms(5) 1] assms(4) Cons.prems(4) mono show ?thesis by (auto simp: vpath_def)
  next
    case False
    with Cons.IH [OF _ _ 2 share] Cons.prems(1,2) show ?thesis by simp
  qed
qed simp

lemma mirrorVolume_notes:
  assumes "elf_ok e" "volume_ok R v" "d \<in> set (volDirs v)" "f \<in> set (vdFiles d)" "shadowed e f s"
    and "mirrorVolume e vm ''nvidia'' v = Inr (vm', None)" "vmgShare vm"
  shows "pathJoinAll [pathJoinAll [volPath v, vdName d], s] \<in> sonames vm'"
proof -
  obtain fs where "mirrorDirs e (vm\<lparr>vmgFs := fs\<rparr>) ''nvidia'' (volPath v) (volDirs v) = Inr (vm', None)"
    using assms(6) by (auto simp: mirrorVolume_def split: if_splits prod.splits option.splits intro: that [of "vmgFs vm"])
  from mirrorDirs_notes [OF assms(1-5) subset_refl this] assms(7) show ?thesis by simp
qed

lemma mirrorVolumes_notes:
  assumes "elf_ok e" "(''nvidia'', v) \<in> set vols" "d \<in> set (volDirs v)" "f \<in> set (vdFiles d)" "shadowed e f s"
    and "list_all (\<lambda>(n, v). volume_ok R v) vols" "mirrorVolumes e vm vols = Inr (vm', None)" "vmgShare vm"
  shows "pathJoinAll [pathJoinAll [volPath v, vdName d], s] \<in> sonames vm'"
  using assms(2,6-8)
proof (induction vols arbitrary: vm)
  case (Cons nv vols)
  obtain n w where nv: "nv = (n, w)" by fastforce
  obtain v1 where 1: "mirrorVolume e vm n w = Inr (v1, None)" and 2: "mirrorVolumes e v1 vols = Inr (vm', None)"
    using Cons.prems(3) by (auto simp: nv split: sum.splits option.splits)
  have w: "volume_ok R w" "list_all (\<lambda>(n, v). volume_ok R v) vols" using Cons.prems(2) nv by simp_all
  have share: "vmgShare v1" using mirrorVolume_safe [OF assms(1) w(1) 1] Cons.prems(4) by (simp add: vmsafe_def)
  have mono: "sonames v1 \<subseteq> sonames vm'" using mirrorVolumes_safe [OF assms(1) w(2) 2] by (simp add: vmsafe_def)
  show ?case
  proof (cases "nv = (''nvidia'', v)")
    case True
    with nv mirrorVolume_notes [OF assms(1) _ assms(3-5)] w(1) 1 Cons.prems(4) mono show ?thesis by auto
  next
    case False
    with Cons.IH [OF _ w(2) 2 share] Cons.prems(1) show ?thesis by auto
  qed
qed simp

text \<open>Claim C36: in share mode a successful mirroring puts the control library in the place of the driver's
  own: for every CUDA or management library that is mirrored into the volume \<^verbatim>\<open>nvidia\<close>, the path of its
  soname in the volume and the same path without version are regular files with the content the control
  library has on the host, so that a container can load no other.\<close>

theorem control_library_installed:
  assumes "elf_ok e" "range_order (oOrd e)" "vmgShare vm" "cudaSoname vm = []" "mlSoName vm = []" "fs_ok (vmgFs vm)"
    and "list_all (\<lambda>(n, v). volume_ok R v) vols" "mirror e vm vols = Inr (vm', None)"
    and "cudaControlFile vm' \<noteq> []" "cudaControlFile vm' \<notin> R"
    and "map_of (vNames (vmgFs vm)) (cudaControlFile vm') = Some (VHard i)"
    and "map_of vols ''nvidia'' = Some v" "d \<in> set (volDirs v)" "f \<in> set (vdFiles d)" "shadowed e f s"
  defines "l \<equiv> pathJoinAll [pathJoinAll [volPath v, vdName d], s]"
  shows "holds (vmgFs vm') (vInodes (vmgFs vm) i) l \<and> holds (vmgFs vm') (vInodes (vmgFs vm) i) (trimRight l isVersionChar)"
  using assms(8)
proof (cases rule: mirror_steps)
  case (1 v1 r1)
  have "vmsafe R vm v1" by (rule mirrorVolumes_safe [OF assms(1) gorange_all [OF assms(2,7)] 1(1)])
  with 1 assms(3,9) show ?thesis by (simp add: vmsafe_def)
next
  case (2 v1 fs)
  note all = gorange_all [OF assms(2,7)]
  have s: "vmsafe R vm v1" by (rule mirrorVolumes_safe [OF assms(1) all 2(1)])
  then have "sonames_in R v1" using assms(4,5) by (simp add: vmsafe_def sonames_in_def sonames_def)
  note names = sonames_list [OF assms(2) this]
  have "(''nvidia'', v) \<in> set (gorange (oOrd e) vols)" by (rule iffD2 [OF gorange_mem [OF assms(2)] assms(12)])
  from mirrorVolumes_notes [OF assms(1) this assms(13-15) all 2(1) assms(3)] have "l \<in> sonames v1" by (simp add: l_def)
  then have mem: "l \<in> set (map snd (gorange (oOrd e) (cudaSoname v1)) @ map snd (gorange (oOrd e) (mlSoName v1)))"
    unfolding names .
  have "holds (vmgFs vm) (vInodes (vmgFs vm) i) (cudaControlFile v1)"
    using assms(6,11) 2(5) by (auto simp: holds_def fs_ok_def)
  with s assms(10) 2(5) have h: "holds (vmgFs v1) (vInodes (vmgFs vm) i) (cudaControlFile v1)"
    by (auto simp: vmsafe_def intro: holds_safe)
  have "\<forall>f \<in> sonames v1. cudaControlFile v1 \<noteq> f \<and> cudaControlFile v1 \<noteq> trimRight f isVersionChar"
    using \<open>sonames_in R v1\<close> assms(10) 2(5) by (auto simp: sonames_in_def)
  from vCudaFiles_holds(2) [OF 2(4) h this [folded names] mem] 2(5) show ?thesis by simp
qed

theorem control_library_installed_witness:
  "\<exists>vm'. mirror hostEnv (hostManager\<lparr>libraryPath := ''/vol/nvidia''\<rparr>) [(''nvidia'', hostVolume)] = Inr (vm', None)
     \<and> holds (vmgFs vm') ''control'' ''/vol/nvidia/bin/libcuda.so.1'' \<and> holds (vmgFs vm') ''control'' ''/vol/nvidia/bin/libcuda.so''"
proof -
  obtain vm where vm: "mirror hostEnv (hostManager\<lparr>libraryPath := ''/vol/nvidia''\<rparr>) [(''nvidia'', hostVolume)] = Inr (vm, None)"
    and c: "cudaControlFile vm = controlFile" by (rule host_mirror)
  define R where "R = prefixed ''/vol/nvidia/''"
  have pre: "joinPre ''/vol/nvidia'' = ''/vol/nvidia/''" "\<not> containsStr ''/vol/nvidia/'' ''GLX_nvidia''"
    "\<not> hasPrefix controlFile ''/vol/nvidia/''" "controlFile \<noteq> []" by code_simp+
  then have ok: "list_all (\<lambda>(n, v). volume_ok R v) [(''nvidia'', hostVolume)]"
    by (simp add: R_def volume_ok_def hostVolume_def)
  have "blacklisted driverFile \<lparr>elfSoname = Inr [''libcuda.so.1''], elfNeeded = Inr [], elfAbiTag = None\<rparr> = Inr (Inr False)"
    "hasPrefix ''libcuda.so.1'' ''libcuda.so''" by code_simp+
  then have sh: "shadowed hostEnv driverFile ''libcuda.so.1''" by (simp add: shadowed_def hostEnv_def)
  have l: "pathJoinAll [pathJoinAll [''/vol/nvidia'', binDir], ''libcuda.so.1''] = ''/vol/nvidia/bin/libcuda.so.1''"
    "trimRight ''/vol/nvidia/bin/libcuda.so.1'' isVersionChar = ''/vol/nvidia/bin/libcuda.so''" by code_simp+
  have ctl: "map_of (vNames (vmgFs (hostManager\<lparr>libraryPath := ''/vol/nvidia''\<rparr>))) (cudaControlFile vm) = Some (VHard 1)"
    "vInodes (vmgFs (hostManager\<lparr>libraryPath := ''/vol/nvidia''\<rparr>)) 1 = ''control''"
    unfolding c by code_simp+
  have "holds (vmgFs vm) ''control'' ''/vol/nvidia/bin/libcuda.so.1'' \<and> holds (vmgFs vm) ''control'' ''/vol/nvidia/bin/libcuda.so''"
    using control_library_installed [OF host_elf _ _ _ _ _ ok vm _ _ ctl(1), of hostVolume "hd (volDirs hostVolume)" driverFile "''libcuda.so.1''"]
      host_fs sh l ctl(2) c pre
    by (simp add: hostManager_def R_def prefixed_def hostVolume_def) (simp add: hostEnv_def range_order_def)
  with vm show ?thesis by blast
qed

text \<open>A mirrored CUDA library whose name has one version number only, such as \<^verbatim>\<open>libcuda.so.1\<close>, ends the
  process: its second number is read without a check.\<close>

lemma short_driver_version_panics:
  assumes "mirrorFiles e vm driver vpath f = Inr (vm', None)" "hasPrefix (pathBase f) ''libcuda.so''"
    and "CHR ''.'' \<notin> set (trimPrefix (pathBase f) ''libcuda.so.'')"
  shows "mirrorDir e vm driver vpath (f # files) = Inl Panic"
proof -
  have "splitStr2 (trimPrefix (pathBase f) ''libcuda.so.'') ''.'' = [trimPrefix (pathBase f) ''libcuda.so.'']"
    using indexOf_char_None [OF assms(3)] by (simp add: splitStr2_def)
  with assms(1,2) show ?thesis by (simp add: noteFile_def Let_def)
qed

end
