(* ===== verification/Display.thy ===== *)
theory Display
  imports Runtime Tree_Build Go_Float
begin

text \<open>
  \<^verbatim>\<open>pkg/services/display/display.go\<close> and \<^verbatim>\<open>helper.go\<close>: the usage of the devices by container, the answers
  of the display service and the metrics. The record \<open>disp_env\<close> gives the answers of the management
  library, the container runtime and the informer during one call; \<open>dOrd\<close> is the iteration order of maps.
\<close>

section \<open>Messages\<close>

record process_info =
  prPid :: int
  prUsedGpuMemory :: int

record DeviceInfo =
  diId :: string
  diCardIdx :: string
  diGpu :: rat
  diMem :: rat
  diPids :: "int list"
  diDeviceMem :: rat

record UsageSpec =
  usGpu :: rat
  usMem :: rat

record ContainerStat =
  ctCluster :: string
  ctProject :: string
  ctUser :: string
  ctStat :: "(string, DeviceInfo list) gomap"
  ctSpec :: "(string, UsageSpec) gomap"

record disp_env =
  dNvml :: nvml
  dRunning :: "int \<Rightarrow> process_info list \<times> int"
  dRuntime :: runtime_env
  dManager :: containerRuntimeManager
  dPods :: "Pod list option"
  dOrd :: "string list \<Rightarrow> string list"

section \<open>Usage of a device\<close>

text \<open>\<^verbatim>\<open>sort.Search\<close>: bisection between \<open>i\<close> and \<open>j\<close>.\<close>

function searchBetween :: "(nat \<Rightarrow> bool) \<Rightarrow> nat \<Rightarrow> nat \<Rightarrow> nat" where
  "searchBetween f i j =
     (if i < j then let h = (i + j) div 2 in if f h then searchBetween f i h else searchBetween f (h + 1) j else i)"
  by pat_completeness auto
termination by (relation "measure (\<lambda>(f, i, j). j - i)") auto

declare searchBetween.simps [simp del]

definition goSearch :: "nat \<Rightarrow> (nat \<Rightarrow> bool) \<Rightarrow> nat" where
  "goSearch n f = searchBetween f 0 n"

definition pidFound :: "int list \<Rightarrow> int \<Rightarrow> bool" where
  "pidFound pidsInCont pid =
     (let idx = goSearch (length pidsInCont) (\<lambda>pivot. pid \<le> pidsInCont ! pivot)
      in idx < length pidsInCont \<and> pidsInCont ! idx = pid)"

definition usedOnDevice :: "int list \<Rightarrow> process_info list \<Rightarrow> int list \<times> int" where
  "usedOnDevice pidsInCont infos =
     foldl (\<lambda>(pids, mem) info.
        if pidFound pidsInCont (prPid info) then (pids @ [i32 (prPid info)], u64 (mem + prUsedGpuMemory info)) else (pids, mem))
       ([], 0) infos"

definition usedUtil :: "int list \<Rightarrow> process_sample list \<Rightarrow> int" where
  "usedUtil pidsInCont samples =
     foldl (\<lambda>gpu s. if pidFound pidsInCont (psPid s) then u32 (gpu + psSmUtil s) else gpu) 0 samples"

definition getDeviceUsage :: "disp_env \<Rightarrow> int list \<Rightarrow> int \<Rightarrow> DeviceInfo option" where
  "getDeviceUsage e pidsInCont deviceIdx =
     (let nv = dNvml e
      in if nvDeviceGetHandleByIndex nv deviceIdx \<noteq> NVML_SUCCESS then None
         else if snd (nvProcessUtilization nv deviceIdx) \<noteq> NVML_SUCCESS then None
         else if snd (dRunning e deviceIdx) \<noteq> NVML_SUCCESS then None
         else if snd (nvPciBusId nv deviceIdx) \<noteq> NVML_SUCCESS then None
         else let pids = sort pidsInCont;
                  (usedPids, usedMemory) = usedOnDevice pids (fst (dRunning e deviceIdx));
                  usedGPU = usedUtil pids (fst (nvProcessUtilization nv deviceIdx))
              in Some \<lparr>diId = B2S (fst (nvPciBusId nv deviceIdx)), diCardIdx = itoa deviceIdx,
                       diGpu = f32 (of_int usedGPU), diMem = f32 (of_int (usedMemory div 2 ^ 20)),
                       diPids = usedPids, diDeviceMem = 0\<rparr>)"

section \<open>Usage of a pod\<close>

text \<open>A device that the tree does not know is a nil dereference.\<close>

fun devicesUsageOf :: "disp_env \<Rightarrow> NvidiaTree \<Rightarrow> int list \<Rightarrow> string list \<Rightarrow> go_fault + DeviceInfo list" where
  "devicesUsageOf e t pids [] = Inr []"
| "devicesUsageOf e t pids (d # ds) =
     (if \<not> IsValidGPUPath d then devicesUsageOf e t pids ds
      else case Query t d of
             None \<Rightarrow> Inl Panic
           | Some a \<Rightarrow>
               (case devicesUsageOf e t pids ds of
                  Inl f \<Rightarrow> Inl f
                | Inr us \<Rightarrow>
                    (case getDeviceUsage e pids (ID (Meta (nodeAt t a))) of
                       None \<Rightarrow> Inr us
                     | Some u \<Rightarrow> Inr (u\<lparr>diDeviceMem := f32 (of_int (TotalMemory (Meta (nodeAt t a)) div 2 ^ 20))\<rparr> # us))))"

definition containerUsage :: "disp_env \<Rightarrow> NvidiaTree \<Rightarrow> ContainerStatus \<Rightarrow> go_fault + DeviceInfo list" where
  "containerUsage e t stat =
     (let contID = trimPrefix (csContainerID stat) (runtimeName (dManager e) @ ''://'')
      in if contID = [] then Inr []
         else case InspectContainer (dRuntime e) contID of
                Inl err \<Rightarrow> Inr []
              | Inr info \<Rightarrow>
                  (case GetPidsInContainerByStatus (dRuntime e) (dManager e) info of
                     Inl f \<Rightarrow> Inl f
                   | Inr (_, Some err) \<Rightarrow> Inr []
                   | Inr (pids, None) \<Rightarrow>
                       (case GetGPUData (dOrd e) (crAnnotations (the info)) of
                          (_, _, deviceNames) \<Rightarrow> devicesUsageOf e t pids deviceNames)))"

fun podUsageFrom ::
  "disp_env \<Rightarrow> NvidiaTree \<Rightarrow> (string, DeviceInfo list) gomap \<Rightarrow> ContainerStatus list
    \<Rightarrow> go_fault + (string, DeviceInfo list) gomap" where
  "podUsageFrom e t usage [] = Inr usage"
| "podUsageFrom e t usage (stat # stats) =
     (case containerUsage e t stat of
        Inl f \<Rightarrow> Inl f
      | Inr us \<Rightarrow> podUsageFrom e t (if us = [] then usage else AList.update (csName stat) us usage) stats)"

definition getPodUsage :: "disp_env \<Rightarrow> NvidiaTree \<Rightarrow> Pod \<Rightarrow> go_fault + (string, DeviceInfo list) gomap" where
  "getPodUsage e t pod = podUsageFrom e t [] (pStatuses pod)"

definition resourceValue :: "(string, int) gomap \<Rightarrow> string \<Rightarrow> int" where
  "resourceValue m k = (case map_of m k of None \<Rightarrow> 0 | Some v \<Rightarrow> v)"

definition containerSpec :: "(string, DeviceInfo list) gomap \<Rightarrow> Container \<Rightarrow> UsageSpec" where
  "containerSpec devicesInfo ctnt =
     (let vcore = resourceValue (cRequests ctnt) VCoreAnnotation;
          memBytes = i64 (resourceValue (cRequests ctnt) VMemoryAnnotation * MemoryBlockSize);
          deviceMem = (case map_of devicesInfo (cName ctnt) of
                         None \<Rightarrow> 0
                       | Some devs \<Rightarrow> foldl (\<lambda>m d. i64 (m + truncRat (diDeviceMem d))) 0 devs)
      in \<lparr>usGpu = f32 (f32 (of_int vcore) / 100),
          usMem = f32 (of_int (if memBytes = 0 then deviceMem else memBytes div 2 ^ 20))\<rparr>)"

definition getPodSpec :: "Pod \<Rightarrow> (string, DeviceInfo list) gomap \<Rightarrow> (string, UsageSpec) gomap" where
  "getPodSpec pod devicesInfo =
     foldl (\<lambda>m ctnt. AList.update (cName ctnt) (containerSpec devicesInfo ctnt) m) [] (pContainers pod)"

definition getUserName :: "Pod \<Rightarrow> go_fault + string" where
  "getUserName pod =
     (case pContainers pod of
        [] \<Rightarrow> Inl Panic
      | c # _ \<Rightarrow> (case find (\<lambda>v. envName v = ''SUBMITTER'') (cEnv c) of None \<Rightarrow> Inr [] | Some v \<Rightarrow> Inr (envValue v)))"

section \<open>The service\<close>

definition displayPrintGraph :: "disp_env \<Rightarrow> NvidiaTree \<Rightarrow> go_fault + NvidiaTree \<times> string" where
  "displayPrintGraph e t = PrintGraph (UpdateTree (dNvml e) t)"

definition podStat :: "disp_env \<Rightarrow> NvidiaTree \<Rightarrow> Pod \<Rightarrow> go_fault + ContainerStat option" where
  "podStat e t pod =
     (case getPodUsage e t pod of
        Inl f \<Rightarrow> Inl f
      | Inr usage \<Rightarrow>
          if usage = [] then Inr None
          else (case getUserName pod of
                  Inl f \<Rightarrow> Inl f
                | Inr user \<Rightarrow>
                    Inr (Some \<lparr>ctCluster = labelOf (pAnnotations pod) ClusterNameAnnotation, ctProject = pNamespace pod,
                               ctUser = user, ctStat = usage, ctSpec = getPodSpec pod usage\<rparr>)))"

fun usagesFrom ::
  "disp_env \<Rightarrow> NvidiaTree \<Rightarrow> (string, ContainerStat) gomap \<Rightarrow> (string \<times> Pod) list
    \<Rightarrow> go_fault + (string, ContainerStat) gomap" where
  "usagesFrom e t resp [] = Inr resp"
| "usagesFrom e t resp ((_, pod) # pods) =
     (case podStat e t pod of
        Inl f \<Rightarrow> Inl f
      | Inr None \<Rightarrow> usagesFrom e t resp pods
      | Inr (Some st) \<Rightarrow> usagesFrom e t (AList.update (pUID pod) st resp) pods)"

definition PrintUsages :: "disp_env \<Rightarrow> NvidiaTree \<Rightarrow> go_fault + (string, ContainerStat) gomap" where
  "PrintUsages e t = usagesFrom e t [] (gorange (dOrd e) (GetActivePods (dPods e)))"

section \<open>Metrics\<close>

record metric_desc =
  mdName :: string
  mdHelp :: string
  mdLabels :: "string list"

record metric =
  mtDesc :: metric_desc
  mtValue :: rat
  mtLabels :: "string list"

definition defaultMetricLabels :: "string list" where
  "defaultMetricLabels = [''pod_name'', ''namespace'', ''node'', ''container_name'', ''container_id'']"

definition utilMetricDesc :: metric_desc where
  "utilMetricDesc = \<lparr>mdName = ''container_gpu_utilization'', mdHelp = ''gpu utilization'', mdLabels = defaultMetricLabels @ [''gpu'']\<rparr>"

definition utilDescribeDesc :: metric_desc where
  "utilDescribeDesc = \<lparr>mdName = ''container_gpu_utilization'', mdHelp = ''gpu utilization'', mdLabels = [''gpu'']\<rparr>"

definition utilSpecMetricDesc :: metric_desc where
  "utilSpecMetricDesc = \<lparr>mdName = ''container_request_gpu_utilization'', mdHelp = ''request of gpu utilization'',
     mdLabels = defaultMetricLabels @ [''req_of_gpu'']\<rparr>"

definition utilSpecDescribeDesc :: metric_desc where
  "utilSpecDescribeDesc = \<lparr>mdName = ''container_request_gpu_utilization'', mdHelp = ''request of gpu utilization'', mdLabels = [''req_of_gpu'']\<rparr>"

definition memoryMetricDesc :: metric_desc where
  "memoryMetricDesc = \<lparr>mdName = ''container_gpu_memory_total'', mdHelp = ''gpu memory usage in MiB'',
     mdLabels = defaultMetricLabels @ [''gpu_memory'']\<rparr>"

definition memoryDescribeDesc :: metric_desc where
  "memoryDescribeDesc = \<lparr>mdName = ''container_gpu_memory_total'', mdHelp = ''gpu memory usage in MiB'', mdLabels = [''gpu_memory'']\<rparr>"

definition memorySpecMetricDesc :: metric_desc where
  "memorySpecMetricDesc = \<lparr>mdName = ''container_request_gpu_memory'', mdHelp = ''request of gpu memory in MiB'',
     mdLabels = defaultMetricLabels @ [''req_of_gpu_memory'']\<rparr>"

definition memorySpecDescribeDesc :: metric_desc where
  "memorySpecDescribeDesc = \<lparr>mdName = ''container_request_gpu_memory'', mdHelp = ''request of gpu memory in MiB'', mdLabels = [''req_of_gpu_memory'']\<rparr>"

definition Describe :: "metric_desc list" where
  "Describe = [utilDescribeDesc, utilSpecDescribeDesc, memoryDescribeDesc, memorySpecDescribeDesc]"

definition getContainerId :: "string \<Rightarrow> ContainerStatus list \<Rightarrow> string" where
  "getContainerId containerName statuses =
     (case find (\<lambda>s. csName s = containerName) statuses of
        None \<Rightarrow> []
      | Some s \<Rightarrow> (case splitStr (csContainerID s) ''://'' of [_, i] \<Rightarrow> i | _ \<Rightarrow> []))"

definition getPids :: "int list \<Rightarrow> string" where
  "getPids pids = joinStr (map itoa pids) '',''"

text \<open>Values are added up as \<^verbatim>\<open>float32\<close>; a gauge is sent unless its value is negative.\<close>

definition gauge :: "metric_desc \<Rightarrow> rat \<Rightarrow> string list \<Rightarrow> metric list" where
  "gauge d v labels = (if 0 \<le> v then [\<lparr>mtDesc = d, mtValue = v, mtLabels = labels\<rparr>] else [])"

definition sumF32 :: "rat list \<Rightarrow> rat" where
  "sumF32 xs = foldl (\<lambda>a x. f32 (a + x)) 0 xs"

definition usageMetrics :: "string list \<Rightarrow> DeviceInfo list \<Rightarrow> metric list" where
  "usageMetrics labels devs =
     concat (map (\<lambda>d. let gpuID = ''gpu'' @ diCardIdx d
                      in gauge utilMetricDesc (diGpu d) (labels @ [gpuID]) @ gauge memoryMetricDesc (diMem d) (labels @ [gpuID])) devs)
     @ gauge utilMetricDesc (sumF32 (map diGpu devs)) (labels @ [''total''])
     @ gauge memoryMetricDesc (sumF32 (map diMem devs)) (labels @ [''total''])"

definition specMetrics :: "string list \<Rightarrow> UsageSpec \<Rightarrow> metric list" where
  "specMetrics labels sp =
     [\<lparr>mtDesc = utilSpecMetricDesc, mtValue = usGpu sp, mtLabels = labels @ [''total'']\<rparr>,
      \<lparr>mtDesc = memorySpecMetricDesc, mtValue = usMem sp, mtLabels = labels @ [''total'']\<rparr>]"

definition podMetrics :: "disp_env \<Rightarrow> NvidiaTree \<Rightarrow> Pod \<Rightarrow> go_fault + metric list" where
  "podMetrics e t pod =
     (let labels = (\<lambda>c. [pName pod, pNamespace pod, pNodeName pod, c, getContainerId c (pStatuses pod)])
      in case getPodUsage e t pod of
           Inl f \<Rightarrow> Inl f
         | Inr usage \<Rightarrow>
             Inr (concat (map (\<lambda>(c, devs). usageMetrics (labels c) devs) (gorange (dOrd e) usage))
                  @ concat (map (\<lambda>(c, sp). specMetrics (labels c) sp) (gorange (dOrd e) (getPodSpec pod usage)))))"

fun collectPods :: "disp_env \<Rightarrow> NvidiaTree \<Rightarrow> Pod list \<Rightarrow> go_fault + metric list" where
  "collectPods e t [] = Inr []"
| "collectPods e t (pod # pods) =
     (case podMetrics e t pod of
        Inl f \<Rightarrow> Inl f
      | Inr ms \<Rightarrow> (case collectPods e t pods of Inl f \<Rightarrow> Inl f | Inr rest \<Rightarrow> Inr (ms @ rest)))"

definition Collect :: "disp_env \<Rightarrow> NvidiaTree \<Rightarrow> go_fault + metric list" where
  "Collect e t = collectPods e t (map snd (gorange (dOrd e) (GetActivePods (dPods e))))"

section \<open>helper.go\<close>

text \<open>The cgroups of the containers of each pod.\<close>

type_synonym podGPUs = "(string, (string, string) gomap) gomap"

definition newPodGPUs :: podGPUs where "newPodGPUs = []"

definition podGPUsPods :: "(string list \<Rightarrow> string list) \<Rightarrow> podGPUs \<Rightarrow> string list" where
  "podGPUsPods ord m = map fst (gorange ord m)"

definition podGPUsInsert :: "podGPUs \<Rightarrow> string \<Rightarrow> string \<Rightarrow> string \<Rightarrow> podGPUs" where
  "podGPUsInsert m podUID contName cgroup =
     (let conts = (case map_of m podUID of None \<Rightarrow> [] | Some cs \<Rightarrow> cs)
      in AList.update podUID (AList.update contName cgroup conts) m)"

definition getCgroup :: "podGPUs \<Rightarrow> string \<Rightarrow> string \<Rightarrow> string" where
  "getCgroup m podUID contName =
     (case map_of m podUID of
        None \<Rightarrow> []
      | Some cs \<Rightarrow> (case map_of cs contName of None \<Rightarrow> [] | Some c \<Rightarrow> c))"

definition podGPUsDelete :: "(string list \<Rightarrow> string list) \<Rightarrow> podGPUs \<Rightarrow> string \<Rightarrow> podGPUs \<times> string list" where
  "podGPUsDelete ord m uid =
     (AList.delete uid m, map snd (gorange ord (case map_of m uid of None \<Rightarrow> [] | Some cs \<Rightarrow> cs)))"

end
