(* ===== verification/Display_Theorems.thy ===== *)
theory Display_Theorems
  imports Display Allocator_Theorems
begin

text \<open>
  The properties of the display service: the bisection finds exactly the processes of a container, the
  devices the allocator writes into its annotations are read back and shown, and a card that is
  missing in the tree makes the answer for all pods unavailable.
\<close>

section \<open>Bisection\<close>

lemma searchBetween_spec:
  assumes "\<forall>a b. a \<le> b \<longrightarrow> b < n \<longrightarrow> f a \<longrightarrow> f b" "i \<le> j" "j \<le> n" "\<forall>k < i. \<not> f k" "\<forall>k. j \<le> k \<and> k < n \<longrightarrow> f k"
  shows "searchBetween f i j \<le> n \<and> (\<forall>k < searchBetween f i j. \<not> f k) \<and> (\<forall>k. searchBetween f i j \<le> k \<and> k < n \<longrightarrow> f k)"
  using assms
proof (induction f i j rule: searchBetween.induct)
  case (1 f i j)
  define h where "h = (i + j) div 2"
  show ?case
  proof (cases "i < j")
    case True
    then have h: "i \<le> h" "h < j" by (auto simp: h_def)
    show ?thesis
    proof (cases "f h")
      case fh: True
      have "\<forall>k. h \<le> k \<and> k < n \<longrightarrow> f k" using fh "1.prems"(1) by blast
      with "1.IH"(1) [OF True h_def fh] "1.prems" h True fh show ?thesis
        unfolding searchBetween.simps [of f i j] Let_def h_def [symmetric] by simp
    next
      case fh: False
      have "\<forall>k < h + 1. \<not> f k" using fh "1.prems"(1,3) h by (metis less_Suc_eq_le Suc_eq_plus1 order.strict_trans2)
      with "1.IH"(2) [OF True h_def fh] "1.prems" h True fh show ?thesis
        unfolding searchBetween.simps [of f i j] Let_def h_def [symmetric] by simp
    qed
  next
    case False
    with "1.prems" show ?thesis by (subst (1 2 3) searchBetween.simps) auto
  qed
qed

lemma pidFound_iff: "pidFound (sort pids) p \<longleftrightarrow> p \<in> set pids"
proof -
  define ps where "ps = sort pids"
  define f where "f = (\<lambda>k. p \<le> ps ! k)"
  define r where "r = goSearch (length ps) f"
  have sorted: "sorted ps" by (simp add: ps_def)
  have "\<forall>a b. a \<le> b \<longrightarrow> b < length ps \<longrightarrow> f a \<longrightarrow> f b"
  proof (intro allI impI)
    fix a b
    assume "a \<le> b" "b < length ps" "f a"
    with sorted_nth_mono [OF sorted, of a b] show "f b" by (simp add: f_def)
  qed
  note m = searchBetween_spec [OF this le0 order_refl]
  have spec: "r \<le> length ps \<and> (\<forall>k < r. \<not> f k) \<and> (\<forall>k. r \<le> k \<and> k < length ps \<longrightarrow> f k)"
    unfolding r_def goSearch_def by (rule m) auto
  have r: "\<forall>k < r. \<not> f k" "\<forall>k. r \<le> k \<and> k < length ps \<longrightarrow> f k"
    using spec by simp_all
  have "p \<in> set ps \<Longrightarrow> r < length ps \<and> ps ! r = p"
  proof -
    assume "p \<in> set ps"
    then obtain k where k: "k < length ps" "ps ! k = p" by (auto simp: in_set_conv_nth)
    then have "f k" by (simp add: f_def)
    then have rk: "r \<le> k" using r(1) by (meson not_le)
    then have "f r" using r(2) k(1) by simp
    with sorted_nth_mono [OF sorted rk k(1)] rk k show ?thesis by (simp add: f_def)
  qed
  moreover have "r < length ps \<Longrightarrow> ps ! r = p \<Longrightarrow> p \<in> set ps" by auto
  ultimately have "r < length ps \<and> ps ! r = p \<longleftrightarrow> p \<in> set ps" by blast
  then show ?thesis by (simp add: pidFound_def Let_def r_def f_def ps_def [symmetric]) (simp add: ps_def)
qed

section \<open>Usage of a device\<close>

lemma u64_add: "u64 (u64 a + b) = u64 (a + b)"
  by (simp add: u64_def mod_add_left_eq)

lemma u32_add: "u32 (u32 a + b) = u32 (a + b)"
  by (simp add: u32_def mod_add_left_eq)

lemma usedOnDevice_eq:
  "usedOnDevice (sort pids) infos =
     (let mine = filter (\<lambda>i. prPid i \<in> set pids) infos
      in (map (\<lambda>i. i32 (prPid i)) mine, u64 (sum_list (map prUsedGpuMemory mine))))"
proof -
  have "foldl (\<lambda>(ps, mem) info. if pidFound (sort pids) (prPid info)
          then (ps @ [i32 (prPid info)], u64 (mem + prUsedGpuMemory info)) else (ps, mem)) (acc, u64 m) infos
      = (acc @ map (\<lambda>i. i32 (prPid i)) (filter (\<lambda>i. prPid i \<in> set pids) infos),
         u64 (m + sum_list (map prUsedGpuMemory (filter (\<lambda>i. prPid i \<in> set pids) infos))))" for acc m
  proof (induction infos arbitrary: acc m)
    case (Cons i infos)
    from Cons [of acc m] Cons [of "acc @ [i32 (prPid i)]" "m + prUsedGpuMemory i"] show ?case
      by (simp add: pidFound_iff u64_add add.assoc)
  qed simp
  from this [of "[]" 0] show ?thesis by (simp add: usedOnDevice_def Let_def u64_def)
qed

lemma usedUtil_eq:
  "usedUtil (sort pids) samples = u32 (sum_list (map psSmUtil (filter (\<lambda>s. psPid s \<in> set pids) samples)))"
proof -
  have "foldl (\<lambda>gpu s. if pidFound (sort pids) (psPid s) then u32 (gpu + psSmUtil s) else gpu) (u32 g) samples
      = u32 (g + sum_list (map psSmUtil (filter (\<lambda>s. psPid s \<in> set pids) samples)))" for g
  proof (induction samples arbitrary: g)
    case (Cons s samples)
    from Cons [of g] Cons [of "g + psSmUtil s"] show ?case by (simp add: pidFound_iff u32_add add.assoc)
  qed simp
  from this [of 0] show ?thesis by (simp add: usedUtil_def u32_def)
qed

text \<open>The four calls to the management library succeed.\<close>

definition answers :: "disp_env \<Rightarrow> int \<Rightarrow> bool" where
  "answers e d \<longleftrightarrow> nvDeviceGetHandleByIndex (dNvml e) d = NVML_SUCCESS \<and> snd (nvProcessUtilization (dNvml e) d) = NVML_SUCCESS
     \<and> snd (dRunning e d) = NVML_SUCCESS \<and> snd (nvPciBusId (dNvml e) d) = NVML_SUCCESS"

text \<open>Claim C37: the usage of a device by a container is computed for exactly the processes of the
  container, whatever order they are listed in and however many there are: the processes on the device
  that belong to the container, the sum of their memory in MiB and the sum of their utilization, with
  the wrap-around of their widths and the precision of the message; nothing is reported when one of the
  four calls fails.\<close>

theorem device_usage_exact:
  "getDeviceUsage e pids d =
     (if answers e d
      then let mine = filter (\<lambda>i. prPid i \<in> set pids) (fst (dRunning e d));
               samples = filter (\<lambda>s. psPid s \<in> set pids) (fst (nvProcessUtilization (dNvml e) d))
           in Some \<lparr>diId = B2S (fst (nvPciBusId (dNvml e) d)), diCardIdx = itoa d,
                diGpu = f32 (of_int (sum_list (map psSmUtil samples) mod 2 ^ 32)),
                diMem = f32 (of_int (sum_list (map prUsedGpuMemory mine) mod 2 ^ 64 div 2 ^ 20)),
                diPids = map (\<lambda>i. i32 (prPid i)) mine, diDeviceMem = 0\<rparr>
      else None)"
  by (simp add: getDeviceUsage_def answers_def Let_def usedOnDevice_eq usedUtil_eq u64_def u32_def)

section \<open>Usage of a container\<close>

text \<open>What is shown of a device of the tree.\<close>

definition shownDevice :: "disp_env \<Rightarrow> NvidiaTree \<Rightarrow> int list \<Rightarrow> addr \<Rightarrow> DeviceInfo option" where
  "shownDevice e t pids a = map_option (\<lambda>u. u\<lparr>diDeviceMem := f32 (of_int (TotalMemory (Meta (nodeAt t a)) div 2 ^ 20))\<rparr>)
     (getDeviceUsage e pids (ID (Meta (nodeAt t a))))"

lemma devicesUsageOf_known:
  "list_all (\<lambda>d. IsValidGPUPath d \<and> Query t d \<noteq> None) ds \<Longrightarrow>
     devicesUsageOf e t pids ds = Inr (List.map_filter (\<lambda>d. shownDevice e t pids (the (Query t d))) ds)"
  by (induction ds) (auto simp: shownDevice_def List.map_filter_simps split: option.splits)

text \<open>The loop over the devices ends in a fault exactly when one of them is missing in the tree.\<close>

lemma devicesUsageOf_fault:
  "devicesUsageOf e t pids ds = Inl f \<longleftrightarrow> f = Panic \<and> list_ex (\<lambda>d. IsValidGPUPath d \<and> Query t d = None) ds"
  by (induction ds) (auto split: option.splits sum.splits)

text \<open>A fault for one container or pod is a fault of the whole call, in whatever order the others come.\<close>

lemma podUsageFrom_fault: "stat \<in> set stats \<Longrightarrow> containerUsage e t stat = Inl f \<Longrightarrow> \<exists>f'. podUsageFrom e t usage stats = Inl f'"
  by (induction e t usage stats rule: podUsageFrom.induct) (auto split: sum.splits)

lemma usagesFrom_fault: "(u, p) \<in> set pods \<Longrightarrow> podStat e t p = Inl f \<Longrightarrow> \<exists>f'. usagesFrom e t resp pods = Inl f'"
  by (induction e t resp pods rule: usagesFrom.induct) (auto split: sum.splits option.splits)

text \<open>The annotations of a response are read in any order.\<close>

lemma annotation_names:
  "hasSuffix VCoreAnnotation VCoreAnnotation" "\<not> hasSuffix VMemoryAnnotation VCoreAnnotation" "\<not> hasSuffix VDeviceAnnotation VCoreAnnotation"
  "hasSuffix VMemoryAnnotation VMemoryAnnotation" "\<not> hasSuffix VDeviceAnnotation VMemoryAnnotation"
  "hasSuffix VDeviceAnnotation VDeviceAnnotation"
  by code_simp+

lemma GetGPUData_response:
  assumes "range_order ord"
  shows "GetGPUData ord [(VCoreAnnotation, a), (VMemoryAnnotation, b), (VDeviceAnnotation, c)]
    = (fst (parseInt 64 a), fst (parseInt 64 b), splitStr c '','')"
proof -
  define m where "m = [(VCoreAnnotation, a), (VMemoryAnnotation, b), (VDeviceAnnotation, c)]"
  have "VCoreAnnotation \<noteq> VMemoryAnnotation" "VCoreAnnotation \<noteq> VDeviceAnnotation" "VMemoryAnnotation \<noteq> VDeviceAnnotation"
    using annotation_names by metis+
  then have "gomap_ok m" by (simp add: m_def gomap_ok_def)
  then have set: "set (gorange ord m) = set m" using set_gorange [OF assms] by blast
  have "foldl (\<lambda>(util, mem, names) (k, v).
        if hasSuffix k VCoreAnnotation then (fst (parseInt 64 v), mem, names)
        else if hasSuffix k VMemoryAnnotation then (util, fst (parseInt 64 v), names)
        else if hasSuffix k VDeviceAnnotation then (util, mem, splitStr v '','') else (util, mem, names)) (u, w, ns) xs
      = (if (VCoreAnnotation, a) \<in> set xs then fst (parseInt 64 a) else u,
         if (VMemoryAnnotation, b) \<in> set xs then fst (parseInt 64 b) else w,
         if (VDeviceAnnotation, c) \<in> set xs then splitStr c '','' else ns)"
    if "set xs \<subseteq> set m" for xs u w ns
    using that
  proof (induction xs arbitrary: u w ns)
    case (Cons x xs)
    from Cons.prems have "x \<in> set m" "set xs \<subseteq> set m" by auto
    then show ?case using Cons.IH annotation_names by (auto simp: m_def)
  qed simp
  from this [of "gorange ord m"] set show ?thesis by (simp add: GetGPUData_def m_def)
qed

lemma names_no_comma: "0 \<le> i \<Longrightarrow> CHR '','' \<notin> set (minorPath i)"
proof -
  have "CHR '','' \<notin> set (natStr n)" for n using natStr_digits [of n] by (auto simp: list_all_iff isDigit_def)
  then show "0 \<le> i \<Longrightarrow> CHR '','' \<notin> set (minorPath i)" by (simp add: minorPath_def NvidiaDevicePrefix_def itoa_def)
qed

text \<open>The device names in the annotations of an allocator's response.\<close>

lemma response_devices:
  assumes "minors_ok t" "set nodes \<subseteq> set (leaves t)" "nodes \<noteq> []" "range_order ord"
  defines "names \<equiv> map (\<lambda>n. MinorName (nodeAt t n)) nodes"
  shows "GetGPUData ord (respAnnotations (containerResponse cfg t pod c cores mem share nodes))
      = (fst (parseInt 64 (itoa cores)), fst (parseInt 64 (itoa mem)), names)"
    and "d \<in> set names \<Longrightarrow> IsValidGPUPath d"
proof -
  have minor: "0 \<le> MinorID (Meta (nodeAt t n))" if "n \<in> set nodes" for n
    using that assms(1,2) by (auto simp: minors_ok_def list_all_iff)
  then have "\<forall>d \<in> set names. CHR '','' \<notin> set d" by (auto simp: names_def MinorName_def names_no_comma)
  then show "GetGPUData ord (respAnnotations (containerResponse cfg t pod c cores mem share nodes))
      = (fst (parseInt 64 (itoa cores)), fst (parseInt 64 (itoa mem)), names)"
    using splitStr_joinStr [of names "CHR '',''"] assms(3)
    by (simp add: containerResponse_def GetGPUData_response [OF assms(4)] vDeviceAnnotationStr_def names_def)
  show "IsValidGPUPath d" if "d \<in> set names" using that minor by (auto simp: names_def MinorName_def)
qed

text \<open>Claim C38: what the allocator grants is what the display service shows. When the runtime reports the
  annotations of the allocator's response for a container, its devices are read back from them, every
  one is found in the tree, and the usage of each of them is reported, in the order of the response.\<close>

theorem allocated_devices_shown:
  assumes "tree_ok t" "minors_ok t" "set nodes \<subseteq> set (leaves t)" "nodes \<noteq> []" "range_order (dOrd e)"
    and "tree_ok t'" "devNames t' = devNames t"
    and "trimPrefix (csContainerID stat) (runtimeName (dManager e) @ ''://'') = cid" "cid \<noteq> []"
    and "InspectContainer (dRuntime e) cid = Inr (Some st)"
    and "crAnnotations st = respAnnotations (containerResponse cfg t pod c cores mem share nodes)"
    and "GetPidsInContainerByStatus (dRuntime e) (dManager e) (Some st) = Inr (pids, None)"
  shows "\<exists>as. containerUsage e t' stat = Inr (List.map_filter (shownDevice e t' pids) as)
    \<and> set as \<subseteq> set (leaves t') \<and> map (\<lambda>a. MinorName (nodeAt t' a)) as = map (\<lambda>n. MinorName (nodeAt t n)) nodes"
proof -
  define names where "names = map (\<lambda>n. MinorName (nodeAt t n)) nodes"
  note resp = response_devices [OF assms(2-5), folded names_def]
  have "set names \<subseteq> set (devNames t')" using assms(3,7) by (auto simp: names_def devNames_def)
  have known: "\<exists>a. Query t' d = Some a \<and> a \<in> set (leaves t') \<and> MinorName (nodeAt t' a) = d" if "d \<in> set names" for d
  proof -
    from that \<open>set names \<subseteq> set (devNames t')\<close> have "d \<in> set (devNames t')" by blast
    then obtain i where "i < length (leaves t')" "d = MinorName (nodeAt t' (leaves t' ! i))"
      by (auto simp: devNames_def in_set_conv_nth)
    with query_leaf [OF assms(6)] show ?thesis by (auto simp: Query_def)
  qed
  have "GetGPUData (dOrd e) (crAnnotations st) = (fst (parseInt 64 (itoa cores)), fst (parseInt 64 (itoa mem)), names)"
    using resp(1) assms(11) by simp
  then have "containerUsage e t' stat = devicesUsageOf e t' pids names"
    using assms(8-10,12) by (simp add: containerUsage_def)
  also have "\<dots> = Inr (List.map_filter (\<lambda>d. shownDevice e t' pids (the (Query t' d))) names)"
    using resp(2) known by (intro devicesUsageOf_known) (fastforce simp: list_all_iff)
  also have "List.map_filter (\<lambda>d. shownDevice e t' pids (the (Query t' d))) names
      = List.map_filter (shownDevice e t' pids) (map (\<lambda>d. the (Query t' d)) names)"
    by (induction names) (simp_all add: List.map_filter_simps split: option.split)
  finally have "containerUsage e t' stat = Inr (List.map_filter (shownDevice e t' pids) (map (\<lambda>d. the (Query t' d)) names))" .
  moreover have "set (map (\<lambda>d. the (Query t' d)) names) \<subseteq> set (leaves t')" using known by fastforce
  moreover have "map (\<lambda>a. MinorName (nodeAt t' a)) (map (\<lambda>d. the (Query t' d)) names) = names"
    unfolding map_map comp_def by (rule map_idI) (use known in fastforce)
  ultimately show ?thesis unfolding names_def by blast
qed

definition shownStatus :: criStatus where
  "shownStatus = \<lparr>crId = ''c1'', crMetadataName = Some ''main'', crLabels = [],
     crAnnotations = respAnnotations (containerResponse sampleCfg sampleTree samplePod sampleContainer 20 3 True [2])\<rparr>"

definition displayEnv :: disp_env where
  "displayEnv = \<lparr>dNvml = sampleNvml, dRunning = (\<lambda>d. ([\<lparr>prPid = 7, prUsedGpuMemory = 2097152\<rparr>, \<lparr>prPid = 9, prUsedGpuMemory = 5\<rparr>], 0)),
     dRuntime = \<lparr>rInspect = (\<lambda>i. Inr (Some shownStatus)), rLister = (\<lambda>a b. Inr samplePod), rStat = (\<lambda>d. Present),
       rAllPids = (\<lambda>d. ([8, 7], None)), rPodQOS = (\<lambda>p. PodQOSBestEffort), rExpandSlice = Inr\<rparr>,
     dManager = \<lparr>cgroupDriver = ''cgroupfs'', runtimeName = ''docker'', isCGroupV2 = False\<rparr>,
     dPods = Some [samplePod], dOrd = (\<lambda>ks. ks)\<rparr>"

definition runningMain :: ContainerStatus where
  "runningMain = \<lparr>csName = ''main'', csContainerID = ''docker://c1'', csWaitingMessage = None, csTerminated = False\<rparr>"

theorem allocated_devices_shown_witness:
  "\<exists>as. containerUsage displayEnv sampleTree runningMain = Inr (List.map_filter (shownDevice displayEnv sampleTree [8, 7]) as)
     \<and> set as \<subseteq> set (leaves sampleTree) \<and> map (\<lambda>a. MinorName (nodeAt sampleTree a)) as = [''/dev/nvidia2'']"
proof -
  have "tree_ok sampleTree" "minors_ok sampleTree" "set [2] \<subseteq> set (leaves sampleTree)"
    "trimPrefix (csContainerID runningMain) (runtimeName (dManager displayEnv) @ ''://'') = ''c1''"
    "map (\<lambda>n. MinorName (nodeAt sampleTree n)) [2] = [''/dev/nvidia2'']" by code_simp+
  moreover have "range_order (dOrd displayEnv)" "InspectContainer (dRuntime displayEnv) ''c1'' = Inr (Some shownStatus)"
    by (simp_all add: displayEnv_def InspectContainer_def)
  moreover have "GetPidsInContainerByStatus (dRuntime displayEnv) (dManager displayEnv) (Some shownStatus) = Inr ([8, 7], None)"
    by code_simp
  ultimately show ?thesis
    using allocated_devices_shown [of sampleTree "[2]" displayEnv sampleTree runningMain "''c1''" shownStatus sampleCfg samplePod
        sampleContainer 20 3 True "[8, 7]"] by (simp add: shownStatus_def)
qed

text \<open>Claim C40: one running container whose card is gone, for instance after the node was restarted without
  it, makes the usage of every pod unavailable. When the runtime still reports the annotations of the
  allocator's response for the container, and one of the cards granted then is missing in the tree now, the
  usage of the container is a panic, and with it the usage of its pod and the whole answer for all pods, in
  whatever order they are visited.\<close>

theorem missing_card_loses_usages:
  assumes "minors_ok t" "set nodes \<subseteq> set (leaves t)" "range_order (dOrd e)"
    and "tree_ok t'" "n \<in> set nodes" "MinorName (nodeAt t n) \<notin> set (devNames t')"
    and "map_of (GetActivePods (dPods e)) u = Some p" "stat \<in> set (pStatuses p)"
    and "trimPrefix (csContainerID stat) (runtimeName (dManager e) @ ''://'') = cid" "cid \<noteq> []"
    and "InspectContainer (dRuntime e) cid = Inr (Some st)"
    and "crAnnotations st = respAnnotations (containerResponse cfg t pod c cores mem share nodes)"
    and "GetPidsInContainerByStatus (dRuntime e) (dManager e) (Some st) = Inr (pids, None)"
  shows "containerUsage e t' stat = Inl Panic \<and> (\<exists>f. getPodUsage e t' p = Inl f) \<and> (\<exists>f. PrintUsages e t' = Inl f)"
proof -
  define names where "names = map (\<lambda>n. MinorName (nodeAt t n)) nodes"
  have "nodes \<noteq> []" using assms(5) by auto
  note resp = response_devices [OF assms(1,2) this assms(3), folded names_def]
  define d where "d = MinorName (nodeAt t n)"
  have d: "d \<in> set names" using assms(5) by (simp add: d_def names_def)
  have "map fst (query t') = devNames t'" using tree_okD(7) [OF assms(4)] by (simp add: devNames_def)
  then have "fst ` set (query t') = set (devNames t')" by (metis image_set)
  then have "Query t' d = None" using assms(6) by (simp add: d_def Query_def map_of_eq_None_iff)
  with d resp(2) [OF d] have "devicesUsageOf e t' pids names = Inl Panic"
    by (auto simp: devicesUsageOf_fault list_ex_iff)
  then have c: "containerUsage e t' stat = Inl Panic" using assms(9-13) resp(1) by (simp add: containerUsage_def)
  then obtain f where f: "getPodUsage e t' p = Inl f"
    using podUsageFrom_fault [OF assms(8) c] by (auto simp: getPodUsage_def)
  have "(u, p) \<in> set (gorange (dOrd e) (GetActivePods (dPods e)))"
    using map_of_SomeD [OF assms(7)] set_gorange [OF assms(3) GetActivePods_gomap] by simp
  moreover have "podStat e t' p = Inl f" using f by (simp add: podStat_def)
  ultimately have "\<exists>f. PrintUsages e t' = Inl f" using usagesFrom_fault unfolding PrintUsages_def by blast
  with c f show ?thesis by blast
qed

definition shrunkTree :: NvidiaTree where
  "shrunkTree = (case Init (sampleNvml\<lparr>nvDeviceGetCount := (2, 0)\<rparr>) (\<lambda>ks. ks) (newNvidiaTree (Some 1) 0) [] of
     Inr t \<Rightarrow> t | _ \<Rightarrow> newNvidiaTree None 0)"

theorem missing_card_loses_usages_witness:
  "\<exists>f. PrintUsages (displayEnv\<lparr>dPods := Some [samplePod\<lparr>pStatuses := [runningMain]\<rparr>]\<rparr>) shrunkTree = Inl f"
proof -
  define e where "e = displayEnv\<lparr>dPods := Some [samplePod\<lparr>pStatuses := [runningMain]\<rparr>]\<rparr>"
  have "minors_ok sampleTree" "set [2] \<subseteq> set (leaves sampleTree)" "tree_ok shrunkTree"
    "MinorName (nodeAt sampleTree 2) \<notin> set (devNames shrunkTree)"
    "trimPrefix (csContainerID runningMain) (runtimeName (dManager displayEnv) @ ''://'') = ''c1''" by code_simp+
  moreover have "GetPidsInContainerByStatus (dRuntime displayEnv) (dManager displayEnv) (Some shownStatus) = Inr ([8, 7], None)"
    by code_simp
  moreover have "map_of (GetActivePods (dPods e)) (pUID samplePod) = Some (samplePod\<lparr>pStatuses := [runningMain]\<rparr>)"
    unfolding e_def by code_simp
  moreover have "dRuntime e = dRuntime displayEnv" "dManager e = dManager displayEnv" "range_order (dOrd e)"
    "InspectContainer (dRuntime displayEnv) ''c1'' = Inr (Some shownStatus)"
    by (simp_all add: e_def displayEnv_def InspectContainer_def)
  ultimately show ?thesis
    using missing_card_loses_usages [of sampleTree "[2]" e shrunkTree 2 "pUID samplePod" "samplePod\<lparr>pStatuses := [runningMain]\<rparr>"
        runningMain "''c1''" shownStatus sampleCfg samplePod sampleContainer 20 3 True "[8, 7]"]
    unfolding e_def [symmetric] by (simp add: shownStatus_def)
qed

section \<open>All pods\<close>

lemma usagesFrom_get:
  assumes "usagesFrom e t resp pods = Inr r" "distinct (map fst pods)" "\<forall>(u, pod) \<in> set pods. pUID pod = u"
  shows "map_of r u = (case map_of pods u of
      None \<Rightarrow> map_of resp u
    | Some pod \<Rightarrow> (case podStat e t pod of Inr (Some st) \<Rightarrow> Some st | _ \<Rightarrow> map_of resp u))"
  using assms
proof (induction e t resp pods rule: usagesFrom.induct)
  case (2 e t resp v pod pods)
  then obtain st where st: "podStat e t pod = Inr st" by (auto split: sum.splits)
  have u: "pUID pod = v" "map_of pods v = None" using 2(4,5) by (auto simp: map_of_eq_None_iff)
  show ?case
  proof (cases st)
    case None
    with 2(1) [OF st] 2(3-5) st u show ?thesis by (cases "u = v") auto
  next
    case (Some s)
    with 2(2) [OF st] 2(3-5) st u show ?thesis by (cases "u = v") (auto simp: map_of_AList_update split: option.split sum.split)
  qed
qed simp

text \<open>The answer has an entry for exactly the active pods that use a device, with their usage.\<close>

lemma PrintUsages_exact:
  assumes "range_order (dOrd e)" "PrintUsages e t = Inr r"
  shows "map_of r u = (case map_of (GetActivePods (dPods e)) u of
      None \<Rightarrow> None
    | Some pod \<Rightarrow> (case podStat e t pod of Inr (Some st) \<Rightarrow> Some st | _ \<Rightarrow> None))"
proof -
  define pods where "pods = gorange (dOrd e) (GetActivePods (dPods e))"
  note ok = GetActivePods_gomap [of "dPods e"]
  have m: "mset pods = mset (GetActivePods (dPods e))" unfolding pods_def by (rule mset_gorange [OF assms(1) ok])
  then have d: "distinct (map fst pods)" using ok by (metis gomap_ok_def mset_eq_imp_distinct_iff mset_map)
  have "\<forall>(v, pod) \<in> set pods. pUID pod = v"
  proof (cases "dPods e")
    case (Some items)
    have "set pods = set (GetActivePods (dPods e))" using m mset_eq_setD by blast
    then show ?thesis using GetActivePods_Some [of items] ok Some by (fastforce simp: gomap_ok_def)
  qed (simp add: pods_def GetActivePods_def gorange_def range_order_set [OF assms(1)])
  from usagesFrom_get [OF _ d this, of e t "[]" r u] assms(2) have
    "map_of r u = (case map_of pods u of None \<Rightarrow> None | Some pod \<Rightarrow> (case podStat e t pod of Inr (Some st) \<Rightarrow> Some st | _ \<Rightarrow> None))"
    by (simp add: PrintUsages_def pods_def split: option.splits sum.splits)
  moreover have "map_of pods = map_of (GetActivePods (dPods e))"
    using m d ok by (metis gomap_ok_def map_of_inject_set mset_eq_setD)
  ultimately show ?thesis by simp
qed

section \<open>helper.go\<close>

lemma podGPUs_laws:
  "getCgroup (podGPUsInsert m u c g) u' c' = (if u' = u \<and> c' = c then g else getCgroup m u' c')"
  "getCgroup (fst (podGPUsDelete ord m u)) u' c' = (if u' = u then [] else getCgroup m u' c')"
  by (auto simp: getCgroup_def podGPUsInsert_def podGPUsDelete_def Let_def go_map split: option.splits)

end
