(* ===== verification/App.thy ===== *)
theory App
  imports Runtime Stores Go_Float Go_Paths
begin

text \<open>
  \<^verbatim>\<open>cmd/manager/options/options.go\<close>, \<^verbatim>\<open>pkg/config/config.go\<close> and \<^verbatim>\<open>cmd/manager/app/app.go\<close>: the options
  with their defaults, the configuration that is made of them and of the configuration file of the
  cluster, its check, and the main loop. The record \<open>app_env\<close> gives the environment variables, the files
  and the answers of the operating system. Durations are nanoseconds; the memory scaling is a \<open>float64\<close>, and the
  flag library also accepts \<^verbatim>\<open>NaN\<close> and infinities for it.
\<close>

section \<open>options.go\<close>

record Options =
  optDriver :: string
  optExtraPath :: string
  optVolumeConfigPath :: string
  optQueryPort :: int
  optQueryAddr :: string
  optKubeConfigFile :: string
  optSamplePeriod :: int
  optNodeLabels :: string
  optHostnameOverride :: string
  optVirtualManagerPath :: string
  optDevicePluginPath :: string
  optEnableShare :: bool
  optAllocationCheckPeriod :: int
  optDeviceMemoryScaling :: float64
  optCheckpointPath :: string
  optContainerRuntimeEndpoint :: string
  optCgroupDriver :: string
  optRequestTimeout :: int
  optWaitTimeout :: int

record app_env =
  aNodeName :: string
  aStat :: "string \<Rightarrow> stat_result"
  aKubeletConfig :: "string + string"
  aDeviceConfig :: "io_error + jval option"
  aDialUnix :: "string \<Rightarrow> string option"
  aReady :: "nat \<Rightarrow> bool option"
  aTimerFired :: "nat \<Rightarrow> bool"
  aRegister :: "string option"
  aWatcher :: "string option"

definition DefaultDriver :: string where "DefaultDriver = ''nvidia''"
definition DefaultQueryPort :: int where "DefaultQueryPort = 5678"
definition DefaultSamplePeriod :: int where "DefaultSamplePeriod = 1"
definition DefaultDeviceMemoryScaling :: float64 where "DefaultDeviceMemoryScaling = Fin 1"
definition DefaultVirtualManagerPath :: string where "DefaultVirtualManagerPath = ''/etc/gpu-manager/vm''"
definition DefaultAllocationCheckPeriod :: int where "DefaultAllocationCheckPeriod = 30"
definition DefaultCheckpointPath :: string where "DefaultCheckpointPath = ''/etc/gpu-manager/checkpoint''"
definition DockerShimRuntimeEndpoint :: string where "DockerShimRuntimeEndpoint = ''/var/run/dockershim.sock''"
definition DockerCriRuntimeEndpoint :: string where "DockerCriRuntimeEndpoint = ''/var/run/cri-dockerd.sock''"
definition ContainerdRuntimeEndpoint :: string where "ContainerdRuntimeEndpoint = ''/var/run/containerd/containerd.sock''"

definition ContainerRuntimeCompatibilityList :: "string list" where
  "ContainerRuntimeCompatibilityList = [DockerShimRuntimeEndpoint, DockerCriRuntimeEndpoint, ContainerdRuntimeEndpoint]"

text \<open>\<^verbatim>\<open>pluginapi.DevicePluginPath\<close>, of the kubelet's interface.\<close>

definition pluginDevicePluginPath :: string where "pluginDevicePluginPath = ''/var/lib/kubelet/device-plugins/''"

definition second :: int where "second = 1000000000"

definition getDefaultRuntimeEndpoint :: "app_env \<Rightarrow> string" where
  "getDefaultRuntimeEndpoint e =
     (case find (\<lambda>p. aStat e p \<noteq> Missing) ContainerRuntimeCompatibilityList of None \<Rightarrow> [] | Some p \<Rightarrow> p)"

text \<open>\<^verbatim>\<open>strings.LastIndex(s, p) > 0\<close>: an occurrence after the first character.\<close>

definition getDefaultCgroupDriver :: "app_env \<Rightarrow> string" where
  "getDefaultCgroupDriver e =
     (case aKubeletConfig e of
        Inl err \<Rightarrow> []
      | Inr kubeletConfig \<Rightarrow>
          if containsStr (drop 1 kubeletConfig) ''cgroupDriver:'' then
            (let content = toLower kubeletConfig
             in if containsStr content ''systemd'' then ''systemd''
                else if containsStr content ''cgroupfs'' then ''cgroupfs'' else [])
          else [])"

definition NewOptions :: "app_env \<Rightarrow> Options" where
  "NewOptions e =
     \<lparr>optDriver = DefaultDriver, optExtraPath = [], optVolumeConfigPath = [], optQueryPort = DefaultQueryPort,
      optQueryAddr = ''localhost'', optKubeConfigFile = [], optSamplePeriod = DefaultSamplePeriod, optNodeLabels = [],
      optHostnameOverride = aNodeName e, optVirtualManagerPath = DefaultVirtualManagerPath,
      optDevicePluginPath = pluginDevicePluginPath, optEnableShare = False,
      optAllocationCheckPeriod = DefaultAllocationCheckPeriod, optDeviceMemoryScaling = DefaultDeviceMemoryScaling,
      optCheckpointPath = DefaultCheckpointPath, optContainerRuntimeEndpoint = getDefaultRuntimeEndpoint e,
      optCgroupDriver = getDefaultCgroupDriver e, optRequestTimeout = 5 * second, optWaitTimeout = 60 * second\<rparr>"

text \<open>A flag that is set on the command line, with the value the flag library has parsed, and the variable it
  is bound to. The library ends the program when a value is of the wrong kind and when a name is registered
  twice.\<close>

datatype flag_value = FlagString string | FlagInt int | FlagBool bool | FlagFloat float64 | FlagDuration int

type_synonym flag_setter = "flag_value \<Rightarrow> Options \<Rightarrow> Options option"

definition StringVar :: "((string \<Rightarrow> string) \<Rightarrow> Options \<Rightarrow> Options) \<Rightarrow> flag_setter" where
  "StringVar upd v opt = (case v of FlagString s \<Rightarrow> Some (upd (\<lambda>_. s) opt) | _ \<Rightarrow> None)"

definition IntVar :: "((int \<Rightarrow> int) \<Rightarrow> Options \<Rightarrow> Options) \<Rightarrow> flag_setter" where
  "IntVar upd v opt = (case v of FlagInt i \<Rightarrow> Some (upd (\<lambda>_. i) opt) | _ \<Rightarrow> None)"

definition BoolVar :: "((bool \<Rightarrow> bool) \<Rightarrow> Options \<Rightarrow> Options) \<Rightarrow> flag_setter" where
  "BoolVar upd v opt = (case v of FlagBool b \<Rightarrow> Some (upd (\<lambda>_. b) opt) | _ \<Rightarrow> None)"

definition Float64Var :: "((float64 \<Rightarrow> float64) \<Rightarrow> Options \<Rightarrow> Options) \<Rightarrow> flag_setter" where
  "Float64Var upd v opt = (case v of FlagFloat r \<Rightarrow> Some (upd (\<lambda>_. r) opt) | _ \<Rightarrow> None)"

definition DurationVar :: "((int \<Rightarrow> int) \<Rightarrow> Options \<Rightarrow> Options) \<Rightarrow> flag_setter" where
  "DurationVar upd v opt = (case v of FlagDuration d \<Rightarrow> Some (upd (\<lambda>_. d) opt) | _ \<Rightarrow> None)"

definition AddFlags :: "(string \<times> flag_setter) list" where
  "AddFlags =
     [(''driver'', StringVar optDriver_update),
      (''extra-config'', StringVar optExtraPath_update),
      (''volume-config'', StringVar optVolumeConfigPath_update),
      (''query-port'', IntVar optQueryPort_update),
      (''query-addr'', StringVar optQueryAddr_update),
      (''kubeconfig'', StringVar optKubeConfigFile_update),
      (''sample-period'', IntVar optSamplePeriod_update),
      (''node-labels'', StringVar optNodeLabels_update),
      (''hostname-override'', StringVar optHostnameOverride_update),
      (''virtual-manager-path'', StringVar optVirtualManagerPath_update),
      (''device-plugin-path'', StringVar optDevicePluginPath_update),
      (''checkpoint-path'', StringVar optCheckpointPath_update),
      (''share-mode'', BoolVar optEnableShare_update),
      (''allocation-check-period'', IntVar optAllocationCheckPeriod_update),
      (''device-memory-scaling'', Float64Var optDeviceMemoryScaling_update),
      (''container-runtime-endpoint'', StringVar optContainerRuntimeEndpoint_update),
      (''cgroup-driver'', StringVar optCgroupDriver_update),
      (''runtime-request-timeout'', DurationVar optRequestTimeout_update),
      (''wait-timeout'', DurationVar optWaitTimeout_update)]"

text \<open>The options after the flags of a command line; the last of several flags with one name counts.\<close>

fun parseFlags :: "(string \<times> flag_value) list \<Rightarrow> Options \<Rightarrow> Options option" where
  "parseFlags [] opt = Some opt"
| "parseFlags ((name, v) # args) opt =
     (case map_of AddFlags name of
        None \<Rightarrow> None
      | Some setter \<Rightarrow> (case setter v opt of None \<Rightarrow> None | Some opt \<Rightarrow> parseFlags args opt))"

section \<open>config.go\<close>

record AppConfig =
  acDriver :: string
  acExtraConfigPath :: string
  acQueryPort :: int
  acQueryAddr :: string
  acKubeConfig :: string
  acSamplePeriod :: int
  acHostname :: string
  acNodeLabels :: "(string, string) gomap"
  acVirtualManagerPath :: string
  acDevicePluginPath :: string
  acVolumeConfigPath :: string
  acEnableShare :: bool
  acAllocationCheckPeriod :: int
  acCheckpointPath :: string
  acContainerRuntimeEndpoint :: string
  acCgroupDriver :: string
  acRequestTimeout :: int
  acDeviceMemoryScaling :: float64

record NodeConfig =
  ncName :: string
  ncContainerRuntimeEndpoint :: string
  ncCgroupDriver :: string
  ncDeviceMemoryScaling :: float64

text \<open>A JSON number as \<^verbatim>\<open>float64\<close>: digits, a fraction and a power of ten.\<close>

definition decimalValue :: "string \<Rightarrow> rat" where
  "decimalValue s =
     (let neg = hasPrefix s ''-''; s = trimPrefix s ''-'';
          whole = takeWhile isDigit s; rest = dropWhile isDigit s;
          frac = (if hasPrefix rest ''.'' then takeWhile isDigit (drop 1 rest) else []);
          expo = dropWhile (\<lambda>c. isDigit c \<or> c = CHR ''.'') rest;
          ex = fst (parseInt 64 (drop 1 expo));
          v = of_nat (digitsVal (whole @ frac)) * 10 powi (ex - int (length frac))
      in if neg then - v else v)"

text \<open>A number that is too large for the type is an error.\<close>

definition float64Of :: "rat \<Rightarrow> float64 \<Rightarrow> float64 \<times> bool" where
  "float64Of x old = (case toFloat64 x of Fin y \<Rightarrow> (Fin y, True) | _ \<Rightarrow> (old, False))"

definition decFloat64 :: "float64 decoder" where
  "decFloat64 j old =
     (case j of JNum n \<Rightarrow> float64Of (of_int n) old | JReal s \<Rightarrow> float64Of (decimalValue s) old
      | JNull \<Rightarrow> (old, True) | _ \<Rightarrow> (old, False))"

definition zeroNodeConfig :: NodeConfig where
  "zeroNodeConfig = \<lparr>ncName = [], ncContainerRuntimeEndpoint = [], ncCgroupDriver = [], ncDeviceMemoryScaling = Fin 0\<rparr>"

definition decNodeConfig :: "NodeConfig decoder" where
  "decNodeConfig = decStruct
     [(''name'', fieldDec ncName ncName_update decString),
      (''containerRuntimeEndpoint'', fieldDec ncContainerRuntimeEndpoint ncContainerRuntimeEndpoint_update decString),
      (''cgroupDriver'', fieldDec ncCgroupDriver ncCgroupDriver_update decString),
      (''deviceMemoryScaling'', fieldDec ncDeviceMemoryScaling ncDeviceMemoryScaling_update decFloat64)]"

definition decNodeConfigs :: "NodeConfig list decoder" where
  "decNodeConfigs = decStruct [(''nodeConfig'', decList decNodeConfig zeroNodeConfig)]"

section \<open>app.go\<close>

definition nodeLabelsOf :: "string \<Rightarrow> (string, string) gomap" where
  "nodeLabelsOf s =
     foldl (\<lambda>m item. case splitStr2 item ''='' of [k, v] \<Rightarrow> AList.update k v m | _ \<Rightarrow> m) []
       (filter (\<lambda>item. item \<noteq> []) (splitStr s '',''))"

definition configOf :: "Options \<Rightarrow> AppConfig" where
  "configOf opt =
     \<lparr>acDriver = optDriver opt, acExtraConfigPath = optExtraPath opt, acQueryPort = optQueryPort opt,
      acQueryAddr = optQueryAddr opt, acKubeConfig = optKubeConfigFile opt,
      acSamplePeriod = i64 (optSamplePeriod opt * second), acHostname = optHostnameOverride opt,
      acNodeLabels = nodeLabelsOf (optNodeLabels opt), acVirtualManagerPath = optVirtualManagerPath opt,
      acDevicePluginPath = optDevicePluginPath opt, acVolumeConfigPath = optVolumeConfigPath opt,
      acEnableShare = optEnableShare opt, acAllocationCheckPeriod = i64 (optAllocationCheckPeriod opt * second),
      acCheckpointPath = optCheckpointPath opt, acContainerRuntimeEndpoint = optContainerRuntimeEndpoint opt,
      acCgroupDriver = optCgroupDriver opt, acRequestTimeout = optRequestTimeout opt,
      acDeviceMemoryScaling = optDeviceMemoryScaling opt\<rparr>"

definition applyNodeConfig :: "AppConfig \<Rightarrow> NodeConfig \<Rightarrow> AppConfig" where
  "applyNodeConfig cfg val =
     (let cfg = (if ncCgroupDriver val = [] then cfg else cfg\<lparr>acCgroupDriver := ncCgroupDriver val\<rparr>);
          cfg = (if ncContainerRuntimeEndpoint val = [] then cfg
                 else cfg\<lparr>acContainerRuntimeEndpoint := ncContainerRuntimeEndpoint val\<rparr>)
      in if fless (Fin 0) (ncDeviceMemoryScaling val) then cfg\<lparr>acDeviceMemoryScaling := ncDeviceMemoryScaling val\<rparr> else cfg)"

definition readFromConfigFile :: "app_env \<Rightarrow> AppConfig \<Rightarrow> io_error + AppConfig" where
  "readFromConfigFile e cfg =
     (case aDeviceConfig e of
        Inl NotExist \<Rightarrow> Inr cfg
      | Inl err \<Rightarrow> Inl err
      | Inr None \<Rightarrow> Inl JsonErr
      | Inr (Some j) \<Rightarrow>
          (case decNodeConfigs j [] of
             (_, False) \<Rightarrow> Inl JsonErr
           | (vals, True) \<Rightarrow> Inr (foldl applyNodeConfig cfg (filter (\<lambda>val. ncName val = aNodeName e) vals))))"

datatype config_error =
    EmptyHostname | RuntimeDial string | NoRuntimeEndpoint | UnknownCgroupDriver string
  | HyperAllocation | NegativeScaling

definition checkCgroupDriver :: "string \<Rightarrow> config_error option" where
  "checkCgroupDriver driver =
     (if toLower driver = ''cgroupfs'' \<or> toLower driver = ''systemd'' then None
      else Some (UnknownCgroupDriver driver))"

definition checkConfig :: "app_env \<Rightarrow> AppConfig \<Rightarrow> config_error option" where
  "checkConfig e cfg =
     (if acHostname cfg = [] then Some EmptyHostname
      else if acContainerRuntimeEndpoint cfg = [] then Some NoRuntimeEndpoint
      else case aDialUnix e (acContainerRuntimeEndpoint cfg) of
             Some err \<Rightarrow> Some (RuntimeDial err)
           | None \<Rightarrow>
               (case checkCgroupDriver (acCgroupDriver cfg) of
                  Some err \<Rightarrow> Some err
                | None \<Rightarrow>
                    if fless (Fin 1) (acDeviceMemoryScaling cfg) then Some HyperAllocation
                    else if fless (acDeviceMemoryScaling cfg) (Fin 0) then Some NegativeScaling
                    else None))"

text \<open>How the program ends: an error that is printed, an exit with code 1, or \<^verbatim>\<open>klog.Fatalf\<close>.\<close>

datatype app_end = ConfigFileErr io_error | ConfigErr config_error | RegisterErr string | ExitOne | Restart

text \<open>Waiting for the servers: every second, until the timer has fired. \<open>None\<close> stands for a call that does
  not return: \<^verbatim>\<open>Ready\<close> dials without a deadline, and the timer is only looked at between two calls.\<close>

fun waitReady :: "nat \<Rightarrow> app_env \<Rightarrow> nat \<Rightarrow> bool option" where
  "waitReady 0 e i = None"
| "waitReady (Suc n) e i =
     (case aReady e i of
        None \<Rightarrow> None
      | Some True \<Rightarrow> Some True
      | Some False \<Rightarrow> if aTimerFired e i then Some False else waitReady n e (Suc i))"

datatype watch_event = WatchEvent string bool | WatchError string

text \<open>The watcher's events; the flag tells whether the operation includes a creation. The program runs on
  while there are no more events.\<close>

fun watchLoop :: "string \<Rightarrow> watch_event list \<Rightarrow> app_end option" where
  "watchLoop socket [] = None"
| "watchLoop socket (WatchEvent name created # evs) = (if name = socket \<and> created then Some Restart else watchLoop socket evs)"
| "watchLoop socket (WatchError err # evs) = Some Restart"

definition appConfig :: "app_env \<Rightarrow> Options \<Rightarrow> app_end + AppConfig" where
  "appConfig e opt =
     (case readFromConfigFile e (configOf opt) of
        Inl err \<Rightarrow> Inl (ConfigFileErr err)
      | Inr cfg \<Rightarrow> (case checkConfig e cfg of Some err \<Rightarrow> Inl (ConfigErr err) | None \<Rightarrow> Inr cfg))"

text \<open>\<^verbatim>\<open>Run\<close> with the number of seconds that are waited at most; \<open>None\<close> while the program is running.\<close>

definition appRun :: "nat \<Rightarrow> app_env \<Rightarrow> Options \<Rightarrow> watch_event list \<Rightarrow> app_end option" where
  "appRun n e opt evs =
     (case appConfig e opt of
        Inl err \<Rightarrow> Some err
      | Inr cfg \<Rightarrow>
          (case waitReady n e 0 of
             None \<Rightarrow> None
           | Some False \<Rightarrow> Some ExitOne
           | Some True \<Rightarrow>
               (case aRegister e of
                  Some err \<Rightarrow> Some (RegisterErr err)
                | None \<Rightarrow>
                    (case aWatcher e of
                       Some err \<Rightarrow> Some ExitOne
                     | None \<Rightarrow> watchLoop (pathJoinAll [acDevicePluginPath cfg, KubeletSocket]) evs))))"

end
