(* ===== verification/Node_Labels.thy ===== *)
theory Node_Labels
  imports Allocator_State
begin

text \<open>
  \<^verbatim>\<open>pkg/services/watchdog/label.go\<close> and \<^verbatim>\<open>annotation.go\<close>: the labels and annotations the manager writes to
  its node. The record \<open>label_env\<close> gives the answers of the management library and of the API server,
  depending on how many patches were sent before; the state of the model is the list of patches.
\<close>

record label_env =
  lNvml :: "nat \<Rightarrow> nvml"
  lCapability :: "nat \<Rightarrow> int \<Rightarrow> int \<times> int"
  lPatchNode :: "nat \<Rightarrow> string \<Rightarrow> jval \<Rightarrow> api_err option"
  lNow :: "nat \<Rightarrow> int"
  lPolls :: nat
  lHostname :: string

type_synonym patch_log = "(string \<times> jval) list"

section \<open>label.go\<close>

definition gpuModelLabel :: string where "gpuModelLabel = ''gaia.nvidia.com/gpu-model''"

datatype labelFunc = modelFn | stringFunc string

record nodeLabeler =
  nlHostName :: string
  labelMapper :: "(string, labelFunc) gomap"

text \<open>The pieces of \<^verbatim>\<open>modelNameSplitPattern.Split(name, -1)\<close>: between runs of the characters of \<^verbatim>\<open>\s\<close>.\<close>

definition isSpaceChar :: "char \<Rightarrow> bool" where
  "isSpaceChar c \<longleftrightarrow> c \<in> {CHR '' '', CHR 0x09, CHR 0x0A, CHR 0x0C, CHR 0x0D}"

function splitSpaces :: "string \<Rightarrow> string list" where
  "splitSpaces s =
     (case dropWhile (\<lambda>c. \<not> isSpaceChar c) s of
        [] \<Rightarrow> [s]
      | _ # rest \<Rightarrow> takeWhile (\<lambda>c. \<not> isSpaceChar c) s # splitSpaces (dropWhile isSpaceChar rest))"
  by pat_completeness auto
termination
proof (relation "measure length", goal_cases)
  case (2 s c rest)
  then have "length (c # rest) \<le> length s" by (metis length_dropWhile_le)
  then show ?case using length_dropWhile_le [of isSpaceChar rest] by auto
qed simp

declare splitSpaces.simps [simp del]

definition getTypeName :: "string \<Rightarrow> string" where
  "getTypeName name = (case splitSpaces name of _ # t # _ \<Rightarrow> t | _ \<Rightarrow> [])"

text \<open>The types of the cards that answer; \<^verbatim>\<open>sets.String.List\<close> sorts them.\<close>

definition deviceTypes :: "nvml \<Rightarrow> string list" where
  "deviceTypes nv =
     (if nvInit nv \<noteq> NVML_SUCCESS \<or> snd (nvDeviceGetCount nv) \<noteq> NVML_SUCCESS then []
      else filter (\<lambda>t. t \<noteq> [])
             (map (\<lambda>i. getTypeName (fst (nvName nv (int i))))
               (filter (\<lambda>i. nvDeviceGetHandleByIndex nv (int i) = NVML_SUCCESS \<and> snd (nvName nv (int i)) = NVML_SUCCESS)
                 [0..<nat (fst (nvDeviceGetCount nv))])))"

definition modelLabel :: "nvml \<Rightarrow> string" where
  "modelLabel nv = joinStr (go_sort strLess (remdups (deviceTypes nv))) '',''"

definition GetLabel :: "nvml \<Rightarrow> labelFunc \<Rightarrow> string" where
  "GetLabel nv f = (case f of modelFn \<Rightarrow> modelLabel nv | stringFunc s \<Rightarrow> s)"

definition NewNodeLabeler :: "label_env \<Rightarrow> string \<Rightarrow> (string, string) gomap \<Rightarrow> nodeLabeler" where
  "NewNodeLabeler e hostname labels =
     \<lparr>nlHostName = (if hostname = [] then lHostname e else hostname),
      labelMapper = map (\<lambda>(k, v). (k, if k = gpuModelLabel then modelFn else stringFunc v)) labels\<rparr>"

definition currentLabels :: "nvml \<Rightarrow> nodeLabeler \<Rightarrow> (string, string) gomap" where
  "currentLabels nv nl = filter (\<lambda>(k, l). l \<noteq> []) (map (\<lambda>(k, f). (k, GetLabel nv f)) (labelMapper nl))"

definition patchNodeApi :: "label_env \<Rightarrow> patch_log \<Rightarrow> string \<Rightarrow> jval \<Rightarrow> patch_log \<times> api_err option" where
  "patchNodeApi e w host p = (w @ [(host, p)], lPatchNode e (length w) host p)"

definition labelRound :: "label_env \<Rightarrow> nodeLabeler \<Rightarrow> patch_log \<Rightarrow> patch_log \<times> (api_err + bool)" where
  "labelRound e nl w =
     (let labels = currentLabels (lNvml e (length w)) nl
      in if labels = [] then (w, Inr True)
         else case patchNodeApi e w (nlHostName nl) (NewPatchLabel labels) of
                (w, None) \<Rightarrow> (w, Inr True)
              | (w, Some err) \<Rightarrow> if err = Conflict then (w, Inr False) else (w, Inl err))"

definition labelerRun :: "label_env \<Rightarrow> nodeLabeler \<Rightarrow> patch_log \<Rightarrow> patch_log \<times> api_err option" where
  "labelerRun e nl w = poll (lPolls e) (labelRound e nl) w"

section \<open>annotation.go\<close>

record GPUInfo =
  giId :: string
  giCore :: int
  giMemory :: int
  giType :: string
  giIsMig :: bool
  giCapability :: int
  giHealth :: bool

definition zeroGPUInfo :: GPUInfo where
  "zeroGPUInfo = \<lparr>giId = [], giCore = 0, giMemory = 0, giType = [], giIsMig = False, giCapability = 0, giHealth = False\<rparr>"

definition NodeAnnotationHeartbeat :: string where "NodeAnnotationHeartbeat = ''tydic.io/node-gpu-heartbeat''"
definition NodeAnnotationDeviceRegister :: string where "NodeAnnotationDeviceRegister = ''tydic.io/nvidia-device-register''"

text \<open>What is registered of one card.\<close>

definition gpuInfo :: "nvml \<Rightarrow> (int \<Rightarrow> int \<times> int) \<Rightarrow> float64 \<Rightarrow> int \<Rightarrow> GPUInfo" where
  "gpuInfo nv capability scaling index =
     (if nvDeviceGetHandleByIndex nv index \<noteq> NVML_SUCCESS \<or> snd (nvName nv index) \<noteq> NVML_SUCCESS
         \<or> snd (nvMemoryTotal nv index) \<noteq> NVML_SUCCESS \<or> snd (nvUUID nv index) \<noteq> NVML_SUCCESS
      then zeroGPUInfo
      else let (major, minor) = capability index; (cap, ok) = parseInt 64 (itoa major @ itoa minor)
           in \<lparr>giId = fst (nvUUID nv index), giCore = 100,
               giMemory = scaleInt scaling (fst (nvMemoryTotal nv index)) sdiv MemoryBlockSize,
               giType = fst (nvName nv index), giIsMig = IsMig nv index,
               giCapability = (if ok then cap else 0), giHealth = True\<rparr>)"

text \<open>The number of cards is used even when the call for it failed; a negative length is a panic.\<close>

definition gpuInfos :: "nvml \<Rightarrow> (int \<Rightarrow> int \<times> int) \<Rightarrow> float64 \<Rightarrow> go_fault + GPUInfo list" where
  "gpuInfos nv capability scaling =
     (let count = fst (nvDeviceGetCount nv)
      in if count < 0 then Inl Panic
         else Inr (map (\<lambda>i. gpuInfo nv capability scaling (int i)) [0..<nat count]))"

definition encGPUInfo :: "GPUInfo \<Rightarrow> jval" where
  "encGPUInfo g = JObj
     ((if giId g = [] then [] else [(''id'', JStr (giId g))]) @ (if giCore g = 0 then [] else [(''core'', JNum (giCore g))])
      @ (if giMemory g = 0 then [] else [(''memory'', JNum (giMemory g))]) @ (if giType g = [] then [] else [(''type'', JStr (giType g))])
      @ [(''isMig'', JBool (giIsMig g))] @ (if giCapability g = 0 then [] else [(''capability'', JNum (giCapability g))])
      @ [(''health'', JBool (giHealth g))])"

text \<open>The patch of one round; \<open>marshal\<close> is the text of a JSON value. An error of the patch is logged
  only.\<close>

definition annotatorRound :: "label_env \<Rightarrow> (jval \<Rightarrow> string) \<Rightarrow> float64 \<Rightarrow> string \<Rightarrow> patch_log \<Rightarrow> go_fault + patch_log" where
  "annotatorRound e marshal scaling host w =
     (case gpuInfos (lNvml e (length w)) (lCapability e (length w)) scaling of
        Inl f \<Rightarrow> Inl f
      | Inr infos \<Rightarrow>
          Inr (fst (patchNodeApi e w host (annotationPatch (Some
            [(NodeAnnotationDeviceRegister, marshal (JArr (map encGPUInfo infos))),
             (NodeAnnotationHeartbeat, itoa (lNow e (length w)))])))))"

section \<open>Properties\<close>

lemma joinStr_eq_Nil: "joinStr ss sep = [] \<Longrightarrow> sep \<noteq> [] \<Longrightarrow> [] \<notin> set ss \<Longrightarrow> ss = []"
  by (induction ss rule: induct_list012) auto

text \<open>The label of the model lists every type of card once, in alphabetical order.\<close>

lemma modelLabel_types:
  "\<exists>ts. modelLabel nv = joinStr ts '','' \<and> sorted_wrt (\<lambda>a b. strLess a b) ts \<and> set ts = set (deviceTypes nv)"
proof -
  define ts where "ts = go_sort strLess (remdups (deviceTypes nv))"
  have "sorted_wrt (\<lambda>a b. strLess a b \<or> a = b) ts" "distinct ts"
    using string_sort.sort_sorted by (auto simp: ts_def)
  then have "sorted_wrt strLess ts" by (induction ts) auto
  moreover have "set ts = set (deviceTypes nv)" by (simp add: ts_def)
  ultimately show ?thesis by (auto simp: modelLabel_def ts_def [symmetric])
qed

text \<open>The answer of the API server to the patch that is sent after \<open>i\<close> others.\<close>

definition labelAnswer :: "label_env \<Rightarrow> nodeLabeler \<Rightarrow> nat \<Rightarrow> api_err option" where
  "labelAnswer e nl i = lPatchNode e i (nlHostName nl) (NewPatchLabel (currentLabels (lNvml e i) nl))"

text \<open>The patches that are sent from the \<open>i\<close>-th on: all but the last met a conflict.\<close>

fun labelTrace :: "label_env \<Rightarrow> nodeLabeler \<Rightarrow> nat \<Rightarrow> patch_log \<Rightarrow> bool" where
  "labelTrace e nl i [] = True"
| "labelTrace e nl i (p # ps) \<longleftrightarrow> currentLabels (lNvml e i) nl \<noteq> []
     \<and> p = (nlHostName nl, NewPatchLabel (currentLabels (lNvml e i) nl))
     \<and> (ps \<noteq> [] \<longrightarrow> labelAnswer e nl i = Some Conflict) \<and> labelTrace e nl (Suc i) ps"

lemma labelPoll:
  "poll k (labelRound e nl) w = (w', r) \<Longrightarrow>
     \<exists>ws. w' = w @ ws \<and> length ws \<le> k \<and> labelTrace e nl (length w) ws
       \<and> (r = None \<longrightarrow> currentLabels (lNvml e (length w')) nl = [] \<or> ws \<noteq> [] \<and> labelAnswer e nl (length w' - 1) = None)
       \<and> (\<forall>err. r = Some err \<longrightarrow> err = DeadlineExceeded \<and> length ws = k
            \<or> ws \<noteq> [] \<and> labelAnswer e nl (length w' - 1) = Some err \<and> err \<noteq> Conflict)"
proof (induction k arbitrary: w)
  case (Suc k)
  define labels where "labels = currentLabels (lNvml e (length w)) nl"
  show ?case
  proof (cases "labels = []")
    case True
    with Suc.prems show ?thesis by (intro exI [of _ "[]"]) (auto simp: labelRound_def labels_def)
  next
    case False
    define p where "p = (nlHostName nl, NewPatchLabel labels)"
    have round: "labelRound e nl w = (case labelAnswer e nl (length w) of None \<Rightarrow> (w @ [p], Inr True)
        | Some err \<Rightarrow> if err = Conflict then (w @ [p], Inr False) else (w @ [p], Inl err))"
      using False by (simp add: labelRound_def labels_def [symmetric] patchNodeApi_def p_def labelAnswer_def split: option.split)
    show ?thesis
    proof (cases "labelAnswer e nl (length w) = Some Conflict")
      case True
      with Suc.prems round have "poll k (labelRound e nl) (w @ [p]) = (w', r)" by simp
      from Suc.IH [OF this] obtain ws where ws: "w' = (w @ [p]) @ ws" "length ws \<le> k" "labelTrace e nl (Suc (length w)) ws"
        "r = None \<longrightarrow> currentLabels (lNvml e (length w')) nl = [] \<or> ws \<noteq> [] \<and> labelAnswer e nl (length w' - 1) = None"
        "\<forall>err. r = Some err \<longrightarrow> err = DeadlineExceeded \<and> length ws = k
            \<or> ws \<noteq> [] \<and> labelAnswer e nl (length w' - 1) = Some err \<and> err \<noteq> Conflict"
        by auto
      then show ?thesis using True False by (intro exI [of _ "p # ws"]) (auto simp: p_def labels_def)
    next
      case noconf: False
      with Suc.prems round have "w' = w @ [p]" "r = labelAnswer e nl (length w)"
        by (auto split: option.splits)
      with noconf False show ?thesis by (intro exI [of _ "[p]"]) (auto simp: p_def labels_def)
    qed
  qed
qed auto

text \<open>Claim C25: labelling the node ends after at most the permitted number of patches, each with the
  configured labels that have a value. It succeeds only when there is nothing to write or when the last
  patch was accepted; a conflict is retried, and every other error is returned at once.\<close>

theorem labelerRun_correct:
  assumes "labelerRun e nl w = (w', r)"
  shows "\<exists>ws. w' = w @ ws \<and> length ws \<le> lPolls e \<and> labelTrace e nl (length w) ws
    \<and> (r = None \<longrightarrow> currentLabels (lNvml e (length w')) nl = [] \<or> ws \<noteq> [] \<and> labelAnswer e nl (length w' - 1) = None)
    \<and> (\<forall>err. r = Some err \<longrightarrow> err = DeadlineExceeded \<and> length ws = lPolls e
         \<or> ws \<noteq> [] \<and> labelAnswer e nl (length w' - 1) = Some err \<and> err \<noteq> Conflict)"
  using assms unfolding labelerRun_def by (rule labelPoll)

definition labelEnv :: label_env where
  "labelEnv = \<lparr>lNvml = (\<lambda>i. sampleNvml), lCapability = (\<lambda>i d. (7, 0)),
     lPatchNode = (\<lambda>i h p. if i = 0 then Some Conflict else None), lNow = (\<lambda>i. int i), lPolls = 5, lHostname = ''n''\<rparr>"

theorem labelerRun_correct_witness:
  "\<exists>w'. labelerRun labelEnv (NewNodeLabeler labelEnv [] [(''a'', ''b'')]) [] = (w', None) \<and> length w' \<le> 5
     \<and> labelTrace labelEnv (NewNodeLabeler labelEnv [] [(''a'', ''b'')]) 0 w'"
proof -
  have "snd (labelerRun labelEnv (NewNodeLabeler labelEnv [] [(''a'', ''b'')]) []) = None" by code_simp
  then have "labelerRun labelEnv (NewNodeLabeler labelEnv [] [(''a'', ''b'')]) []
      = (fst (labelerRun labelEnv (NewNodeLabeler labelEnv [] [(''a'', ''b'')]) []), None)" by (metis prod.collapse)
  moreover have "lPolls labelEnv = 5" by (simp add: labelEnv_def)
  ultimately show ?thesis using labelerRun_correct by fastforce
qed

text \<open>The compute capability of a card as the number of its digits.\<close>

lemma parse_capability:
  assumes "0 < major" "major < 2 ^ 32" "0 \<le> minor" "minor < 10"
  shows "parseInt 64 (itoa major @ itoa minor) = (10 * major + minor, True)"
proof -
  define a b where "a = nat major" and "b = nat minor"
  have ab: "0 < a" "b < 10" "major = int a" "minor = int b" using assms by (simp_all add: a_def b_def)
  have "natStr (10 * a + b) = natStr a @ natStr b"
    using ab(1,2) by (simp add: natStr.simps [of "10 * a + b"] natStr.simps [of b])
  moreover have "int (10 * a + b) < 2 ^ 63" using assms(2) ab by simp
  ultimately show ?thesis
    using parseInt_natStr [of "10 * a + b" 64] by (simp add: itoa_def ab(3,4))
qed

text \<open>Claim C26: the device register of the node. With a scaling between zero and one, every card is
  registered once, at its index. It is healthy exactly when the calls for its handle, its name, its memory
  and its identity all succeed. A healthy card is registered under its identity and name with a hundred
  cores, its MIG mode, its compute capability and the number of whole blocks of its scaled memory, which
  is never more than the memory it has; of any other card nothing is registered. The memory of all cards
  together is not more than what the cards have.\<close>

theorem device_register_bounds:
  assumes "0 \<le> s" "s \<le> 1" "0 \<le> fst (nvDeviceGetCount nv)"
    and "\<forall>i. 0 \<le> fst (nvMemoryTotal nv i) \<and> fst (nvMemoryTotal nv i) < 2 ^ 53"
    and "\<forall>i. 0 < fst (capability i) \<and> fst (capability i) < 2 ^ 32 \<and> 0 \<le> snd (capability i) \<and> snd (capability i) < 10"
  shows "\<exists>infos. gpuInfos nv capability (Fin s) = Inr infos \<and> int (length infos) = fst (nvDeviceGetCount nv)
    \<and> (\<forall>i < length infos.
         (giHealth (infos ! i) \<longleftrightarrow> nvDeviceGetHandleByIndex nv (int i) = NVML_SUCCESS \<and> snd (nvName nv (int i)) = NVML_SUCCESS
            \<and> snd (nvMemoryTotal nv (int i)) = NVML_SUCCESS \<and> snd (nvUUID nv (int i)) = NVML_SUCCESS)
       \<and> (giHealth (infos ! i) \<longrightarrow> giCore (infos ! i) = 100 \<and> giId (infos ! i) = fst (nvUUID nv (int i))
            \<and> giType (infos ! i) = fst (nvName nv (int i)) \<and> giIsMig (infos ! i) = IsMig nv (int i)
            \<and> giCapability (infos ! i) = 10 * fst (capability (int i)) + snd (capability (int i))
            \<and> giMemory (infos ! i) = \<lfloor>f64 (s * of_int (fst (nvMemoryTotal nv (int i))))\<rfloor> div MemoryBlockSize
            \<and> giMemory (infos ! i) * MemoryBlockSize \<le> fst (nvMemoryTotal nv (int i)))
       \<and> (\<not> giHealth (infos ! i) \<longrightarrow> giCore (infos ! i) = 0 \<and> giMemory (infos ! i) = 0 \<and> giId (infos ! i) = []
            \<and> giType (infos ! i) = [] \<and> \<not> giIsMig (infos ! i) \<and> giCapability (infos ! i) = 0))
    \<and> sum_list (map giMemory infos) \<le> (\<Sum>i < length infos. fst (nvMemoryTotal nv (int i))) div MemoryBlockSize"
proof -
  define n where "n = nat (fst (nvDeviceGetCount nv))"
  define infos where "infos = map (\<lambda>i. gpuInfo nv capability (Fin s) (int i)) [0..<n]"
  let ?mem = "\<lambda>i. fst (nvMemoryTotal nv i)" and ?g = "\<lambda>i. gpuInfo nv capability (Fin s) i"
  have blocks: "scaleInt (Fin s) (?mem i) sdiv MemoryBlockSize = \<lfloor>f64 (s * of_int (?mem i))\<rfloor> div MemoryBlockSize"
    "\<lfloor>f64 (s * of_int (?mem i))\<rfloor> div MemoryBlockSize * MemoryBlockSize \<le> ?mem i" for i
    using scaled_blocks [OF assms(1,2)] assms(4) by blast+
  have cap: "parseInt 64 (itoa (fst (capability i)) @ itoa (snd (capability i)))
      = (10 * fst (capability i) + snd (capability i), True)" for i
    using assms(5) by (intro parse_capability) auto
  have health: "giHealth (?g i) \<longleftrightarrow> nvDeviceGetHandleByIndex nv i = NVML_SUCCESS \<and> snd (nvName nv i) = NVML_SUCCESS
            \<and> snd (nvMemoryTotal nv i) = NVML_SUCCESS \<and> snd (nvUUID nv i) = NVML_SUCCESS" for i
    by (simp add: gpuInfo_def zeroGPUInfo_def Let_def split_beta)
  have up: "giHealth (?g i) \<longrightarrow> giCore (?g i) = 100 \<and> giId (?g i) = fst (nvUUID nv i)
            \<and> giType (?g i) = fst (nvName nv i) \<and> giIsMig (?g i) = IsMig nv i
            \<and> giCapability (?g i) = 10 * fst (capability i) + snd (capability i)
            \<and> giMemory (?g i) = \<lfloor>f64 (s * of_int (?mem i))\<rfloor> div MemoryBlockSize" for i
    by (simp add: gpuInfo_def zeroGPUInfo_def Let_def split_beta cap blocks(1))
  have down: "\<not> giHealth (?g i) \<longrightarrow> giCore (?g i) = 0 \<and> giMemory (?g i) = 0 \<and> giId (?g i) = []
            \<and> giType (?g i) = [] \<and> \<not> giIsMig (?g i) \<and> giCapability (?g i) = 0" for i
    by (simp add: gpuInfo_def zeroGPUInfo_def Let_def split_beta)
  have mem: "giMemory (?g i) * MemoryBlockSize \<le> ?mem i" for i
    using up [of i] down [of i] blocks(2) [of i] assms(4) by (cases "giHealth (?g i)") auto
  have "sum_list (map giMemory infos) * MemoryBlockSize \<le> (\<Sum>i < n. ?mem (int i))"
  proof -
    have "sum_list (map giMemory infos) = (\<Sum>i < n. giMemory (?g (int i)))"
      by (simp add: infos_def comp_def interv_sum_list_conv_sum_set_nat atLeast0LessThan)
    then show ?thesis using mem by (simp add: sum_distrib_right sum_mono)
  qed
  moreover have "0 < MemoryBlockSize" by (simp add: MemoryBlockSize_def)
  ultimately have "sum_list (map giMemory infos) \<le> (\<Sum>i < n. ?mem (int i)) div MemoryBlockSize"
    by (metis zdiv_mono1 nonzero_mult_div_cancel_right less_irrefl)
  moreover have "gpuInfos nv capability (Fin s) = Inr infos" using assms(3) by (simp add: gpuInfos_def infos_def n_def)
  moreover have "length infos = n" "int n = fst (nvDeviceGetCount nv)" using assms(3) by (simp_all add: infos_def n_def)
  moreover have "infos ! i = ?g (int i)" if "i < length infos" for i using that by (simp add: infos_def)
  ultimately show ?thesis using up down mem by (intro exI [of _ infos]) (metis health)
qed

theorem device_register_bounds_witness:
  "\<exists>infos. gpuInfos (sampleNvml\<lparr>nvName := (\<lambda>i. (''V100'', if i = 3 then 999 else NVML_SUCCESS))\<rparr>) (\<lambda>d. (7, 0)) (Fin (1 / 2)) = Inr infos
     \<and> length infos = 4 \<and> giHealth (infos ! 2) \<and> giCapability (infos ! 2) = 70 \<and> \<not> giHealth (infos ! 3)"
proof -
  let ?nv = "sampleNvml\<lparr>nvName := (\<lambda>i. (''V100'', if i = 3 then 999 else NVML_SUCCESS))\<rparr>"
  have hyp: "0 \<le> fst (nvDeviceGetCount ?nv)" "\<forall>i. 0 \<le> fst (nvMemoryTotal ?nv i) \<and> fst (nvMemoryTotal ?nv i) < 2 ^ 53"
    by (simp_all add: sampleNvml_def)
  obtain infos where infos: "gpuInfos ?nv (\<lambda>d. (7, 0)) (Fin (1 / 2)) = Inr infos" "int (length infos) = fst (nvDeviceGetCount ?nv)"
    "\<And>i. i < length infos \<Longrightarrow>
         (giHealth (infos ! i) \<longleftrightarrow> nvDeviceGetHandleByIndex ?nv (int i) = NVML_SUCCESS \<and> snd (nvName ?nv (int i)) = NVML_SUCCESS
            \<and> snd (nvMemoryTotal ?nv (int i)) = NVML_SUCCESS \<and> snd (nvUUID ?nv (int i)) = NVML_SUCCESS)
       \<and> (giHealth (infos ! i) \<longrightarrow> giCapability (infos ! i) = 10 * 7 + 0)"
    using device_register_bounds [OF _ _ hyp, of "1 / 2" "\<lambda>d. (7, 0)"] by auto
  have len: "length infos = 4" using infos(2) by (simp add: sampleNvml_def)
  show ?thesis
    using infos(1) len infos(3) [of 2] infos(3) [of 3] by (simp add: sampleNvml_def NVML_SUCCESS_def)
qed

end
