(* ===== verification/App_Theorems.thy ===== *)
theory App_Theorems
  imports App Node_Labels Client_Theorems
begin

text \<open>
  The properties of the start of the program: how flags overwrite each other, what a configuration that passes the check promises to the
  components that use it, that the node labels of the command line arrive at the API server, and a
  driver name that passes the check but is refused later.
\<close>

section \<open>Flags\<close>

text \<open>No flag is registered twice, and of several values of a flag the last one counts, whatever is set in
  between by the other flags of its kind.\<close>

lemma AddFlags_distinct: "distinct (map fst AddFlags)"
  by code_simp

lemma parseFlags_append: "parseFlags (as @ bs) opt = Option.bind (parseFlags as opt) (parseFlags bs)"
  by (induction as opt rule: parseFlags.induct) (auto split: option.splits)

lemma setter_overwrites:
  assumes "map_of AddFlags name = Some setter" "setter v opt = Some opt'"
  shows "setter w opt' = setter w opt"
  using map_of_SomeD [OF assms(1)] assms(2) unfolding AddFlags_def
  by (auto simp: StringVar_def IntVar_def BoolVar_def Float64Var_def DurationVar_def split: flag_value.splits)

lemma parseFlags_last: "parseFlags [(name, v)] opt = Some opt' \<Longrightarrow> parseFlags [(name, v), (name, w)] opt = parseFlags [(name, w)] opt"
  by (auto simp: setter_overwrites split: option.splits)

section \<open>Well-formed configurations\<close>

definition config_ok :: "AppConfig \<Rightarrow> bool" where
  "config_ok cfg \<longleftrightarrow> acHostname cfg \<noteq> [] \<and> acContainerRuntimeEndpoint cfg \<noteq> []
     \<and> toLower (acCgroupDriver cfg) \<in> {''cgroupfs'', ''systemd''}
     \<and> ((\<exists>s. acDeviceMemoryScaling cfg = Fin s \<and> 0 \<le> s \<and> s \<le> 1) \<or> acDeviceMemoryScaling cfg = NaN) \<and> gomap_ok (acNodeLabels cfg)"

lemma gomap_ok_labels: "gomap_ok (nodeLabelsOf s)"
proof -
  have "gomap_ok (foldl (\<lambda>m item. case splitStr2 item ''='' of [k, v] \<Rightarrow> AList.update k v m | _ \<Rightarrow> m) m items)"
    if "gomap_ok m" for m :: "(string, string) gomap" and items
    using that by (induction items arbitrary: m) (simp_all split: list.split)
  then show ?thesis by (simp add: nodeLabelsOf_def)
qed

text \<open>The configuration file changes three fields only.\<close>

definition same_rest :: "AppConfig \<Rightarrow> AppConfig \<Rightarrow> bool" where
  "same_rest cfg cfg' \<longleftrightarrow> cfg' = cfg\<lparr>acCgroupDriver := acCgroupDriver cfg', acContainerRuntimeEndpoint := acContainerRuntimeEndpoint cfg',
     acDeviceMemoryScaling := acDeviceMemoryScaling cfg'\<rparr>"

lemma same_rest_trans: "same_rest a b \<Longrightarrow> same_rest b c \<Longrightarrow> same_rest a c"
  unfolding same_rest_def by (cases a; cases b; cases c) auto

lemma applyNodeConfig_rest: "same_rest cfg (applyNodeConfig cfg val)"
  by (simp add: same_rest_def applyNodeConfig_def Let_def)

lemma readFromConfigFile_rest:
  assumes "readFromConfigFile e cfg = Inr cfg'"
  shows "same_rest cfg cfg'"
proof -
  have fold: "same_rest cfg (foldl applyNodeConfig cfg vals)" for vals
  proof (induction vals rule: rev_induct)
    case Nil
    then show ?case by (simp add: same_rest_def)
  next
    case (snoc v vals)
    from same_rest_trans [OF snoc applyNodeConfig_rest] show ?case by simp
  qed
  then show ?thesis using assms fold [of "[]"]
    by (auto simp: readFromConfigFile_def split: sum.splits io_error.splits option.splits prod.splits bool.splits)
qed

text \<open>The file never brings in a scaling that is not a number.\<close>

lemma readFromConfigFile_NaN:
  assumes "readFromConfigFile e cfg = Inr cfg'" "acDeviceMemoryScaling cfg' = NaN"
  shows "acDeviceMemoryScaling cfg = NaN"
proof -
  have one: "acDeviceMemoryScaling (applyNodeConfig c val) = NaN \<Longrightarrow> acDeviceMemoryScaling c = NaN" for c val
    by (auto simp: applyNodeConfig_def Let_def split: if_splits)
  have "acDeviceMemoryScaling (foldl applyNodeConfig cfg vals) = NaN \<Longrightarrow> acDeviceMemoryScaling cfg = NaN" for vals
    by (induction vals rule: rev_induct) (auto dest: one)
  then show ?thesis using assms
    by (auto simp: readFromConfigFile_def split: sum.splits io_error.splits option.splits prod.splits bool.splits)
qed

text \<open>The two comparisons of the check let pass what is between zero and one, and what is not a number.\<close>

lemma scaling_unrefused:
  "\<not> fless (Fin 1) x \<and> \<not> fless x (Fin 0) \<longleftrightarrow> (\<exists>s. x = Fin s \<and> 0 \<le> s \<and> s \<le> 1) \<or> x = NaN"
  by (cases x) auto

text \<open>Claim C23: the program only starts its servers with a well-formed configuration: the node and the
  runtime have a name, the runtime accepts connections, the cgroup driver is known up to upper and lower
  case, and the memory scaling is a number between zero and one, unless the command line gave \<^verbatim>\<open>NaN\<close> for
  it; all other settings are those of the command line.\<close>

theorem started_config_wellformed:
  assumes "appConfig e opt = Inr cfg"
  shows "config_ok cfg \<and> aDialUnix e (acContainerRuntimeEndpoint cfg) = None \<and> same_rest (configOf opt) cfg
    \<and> (optDeviceMemoryScaling opt \<noteq> NaN \<longrightarrow> (\<exists>s. acDeviceMemoryScaling cfg = Fin s \<and> 0 \<le> s \<and> s \<le> 1))"
proof -
  from assms have r: "readFromConfigFile e (configOf opt) = Inr cfg" "checkConfig e cfg = None"
    by (auto simp: appConfig_def split: sum.splits option.splits)
  have "acNodeLabels cfg = nodeLabelsOf (optNodeLabels opt)"
    using readFromConfigFile_rest [OF r(1)] unfolding same_rest_def by (cases cfg) (simp add: configOf_def)
  then have "gomap_ok (acNodeLabels cfg)" by (simp add: gomap_ok_labels)
  moreover have "acHostname cfg \<noteq> []" "acContainerRuntimeEndpoint cfg \<noteq> []" "aDialUnix e (acContainerRuntimeEndpoint cfg) = None"
    "toLower (acCgroupDriver cfg) \<in> {''cgroupfs'', ''systemd''}"
    "\<not> fless (Fin 1) (acDeviceMemoryScaling cfg) \<and> \<not> fless (acDeviceMemoryScaling cfg) (Fin 0)"
    using r(2) by (auto simp: checkConfig_def checkCgroupDriver_def split: if_splits option.splits)
  moreover have "acDeviceMemoryScaling cfg = NaN \<Longrightarrow> optDeviceMemoryScaling opt = NaN"
    using readFromConfigFile_NaN [OF r(1)] by (simp add: configOf_def)
  ultimately show ?thesis
    using readFromConfigFile_rest [OF r(1)] unfolding scaling_unrefused config_ok_def by auto
qed

definition appEnv :: app_env where
  "appEnv = \<lparr>aNodeName = ''n'', aStat = (\<lambda>p. if p = ContainerdRuntimeEndpoint then Present else Missing),
     aKubeletConfig = Inr ''kind: KubeletConfiguration cgroupDriver: cgroupfs'', aDeviceConfig = Inl NotExist,
     aDialUnix = (\<lambda>p. None), aReady = (\<lambda>i. Some (2 \<le> i)), aTimerFired = (\<lambda>i. 60 \<le> i), aRegister = None, aWatcher = None\<rparr>"

theorem started_config_wellformed_witness:
  "\<exists>cfg. appConfig appEnv (NewOptions appEnv) = Inr cfg \<and> config_ok cfg \<and> acCgroupDriver cfg = ''cgroupfs''
     \<and> (\<exists>s. acDeviceMemoryScaling cfg = Fin s \<and> 0 \<le> s \<and> s \<le> 1)"
proof -
  have "(case appConfig appEnv (NewOptions appEnv) of Inr cfg \<Rightarrow> acCgroupDriver cfg = ''cgroupfs'' | _ \<Rightarrow> False)" by code_simp
  then obtain cfg where "appConfig appEnv (NewOptions appEnv) = Inr cfg" "acCgroupDriver cfg = ''cgroupfs''"
    by (auto split: sum.splits)
  moreover have "optDeviceMemoryScaling (NewOptions appEnv) \<noteq> NaN" by (simp add: NewOptions_def DefaultDeviceMemoryScaling_def)
  ultimately show ?thesis using started_config_wellformed [of appEnv "NewOptions appEnv"] by blast
qed

section \<open>Labels\<close>

lemma splitStr2_pair: "CHR ''='' \<notin> set k \<Longrightarrow> splitStr2 (k @ ''='' @ v) ''='' = [k, v]"
  by (simp add: splitStr2_def indexOf_char)

lemma update_fresh: "k \<notin> fst ` set m \<Longrightarrow> AList.update k v m = m @ [(k, v)]"
  by (induction m) auto

definition labelArg :: "(string, string) gomap \<Rightarrow> string" where
  "labelArg kvs = joinStr (map (\<lambda>(k, v). k @ ''='' @ v) kvs) '',''"

lemma nodeLabelsOf_arg:
  assumes "gomap_ok kvs" "\<forall>(k, v) \<in> set kvs. CHR ''='' \<notin> set k \<and> CHR '','' \<notin> set k \<and> CHR '','' \<notin> set v"
  shows "nodeLabelsOf (labelArg kvs) = kvs"
proof (cases "kvs = []")
  case True
  then show ?thesis by (simp add: nodeLabelsOf_def labelArg_def splitStr_single)
next
  case False
  let ?items = "map (\<lambda>(k, v). k @ ''='' @ v) kvs"
  have a: "splitStr (labelArg kvs) '','' = ?items"
    unfolding labelArg_def using False assms(2) by (intro splitStr_joinStr) auto
  have b: "filter (\<lambda>i. i \<noteq> []) ?items = ?items" by (auto simp: filter_id_conv)
  have c: "foldl (\<lambda>m item. case splitStr2 item ''='' of [k, v] \<Rightarrow> AList.update k v m | _ \<Rightarrow> m) m
      (map (\<lambda>(k, v). k @ ''='' @ v) xs) = m @ xs"
    if "gomap_ok (m @ xs)" "\<forall>(k, v) \<in> set xs. CHR ''='' \<notin> set k" for m xs :: "(string, string) gomap"
    using that
  proof (induction xs arbitrary: m)
    case (Cons x xs)
    obtain k v where x: "x = (k, v)" by fastforce
    have "k \<notin> fst ` set m" using Cons.prems(1) x by (auto simp: gomap_ok_def)
    with Cons.IH [of "m @ [x]"] Cons.prems x show ?case
      by (simp add: splitStr2_pair [simplified] update_fresh)
  qed simp
  have "\<forall>(k, v) \<in> set kvs. CHR ''='' \<notin> set k" using assms(2) by auto
  then show ?thesis unfolding nodeLabelsOf_def a b using c [of "[]" kvs] assms(1) by simp
qed

text \<open>Claim C24: the labels of the command line reach the node. For labels written as
  \<^verbatim>\<open>key=value,key=value\<close> with different keys, the labeller that the server creates from the checked
  configuration patches the node with exactly these labels, leaving out those without a value and putting
  the types of the cards in the place of the value for the model label.\<close>

theorem node_labels_roundtrip:
  assumes "gomap_ok kvs" "\<forall>(k, v) \<in> set kvs. CHR ''='' \<notin> set k \<and> CHR '','' \<notin> set k \<and> CHR '','' \<notin> set v"
    and "appConfig e (opt\<lparr>optNodeLabels := labelArg kvs\<rparr>) = Inr cfg"
  shows "currentLabels nv (NewNodeLabeler le (acHostname cfg) (acNodeLabels cfg))
     = filter (\<lambda>(k, l). l \<noteq> []) (map (\<lambda>(k, v). (k, if k = gpuModelLabel then modelLabel nv else v)) kvs)
    \<and> nlHostName (NewNodeLabeler le (acHostname cfg) (acNodeLabels cfg)) = optHostnameOverride opt"
proof -
  from assms(3) have r: "readFromConfigFile e (configOf (opt\<lparr>optNodeLabels := labelArg kvs\<rparr>)) = Inr cfg" "checkConfig e cfg = None"
    by (auto simp: appConfig_def split: sum.splits option.splits)
  have "acNodeLabels cfg = kvs" "acHostname cfg = optHostnameOverride opt"
    using readFromConfigFile_rest [OF r(1)] nodeLabelsOf_arg [OF assms(1,2)] unfolding same_rest_def
    by (cases cfg, simp add: configOf_def)+
  moreover have "acHostname cfg \<noteq> []" using r(2) by (auto simp: checkConfig_def)
  ultimately show ?thesis
    by (auto simp: currentLabels_def NewNodeLabeler_def GetLabel_def intro!: arg_cong [of _ _ "filter _"])
qed

theorem node_labels_roundtrip_witness:
  "\<exists>cfg. appConfig appEnv ((NewOptions appEnv)\<lparr>optNodeLabels := labelArg [(''zone'', ''a=1''), (gpuModelLabel, ''x'')]\<rparr>) = Inr cfg
     \<and> currentLabels sampleNvml (NewNodeLabeler labelEnv (acHostname cfg) (acNodeLabels cfg)) = [(''zone'', ''a=1'')]"
proof -
  define o' where "o' = (NewOptions appEnv)\<lparr>optNodeLabels := labelArg [(''zone'', ''a=1''), (gpuModelLabel, ''x'')]\<rparr>"
  have "(case appConfig appEnv o' of Inr cfg \<Rightarrow> True | _ \<Rightarrow> False)" unfolding o'_def by code_simp
  then obtain cfg where cfg: "appConfig appEnv o' = Inr cfg" by (auto split: sum.splits)
  have "modelLabel sampleNvml = []" by code_simp
  moreover have "gomap_ok [(''zone'', ''a=1''), (gpuModelLabel, ''x'')]"
    "\<forall>(k, v) \<in> set [(''zone'', ''a=1''), (gpuModelLabel, ''x'')]. CHR ''='' \<notin> set k \<and> CHR '','' \<notin> set k \<and> CHR '','' \<notin> set v"
    by (simp_all add: gomap_ok_def gpuModelLabel_def)
  ultimately show ?thesis
    using node_labels_roundtrip [OF _ _ cfg [unfolded o'_def], of sampleNvml labelEnv] cfg
    by (simp add: o'_def gpuModelLabel_def)
qed

section \<open>The cgroup driver\<close>

text \<open>A change of the command line that the check does not see, when there is no configuration file.\<close>

lemma appConfig_without_file:
  "aDeviceConfig e = Inl NotExist \<Longrightarrow>
     appConfig e opt = Inr cfg \<longleftrightarrow> cfg = configOf opt \<and> checkConfig e (configOf opt) = None"
  by (auto simp: appConfig_def readFromConfigFile_def split: option.splits)

lemma getPids_needs_driver:
  assumes "cgroupDriver m \<notin> {''systemd'', ''cgroupfs''}"
  shows "GetPidsInContainerByStatus re m st \<noteq> Inr (pids, None)"
proof -
  have "getCgroupName re m pod cid old \<noteq> Inr (Inr p)" for pod cid old p
    using assms by (auto simp: getCgroupName_def Let_def split: sum.splits)
  then have "containerDir re m pod cid old \<noteq> Inr (Inr p)" for pod cid old p
    by (auto simp: containerDir_def split: sum.splits)
  then show ?thesis by (auto simp: GetPidsInContainerByStatus_def split: option.splits sum.splits if_splits)
qed

text \<open>Claim C27: the check of the configuration and the runtime disagree about the cgroup driver. Where a
  node starts with its configuration, it also starts when the driver is written with capital letters; but a
  runtime manager with that driver finds the processes of no container, whatever the runtime, the API server
  and the file system answer, for it compares the name as it is written.\<close>

theorem capital_driver_refused:
  assumes "aDeviceConfig e = Inl NotExist" "appConfig e opt = Inr cfg"
    and "toLower d \<in> {''cgroupfs'', ''systemd''}" "d \<notin> {''cgroupfs'', ''systemd''}"
  shows "appConfig e (opt\<lparr>optCgroupDriver := d\<rparr>) = Inr (cfg\<lparr>acCgroupDriver := d\<rparr>)
    \<and> (\<forall>re rt v2 st pids. GetPidsInContainerByStatus re \<lparr>cgroupDriver = d, runtimeName = rt, isCGroupV2 = v2\<rparr> st \<noteq> Inr (pids, None))"
proof -
  have "checkCgroupDriver d = None" using assms(3) by (auto simp: checkCgroupDriver_def)
  moreover have "cfg = configOf opt" "checkConfig e (configOf opt) = None"
    using assms(1,2) by (simp_all add: appConfig_without_file)
  moreover have "configOf (opt\<lparr>optCgroupDriver := d\<rparr>) = (configOf opt)\<lparr>acCgroupDriver := d\<rparr>" by (simp add: configOf_def)
  ultimately have "appConfig e (opt\<lparr>optCgroupDriver := d\<rparr>) = Inr (cfg\<lparr>acCgroupDriver := d\<rparr>)"
    using assms(1) by (auto simp: appConfig_without_file checkConfig_def split: if_splits option.splits)
  moreover have "GetPidsInContainerByStatus re \<lparr>cgroupDriver = d, runtimeName = rt, isCGroupV2 = v2\<rparr> st \<noteq> Inr (pids, None)"
    for re rt v2 st pids using assms(4) by (intro getPids_needs_driver) auto
  ultimately show ?thesis by blast
qed

theorem capital_driver_refused_witness:
  "\<exists>cfg. appConfig appEnv ((NewOptions appEnv)\<lparr>optCgroupDriver := ''Systemd''\<rparr>) = Inr cfg \<and> acCgroupDriver cfg = ''Systemd''
     \<and> GetPidsInContainerByStatus clientRuntimeEnv \<lparr>cgroupDriver = ''Systemd'', runtimeName = ''docker'', isCGroupV2 = False\<rparr>
         (Some \<lparr>crId = ''c'', crMetadataName = None, crLabels = [], crAnnotations = []\<rparr>) \<noteq> Inr ([1], None)"
proof -
  have "(case appConfig appEnv (NewOptions appEnv) of Inr cfg \<Rightarrow> True | _ \<Rightarrow> False)" by code_simp
  then obtain cfg where "appConfig appEnv (NewOptions appEnv) = Inr cfg" by (auto split: sum.splits)
  moreover have "aDeviceConfig appEnv = Inl NotExist" "toLower ''Systemd'' = ''systemd''"
    by (simp add: appEnv_def, code_simp)
  ultimately show ?thesis using capital_driver_refused [of appEnv "NewOptions appEnv" cfg "''Systemd''"] by auto
qed

section \<open>Waiting\<close>

text \<open>While the calls of \<^verbatim>\<open>Ready\<close> return, the wait for the servers ends when the timer has fired at the
  latest. A call that does not return is never ended by the timer.\<close>

lemma waitReady_ends:
  assumes "aTimerFired e (i + k)" "k < n" "\<And>j. aReady e j \<noteq> None"
  shows "waitReady n e i \<noteq> None"
  using assms(1,2)
proof (induction n arbitrary: i k)
  case step: (Suc n)
  obtain b where b: "aReady e i = Some b" using assms(3) by blast
  show ?case
  proof (cases k)
    case (Suc j)
    with step.IH [of "Suc i" j] step.prems b show ?thesis by (cases b) auto
  qed (use step.prems b in \<open>cases b; auto\<close>)
qed simp

lemma waitReady_true: "waitReady n e i = Some True \<Longrightarrow> \<exists>j \<ge> i. aReady e j = Some True"
  by (induction n arbitrary: i) (auto split: if_splits option.splits bool.splits dest: Suc_leD)

lemma waitReady_hangs:
  assumes "aReady e (i + k) = None" "\<And>j. j < k \<Longrightarrow> aReady e (i + j) = Some False \<and> \<not> aTimerFired e (i + j)"
  shows "waitReady n e i = None"
  using assms
proof (induction k arbitrary: i n)
  case 0
  then show ?case by (cases n) simp_all
next
  case (Suc k)
  have "waitReady m e (Suc i) = None" for m
    by (rule Suc.IH) (use Suc.prems(1) Suc.prems(2) [of "Suc _"] in auto)
  then show ?case using Suc.prems(2) [of 0] by (cases n) simp_all
qed

end
