(* ===== verification/Plugin.thy ===== *)
theory Plugin
  imports Allocator_Theorems Release_Theorems Request_Theorems App
begin

text \<open>
  The plugin interface and its implementations: the tables of constructors (\<^verbatim>\<open>pkg/device/types.go\<close>,
  \<^verbatim>\<open>pkg/services/allocator/types.go\<close>), the dummy tree and allocator (\<^verbatim>\<open>pkg/device/dummy/tree.go\<close>,
  \<^verbatim>\<open>pkg/services/allocator/dummy/allocator.go\<close>), the construction of the NVIDIA allocator and the calls of
  its interface that are not in \<open>Allocator\<close>. A tree and an allocator behind their Go interfaces are
  datatypes with one constructor for each implementation.
\<close>

section \<open>Trees\<close>

datatype GPUTree = DummyTree | NvTree NvidiaTree

text \<open>The constructors get the sample period of the configuration.\<close>

type_synonym tree_new = "int \<Rightarrow> GPUTree"

definition NewDummyTree :: tree_new where "NewDummyTree p = DummyTree"

definition NewNvidiaTree :: tree_new where "NewNvidiaTree p = NvTree (newNvidiaTree (Some p) 0)"

definition RegisterTree :: "string \<Rightarrow> tree_new \<Rightarrow> (string, tree_new) gomap \<Rightarrow> (string, tree_new) gomap" where
  "RegisterTree name item factory =
     (if map_of factory name \<noteq> None then factory else AList.update name item factory)"

definition TreeFuncForName :: "(string, tree_new) gomap \<Rightarrow> string \<Rightarrow> tree_new option" where
  "TreeFuncForName factory name = map_of factory name"

definition treeFactory :: "(string, tree_new) gomap" where
  "treeFactory = RegisterTree ''nvidia'' NewNvidiaTree (RegisterTree ''dummy'' NewDummyTree [])"

definition treeInit :: "nvml \<Rightarrow> (int list \<Rightarrow> int list) \<Rightarrow> GPUTree \<Rightarrow> string \<Rightarrow> go_fault + GPUTree" where
  "treeInit nv ord tree input =
     (case tree of DummyTree \<Rightarrow> Inr DummyTree | NvTree t \<Rightarrow> map_sum id NvTree (Init nv ord t input))"

definition treeUpdate :: "nvml \<Rightarrow> GPUTree \<Rightarrow> GPUTree" where
  "treeUpdate nv tree = (case tree of DummyTree \<Rightarrow> DummyTree | NvTree t \<Rightarrow> NvTree (UpdateTree nv t))"

section \<open>The NVIDIA allocator\<close>

definition checkpointFileName :: string where "checkpointFileName = ''gpumanager_internal_checkpoint''"

definition decExtraConfig :: "ExtraConfig decoder" where
  "decExtraConfig = decStruct [(''devices'', fieldDec ecDevices ecDevices_update (decList decString []))]"

definition decExtraConfigs :: "(string, ExtraConfig option) gomap decoder" where
  "decExtraConfigs = decMap (decPtr decExtraConfig \<lparr>ecDevices = []\<rparr>) None"

definition loadExtraConfig :: "string \<Rightarrow> io_error + jval option \<Rightarrow> go_fault + (string, ExtraConfig option) gomap" where
  "loadExtraConfig path file =
     (if path = [] then Inr []
      else case file of
             Inl err \<Rightarrow> Inl Fatal
           | Inr None \<Rightarrow> Inl Fatal
           | Inr (Some j) \<Rightarrow> (case decExtraConfigs j [] of (_, False) \<Rightarrow> Inl Fatal | (cfg, True) \<Rightarrow> Inr cfg))"

text \<open>The commands that are run; an error of them is logged only.\<close>

definition loadModule :: "(nat \<Rightarrow> string \<Rightarrow> stat_result) \<Rightarrow> string list list" where
  "loadModule stat =
     (let modprobe = [''modprobe'', ''-va'', ''nvidia-uvm'', ''nvidia''];
          first = (if stat 0 NvidiaCtlDevice \<noteq> Present then [modprobe] else [])
      in first @ (if stat (length first) NvidiaUVMDevice \<noteq> Present then [modprobe] else []))"

text \<open>What the allocator reads of the configuration, with the paths the volume manager has stored.\<close>

definition allocConfig :: "AppConfig \<Rightarrow> (string, ExtraConfig option) gomap \<Rightarrow> string \<Rightarrow> string \<Rightarrow> Config" where
  "allocConfig cfg extra library originLibrary =
     \<lparr>Hostname = acHostname cfg, VirtualManagerPath = acVirtualManagerPath cfg, EnableShare = acEnableShare cfg,
      CheckpointFile = pathJoinAll [acCheckpointPath cfg, checkpointFileName],
      DeviceMemoryScaling = acDeviceMemoryScaling cfg, extraConfig = extra,
      DriverLibraryPath = library, DriverOriginLibraryPath = originLibrary\<rparr>"

text \<open>The allocator with an empty cache, before it recovers.\<close>

definition freshAllocator :: "NvidiaTree \<Rightarrow> respData \<Rightarrow> jval files \<Rightarrow> world \<Rightarrow> NvidiaTopoAllocator" where
  "freshAllocator t resp files w =
     \<lparr>taTree = t, taCache = NewAllocateCache, taUnfinished = None, taQueue = [], taResp = resp,
      taFiles = files, taWorld = w, taVCuda = []\<rparr>"

datatype GPUTopoService = DummyAllocator | NvidiaAllocator Config NvidiaTopoAllocator

text \<open>What the constructors get: the configuration with the paths of the libraries, the answer for the
  checkpoint directory, the file of the extra configuration, the surroundings of the allocator, the files
  and the state of the outside world.\<close>

record alloc_boot =
  bConfig :: AppConfig
  bLibrary :: string
  bOriginLibrary :: string
  bEnsureDir :: "string option"
  bExtraFile :: "io_error + jval option"
  bEnv :: env
  bFiles :: "jval files"
  bWorld :: world

type_synonym alloc_new = "alloc_boot \<Rightarrow> GPUTree \<Rightarrow> respData \<Rightarrow> go_fault + GPUTopoService"

text \<open>A tree of another kind becomes a nil pointer, which the first use of the tree dereferences. The program
  never pairs this constructor with another tree, and the model panics at once. The modules that are loaded
  before (\<open>loadModule\<close>) leave no state, and the two goroutines that are started are steps of their own.\<close>

definition NewNvidiaTopoAllocator :: alloc_new where
  "NewNvidiaTopoAllocator b tree resp =
     (if bEnsureDir b \<noteq> None then Inl Fatal
      else case loadExtraConfig (acExtraConfigPath (bConfig b)) (bExtraFile b) of
             Inl f \<Rightarrow> Inl f
           | Inr extra \<Rightarrow>
               let cfg = allocConfig (bConfig b) extra (bLibrary b) (bOriginLibrary b)
               in case tree of
                    DummyTree \<Rightarrow> Inl Panic
                  | NvTree t \<Rightarrow>
                      map_sum id (NvidiaAllocator cfg)
                        (recoverInUsed cfg (bEnv b) (freshAllocator t resp (bFiles b) (bWorld b))))"

text \<open>The constructor for tests keeps the checkpoint in another directory and does not recover.\<close>

definition NewNvidiaTopoAllocatorForTest :: alloc_new where
  "NewNvidiaTopoAllocatorForTest b tree resp =
     (if bEnsureDir b \<noteq> None then Inl Fatal
      else let cfg = allocConfig ((bConfig b)\<lparr>acCheckpointPath := ''/tmp''\<rparr>) [] (bLibrary b) (bOriginLibrary b)
           in case tree of
                DummyTree \<Rightarrow> Inl Panic
              | NvTree t \<Rightarrow> Inr (NvidiaAllocator cfg (freshAllocator t resp (bFiles b) (bWorld b))))"

text \<open>The ticker of \<^verbatim>\<open>checkAllocationPeriodically\<close>: so many ticks until the channel \<^verbatim>\<open>quit\<close> is closed, each with its
  own surroundings.\<close>

fun checkAllocationPeriodically :: "Config \<Rightarrow> env list \<Rightarrow> NvidiaTopoAllocator \<Rightarrow> go_fault + NvidiaTopoAllocator" where
  "checkAllocationPeriodically cfg [] ta = Inr ta"
| "checkAllocationPeriodically cfg (e # ticks) ta =
     (case checkAllocation cfg e ta of Inl f \<Rightarrow> Inl f | Inr ta \<Rightarrow> checkAllocationPeriodically cfg ticks ta)"

section \<open>The dummy allocator\<close>

record DevicePluginOptions =
  PreStartRequired :: bool

definition emptyResponse :: ContainerAllocateResponse where
  "emptyResponse = \<lparr>respEnvs = [], respMounts = [], respDevices = [], respAnnotations = []\<rparr>"

definition NewDummyAllocator :: alloc_new where "NewDummyAllocator b tree resp = Inr DummyAllocator"

definition dummyAllocate :: "string list list \<Rightarrow> ContainerAllocateResponse list" where
  "dummyAllocate reqs =
     map (\<lambda>_. emptyResponse\<lparr>respDevices := [\<lparr>ContainerPath = ''/dev/fuse'', HostPath = ''/dev/fuse'', Permissions = ''mrw''\<rparr>]\<rparr>) reqs"

definition dummyListAndWatchWithResourceName :: "string \<Rightarrow> string list" where
  "dummyListAndWatchWithResourceName resourceName = [''dummy-'' @ resourceName @ ''-0'']"

definition dummyGetPreferredAllocation :: "string list list" where
  "dummyGetPreferredAllocation = []"

definition dummyGetDevicePluginOptions :: DevicePluginOptions where
  "dummyGetDevicePluginOptions = \<lparr>PreStartRequired = False\<rparr>"

definition dummyListAndWatch :: "string + string list" where
  "dummyListAndWatch = Inl ''not implement''"

definition dummyPreStartContainer :: "string option" where
  "dummyPreStartContainer = None"

section \<open>The table of allocators\<close>

definition RegisterAllocator :: "string \<Rightarrow> alloc_new \<Rightarrow> (string, alloc_new) gomap \<Rightarrow> (string, alloc_new) gomap" where
  "RegisterAllocator name item factory =
     (if map_of factory name \<noteq> None then factory else AList.update name item factory)"

definition AllocatorFuncForName :: "(string, alloc_new) gomap \<Rightarrow> string \<Rightarrow> alloc_new option" where
  "AllocatorFuncForName factory name = map_of factory name"

definition allocFactory :: "(string, alloc_new) gomap" where
  "allocFactory =
     RegisterAllocator ''nvidia_test'' NewNvidiaTopoAllocatorForTest
       (RegisterAllocator ''nvidia'' NewNvidiaTopoAllocator (RegisterAllocator ''dummy'' NewDummyAllocator []))"

section \<open>The calls of the interface\<close>

text \<open>The methods of the NVIDIA allocator that are not in \<open>Allocator\<close>.\<close>

definition nvGetPreferredAllocation :: "string list list" where
  "nvGetPreferredAllocation = []"

definition nvGetDevicePluginOptions :: DevicePluginOptions where
  "nvGetDevicePluginOptions = \<lparr>PreStartRequired = True\<rparr>"

definition nvListAndWatch :: "string + string list" where
  "nvListAndWatch = Inl ''not implement''"

definition svcAllocate ::
  "env \<Rightarrow> GPUTopoService \<Rightarrow> string list list \<Rightarrow> go_fault + GPUTopoService \<times> (string + ContainerAllocateResponse list)" where
  "svcAllocate e s reqs =
     (case s of
        DummyAllocator \<Rightarrow> Inr (DummyAllocator, Inr (dummyAllocate reqs))
      | NvidiaAllocator cfg ta \<Rightarrow> map_sum id (map_prod (NvidiaAllocator cfg) id) (Allocate cfg e ta reqs))"

text \<open>The call without a resource name is not implemented by either.\<close>

definition svcListAndWatch :: "GPUTopoService \<Rightarrow> string + string list" where
  "svcListAndWatch s = (case s of DummyAllocator \<Rightarrow> dummyListAndWatch | NvidiaAllocator cfg ta \<Rightarrow> nvListAndWatch)"

text \<open>What is sent before the call sleeps for ever.\<close>

definition svcListAndWatchWithResourceName :: "GPUTopoService \<Rightarrow> string \<Rightarrow> go_fault + string list" where
  "svcListAndWatchWithResourceName s resourceName =
     (case s of
        DummyAllocator \<Rightarrow> Inr (dummyListAndWatchWithResourceName resourceName)
      | NvidiaAllocator cfg ta \<Rightarrow> ListAndWatchWithResourceName cfg (taTree ta) resourceName)"

text \<open>The preferred devices of every container: the response is empty.\<close>

definition svcGetPreferredAllocation :: "GPUTopoService \<Rightarrow> string list list" where
  "svcGetPreferredAllocation s =
     (case s of DummyAllocator \<Rightarrow> dummyGetPreferredAllocation | NvidiaAllocator cfg ta \<Rightarrow> nvGetPreferredAllocation)"

definition svcGetDevicePluginOptions :: "GPUTopoService \<Rightarrow> DevicePluginOptions" where
  "svcGetDevicePluginOptions s =
     (case s of DummyAllocator \<Rightarrow> dummyGetDevicePluginOptions | NvidiaAllocator cfg ta \<Rightarrow> nvGetDevicePluginOptions)"

definition svcPreStartContainer :: "env \<Rightarrow> GPUTopoService \<Rightarrow> string list \<Rightarrow> go_fault + GPUTopoService \<times> string option" where
  "svcPreStartContainer e s ids =
     (case s of
        DummyAllocator \<Rightarrow> Inr (DummyAllocator, dummyPreStartContainer)
      | NvidiaAllocator cfg ta \<Rightarrow> map_sum id (map_prod (NvidiaAllocator cfg) id) (PreStartContainer cfg e ta ids))"

end
