(* ===== verification/Server.thy ===== *)
theory Server
  imports Plugin Node_Labels Virtual_Manager Volume Display
begin

text \<open>
  \<^verbatim>\<open>pkg/server\<close>: the servers of the two resources (\<^verbatim>\<open>vcore.go\<close>, \<^verbatim>\<open>vmemory.go\<close>, \<^verbatim>\<open>types.go\<close>) and the manager
  that starts all components and registers the servers with the kubelet (\<^verbatim>\<open>server.go\<close>), with the
  construction of the runtime manager (\<^verbatim>\<open>pkg/runtime/runtime.go\<close>) and the version
  (\<^verbatim>\<open>pkg/version\<close>). The components of the other theories are composed in the order of the code; the record
  \<open>server_env\<close> holds their surroundings and the answers of the libraries.
\<close>

section \<open>vcore.go and vmemory.go\<close>

definition vcoreSocketName :: string where "vcoreSocketName = ''vcore.sock''"
definition vmemorySocketName :: string where "vmemorySocketName = ''vmemory.sock''"
definition ManagerSocket :: string where "ManagerSocket = ''/var/run/gpu-manager.sock''"

text \<open>A server (\<^verbatim>\<open>types.go\<close>) with the path of its socket.\<close>

datatype ResourceServer = vcoreResourceServer string | vmemoryResourceServer string

definition newVcoreServer :: "AppConfig \<Rightarrow> ResourceServer" where
  "newVcoreServer cfg = vcoreResourceServer (pathJoinAll [acDevicePluginPath cfg, vcoreSocketName])"

definition newVmemoryServer :: "AppConfig \<Rightarrow> ResourceServer" where
  "newVmemoryServer cfg = vmemoryResourceServer (pathJoinAll [acDevicePluginPath cfg, vmemorySocketName])"

text \<open>The methods of the interface that only read the server.\<close>

definition SocketName :: "ResourceServer \<Rightarrow> string" where
  "SocketName r = (case r of vcoreResourceServer s \<Rightarrow> s | vmemoryResourceServer s \<Rightarrow> s)"

definition ResourceName :: "ResourceServer \<Rightarrow> string" where
  "ResourceName r = (case r of vcoreResourceServer s \<Rightarrow> VCoreAnnotation | vmemoryResourceServer s \<Rightarrow> VMemoryAnnotation)"

section \<open>Surroundings and state\<close>

record server_env =
  sExtraStat :: stat_result
  sExtraFile :: "io_error + jval option"
  sVolumeFile :: "io_error + jval option"
  sVolumes :: vol_env
  sVolumeFs :: vfs
  sBuildConfig :: "string option"
  sNewClient :: "string option"
  sDialRuntime :: "string \<Rightarrow> string option"
  sRuntimeVersion :: "string + string"
  sCgroup2 :: bool
  sLabels :: label_env
  sUnmarshal :: "string \<Rightarrow> ContainerAllocateResponse option"
  sVirtual :: vm_env
  sVmFiles :: "(string, vfile) gomap"
  sAlloc :: env
  sEnsureDir :: "string option"
  sFiles :: "jval files"
  sUnlink :: "string \<Rightarrow> fs_err option"
  sListen :: "string \<Rightarrow> string option"
  sKubeletDial :: "string \<Rightarrow> string option"
  sKubeletRegister :: "nat \<Rightarrow> string option"

text \<open>The manager. The allocator and the display service share the tree of the allocator; the list is that
  of the sockets that accept calls.\<close>

record managerImpl =
  mgConfig :: AppConfig
  mgAllocator :: "GPUTopoService option"
  mgDisplayer :: "containerRuntimeManager option"
  mgVirtual :: "VirtualManager option"
  bundleServer :: "(string, ResourceServer) gomap"
  mgListening :: "string list"

definition NewManager :: "AppConfig \<Rightarrow> managerImpl" where
  "NewManager cfg =
     \<lparr>mgConfig = cfg, mgAllocator = None, mgDisplayer = None, mgVirtual = None, bundleServer = [], mgListening = []\<rparr>"

section \<open>Calls of the kubelet\<close>

text \<open>The manager passes a call on to its allocator; before it has started that is a nil interface.\<close>

definition withAllocator :: "managerImpl \<Rightarrow> (GPUTopoService \<Rightarrow> go_fault + 'a) \<Rightarrow> go_fault + 'a" where
  "withAllocator m f = (case mgAllocator m of None \<Rightarrow> Inl Panic | Some s \<Rightarrow> f s)"

definition mgrAllocate ::
  "env \<Rightarrow> managerImpl \<Rightarrow> string list list \<Rightarrow> go_fault + managerImpl \<times> (string + ContainerAllocateResponse list)" where
  "mgrAllocate e m reqs =
     withAllocator m (\<lambda>s. map_sum id (map_prod (\<lambda>s. m\<lparr>mgAllocator := Some s\<rparr>) id) (svcAllocate e s reqs))"

definition mgrListAndWatchWithResourceName :: "managerImpl \<Rightarrow> string \<Rightarrow> go_fault + string list" where
  "mgrListAndWatchWithResourceName m resourceName =
     withAllocator m (\<lambda>s. svcListAndWatchWithResourceName s resourceName)"

definition mgrGetPreferredAllocation :: "managerImpl \<Rightarrow> go_fault + string list list" where
  "mgrGetPreferredAllocation m = withAllocator m (\<lambda>s. Inr (svcGetPreferredAllocation s))"

definition mgrGetDevicePluginOptions :: "managerImpl \<Rightarrow> go_fault + DevicePluginOptions" where
  "mgrGetDevicePluginOptions m = withAllocator m (\<lambda>s. Inr (svcGetDevicePluginOptions s))"

definition mgrPreStartContainer ::
  "env \<Rightarrow> managerImpl \<Rightarrow> string list \<Rightarrow> go_fault + managerImpl \<times> string option" where
  "mgrPreStartContainer e m ids =
     withAllocator m (\<lambda>s. map_sum id (map_prod (\<lambda>s. m\<lparr>mgAllocator := Some s\<rparr>) id) (svcPreStartContainer e s ids))"

text \<open>\<^verbatim>\<open>vcore.go\<close>: the first server hands every call to the manager.\<close>

definition vcoreAllocate ::
  "env \<Rightarrow> managerImpl \<Rightarrow> string list list \<Rightarrow> go_fault + managerImpl \<times> (string + ContainerAllocateResponse list)" where
  "vcoreAllocate e m reqs = mgrAllocate e m reqs"

definition vcoreListAndWatch :: "managerImpl \<Rightarrow> go_fault + string list" where
  "vcoreListAndWatch m = mgrListAndWatchWithResourceName m VCoreAnnotation"

definition vcoreGetPreferredAllocation :: "managerImpl \<Rightarrow> go_fault + string list list" where
  "vcoreGetPreferredAllocation m = mgrGetPreferredAllocation m"

definition vcoreGetDevicePluginOptions :: "managerImpl \<Rightarrow> go_fault + DevicePluginOptions" where
  "vcoreGetDevicePluginOptions m = mgrGetDevicePluginOptions m"

definition vcorePreStartContainer :: "env \<Rightarrow> managerImpl \<Rightarrow> string list \<Rightarrow> go_fault + managerImpl \<times> string option" where
  "vcorePreStartContainer e m ids = mgrPreStartContainer e m ids"

text \<open>\<^verbatim>\<open>vmemory.go\<close>: the second answers allocations, options and start checks itself.\<close>

definition vmemoryAllocate ::
  "env \<Rightarrow> managerImpl \<Rightarrow> string list list \<Rightarrow> go_fault + managerImpl \<times> (string + ContainerAllocateResponse list)" where
  "vmemoryAllocate e m reqs = Inr (m, Inr [emptyResponse])"

definition vmemoryListAndWatch :: "managerImpl \<Rightarrow> go_fault + string list" where
  "vmemoryListAndWatch m = mgrListAndWatchWithResourceName m VMemoryAnnotation"

definition vmemoryGetPreferredAllocation :: "managerImpl \<Rightarrow> go_fault + string list list" where
  "vmemoryGetPreferredAllocation m = mgrGetPreferredAllocation m"

definition vmemoryGetDevicePluginOptions :: "managerImpl \<Rightarrow> go_fault + DevicePluginOptions" where
  "vmemoryGetDevicePluginOptions m = Inr \<lparr>PreStartRequired = False\<rparr>"

definition vmemoryPreStartContainer :: "env \<Rightarrow> managerImpl \<Rightarrow> string list \<Rightarrow> go_fault + managerImpl \<times> string option" where
  "vmemoryPreStartContainer e m ids = Inr (m, None)"

text \<open>The calls at a server behind its interface.\<close>

definition rsAllocate ::
  "env \<Rightarrow> ResourceServer \<Rightarrow> managerImpl \<Rightarrow> string list list
     \<Rightarrow> go_fault + managerImpl \<times> (string + ContainerAllocateResponse list)" where
  "rsAllocate e r = (case r of vcoreResourceServer _ \<Rightarrow> vcoreAllocate e | vmemoryResourceServer _ \<Rightarrow> vmemoryAllocate e)"

definition rsListAndWatch :: "ResourceServer \<Rightarrow> managerImpl \<Rightarrow> go_fault + string list" where
  "rsListAndWatch r = (case r of vcoreResourceServer _ \<Rightarrow> vcoreListAndWatch | vmemoryResourceServer _ \<Rightarrow> vmemoryListAndWatch)"

definition rsGetDevicePluginOptions :: "ResourceServer \<Rightarrow> managerImpl \<Rightarrow> go_fault + DevicePluginOptions" where
  "rsGetDevicePluginOptions r =
     (case r of
        vcoreResourceServer _ \<Rightarrow> vcoreGetDevicePluginOptions
      | vmemoryResourceServer _ \<Rightarrow> vmemoryGetDevicePluginOptions)"

definition rsPreStartContainer ::
  "env \<Rightarrow> ResourceServer \<Rightarrow> managerImpl \<Rightarrow> string list \<Rightarrow> go_fault + managerImpl \<times> string option" where
  "rsPreStartContainer e r =
     (case r of vcoreResourceServer _ \<Rightarrow> vcorePreStartContainer e | vmemoryResourceServer _ \<Rightarrow> vmemoryPreStartContainer e)"

section \<open>Starting the servers\<close>

text \<open>The error of listening at a socket, for the servers of the resources and that of the manager.\<close>

definition listenAt :: "server_env \<Rightarrow> string \<Rightarrow> string option" where
  "listenAt e socket =
     (case sUnlink e socket of
        None \<Rightarrow> sListen e socket
      | Some FNotExist \<Rightarrow> sListen e socket
      | Some err \<Rightarrow> Some (fsErrStr err))"

text \<open>\<^verbatim>\<open>Run\<close> of the two servers, each in a goroutine of its own: an error is dropped.\<close>

definition serveAt :: "server_env \<Rightarrow> managerImpl \<Rightarrow> string \<Rightarrow> managerImpl \<times> string option" where
  "serveAt e m socket =
     (case listenAt e socket of
        Some err \<Rightarrow> (m, Some err)
      | None \<Rightarrow> (m\<lparr>mgListening := mgListening m @ [socket]\<rparr>, None))"

definition vcoreRun :: "server_env \<Rightarrow> managerImpl \<Rightarrow> string \<Rightarrow> managerImpl \<times> string option" where
  "vcoreRun e m socketFile = serveAt e m socketFile"

definition vmemoryRun :: "server_env \<Rightarrow> managerImpl \<Rightarrow> string \<Rightarrow> managerImpl \<times> string option" where
  "vmemoryRun e m socketFile = serveAt e m socketFile"

definition runResource :: "server_env \<Rightarrow> managerImpl \<Rightarrow> ResourceServer \<Rightarrow> managerImpl" where
  "runResource e m r =
     fst (case r of vcoreResourceServer s \<Rightarrow> vcoreRun e m s | vmemoryResourceServer s \<Rightarrow> vmemoryRun e m s)"

definition runServer :: "server_env \<Rightarrow> managerImpl \<Rightarrow> managerImpl \<times> string option" where
  "runServer e m =
     serveAt e (foldl (runResource e) m (map snd (gorange (eOrdS (sAlloc e)) (bundleServer m)))) ManagerSocket"

definition setupGRPCService :: "managerImpl \<Rightarrow> managerImpl" where
  "setupGRPCService m =
     m\<lparr>bundleServer := AList.update VMemoryAnnotation (newVmemoryServer (mgConfig m))
         (AList.update VCoreAnnotation (newVcoreServer (mgConfig m)) (bundleServer m))\<rparr>"

text \<open>\<^verbatim>\<open>Ready\<close> dials every socket; \<open>None\<close> is a call that blocks. The order of the map decides which answer
  comes first.\<close>

fun readyFrom :: "(string \<Rightarrow> bool option) \<Rightarrow> string list \<Rightarrow> nat \<Rightarrow> nat option option" where
  "readyFrom dial [] n = Some (Some n)"
| "readyFrom dial (socket # sockets) n =
     (case dial socket of
        None \<Rightarrow> None
      | Some True \<Rightarrow> readyFrom dial sockets (n + 1)
      | Some False \<Rightarrow> Some None)"

definition Ready :: "(string list \<Rightarrow> string list) \<Rightarrow> (string \<Rightarrow> bool option) \<Rightarrow> managerImpl \<Rightarrow> bool option" where
  "Ready ord dial m =
     (case readyFrom dial (map (SocketName \<circ> snd) (gorange ord (bundleServer m))) 0 of
        None \<Rightarrow> None
      | Some None \<Rightarrow> Some False
      | Some (Some readyServers) \<Rightarrow> Some (0 < readyServers \<and> readyServers = length (bundleServer m)))"

text \<open>\<^verbatim>\<open>Stop\<close> stops all servers and ends the process.\<close>

definition StopManager :: "managerImpl \<Rightarrow> go_fault + managerImpl" where
  "StopManager m = Inl Fatal"

section \<open>Registration\<close>

record RegisterRequest =
  rqVersion :: string
  rqEndpoint :: string
  rqResourceName :: string
  rqOptions :: DevicePluginOptions

definition pluginVersion :: string where "pluginVersion = ''v1beta1''"

definition registerRequest :: "ResourceServer \<Rightarrow> RegisterRequest" where
  "registerRequest r =
     \<lparr>rqVersion = pluginVersion, rqEndpoint = pathBase (SocketName r), rqResourceName = ResourceName r,
      rqOptions = \<lparr>PreStartRequired = True\<rparr>\<rparr>"

text \<open>The requests that are sent, up to the first that fails, and its error.\<close>

fun registerAll :: "(nat \<Rightarrow> string option) \<Rightarrow> nat \<Rightarrow> ResourceServer list \<Rightarrow> RegisterRequest list \<times> string option" where
  "registerAll answer i [] = ([], None)"
| "registerAll answer i (r # rs) =
     (case answer i of
        Some err \<Rightarrow> ([registerRequest r], Some err)
      | None \<Rightarrow> (let (sent, err) = registerAll answer (i + 1) rs in (registerRequest r # sent, err)))"

definition RegisterToKubelet :: "server_env \<Rightarrow> managerImpl \<Rightarrow> RegisterRequest list \<times> string option" where
  "RegisterToKubelet e m =
     (case sKubeletDial e (pathJoinAll [acDevicePluginPath (mgConfig m), KubeletSocket]) of
        Some err \<Rightarrow> ([], Some err)
      | None \<Rightarrow> registerAll (sKubeletRegister e) 0 (map snd (gorange (eOrdS (sAlloc e)) (bundleServer m))))"

section \<open>Start-up\<close>

definition ioErrStr :: "io_error \<Rightarrow> string" where
  "ioErrStr err = (case err of NotExist \<Rightarrow> ''no such file or directory'' | IoErr s \<Rightarrow> s | JsonErr \<Rightarrow> ''invalid JSON'')"

definition validExtraConfig :: "server_env \<Rightarrow> string \<Rightarrow> string option" where
  "validExtraConfig e path =
     (if path = [] then None
      else case sExtraStat e of
             Missing \<Rightarrow> Some (ioErrStr NotExist)
           | StatFailed err \<Rightarrow> Some err
           | Present \<Rightarrow>
               (case sExtraFile e of
                  Inl err \<Rightarrow> Some (ioErrStr err)
                | Inr None \<Rightarrow> Some (ioErrStr JsonErr)
                | Inr (Some j) \<Rightarrow> if snd (decExtraConfigs j []) then None else Some (ioErrStr JsonErr)))"

definition NewContainerRuntimeManager :: "server_env \<Rightarrow> string \<Rightarrow> string \<Rightarrow> string + containerRuntimeManager" where
  "NewContainerRuntimeManager e driver endpoint =
     (case sDialRuntime e endpoint of
        Some err \<Rightarrow> Inl err
      | None \<Rightarrow>
          (case sRuntimeVersion e of
             Inl err \<Rightarrow> Inl err
           | Inr name \<Rightarrow> Inr \<lparr>cgroupDriver = driver, runtimeName = name, isCGroupV2 = sCgroup2 e\<rparr>))"

text \<open>What the volume manager leaves in the global variables: the driver version and the two paths.\<close>

record driver_globals =
  dgMajor :: int
  dgMinor :: int
  dgLibrary :: string
  dgOriginLibrary :: string

definition startVolumes :: "server_env \<Rightarrow> AppConfig \<Rightarrow> go_fault + (string + driver_globals)" where
  "startVolumes e cfg =
     (if acVolumeConfigPath cfg = [] then Inr (Inr \<lparr>dgMajor = 0, dgMinor = 0, dgLibrary = [], dgOriginLibrary = []\<rparr>)
      else case NewVolumeManager (acEnableShare cfg) (sVolumeFs e) (sVolumeFile e) of
             Inl err \<Rightarrow> Inr (Inl (ioErrStr err))
           | Inr vmg \<Rightarrow>
               (case runVolumes (sVolumes e) vmg of
                  Inl f \<Rightarrow> Inl f
                | Inr (vmg, Some err) \<Rightarrow> Inr (Inl err)
                | Inr (vmg, None) \<Rightarrow>
                    Inr (Inr \<lparr>dgMajor = DriverVersionMajor vmg, dgMinor = DriverVersionMinor vmg,
                              dgLibrary = libraryPath vmg, dgOriginLibrary = originLibraryPath vmg\<rparr>)))"

text \<open>The responses of the kubelet's checkpoint, and the virtual manager that serves their directories.\<close>

definition startVirtual ::
  "server_env \<Rightarrow> AppConfig \<Rightarrow> driver_globals \<Rightarrow> containerRuntimeManager \<Rightarrow> go_fault + (string + respData \<times> VirtualManager)" where
  "startVirtual e cfg g rm =
     (case LoadFromFile (sUnmarshal e) (eOrdI (sAlloc e)) (eKubelet (sAlloc e) 0) [] of
        Inl f \<Rightarrow> Inl f
      | Inr (resp, Some err) \<Rightarrow> Inr (Inl (ioErrStr err))
      | Inr (resp, None) \<Rightarrow>
          map_sum id (\<lambda>vm. Inr (resp, vm))
            (runVM ((sVirtual e)\<lparr>vPath := acVirtualManagerPath cfg, vRuntimeManager := rm,
                       vDriverMajor := dgMajor g, vDriverMinor := dgMinor g\<rparr>)
               (NewVirtualManager resp (sVmFiles e))))"

text \<open>The tree and the allocator of the driver. The constructor of the tree is called without a look at
  whether there is one.\<close>

definition startAllocator ::
  "server_env \<Rightarrow> AppConfig \<Rightarrow> driver_globals \<Rightarrow> respData \<Rightarrow> go_fault + (string + GPUTopoService)" where
  "startAllocator e cfg g resp =
     (case TreeFuncForName treeFactory (acDriver cfg) of
        None \<Rightarrow> Inl Panic
      | Some treeInitFn \<Rightarrow>
          (case treeInit (eNvml (sAlloc e) 0) (eOrdI (sAlloc e)) (treeInitFn (acSamplePeriod cfg)) [] of
             Inl f \<Rightarrow> Inl f
           | Inr tree \<Rightarrow>
               let tree = treeUpdate (eNvml (sAlloc e) 1) tree
               in case AllocatorFuncForName allocFactory (acDriver cfg) of
                    None \<Rightarrow> Inr (Inl (''can not find allocator for '' @ acDriver cfg))
                  | Some initAllocator \<Rightarrow>
                      map_sum id Inr
                        (initAllocator \<lparr>bConfig = cfg, bLibrary = dgLibrary g, bOriginLibrary = dgOriginLibrary g,
                            bEnsureDir = sEnsureDir e, bExtraFile = sExtraFile e, bEnv = sAlloc e,
                            bFiles = sFiles e, bWorld = startWorld\<lparr>tick := 2\<rparr>\<rparr> tree resp)))"

text \<open>\<^verbatim>\<open>Run\<close>: the manager it leaves and its error; without an error the manager serves.\<close>

definition RunManager :: "server_env \<Rightarrow> managerImpl \<Rightarrow> go_fault + managerImpl \<times> string option" where
  "RunManager e m =
     (let cfg = mgConfig m
      in case validExtraConfig e (acExtraConfigPath cfg) of
           Some err \<Rightarrow> Inr (m, Some err)
         | None \<Rightarrow>
      if acDriver cfg = [] then Inr (m, Some ''you should define a driver'')
      else case startVolumes e cfg of
             Inl f \<Rightarrow> Inl f
           | Inr (Inl err) \<Rightarrow> Inr (m, Some err)
           | Inr (Inr g) \<Rightarrow>
      (case sBuildConfig e of
         Some err \<Rightarrow> Inr (m, Some (''invalid client config: '' @ err))
       | None \<Rightarrow>
      (case sNewClient e of
         Some err \<Rightarrow> Inr (m, Some (''can not generate client from config: '' @ err))
       | None \<Rightarrow>
      (case NewContainerRuntimeManager e (acCgroupDriver cfg) (acContainerRuntimeEndpoint cfg) of
         Inl err \<Rightarrow> Inr (m, Some err)
       | Inr rm \<Rightarrow>
      (case labelerRun (sLabels e) (NewNodeLabeler (sLabels e) (acHostname cfg) (acNodeLabels cfg)) [] of
         (_, Some err) \<Rightarrow> Inr (m, Some ''labels of the node'')
       | (_, None) \<Rightarrow>
      (case startVirtual e cfg g rm of
         Inl f \<Rightarrow> Inl f
       | Inr (Inl err) \<Rightarrow> Inr (m, Some err)
       | Inr (Inr (resp, vm)) \<Rightarrow>
           let m = m\<lparr>mgVirtual := Some vm\<rparr>
           in case startAllocator e cfg g resp of
                Inl f \<Rightarrow> Inl f
              | Inr (Inl err) \<Rightarrow> Inr (m, Some err)
              | Inr (Inr s) \<Rightarrow>
                  Inr (runServer e (setupGRPCService (m\<lparr>mgAllocator := Some s, mgDisplayer := Some rm\<rparr>)))))))))"

section \<open>The display service\<close>

text \<open>The display service reads the tree of the allocator. The tree of the dummy driver is a nil pointer for
  it: printing the graph panics, and so does every query of a device.\<close>

definition mgrPrintGraph :: "disp_env \<Rightarrow> managerImpl \<Rightarrow> go_fault + managerImpl \<times> string" where
  "mgrPrintGraph e m =
     (case mgAllocator m of
        Some (NvidiaAllocator cfg ta) \<Rightarrow>
          map_sum id (map_prod (\<lambda>t. m\<lparr>mgAllocator := Some (NvidiaAllocator cfg (ta\<lparr>taTree := t\<rparr>))\<rparr>) id)
            (displayPrintGraph e (taTree ta))
      | _ \<Rightarrow> Inl Panic)"

definition mgrPrintUsages :: "disp_env \<Rightarrow> managerImpl \<Rightarrow> go_fault + (string, ContainerStat) gomap" where
  "mgrPrintUsages e m =
     (case mgAllocator m of
        None \<Rightarrow> Inl Panic
      | Some (NvidiaAllocator cfg ta) \<Rightarrow> PrintUsages e (taTree ta)
      | Some DummyAllocator \<Rightarrow> PrintUsages e (newNvidiaTree None 0))"

definition gitMajor :: string where "gitMajor = ''0''"
definition gitMinor :: string where "gitMinor = ''1''"
definition gitCommit :: string where "gitCommit = ''f0669de638b024e3d9e5ecdcfdb239face4e52fd''"

record VersionInfo =
  viVersion :: string
  viCommit :: string

definition GetVersion :: VersionInfo where
  "GetVersion = \<lparr>viVersion = gitMajor @ ''.'' @ gitMinor, viCommit = gitCommit\<rparr>"

definition versionString :: "VersionInfo \<Rightarrow> string" where
  "versionString info = viCommit info"

definition mgrVersion :: "managerImpl \<Rightarrow> string" where
  "mgrVersion m = versionString GetVersion"

end
