(* ===== verification/Topology.thy ===== *)
theory Topology
  imports Tree_Build
begin

text \<open>
  The groups of cards that \<^verbatim>\<open>join\<close> builds, without the heap. The level of the common ancestor of two cards is
  an ultrametric on a machine whose switches form a tree; for such levels the greedy merging of pairs in the
  order of the nested loops ends with one group for every level and every set of cards within that level of
  each other. A group is a level with the set of its cards.
\<close>

section \<open>Greedy merging\<close>

type_synonym group = "int \<times> nat set"

definition groupOf :: "group list \<Rightarrow> int \<Rightarrow> nat set \<Rightarrow> nat option" where
  "groupOf gs l S = find (\<lambda>j. fst (gs ! j) = l \<and> snd (gs ! j) \<inter> S \<noteq> {}) [0..<length gs]"

definition joinG :: "group list \<Rightarrow> int \<Rightarrow> nat \<Rightarrow> nat \<Rightarrow> group list" where
  "joinG gs l a b =
     (case groupOf gs l {a, b} of
        None \<Rightarrow> gs @ [(l, {a, b})]
      | Some j \<Rightarrow> gs[j := (l, snd (gs ! j) \<union> {a, b})])"

definition joinAll :: "(nat \<Rightarrow> nat \<Rightarrow> int) \<Rightarrow> group list \<Rightarrow> (nat \<times> nat) list \<Rightarrow> group list" where
  "joinAll lev gs ps = foldl (\<lambda>gs (a, b). joinG gs (lev a b) a b) gs ps"

lemma joinAll_Nil [simp]: "joinAll lev gs [] = gs"
  by (simp add: joinAll_def)

lemma joinAll_snoc: "joinAll lev gs (ps @ [(a, b)]) = joinG (joinAll lev gs ps) (lev a b) a b"
  by (simp add: joinAll_def)

lemma groupOf_Some: "groupOf gs l S = Some j \<Longrightarrow> j < length gs \<and> fst (gs ! j) = l \<and> snd (gs ! j) \<inter> S \<noteq> {}"
  by (auto simp: groupOf_def find_Some_iff)

lemma groupOf_None: "groupOf gs l S = None \<longleftrightarrow> (\<forall>(k, T) \<in> set gs. k = l \<longrightarrow> T \<inter> S = {})"
proof -
  have "(\<forall>(k, T) \<in> set gs. k = l \<longrightarrow> T \<inter> S = {}) \<longleftrightarrow> (\<forall>j < length gs. fst (gs ! j) = l \<longrightarrow> snd (gs ! j) \<inter> S = {})"
    by (simp add: all_set_conv_all_nth case_prod_unfold)
  then show ?thesis by (auto simp: groupOf_def find_None_iff)
qed

section \<open>The pairs of the nested loops\<close>

definition pairLess :: "nat \<times> nat \<Rightarrow> nat \<times> nat \<Rightarrow> bool" where
  "pairLess p q \<longleftrightarrow> fst p < fst q \<or> fst p = fst q \<and> snd p < snd q"

lemma set_cardPairs: "set (cardPairs n) = {(a, b). a < b \<and> b < n}"
  by (auto simp: cardPairs_def image_iff)

lemma sorted_cardPairs: "sorted_wrt pairLess (cardPairs n)"
proof -
  have row: "sorted_wrt pairLess (map (Pair a) [b..<n])" for a b
    by (simp add: sorted_wrt_map pairLess_def)
  have "sorted_wrt pairLess (concat (map (\<lambda>a. map (Pair a) [a + 1..<n]) [0..<k]))" for k
  proof (induction k)
    case (Suc k)
    then show ?case using row [of k "Suc k"] by (auto simp: sorted_wrt_append) (simp add: pairLess_def)
  qed simp
  then show ?thesis by (simp add: cardPairs_def)
qed

text \<open>When a pair comes up, the pairs of an earlier row have all been seen.\<close>

lemma cardPairs_prefix:
  assumes "cardPairs n = ps @ (a, b) # qs" "(x, y) \<in> set ps" "x \<noteq> a"
  shows "x < a" "(x, a) \<in> set ps" "(x, b) \<in> set ps"
proof -
  have s: "sorted_wrt pairLess (ps @ (a, b) # qs)" using sorted_cardPairs assms(1) by metis
  then have before: "pairLess (x, y) (a, b)" and after: "\<And>q. q \<in> set qs \<Longrightarrow> pairLess (a, b) q"
    using assms(2) by (auto simp: sorted_wrt_append)
  show x: "x < a" using before assms(3) by (simp add: pairLess_def)
  have "(a, b) \<in> set (cardPairs n)" using assms(1) by simp
  then have ab: "a < b" "b < n" by (simp_all add: set_cardPairs)
  have "(x, z) \<in> set ps" if "z < n" "x < z" for z
  proof -
    have "(x, z) \<in> set (ps @ (a, b) # qs)" using that assms(1) set_cardPairs [of n] by auto
    then show ?thesis using x after [of "(x, z)"] by (auto simp: pairLess_def)
  qed
  then show "(x, a) \<in> set ps" "(x, b) \<in> set ps" using x ab by simp_all
qed

section \<open>Levels as distances\<close>

locale levels =
  fixes lev :: "nat \<Rightarrow> nat \<Rightarrow> int" and n :: nat
  assumes sym: "lev a b = lev b a"
    and ultra: "a < n \<Longrightarrow> b < n \<Longrightarrow> c < n \<Longrightarrow> a \<noteq> b \<Longrightarrow> b \<noteq> c \<Longrightarrow> a \<noteq> c \<Longrightarrow> lev a c \<le> max (lev a b) (lev b c)"
begin

text \<open>Cards within a level of each other.\<close>

definition near :: "int \<Rightarrow> nat \<Rightarrow> nat \<Rightarrow> bool" where
  "near l a b \<longleftrightarrow> a < n \<and> b < n \<and> (a = b \<or> lev a b \<le> l)"

lemma near_refl: "a < n \<Longrightarrow> near l a a"
  by (simp add: near_def)

lemma near_sym: "near l a b \<Longrightarrow> near l b a"
  by (auto simp: near_def sym)

lemma near_trans: "near l a b \<Longrightarrow> near l b c \<Longrightarrow> near l a c"
  using ultra [of a b c] by (cases "a = b \<or> b = c \<or> a = c") (auto simp: near_def max_def split: if_splits)

lemma near_mono: "near l a b \<Longrightarrow> l \<le> l' \<Longrightarrow> near l' a b"
  by (auto simp: near_def)

lemma near_partner: "near l a b \<Longrightarrow> near l a c \<longleftrightarrow> near l b c"
  using near_sym near_trans by blast

text \<open>A card near a pair of exactly this level is at exactly this level from one of the two.\<close>

lemma exact_partner:
  assumes "near (lev a b) c a" "a \<noteq> b" "b < n" "c \<noteq> a" "c \<noteq> b"
  shows "lev c a = lev a b \<or> lev c b = lev a b"
proof -
  have cb: "near (lev a b) c b" using assms near_trans [OF assms(1), of b] by (auto simp: near_def)
  then have "lev a b \<le> max (lev a c) (lev c b)" using ultra [of a c b] assms by (auto simp: near_def)
  then show ?thesis using cb assms(1,4,5) sym [of a c] by (auto simp: near_def)
qed

text \<open>The cards of seen pairs of a level, near a card.\<close>

definition seen :: "(nat \<times> nat) set \<Rightarrow> int \<Rightarrow> nat \<Rightarrow> nat set" where
  "seen D l a = {c. \<exists>(x, y) \<in> D. lev x y = l \<and> near l a x \<and> (c = x \<or> c = y)}"

lemma seen_near: "near l a b \<Longrightarrow> seen D l a = seen D l b"
  unfolding seen_def using near_partner by blast

lemma in_seen_near: "c \<in> seen D l a \<Longrightarrow> D \<subseteq> {(x, y). x < y \<and> y < n} \<Longrightarrow> near l a c"
  unfolding seen_def using near_trans [of l a _ c] by (auto simp: near_def)

definition groups_ok :: "(nat \<times> nat) set \<Rightarrow> group list \<Rightarrow> bool" where
  "groups_ok D gs \<longleftrightarrow>
     (\<forall>(l, S) \<in> set gs. \<exists>(a, b) \<in> D. lev a b = l \<and> S = seen D l a)
     \<and> (\<forall>(a, b) \<in> D. (lev a b, seen D (lev a b) a) \<in> set gs)
     \<and> (\<forall>i < length gs. \<forall>j < length gs. i \<noteq> j \<longrightarrow> fst (gs ! i) = fst (gs ! j) \<longrightarrow> snd (gs ! i) \<inter> snd (gs ! j) = {})"

lemma seen_insert_other:
  assumes "\<not> (l = lev a b \<and> near l x a)"
  shows "seen (insert (a, b) D) l x = seen D l x"
  using assms unfolding seen_def by auto

lemma seen_insert_same: "a < n \<Longrightarrow> near (lev a b) x a \<Longrightarrow> seen (insert (a, b) D) (lev a b) x = seen D (lev a b) x \<union> {a, b}"
  unfolding seen_def by auto

lemma groups_okD:
  assumes "groups_ok D gs"
  shows "(l, S) \<in> set gs \<Longrightarrow> \<exists>a b. (a, b) \<in> D \<and> lev a b = l \<and> S = seen D l a"
    and "(a, b) \<in> D \<Longrightarrow> (lev a b, seen D (lev a b) a) \<in> set gs"
    and "i < length gs \<Longrightarrow> j < length gs \<Longrightarrow> i \<noteq> j \<Longrightarrow> fst (gs ! i) = fst (gs ! j) \<Longrightarrow> snd (gs ! i) \<inter> snd (gs ! j) = {}"
proof -
  have a: "\<forall>(l, S) \<in> set gs. \<exists>(a, b) \<in> D. lev a b = l \<and> S = seen D l a"
    and b: "\<forall>(a, b) \<in> D. (lev a b, seen D (lev a b) a) \<in> set gs"
    and c: "\<forall>i < length gs. \<forall>j < length gs. i \<noteq> j \<longrightarrow> fst (gs ! i) = fst (gs ! j) \<longrightarrow> snd (gs ! i) \<inter> snd (gs ! j) = {}"
    using conjunct1 [OF assms [unfolded groups_ok_def]] conjunct1 [OF conjunct2 [OF assms [unfolded groups_ok_def]]]
      conjunct2 [OF conjunct2 [OF assms [unfolded groups_ok_def]]] by - (assumption+)
  show "(l, S) \<in> set gs \<Longrightarrow> \<exists>a b. (a, b) \<in> D \<and> lev a b = l \<and> S = seen D l a" using bspec [OF a, of "(l, S)"] by auto
  show "(a, b) \<in> D \<Longrightarrow> (lev a b, seen D (lev a b) a) \<in> set gs" using b by auto
  show "i < length gs \<Longrightarrow> j < length gs \<Longrightarrow> i \<noteq> j \<Longrightarrow> fst (gs ! i) = fst (gs ! j) \<Longrightarrow> snd (gs ! i) \<inter> snd (gs ! j) = {}" using c by auto
qed

lemma seen_self: "(x, y) \<in> D \<Longrightarrow> D \<subseteq> {(x, y). x < y \<and> y < n} \<Longrightarrow> x \<in> seen D (lev x y) x"
  unfolding seen_def by (intro CollectI bexI [of _ "(x, y)"]) (auto simp: near_def)

text \<open>A pair whose set has a group meets that group.\<close>

lemma seen_meets:
  assumes "cardPairs n = ps @ (a, b) # qs" "c \<in> seen (set ps) (lev a b) a"
  shows "seen (set ps) (lev a b) a \<inter> {a, b} \<noteq> {}"
proof -
  let ?D = "set ps" and ?l = "lev a b"
  have "(a, b) \<in> set (cardPairs n)" using assms(1) by simp
  then have ab: "a < b" "b < n" by (simp_all add: set_cardPairs)
  from assms(2) obtain x y where xy: "(x, y) \<in> ?D" "lev x y = ?l" "near ?l a x" by (auto simp: seen_def)
  show ?thesis
  proof (cases "x = a")
    case True
    with xy show ?thesis by (auto simp: seen_def)
  next
    case False
    note p = cardPairs_prefix [OF assms(1) xy(1) False]
    have "lev x a = ?l \<or> lev x b = ?l"
      by (rule exact_partner [OF near_sym [OF xy(3)]]) (use ab p(1) in auto)
    then show ?thesis using p xy(3) by (auto simp: seen_def)
  qed
qed

lemma cardPairs_split:
  assumes "cardPairs n = ps @ (a, b) # qs"
  shows "a < b" "b < n" "set ps \<subseteq> {(x, y). x < y \<and> y < n}" "near (lev a b) a b" "near (lev a b) a a"
    "seen (insert (a, b) D) (lev a b) a = seen D (lev a b) a \<union> {a, b}"
proof -
  have "(a, b) \<in> set (cardPairs n)" "set ps \<subseteq> set (cardPairs n)" using assms by auto
  then show ab: "a < b" "b < n" "set ps \<subseteq> {(x, y). x < y \<and> y < n}" by (simp_all add: set_cardPairs)
  then show nb: "near (lev a b) a b" "near (lev a b) a a" by (simp_all add: near_def)
  show "seen (insert (a, b) D) (lev a b) a = seen D (lev a b) a \<union> {a, b}"
    using nb by (intro seen_insert_same) (auto simp: near_def)
qed

text \<open>A pair that meets no group starts one.\<close>

lemma joinG_new:
  assumes "groups_ok (set ps) gs" "cardPairs n = ps @ (a, b) # qs" "groupOf gs (lev a b) {a, b} = None"
  shows "groups_ok (insert (a, b) (set ps)) (gs @ [(lev a b, {a, b})])"
proof -
  let ?D = "set ps" and ?l = "lev a b" and ?D' = "insert (a, b) (set ps)"
  note g = groups_okD [OF assms(1)] and ab = cardPairs_split [OF assms(2)]
  have no: "\<And>S. (?l, S) \<in> set gs \<Longrightarrow> S \<inter> {a, b} = {}" using assms(3) by (auto simp: groupOf_None)
  have empty: "seen ?D ?l a = {}"
  proof (rule ccontr)
    assume "seen ?D ?l a \<noteq> {}"
    then obtain c x y where c: "c \<in> seen ?D ?l a" "(x, y) \<in> ?D" "lev x y = ?l" "near ?l a x"
      by (fastforce simp: seen_def)
    then have "(?l, seen ?D ?l a) \<in> set gs" using g(2) [OF c(2)] seen_near [OF c(4)] by simp
    then show False using no seen_meets [OF assms(2) c(1)] by blast
  qed
  have far: "\<not> near ?l x a" if "(x, y) \<in> ?D" "lev x y = ?l" for x y
  proof
    assume "near ?l x a"
    then have "x \<in> seen ?D ?l a" using that near_sym unfolding seen_def by blast
    with empty show False by simp
  qed
  have same: "seen ?D' l x = seen ?D l x" if "(x, y) \<in> ?D" "lev x y = l" for l x y
    using that far by (intro seen_insert_other) blast
  have "\<exists>(x, y) \<in> ?D'. lev x y = l \<and> S = seen ?D' l x" if "(l, S) \<in> set gs" for l S
    using g(1) [OF that] same by fast
  moreover have "(lev x y, seen ?D' (lev x y) x) \<in> set gs" if "(x, y) \<in> ?D" for x y
    using g(2) [OF that] same [OF that refl] by simp
  moreover have "snd (gs ! i) \<inter> {a, b} = {}" if "i < length gs" "fst (gs ! i) = ?l" for i
    using no [of "snd (gs ! i)"] that by (metis nth_mem prod.collapse)
  ultimately show ?thesis
    using g(3) ab(6) empty by (auto simp: groups_ok_def nth_append)
qed

text \<open>A pair that meets a group extends it; the groups of other cards stay apart.\<close>

lemma joinG_merge:
  assumes "groups_ok (set ps) gs" "cardPairs n = ps @ (a, b) # qs" "groupOf gs (lev a b) {a, b} = Some j"
  shows "groups_ok (insert (a, b) (set ps)) (gs[j := (lev a b, snd (gs ! j) \<union> {a, b})])"
proof -
  let ?D = "set ps" and ?l = "lev a b" and ?D' = "insert (a, b) (set ps)"
  note g = groups_okD [OF assms(1)] and ab = cardPairs_split [OF assms(2)] and j = groupOf_Some [OF assms(3)]
  have nth: "\<exists>x y. (x, y) \<in> ?D \<and> lev x y = fst (gs ! i) \<and> snd (gs ! i) = seen ?D (fst (gs ! i)) x" if "i < length gs" for i
    using g(1) [of "fst (gs ! i)" "snd (gs ! i)"] that by simp
  obtain x0 y0 where x0: "(x0, y0) \<in> ?D" "lev x0 y0 = ?l" "snd (gs ! j) = seen ?D ?l x0"
    using nth [of j] j by auto
  then have "near ?l x0 a \<or> near ?l x0 b" using j in_seen_near [OF _ ab(3)] by fastforce
  then have "near ?l x0 a" using near_trans near_sym ab(4) by blast
  then have sj: "snd (gs ! j) = seen ?D ?l a" using x0(3) seen_near by metis
  have far: "\<not> near ?l x a" if "i < length gs" "i \<noteq> j" "fst (gs ! i) = ?l" "snd (gs ! i) = seen ?D ?l x" "(x, y) \<in> ?D" "lev x y = ?l" for i x y
  proof
    assume "near ?l x a"
    then have "snd (gs ! i) = snd (gs ! j)" using that(4) sj seen_near by metis
    moreover have "x \<in> snd (gs ! i)" using seen_self [OF that(5) ab(3)] that(4,6) by simp
    ultimately show False using g(3) [OF that(1) _ that(2)] j that(3) by auto
  qed
  have other: "\<exists>x y. (x, y) \<in> ?D \<and> lev x y = fst (gs ! i) \<and> snd (gs ! i) = seen ?D' (fst (gs ! i)) x"
    and apart: "fst (gs ! i) = ?l \<Longrightarrow> snd (gs ! i) \<inter> seen ?D' ?l a = {}" if i: "i < length gs" "i \<noteq> j" for i
  proof -
    obtain x y where x: "(x, y) \<in> ?D" "lev x y = fst (gs ! i)" "snd (gs ! i) = seen ?D (fst (gs ! i)) x"
      using nth [OF i(1)] by blast
    have "seen ?D' (fst (gs ! i)) x = seen ?D (fst (gs ! i)) x"
      by (rule seen_insert_other) (use far [OF i, of x y] x in auto)
    with x show "\<exists>x y. (x, y) \<in> ?D \<and> lev x y = fst (gs ! i) \<and> snd (gs ! i) = seen ?D' (fst (gs ! i)) x" by metis
    assume l: "fst (gs ! i) = ?l"
    then have "\<not> near ?l x a" using far [OF i l, of x y] x by simp
    then have "a \<notin> seen ?D ?l x" "b \<notin> seen ?D ?l x"
      using in_seen_near [OF _ ab(3), of _ ?l x] near_trans near_sym ab(4) by blast+
    then show "snd (gs ! i) \<inter> seen ?D' ?l a = {}" using g(3) [OF i(1) _ i(2)] j l x(3) sj ab(6) [of ?D] by auto
  qed
  have mem: "gs[j := (?l, seen ?D' ?l a)] ! i = (if i = j then (?l, seen ?D' ?l a) else gs ! i)" if "i < length gs" for i
    using that by simp
  have "\<exists>(x, y) \<in> ?D'. lev x y = l \<and> S = seen ?D' l x" if m: "(l, S) \<in> set (gs[j := (?l, seen ?D' ?l a)])" for l S
  proof -
    obtain i where i: "i < length gs" "gs[j := (?l, seen ?D' ?l a)] ! i = (l, S)" using m unfolding in_set_conv_nth by auto
    show ?thesis
    proof (cases "i = j")
      case True
      with i mem [OF i(1)] show ?thesis by auto
    next
      case False
      with i mem [OF i(1)] have "gs ! i = (l, S)" by simp
      with other [OF i(1) False] show ?thesis by auto
    qed
  qed
  moreover have "(lev x y, seen ?D' (lev x y) x) \<in> set (gs[j := (?l, seen ?D' ?l a)])" if xy: "(x, y) \<in> ?D'" for x y
  proof (cases "lev x y = ?l \<and> near ?l x a")
    case True
    then have "seen ?D' (lev x y) x = seen ?D' ?l a" using seen_near [of ?l x a] by simp
    with True j show ?thesis by (metis set_update_memI)
  next
    case False
    then have xD: "(x, y) \<in> ?D" using xy ab(5) by auto
    then obtain i where i: "i < length gs" "gs ! i = (lev x y, seen ?D (lev x y) x)" using g(2) by (metis in_set_conv_nth)
    have "i \<noteq> j"
    proof
      assume "i = j"
      then have "lev x y = ?l" "seen ?D ?l x = seen ?D ?l a" using i(2) j sj by auto
      then show False using in_seen_near [OF _ ab(3), of x ?l a] seen_self [OF xD ab(3)] near_sym False by auto
    qed
    moreover have "seen ?D' (lev x y) x = seen ?D (lev x y) x" using False by (intro seen_insert_other) auto
    ultimately show ?thesis using i by (metis length_list_update nth_list_update_neq nth_mem)
  qed
  moreover have "snd (gs[j := (?l, seen ?D' ?l a)] ! i) \<inter> snd (gs[j := (?l, seen ?D' ?l a)] ! k) = {}"
    if "i < length gs" "k < length gs" "i \<noteq> k"
      "fst (gs[j := (?l, seen ?D' ?l a)] ! i) = fst (gs[j := (?l, seen ?D' ?l a)] ! k)" for i k
    using that mem [OF that(1)] mem [OF that(2)] g(3) [OF that(1-3)] apart [OF that(1)] apart [OF that(2)]
    by (auto split: if_splits)
  ultimately show ?thesis
    unfolding groups_ok_def sj ab(6) [symmetric] by auto
qed

lemma joinG_step:
  assumes "groups_ok (set ps) gs" "cardPairs n = ps @ (a, b) # qs"
  shows "groups_ok (insert (a, b) (set ps)) (joinG gs (lev a b) a b)"
  using joinG_new [OF assms] joinG_merge [OF assms] by (simp add: joinG_def split: option.split)

text \<open>The groups after all pairs: one for every set of cards that are within a level of each other and
  include a pair of exactly this level.\<close>

lemma joinAll_ok: "groups_ok (set (cardPairs n)) (joinAll lev [] (cardPairs n))"
proof -
  have "groups_ok (set ps) (joinAll lev [] ps)" if "cardPairs n = ps @ qs" for ps qs
    using that
  proof (induction ps arbitrary: qs rule: rev_induct)
    case Nil
    then show ?case by (simp add: groups_ok_def)
  next
    case (snoc p ps)
    obtain a b where p: "p = (a, b)" by fastforce
    from joinG_step [OF snoc.IH, of "(a, b) # qs" a b qs] snoc.prems p show ?case by (simp add: joinAll_snoc)
  qed
  then show ?thesis by (metis append_Nil2)
qed

lemma seen_all:
  assumes "a < b" "b < n"
  shows "seen (set (cardPairs n)) (lev a b) a = {c. near (lev a b) a c}"
proof (intro equalityI subsetI)
  fix c assume "c \<in> seen (set (cardPairs n)) (lev a b) a"
  then show "c \<in> {c. near (lev a b) a c}" using in_seen_near [of c "set (cardPairs n)"] by (simp add: set_cardPairs)
next
  fix c assume "c \<in> {c. near (lev a b) a c}"
  then have c: "near (lev a b) a c" "c < n" by (auto simp: near_def)
  have partner: "c \<in> seen (set (cardPairs n)) (lev a b) a" if "d < n" "c \<noteq> d" "lev c d = lev a b" "near (lev a b) a d" for d
  proof -
    have "(min c d, max c d) \<in> set (cardPairs n)" using that c by (auto simp: set_cardPairs)
    moreover have "lev (min c d) (max c d) = lev a b" using that sym [of c d] by (auto simp: min_def max_def)
    moreover have "near (lev a b) a (min c d)" using c that by (auto simp: min_def)
    moreover have "c = min c d \<or> c = max c d" by linarith
    ultimately show ?thesis unfolding seen_def by (intro CollectI bexI [of _ "(min c d, max c d)"]) simp_all
  qed
  have "near (lev a b) a b" using assms by (simp add: near_def)
  show "c \<in> seen (set (cardPairs n)) (lev a b) a"
  proof (cases "c = a \<or> c = b")
    case True
    then show ?thesis using partner [of b] partner [of a] assms \<open>near (lev a b) a b\<close> sym [of a b] by (auto simp: near_def)
  next
    case False
    then have "lev c a = lev a b \<or> lev c b = lev a b" using exact_partner [OF near_sym [OF c(1)]] assms by auto
    then show ?thesis using partner [of a] partner [of b] assms False \<open>near (lev a b) a b\<close> by (auto simp: near_def)
  qed
qed

definition grps :: "group list" where
  "grps = joinAll lev [] (cardPairs n)"

lemma grps_mem:
  assumes "(l, S) \<in> set grps"
  obtains a b where "a < b" "b < n" "lev a b = l" "S = {c. near l a c}"
proof -
  from groups_okD(1) [OF joinAll_ok assms [unfolded grps_def]]
  obtain a b where "a < b" "b < n" "lev a b = l" "S = seen (set (cardPairs n)) l a" by (auto simp: set_cardPairs)
  then show thesis using that seen_all by metis
qed

lemma grps_has: "a < b \<Longrightarrow> b < n \<Longrightarrow> (lev a b, {c. near (lev a b) a c}) \<in> set grps"
  using groups_okD(2) [OF joinAll_ok, of a b] seen_all [of a b] by (simp add: grps_def) (simp add: set_cardPairs)

lemma grps_unique: "i < length grps \<Longrightarrow> j < length grps \<Longrightarrow> fst (grps ! i) = fst (grps ! j) \<Longrightarrow>
    snd (grps ! i) \<inter> snd (grps ! j) \<noteq> {} \<Longrightarrow> i = j"
  using groups_okD(3) [OF joinAll_ok, of i j] by (auto simp: grps_def)

lemma grps_nonempty: "(l, S) \<in> set grps \<Longrightarrow> S \<noteq> {} \<and> S \<subseteq> {..<n}"
  using near_refl by (elim grps_mem) (fastforce simp: near_def)

lemma grps_nested:
  assumes "(l, S) \<in> set grps" "(l', T) \<in> set grps" "l \<le> l'" "S \<inter> T \<noteq> {}"
  shows "S \<subseteq> T"
proof -
  obtain a where a: "S = {c. near l a c}" using assms(1) by (elim grps_mem)
  obtain b where b: "T = {c. near l' b c}" using assms(2) by (elim grps_mem)
  obtain c where c: "near l a c" "near l' b c" using assms(4) a b by blast
  have "near l' b d" if "near l a d" for d
    using near_trans [OF c(2)] near_mono [OF _ assms(3)] near_partner [OF c(1)] that by blast
  then show ?thesis using a b by blast
qed

text \<open>Two cards are in a common group exactly from the level of their common ancestor on.\<close>

lemma grps_level:
  assumes "(l, S) \<in> set grps" "a \<in> S" "b \<in> S" "a \<noteq> b"
  shows "lev a b \<le> l"
  using assms by (elim grps_mem) (metis mem_Collect_eq near_def near_partner)

text \<open>With at least two cards there is one group of all of them, on the highest level.\<close>

lemma grps_top:
  assumes "2 \<le> n"
  obtains l where "(l, {..<n}) \<in> set grps" "\<And>k S. (k, S) \<in> set grps \<Longrightarrow> k \<le> l"
proof -
  have "(lev 0 1, {c. near (lev 0 1) 0 c}) \<in> set grps" using grps_has [of 0 1] assms by simp
  define l where "l = Max (fst ` set grps)"
  have max: "k \<le> l" if "(k, S) \<in> set grps" for k S
    unfolding l_def using that by (intro Max_ge) force+
  have "fst ` set grps \<noteq> {}" using \<open>_ \<in> set grps\<close> by auto
  then have "l \<in> fst ` set grps" unfolding l_def by (intro Max_in) simp_all
  then obtain S where S: "(l, S) \<in> set grps" by force
  then obtain a where a: "S = {c. near l a c}" "a < n" by (elim grps_mem) auto
  have "near l a c" if "c < n" for c
  proof (cases "a = c")
    case False
    have "lev a c \<le> l" using max [OF grps_has [of a c]] max [OF grps_has [of c a]] a that False sym [of a c]
      by (cases "a < c") auto
    then show ?thesis using that a by (simp add: near_def)
  qed (use that near_refl in auto)
  then have "S = {..<n}" using a by (auto simp: near_def)
  then show thesis using that S max by blast
qed

end

section \<open>Hierarchies of groups\<close>

text \<open>The nodes on the way up from a set of cards. Cards have the addresses below \<open>n\<close>, groups the following ones,
  and the root comes last.\<close>

fun route :: "nat \<Rightarrow> group list \<Rightarrow> nat set \<Rightarrow> int list \<Rightarrow> nat list" where
  "route n gs S [] = []"
| "route n gs S (l # ls) =
     (case groupOf gs l S of
        None \<Rightarrow> route n gs S ls
      | Some j \<Rightarrow> (n + j) # route n gs (snd (gs ! j)) ls)"

lemma route_cons:
  "sorted_wrt (<) ls \<Longrightarrow> route n gs S ls = y # rest \<Longrightarrow>
     \<exists>j < length gs. y = n + j \<and> fst (gs ! j) \<in> set ls \<and> snd (gs ! j) \<inter> S \<noteq> {}
       \<and> rest = route n gs (snd (gs ! j)) (filter (\<lambda>l. fst (gs ! j) < l) ls)"
proof (induction ls)
  case (Cons l ls)
  show ?case
  proof (cases "groupOf gs l S")
    case None
    with Cons.prems have "route n gs S ls = y # rest" by simp
    with Cons.IH Cons.prems(1) obtain j where j: "j < length gs" "y = n + j" "fst (gs ! j) \<in> set ls" "snd (gs ! j) \<inter> S \<noteq> {}"
      "rest = route n gs (snd (gs ! j)) (filter (\<lambda>l. fst (gs ! j) < l) ls)" by auto
    moreover have "\<not> fst (gs ! j) < l" using j(3) Cons.prems(1) by (auto dest: less_asym)
    ultimately show ?thesis by auto
  next
    case (Some j)
    note j = groupOf_Some [OF Some]
    have "filter (\<lambda>k. l < k) (l # ls) = ls" using Cons.prems(1) by (simp add: filter_id_conv)
    with j Some Cons.prems(2) show ?thesis by (intro exI [of _ j]) simp
  qed
qed simp

lemma route_has:
  assumes nested: "\<And>i k. i < length gs \<Longrightarrow> k < length gs \<Longrightarrow> fst (gs ! i) \<le> fst (gs ! k) \<Longrightarrow>
      snd (gs ! i) \<inter> snd (gs ! k) \<noteq> {} \<Longrightarrow> snd (gs ! i) \<subseteq> snd (gs ! k)"
    and unique: "\<And>i k. i < length gs \<Longrightarrow> k < length gs \<Longrightarrow> fst (gs ! i) = fst (gs ! k) \<Longrightarrow>
      snd (gs ! i) \<inter> snd (gs ! k) \<noteq> {} \<Longrightarrow> i = k"
  shows "sorted_wrt (<) ls \<Longrightarrow> j < length gs \<Longrightarrow> fst (gs ! j) \<in> set ls \<Longrightarrow> S \<inter> snd (gs ! j) \<noteq> {} \<Longrightarrow>
    \<forall>i < length gs. fst (gs ! i) \<in> set ls \<longrightarrow> S \<inter> snd (gs ! i) \<noteq> {} \<longrightarrow> S \<subseteq> snd (gs ! i) \<Longrightarrow>
    n + j \<in> set (route n gs S ls)"
proof (induction ls arbitrary: S)
  case (Cons l ls)
  show ?case
  proof (cases "groupOf gs l S")
    case None
    have "fst (gs ! j) \<noteq> l"
    proof
      assume "fst (gs ! j) = l"
      then have "(l, snd (gs ! j)) \<in> set gs" using Cons.prems(2) by (metis nth_mem prod.collapse)
      then have "snd (gs ! j) \<inter> S = {}" using None unfolding groupOf_None by fast
      then show False using Cons.prems(4) by blast
    qed
    then have "n + j \<in> set (route n gs S ls)" using Cons.prems by (intro Cons.IH) simp_all
    then show ?thesis by (simp add: None)
  next
    case (Some i)
    note i = groupOf_Some [OF Some]
    have S: "S \<subseteq> snd (gs ! i)" "S \<subseteq> snd (gs ! j)"
      using Cons.prems(5) [rule_format, of i] Cons.prems(5) [rule_format, of j] Cons.prems(2-4) i by (simp_all add: Int_commute)
    have ij: "snd (gs ! i) \<inter> snd (gs ! j) \<noteq> {}" using S Cons.prems(4) by blast
    show ?thesis
    proof (cases "fst (gs ! j) = l")
      case True
      then have "i = j" using unique [OF _ Cons.prems(2) _ ij] i by simp
      then show ?thesis using Some by simp
    next
      case False
      have "snd (gs ! i) \<subseteq> snd (gs ! k)" if "k < length gs" "fst (gs ! k) \<in> set ls" "snd (gs ! i) \<inter> snd (gs ! k) \<noteq> {}" for k
        using nested [OF _ that(1) _ that(3)] i Cons.prems(1) that(2) by (simp add: less_imp_le)
      then have "n + j \<in> set (route n gs (snd (gs ! i)) ls)"
        using Cons.IH [OF _ Cons.prems(2) _ ij] Cons.prems(1,3) False by simp
      then show ?thesis by (simp add: Some)
    qed
  qed
qed simp

locale hierarchy =
  fixes n :: nat and gs :: "group list"
  assumes pos: "0 < n"
    and gs_ok: "(l, S) \<in> set gs \<Longrightarrow> S \<noteq> {} \<and> S \<subseteq> {..<n} \<and> l \<in> set upLevels"
    and nested: "i < length gs \<Longrightarrow> k < length gs \<Longrightarrow> fst (gs ! i) \<le> fst (gs ! k) \<Longrightarrow>
      snd (gs ! i) \<inter> snd (gs ! k) \<noteq> {} \<Longrightarrow> snd (gs ! i) \<subseteq> snd (gs ! k)"
    and unique: "i < length gs \<Longrightarrow> k < length gs \<Longrightarrow> fst (gs ! i) = fst (gs ! k) \<Longrightarrow>
      snd (gs ! i) \<inter> snd (gs ! k) \<noteq> {} \<Longrightarrow> i = k"
    and top: "2 \<le> n \<Longrightarrow> \<exists>j < length gs. snd (gs ! j) = {..<n} \<and> (\<forall>k < length gs. fst (gs ! k) \<le> fst (gs ! j))"
    and single: "n = 1 \<Longrightarrow> gs = []"
begin

text \<open>The level and the cards of a node, and the address of the root.\<close>

definition desc :: "nat \<Rightarrow> group" where
  "desc x = (if x < n then (0, {x}) else gs ! (x - n))"

definition top_addr :: nat where
  "top_addr = n + length gs"

definition up :: "nat \<Rightarrow> nat list" where
  "up x = route n gs (snd (desc x)) (filter (\<lambda>l. fst (desc x) < l) upLevels) @ [top_addr]"

definition par :: "nat \<Rightarrow> nat" where
  "par x = hd (up x)"

lemma upLevels_sorted: "sorted_wrt (<) upLevels"
  by (simp add: upLevels_def topology_levels levelStep_def upt_rec)

lemma desc_group: "j < length gs \<Longrightarrow> desc (n + j) = gs ! j"
  by (simp add: desc_def)

lemma group_addr: "n \<le> y \<Longrightarrow> y < top_addr \<Longrightarrow> \<exists>j < length gs. y = n + j"
  by (intro exI [of _ "y - n"]) (simp add: top_addr_def)

lemma nth_ok: "j < length gs \<Longrightarrow> snd (gs ! j) \<noteq> {} \<and> snd (gs ! j) \<subseteq> {..<n} \<and> fst (gs ! j) \<in> set upLevels"
  using gs_ok [of "fst (gs ! j)" "snd (gs ! j)"] by simp

lemma group_level: "j < length gs \<Longrightarrow> 0 < fst (gs ! j) \<and> fst (gs ! j) \<le> 50"
  using nth_ok [of j] by (auto simp: upLevels_def topology_levels levelStep_def)

lemma desc_ok: "x < top_addr \<Longrightarrow> snd (desc x) \<noteq> {} \<and> snd (desc x) \<subseteq> {..<n}"
  using nth_ok [of "x - n"] by (auto simp: desc_def top_addr_def)

text \<open>A set of cards that meets a higher group is inside it.\<close>

lemma desc_nested:
  assumes "x < top_addr" "j < length gs" "fst (desc x) \<le> fst (gs ! j)" "snd (desc x) \<inter> snd (gs ! j) \<noteq> {}"
  shows "snd (desc x) \<subseteq> snd (gs ! j)"
  using assms nested [of "x - n" j] by (auto simp: desc_def top_addr_def split: if_splits)

lemma up_cases:
  assumes "x < top_addr"
  obtains (root) "up x = [top_addr]"
  | (step) y where "n \<le> y" "y < top_addr" "up x = y # up y" "fst (desc x) < fst (desc y)" "snd (desc x) \<subseteq> snd (desc y)"
proof (cases "route n gs (snd (desc x)) (filter (\<lambda>l. fst (desc x) < l) upLevels)")
  case Nil
  then show thesis using root by (simp add: up_def)
next
  case (Cons y rest)
  obtain j where j: "j < length gs" "y = n + j" "fst (gs ! j) \<in> set (filter (\<lambda>l. fst (desc x) < l) upLevels)" "snd (gs ! j) \<inter> snd (desc x) \<noteq> {}"
    "rest = route n gs (snd (gs ! j)) (filter (\<lambda>l. fst (gs ! j) < l) (filter (\<lambda>l. fst (desc x) < l) upLevels))"
    using route_cons [OF sorted_wrt_filter [OF upLevels_sorted] Cons] by blast
  then have l: "fst (desc x) < fst (desc y)" by (simp add: desc_group)
  have "filter (\<lambda>l. fst (gs ! j) < l) (filter (\<lambda>l. fst (desc x) < l) upLevels) = filter (\<lambda>l. fst (gs ! j) < l) upLevels"
    using l j by (auto simp: desc_group intro!: filter_cong)
  then have "up x = y # up y" using Cons j by (simp add: up_def desc_group)
  moreover have "snd (desc x) \<subseteq> snd (desc y)" using desc_nested [OF assms j(1)] l j by (auto simp: desc_group)
  ultimately show thesis using step [of y] l j by (simp add: top_addr_def)
qed

lemma up_has:
  assumes "x < top_addr" "j < length gs" "fst (desc x) < fst (gs ! j)" "snd (desc x) \<inter> snd (gs ! j) \<noteq> {}"
  shows "n + j \<in> set (up x)"
proof -
  have "n + j \<in> set (route n gs (snd (desc x)) (filter (\<lambda>l. fst (desc x) < l) upLevels))"
    by (rule route_has) (use nested unique sorted_wrt_filter [OF upLevels_sorted] assms nth_ok desc_nested in \<open>auto simp: less_imp_le\<close>)
  then show ?thesis by (simp add: up_def)
qed

lemma up_suffix:
  assumes "x < top_addr" "y \<in> set (up x)" "y \<noteq> top_addr"
  shows "\<exists>pre. up x = pre @ y # up y \<and> n \<le> y \<and> y < top_addr \<and> fst (desc x) < fst (desc y) \<and> snd (desc x) \<subseteq> snd (desc y)"
  using assms
proof (induction "length (up x)" arbitrary: x rule: less_induct)
  case less
  from less.prems(1) show ?case
  proof (cases rule: up_cases)
    case root
    then show ?thesis using less.prems by simp
  next
    case (step z)
    show ?thesis
    proof (cases "y = z")
      case True
      with step show ?thesis by (intro exI [of _ "[]"]) simp
    next
      case False
      then have "y \<in> set (up z)" using less.prems(2) step(3) by simp
      with less.hyps [of z] step less.prems(3) obtain pre where "up z = pre @ y # up y" "n \<le> y" "y < top_addr"
        "fst (desc z) < fst (desc y)" "snd (desc z) \<subseteq> snd (desc y)" by auto
      with step show ?thesis by (intro exI [of _ "z # pre"]) auto
    qed
  qed
qed

text \<open>The levels grow on the way up.\<close>

lemma up_sorted:
  assumes "x < top_addr"
  shows "sorted_wrt (\<lambda>p q. q = top_addr \<or> p \<noteq> top_addr \<and> fst (desc p) < fst (desc q)) (up x)"
  using assms
proof (induction "length (up x)" arbitrary: x rule: less_induct)
  case less
  from less.prems show ?case
  proof (cases rule: up_cases)
    case root
    then show ?thesis by simp
  next
    case (step y)
    moreover have "q = top_addr \<or> y \<noteq> top_addr \<and> fst (desc y) < fst (desc q)" if "q \<in> set (up y)" for q
      using up_suffix [OF step(2) that] step(2) by auto
    ultimately show ?thesis using less.hyps [of y] by simp
  qed
qed

lemma up_not_Nil [simp]: "up x \<noteq> []"
  by (simp add: up_def)

lemma par_props:
  assumes "x < top_addr"
  shows "par x \<noteq> x" "par x \<le> top_addr" "n \<le> par x" "par x = top_addr \<longleftrightarrow> up x = [top_addr]"
proof -
  have "par x \<noteq> x \<and> par x \<le> top_addr \<and> n \<le> par x \<and> (par x = top_addr \<longleftrightarrow> up x = [top_addr])"
    using assms
  proof (cases rule: up_cases)
    case root
    then show ?thesis using assms by (simp add: par_def top_addr_def)
  next
    case (step y)
    then show ?thesis by (auto simp: par_def)
  qed
  then show "par x \<noteq> x" "par x \<le> top_addr" "n \<le> par x" "par x = top_addr \<longleftrightarrow> up x = [top_addr]" by auto
qed

text \<open>Exactly one node has the root as its parent; it stands for all cards.\<close>

lemma top_node: "\<exists>tp < top_addr. snd (desc tp) = {..<n} \<and> (\<forall>x < top_addr. up x = [top_addr] \<longleftrightarrow> x = tp)"
proof (cases "n = 1")
  case True
  then have gs: "gs = []" by (rule single)
  then have "route n gs S ls = []" for S ls by (induction ls) (simp_all add: groupOf_def)
  then have "up x = [top_addr]" "top_addr = 1" "desc 0 = (0, {0})" for x
    using True gs unfolding up_def top_addr_def desc_def by simp_all
  then show ?thesis using True by (intro exI [of _ 0]) auto
next
  case False
  then obtain j where j: "j < length gs" "snd (gs ! j) = {..<n}" "\<And>k. k < length gs \<Longrightarrow> fst (gs ! k) \<le> fst (gs ! j)"
    using top pos by fastforce
  have tp: "n + j < top_addr" using j(1) by (simp add: top_addr_def)
  have root: "up (n + j) = [top_addr]"
    using tp
  proof (cases rule: up_cases)
    case (step y)
    then obtain k where "k < length gs" "y = n + k" using group_addr by blast
    then show ?thesis using j(3) [of k] step(4) by (simp add: desc_group j(1))
  qed
  have only: "x = n + j" if x: "x < top_addr" "up x = [top_addr]" for x
  proof -
    have meets: "snd (desc x) \<inter> snd (gs ! j) \<noteq> {}" using desc_ok [OF x(1)] j(2) by auto
    have lvl: "\<not> fst (desc x) < fst (gs ! j)" using up_has [OF x(1) j(1) _ meets] x(2) tp by auto
    have "n \<le> x" using group_level [OF j(1)] lvl by (auto simp: desc_def split: if_splits)
    then obtain k where k: "k < length gs" "x = n + k" using group_addr x(1) by blast
    then have "fst (gs ! k) = fst (gs ! j)" using j(3) [OF k(1)] lvl by (simp add: desc_group)
    moreover have "snd (gs ! k) \<inter> snd (gs ! j) \<noteq> {}" using meets k by (simp add: desc_group)
    ultimately show ?thesis using unique [OF k(1) j(1)] k(2) by simp
  qed
  have "snd (desc (n + j)) = {..<n}" using j(1,2) by (simp add: desc_group)
  moreover have "\<forall>x < top_addr. up x = [top_addr] \<longleftrightarrow> x = n + j" using only root by blast
  ultimately show ?thesis using tp by blast
qed

text \<open>Every other node is passed on the way up from some card.\<close>

lemma passed:
  assumes "x < top_addr" "up x \<noteq> [top_addr]"
  shows "\<exists>i < n. x \<in> set (butlast (i # butlast (up i)))"
proof (cases "x < n")
  case True
  with assms obtain y where "up x = y # up y" by (cases rule: up_cases) auto
  with True show ?thesis by (intro exI [of _ x]) simp
next
  case False
  then obtain j where j: "j < length gs" "x = n + j" using group_addr [of x] assms(1) by auto
  then obtain i where i: "i \<in> snd (gs ! j)" "i < n" using nth_ok [OF j(1)] by fastforce
  have "x \<in> set (up i)" using group_level [OF j(1)] up_has [of i j] i j by (simp add: desc_def top_addr_def)
  then obtain pre where pre: "up i = pre @ x # up x" using up_suffix [of i x] i assms(1) by (auto simp: top_addr_def)
  obtain y where "up x = y # up y" using assms by (cases rule: up_cases) auto
  then have "butlast (i # butlast (up i)) = i # pre @ x # butlast (butlast (up x)) \<or> x \<in> set (butlast (i # butlast (up i)))"
    using pre by (simp add: butlast_append)
  then show ?thesis using i(2) by (intro exI [of _ i]) auto
qed

end

text \<open>Levels of the topology, between five steps, form such a hierarchy.\<close>

locale machine_levels = levels +
  assumes some: "0 < n"
    and known: "a < b \<Longrightarrow> b < n \<Longrightarrow> lev a b \<in> set upLevels"

sublocale machine_levels \<subseteq> hierarchy n grps
proof
  show "0 < n" by (rule some)
  show "S \<noteq> {} \<and> S \<subseteq> {..<n} \<and> l \<in> set upLevels" if "(l, S) \<in> set grps" for l S
    using grps_nonempty [OF that] grps_mem [OF that] known by metis
  show "snd (grps ! i) \<subseteq> snd (grps ! k)" if "i < length grps" "k < length grps" "fst (grps ! i) \<le> fst (grps ! k)"
    "snd (grps ! i) \<inter> snd (grps ! k) \<noteq> {}" for i k
    using grps_nested [of "fst (grps ! i)" "snd (grps ! i)" "fst (grps ! k)" "snd (grps ! k)"] that by simp
  show "i = k" if "i < length grps" "k < length grps" "fst (grps ! i) = fst (grps ! k)" "snd (grps ! i) \<inter> snd (grps ! k) \<noteq> {}" for i k
    using grps_unique that by blast
  show "\<exists>j < length grps. snd (grps ! j) = {..<n} \<and> (\<forall>k < length grps. fst (grps ! k) \<le> fst (grps ! j))" if "2 \<le> n"
    using grps_top [OF that] by (metis in_set_conv_nth nth_mem prod.collapse prod.sel(1) prod.sel(2))
  show "grps = []" if one: "n = 1"
  proof -
    have "cardPairs n = []" unfolding one by (simp add: cardPairs_def)
    then show ?thesis by (simp add: grps_def)
  qed
qed

end
