(* ===== verification/Tree_Init.thy ===== *)
theory Tree_Init
  imports Topology Tree_Theorems
begin

text \<open>
  \<^verbatim>\<open>Init\<close> on a machine whose cards form a hierarchy: the tree it builds is well-formed, all cards are free in
  it, and the lowest common ancestor of two cards is a node of their topology level. The groups of \<open>Topology\<close>
  are the inner nodes of the heap, in the order in which \<^verbatim>\<open>join\<close> creates them.
\<close>

section \<open>Masks as sets\<close>

definition setMask :: "nat set \<Rightarrow> 32 word" where
  "setMask S = horner_sum of_bool 2 (map (\<lambda>i. i \<in> S) [0..<32])"

lemma bit_setMask [simp]: "bit (setMask S) i \<longleftrightarrow> i < 32 \<and> i \<in> S"
  by (auto simp: setMask_def bit_horner_sum_bit_iff)

lemma setMask_or: "setMask S OR setMask T = setMask (S \<union> T)"
  by (rule bit_word_eqI) (auto simp: bit_or_iff)

lemma setMask_meets: "S \<subseteq> {..<32} \<Longrightarrow> setMask S AND setMask T \<noteq> 0 \<longleftrightarrow> S \<inter> T \<noteq> {}"
proof
  assume s: "S \<subseteq> {..<32}" and "S \<inter> T \<noteq> {}"
  then obtain i where "i \<in> S" "i \<in> T" "i < 32" by auto
  then have "bit (setMask S AND setMask T) i" by (simp add: bit_and_iff)
  then show "setMask S AND setMask T \<noteq> 0" by auto
next
  assume "setMask S AND setMask T \<noteq> 0"
  then obtain i where "bit (setMask S AND setMask T) i" using bit_eq_iff [of "setMask S AND setMask T" 0] by auto
  then show "S \<inter> T \<noteq> {}" by (auto simp: bit_and_iff)
qed

lemma setMask_single: "i < 32 \<Longrightarrow> push_bit i 1 = setMask {i}"
  by (rule bit_word_eqI) (auto simp: bit_exp_iff possible_bit_word)

lemma setMask_empty [simp]: "setMask {} = 0"
  by (rule bit_word_eqI) simp

section \<open>Leaves\<close>

definition cardNode :: "nvml \<Rightarrow> nat \<Rightarrow> NvidiaNode" where
  "cardNode nv i =
     (let d = int i; mem = fst (nvMemoryTotal nv d)
      in (freshNode d)\<lparr>ntype := TOPOLOGY_INTERNAL, Mask := push_bit i 1,
           AllocatableMeta := \<lparr>Cores = HundredCore, Memory = i64 mem\<rparr>,
           Meta := zeroMeta\<lparr>ID := d, TotalMemory := mem, BusId := B2S (fst (nvPciBusId nv d)),
             MinorID := fst (nvMinorNumber nv d), UUID := fst (nvUUID nv d), DevName := fst (nvName nv d)\<rparr>\<rparr>)"

definition cardTree :: "nvml \<Rightarrow> int \<Rightarrow> nat \<Rightarrow> NvidiaTree" where
  "cardTree nv p n = (newNvidiaTree (Some p) (int n))
     \<lparr>heap := map (cardNode nv) [0..<n], leaves := [0..<n],
      query := map (\<lambda>i. (MinorName (cardNode nv i), i)) [0..<n]\<rparr>"

lemma update_fresh_key: "k \<notin> fst ` set m \<Longrightarrow> AList.update k v m = m @ [(k, v)]"
  by (induction m) auto

lemma libraryLeaf_step:
  assumes "distinct (map (\<lambda>i. fst (nvMinorNumber nv (int i))) [0..<n])" "k < n"
    and "t = (newNvidiaTree (Some p) (int k))\<lparr>heap := map (cardNode nv) [0..<k], leaves := [0..<k] @ replicate (n - k) 0,
      query := map (\<lambda>i. (MinorName (cardNode nv i), i)) [0..<k]\<rparr>"
  shows "libraryLeaf nv t k = (newNvidiaTree (Some p) (int (Suc k)))\<lparr>heap := map (cardNode nv) [0..<Suc k],
      leaves := [0..<Suc k] @ replicate (n - Suc k) 0, query := map (\<lambda>i. (MinorName (cardNode nv i), i)) [0..<Suc k]\<rparr>"
proof -
  have rep: "([0..<k] @ replicate (n - k) 0)[k := k] = [0..<Suc k] @ replicate (n - Suc k) 0"
    using assms(2) by (simp add: list_update_append Suc_diff_Suc [symmetric])
  have mn: "MinorName (cardNode nv i) = minorPath (fst (nvMinorNumber nv (int i)))" for i
    by (simp add: MinorName_def cardNode_def Let_def)
  have inj: "inj_on (\<lambda>i. fst (nvMinorNumber nv (int i))) {0..<n}" using assms(1) by (simp add: distinct_map)
  have "\<forall>i < k. fst (nvMinorNumber nv (int k)) \<noteq> fst (nvMinorNumber nv (int i))"
    using inj_onD [OF inj, of k] assms(2) by fastforce
  then have "MinorName (cardNode nv k) \<notin> fst ` set (map (\<lambda>i. (MinorName (cardNode nv i), i)) [0..<k])"
    unfolding mn by auto
  note up = update_fresh_key [OF this, of k]
  have "libraryLeaf nv t k = addNode (t\<lparr>heap := heap t @ [cardNode nv k], nodeIndex := nodeIndex t + 1\<rparr>) k"
    by (simp add: libraryLeaf_def assms(3) allocateNode_def NewNvidiaNode_def updNode_def Let_def newNvidiaTree_def
        cardNode_def freshNode_def nth_append list_update_append)
  moreover have "nat (ID (Meta (cardNode nv k))) = k" by (simp add: cardNode_def Let_def)
  ultimately show ?thesis
    by (simp add: addNode_def assms(3) newNvidiaTree_def nth_append up rep [simplified])
qed

lemma libraryLeaves:
  assumes "distinct (map (\<lambda>i. fst (nvMinorNumber nv (int i))) [0..<n])"
  shows "foldl (libraryLeaf nv) ((newNvidiaTree (Some p) 0)\<lparr>leaves := replicate n 0\<rparr>) [0..<n] = cardTree nv p n"
proof -
  have "foldl (libraryLeaf nv) ((newNvidiaTree (Some p) 0)\<lparr>leaves := replicate n 0\<rparr>) [0..<k]
      = (newNvidiaTree (Some p) (int k))\<lparr>heap := map (cardNode nv) [0..<k], leaves := [0..<k] @ replicate (n - k) 0,
          query := map (\<lambda>i. (MinorName (cardNode nv i), i)) [0..<k]\<rparr>" if "k \<le> n" for k
    using that
  proof (induction k)
    case 0
    then show ?case by (simp add: newNvidiaTree_def)
  next
    case (Suc k)
    then show ?case using libraryLeaf_step [OF assms, of k _ p] by simp
  qed
  from this [of n] show ?thesis by (simp add: cardTree_def)
qed

section \<open>Joining\<close>

definition innerNode :: "nat \<Rightarrow> group \<Rightarrow> NvidiaNode" where
  "innerNode a g = (freshNode (int a))\<lparr>Mask := setMask (snd g), ntype := fst g\<rparr>"

definition groupTree :: "NvidiaTree \<Rightarrow> group list \<Rightarrow> NvidiaTree" where
  "groupTree t0 gs = t0
     \<lparr>heap := heap t0 @ map (\<lambda>j. innerNode (length (heap t0) + j) (gs ! j)) [0..<length gs],
      nodeIndex := nodeIndex t0 + int (length gs)\<rparr>"

definition levels_rep :: "nat \<Rightarrow> LevelMap \<Rightarrow> group list \<Rightarrow> bool" where
  "levels_rep n nodes gs \<longleftrightarrow> (\<forall>l. levelNodes nodes l = map ((+) n) (filter (\<lambda>j. fst (gs ! j) = l) [0..<length gs]))"

text \<open>The tree before the joins: the cards, each with its own bit.\<close>

definition cards_only :: "NvidiaTree \<Rightarrow> nat \<Rightarrow> bool" where
  "cards_only t n \<longleftrightarrow> n \<le> 32 \<and> length (heap t) = n \<and> leaves t = [0..<n] \<and> nodeIndex t = int n
     \<and> (\<forall>i < n. Mask (nodeAt t i) = setMask {i} \<and> ntype (nodeAt t i) = 0 \<and> ID (Meta (nodeAt t i)) = int i
          \<and> Parent (nodeAt t i) = None \<and> Children (nodeAt t i) = [] \<and> vchildren (nodeAt t i) = [])"

lemma find_map_filter: "find P (map f (filter Q xs)) = map_option f (find (\<lambda>x. Q x \<and> P (f x)) xs)"
  by (induction xs) auto

lemma find_cong_set: "(\<And>x. x \<in> set xs \<Longrightarrow> P x = Q x) \<Longrightarrow> find P xs = find Q xs"
  by (induction xs) auto

lemma nodeAt_groupTree: "j < length gs \<Longrightarrow> length (heap t0) = n \<Longrightarrow> nodeAt (groupTree t0 gs) (n + j) = innerNode (n + j) (gs ! j)"
  by (simp add: groupTree_def nth_append)

lemma nodeAt_groupTree_card: "i < length (heap t0) \<Longrightarrow> nodeAt (groupTree t0 gs) i = nodeAt t0 i"
  by (simp add: groupTree_def nth_append)

text \<open>The search of \<^verbatim>\<open>join\<close> and \<^verbatim>\<open>buildTree\<close> on a level finds the group that shares a card.\<close>

lemma find_level:
  assumes "levels_rep n nodes gs" "length (heap t0) = n" "\<forall>j < length gs. snd (gs ! j) \<subseteq> {..<32}"
    and "\<And>x. x < n + length gs \<Longrightarrow> Mask (nodeAt t x) = Mask (nodeAt (groupTree t0 gs) x)"
  shows "find (\<lambda>u. Mask (nodeAt t u) AND setMask S \<noteq> 0) (levelNodes nodes l) = map_option ((+) n) (groupOf gs l S)"
proof -
  have "find (\<lambda>u. Mask (nodeAt t u) AND setMask S \<noteq> 0) (levelNodes nodes l)
      = map_option ((+) n) (find (\<lambda>j. fst (gs ! j) = l \<and> Mask (nodeAt t (n + j)) AND setMask S \<noteq> 0) [0..<length gs])"
    using assms(1) by (simp add: levels_rep_def find_map_filter)
  also have "find (\<lambda>j. fst (gs ! j) = l \<and> Mask (nodeAt t (n + j)) AND setMask S \<noteq> 0) [0..<length gs] = groupOf gs l S"
    unfolding groupOf_def
  proof (rule find_cong_set)
    fix j assume "j \<in> set [0..<length gs]"
    then have j: "j < length gs" by simp
    have "Mask (nodeAt t (n + j)) = setMask (snd (gs ! j))"
      using assms(4) [of "n + j"] j nodeAt_groupTree [OF j assms(2)] by (simp add: innerNode_def)
    then show "(fst (gs ! j) = l \<and> Mask (nodeAt t (n + j)) AND setMask S \<noteq> 0) = (fst (gs ! j) = l \<and> snd (gs ! j) \<inter> S \<noteq> {})"
      using setMask_meets assms(3) j by simp
  qed
  finally show ?thesis .
qed

lemma joinInto_group:
  assumes "cards_only t0 n" "levels_rep n nodes gs" "\<forall>j < length gs. snd (gs ! j) \<subseteq> {..<n}" "a < n" "b < n"
  shows "\<exists>nodes'. joinInto (groupTree t0 gs, nodes) l a b = Inr (groupTree t0 (joinG gs l a b), nodes')
    \<and> levels_rep n nodes' (joinG gs l a b)"
proof -
  let ?t = "groupTree t0 gs"
  have c: "n \<le> 32" "length (heap t0) = n" "leaves ?t = [0..<n]" "nodeIndex t0 = int n" "\<And>i. i < n \<Longrightarrow> Mask (nodeAt ?t i) = setMask {i}"
    using assms(1) by (simp_all add: cards_only_def groupTree_def nth_append)
  have sub: "\<forall>j < length gs. snd (gs ! j) \<subseteq> {..<32}" using assms(3) c(1) by fastforce
  have mask: "Mask (nodeAt ?t (leaves ?t ! a)) OR Mask (nodeAt ?t (leaves ?t ! b)) = setMask {a, b}"
    using assms(4,5) c by (simp add: setMask_or insert_commute)
  note f = find_level [OF assms(2) c(2) sub refl, of "{a, b}" l]
  show ?thesis
  proof (cases "groupOf gs l {a, b}")
    case None
    have "join ?t nodes l a b = Inr (groupTree t0 (gs @ [(l, {a, b})]), Some (n + length gs))"
      using f None mask assms(4,5) c unfolding join_def
      by (simp add: Let_def NewNvidiaNode_def updNode_def groupTree_def innerNode_def freshNode_def list_update_append nth_append cong: map_cong)
    moreover have "levels_rep n (AList.update l (levelNodes nodes l @ [n + length gs]) nodes) (gs @ [(l, {a, b})])"
      using assms(2) by (auto simp: levels_rep_def levelNodes_def update_conv' nth_append intro!: filter_cong)
    ultimately show ?thesis by (simp add: joinInto_def joinG_def None)
  next
    case (Some j)
    note j = groupOf_Some [OF Some]
    let ?gs = "gs[j := (l, snd (gs ! j) \<union> {a, b})]"
    have "heap (updNode ?t (n + j) (\<lambda>x. x\<lparr>Mask := Mask x OR setMask {a, b}\<rparr>)) = heap (groupTree t0 ?gs)"
      by (rule nth_equalityI)
        (use j c in \<open>auto simp: groupTree_def nth_append nth_list_update innerNode_def setMask_or\<close>)
    then have "updNode ?t (n + j) (\<lambda>x. x\<lparr>Mask := Mask x OR setMask {a, b}\<rparr>) = groupTree t0 ?gs"
      by (simp add: groupTree_def updNode_def)
    then have "join ?t nodes l a b = Inr (groupTree t0 ?gs, None)"
      using f Some mask assms(4,5) c unfolding join_def by (simp add: Let_def)
    moreover have "levels_rep n nodes ?gs"
      using assms(2) j by (auto simp: levels_rep_def nth_list_update cong: filter_cong)
    ultimately show ?thesis by (simp add: joinInto_def joinG_def Some)
  qed
qed

lemma joinG_sub:
  assumes "\<forall>j < length gs. snd (gs ! j) \<subseteq> {..<n}" "a < n" "b < n"
  shows "\<forall>j < length (joinG gs l a b). snd (joinG gs l a b ! j) \<subseteq> {..<n}"
proof (cases "groupOf gs l {a, b}")
  case None
  then show ?thesis using assms by (auto simp: joinG_def nth_append less_Suc_eq)
next
  case (Some i)
  then have "i < length gs" "snd (gs ! i) \<subseteq> {..<n}" using groupOf_Some assms(1) by blast+
  then show ?thesis using assms Some by (simp add: joinG_def nth_list_update)
qed

text \<open>The level of two cards as \<^verbatim>\<open>parseFromLibrary\<close> reads it.\<close>

definition cardLevel :: "nvml \<Rightarrow> nat \<Rightarrow> nat \<Rightarrow> int" where
  "cardLevel nv a b =
     (let ty = fst (nvTopologyCommonAncestor nv (int a) (int b))
      in if 0 < fst (nvMultiGpuBoard nv (int a)) \<and> ty = TOPOLOGY_INTERNAL then TOPOLOGY_SINGLE else ty)"

lemma joinPairs_groups:
  assumes "cards_only t0 n"
  shows "levels_rep n nodes gs \<Longrightarrow> \<forall>j < length gs. snd (gs ! j) \<subseteq> {..<n}
    \<Longrightarrow> list_all (\<lambda>(a, b). a < n \<and> b < n \<and> snd (nvTopologyCommonAncestor nv (int a) (int b)) = NVML_SUCCESS
          \<and> snd (nvMultiGpuBoard nv (int a)) = NVML_SUCCESS) ps
    \<Longrightarrow> \<exists>nodes'. joinPairs nv (groupTree t0 gs, nodes) ps = Inr ((groupTree t0 (joinAll (cardLevel nv) gs ps), nodes'), None)
      \<and> levels_rep n nodes' (joinAll (cardLevel nv) gs ps)"
proof (induction ps arbitrary: nodes gs)
  case Nil
  then show ?case by auto
next
  case (Cons p ps)
  obtain a b where p: "p = (a, b)" by fastforce
  with Cons.prems have ab: "a < n" "b < n" "snd (nvTopologyCommonAncestor nv (int a) (int b)) = NVML_SUCCESS"
    "snd (nvMultiGpuBoard nv (int a)) = NVML_SUCCESS" by simp_all
  let ?gs = "joinG gs (cardLevel nv a b) a b"
  obtain nodes1 where j: "joinInto (groupTree t0 gs, nodes) (cardLevel nv a b) a b = Inr (groupTree t0 ?gs, nodes1)"
    "levels_rep n nodes1 ?gs" using joinInto_group [OF assms Cons.prems(1,2) ab(1,2)] by blast
  have "joinPairs nv (groupTree t0 gs, nodes) ((a, b) # ps) = joinPairs nv (groupTree t0 ?gs, nodes1) ps"
    using ab j(1) by (simp add: case_prod_unfold Let_def cardLevel_def split del: if_split)
  moreover have "joinAll (cardLevel nv) gs (p # ps) = joinAll (cardLevel nv) ?gs ps" by (simp add: joinAll_def p)
  ultimately show ?case
    using Cons.IH [OF j(2) joinG_sub [OF Cons.prems(2) ab(1,2)]] Cons.prems(3) p by simp
qed

section \<open>Linking\<close>

text \<open>What a tree is whose nodes got their parents from the function \<open>p\<close>, for the nodes in \<open>X\<close>.\<close>

definition linked :: "NvidiaNode list \<Rightarrow> (nat \<Rightarrow> nat) \<Rightarrow> nat set \<Rightarrow> NvidiaNode list \<Rightarrow> bool" where
  "linked B p X h \<longleftrightarrow> length h = length B \<and> (\<forall>x < length B.
     Meta (h ! x) = Meta (B ! x) \<and> AllocatableMeta (h ! x) = AllocatableMeta (B ! x) \<and> Mask (h ! x) = Mask (B ! x)
     \<and> ntype (h ! x) = ntype (B ! x) \<and> Children (h ! x) = Children (B ! x)
     \<and> Parent (h ! x) = (if x \<in> X then Some (p x) else None)
     \<and> gomap_ok (vchildren (h ! x))
     \<and> (\<forall>k v. map_of (vchildren (h ! x)) k = Some v \<longleftrightarrow> v \<in> X \<and> k = int v \<and> p v = x))"

definition only_heap :: "NvidiaTree \<Rightarrow> NvidiaTree \<Rightarrow> bool" where
  "only_heap t t' \<longleftrightarrow> t' = t\<lparr>heap := heap t'\<rparr>"

lemma only_heap_trans: "only_heap t t' \<Longrightarrow> only_heap t' t'' \<Longrightarrow> only_heap t t''"
  unfolding only_heap_def by (cases t; cases t'; cases t'') simp

lemma only_heap_refl [simp]: "only_heap t t"
  by (simp add: only_heap_def)

lemma only_heap_updNode [simp]: "only_heap t (updNode t a f)"
  by (simp add: only_heap_def updNode_def)

lemma only_heap_setParent [simp]: "only_heap t (setParent t x y)"
  by (simp add: setParent_def Let_def only_heap_def updNode_def)

lemma linked_setParent:
  assumes "linked B p X (heap t)" "x < length B" "p x < length B" "p x \<noteq> x" "ID (Meta (B ! x)) = int x"
  shows "linked B p (insert x X) (heap (setParent t x (p x)))"
proof -
  have len: "length (heap t) = length B" using assms(1) by (simp add: linked_def)
  have h: "heap (setParent t x (p x)) ! y =
      (if y = x then (nodeAt t x)\<lparr>Parent := Some (p x)\<rparr>
       else if y = p x then (nodeAt t y)\<lparr>vchildren := AList.update (int x) x (vchildren (nodeAt t y))\<rparr>
       else nodeAt t y)" if "y < length B" for y
    using that assms(2-5) len assms(1) by (auto simp: setParent_def Let_def nth_list_update linked_def)
  have v: "(map_of (AList.update (int x) x m) k = Some v) = (v \<in> insert x X \<and> k = int v \<and> p v = p x)"
    if "\<forall>k v. (map_of m k = Some v) = (v \<in> X \<and> k = int v \<and> p v = p x)" for m k v
    using that by (auto simp: update_conv')
  show ?thesis
    unfolding linked_def
  proof (intro conjI allI impI)
    show "length (heap (setParent t x (p x))) = length B" by (simp add: setParent_def Let_def len)
  next
    fix y assume y: "y < length B"
    note l = assms(1) [unfolded linked_def, THEN conjunct2, rule_format, OF y]
    show "Meta (heap (setParent t x (p x)) ! y) = Meta (B ! y)" "AllocatableMeta (heap (setParent t x (p x)) ! y) = AllocatableMeta (B ! y)"
      "Mask (heap (setParent t x (p x)) ! y) = Mask (B ! y)" "ntype (heap (setParent t x (p x)) ! y) = ntype (B ! y)"
      "Children (heap (setParent t x (p x)) ! y) = Children (B ! y)" "gomap_ok (vchildren (heap (setParent t x (p x)) ! y))"
      "Parent (heap (setParent t x (p x)) ! y) = (if y \<in> insert x X then Some (p y) else None)"
      using l h [OF y] by (auto simp: gomap_ok_def distinct_update)
    fix k w
    show "(map_of (vchildren (heap (setParent t x (p x)) ! y)) k = Some w) = (w \<in> insert x X \<and> k = int w \<and> p w = y)"
      using l h [OF y] v [of "vchildren (nodeAt t y)"] assms(4) by auto
  qed
qed

lemma linked_groupTree:
  assumes "cards_only t0 n"
  shows "linked (heap (groupTree t0 gs)) p {} (heap (groupTree t0 gs))"
proof -
  have "Parent (nodeAt (groupTree t0 gs) x) = None \<and> vchildren (nodeAt (groupTree t0 gs) x) = []"
    if "x < length (heap (groupTree t0 gs))" for x
  proof (cases "x < n")
    case True
    then show ?thesis using assms by (simp add: cards_only_def nodeAt_groupTree_card)
  next
    case False
    moreover have "x < n + length gs" using that assms by (simp add: groupTree_def cards_only_def)
    ultimately have "x = n + (x - n)" "x - n < length gs" by simp_all
    then obtain j where "x = n + j" "j < length gs" by blast
    then show ?thesis using nodeAt_groupTree [of j gs t0 n] assms by (simp add: cards_only_def innerNode_def freshNode_def)
  qed
  then show ?thesis by (simp add: linked_def)
qed

lemma walkUp_inv: "Q t \<Longrightarrow> (\<And>t p. Q t \<Longrightarrow> Q (body t p)) \<Longrightarrow> Q (walkUp body k t q)"
  by (induction body k t q rule: walkUp.induct) (simp_all add: Let_def)

text \<open>Filling in the children changes nothing else.\<close>

definition filled :: "(int list \<Rightarrow> int list) \<Rightarrow> NvidiaTree \<Rightarrow> NvidiaTree \<Rightarrow> bool" where
  "filled ord t t' \<longleftrightarrow> only_heap t t' \<and> length (heap t') = length (heap t)
     \<and> (\<forall>x < length (heap t). \<exists>cs. nodeAt t' x = (nodeAt t x)\<lparr>Children := cs\<rparr>
          \<and> (cs = Children (nodeAt t x) \<or> cs = map snd (gorange ord (vchildren (nodeAt t x)))))"

lemma filled_refl: "filled ord t t"
proof -
  have "\<exists>cs. x = x\<lparr>Children := cs\<rparr> \<and> (cs = Children x \<or> cs = map snd (gorange ord (vchildren x)))" for x :: NvidiaNode
    by (rule exI [of _ "Children x"]) simp
  then show ?thesis by (simp add: filled_def)
qed

lemma filled_step:
  assumes "filled ord t t'"
  shows "filled ord t (fillChildren ord t' c)"
proof (cases "Children (nodeAt t' c) = [] \<and> c < length (heap t)")
  case True
  have h: "heap (fillChildren ord t' c) ! x
      = (if x = c then (nodeAt t' c)\<lparr>Children := map snd (gorange ord (vchildren (nodeAt t' c)))\<rparr> else nodeAt t' x)"
    if "x < length (heap t)" for x
    using True that assms by (simp add: fillChildren_def filled_def)
  have "vchildren (nodeAt t' c) = vchildren (nodeAt t c)" "\<exists>cs. nodeAt t' c = (nodeAt t c)\<lparr>Children := cs\<rparr>"
    using True assms by (auto simp: filled_def)
  then have "\<exists>cs. heap (fillChildren ord t' c) ! x = (nodeAt t x)\<lparr>Children := cs\<rparr>
      \<and> (cs = Children (nodeAt t x) \<or> cs = map snd (gorange ord (vchildren (nodeAt t x))))" if "x < length (heap t)" for x
    using h [OF that] assms that by (auto simp: filled_def)
  moreover have "only_heap t (fillChildren ord t' c)" "length (heap (fillChildren ord t' c)) = length (heap t)"
    using assms only_heap_trans [of t t'] by (simp_all add: fillChildren_def filled_def)
  ultimately show ?thesis by (simp add: filled_def)
next
  case False
  then have "heap (fillChildren ord t' c) = heap t'"
    using assms by (cases "Children (nodeAt t' c) = []") (simp_all add: fillChildren_def filled_def list_update_beyond)
  moreover have "only_heap t' (fillChildren ord t' c)" by (simp add: fillChildren_def)
  ultimately have "fillChildren ord t' c = t'" by (simp add: only_heap_def)
  then show ?thesis using assms by simp
qed

lemma filled_all:
  "filled ord t (foldl (\<lambda>t n. walkUp (fillChildren ord) (length (heap t)) t (Parent (nodeAt t n))) t xs)"
proof (induction xs rule: rev_induct)
  case Nil
  then show ?case by (simp add: filled_refl)
next
  case (snoc x xs)
  then show ?case by (simp add: walkUp_inv [where Q = "filled ord t"] filled_step)
qed

lemma filter_single:
  assumes "j < m" "P j" "\<And>k. k < m \<Longrightarrow> P k \<Longrightarrow> k = j"
  shows "filter P [0..<m] = [j]"
proof -
  have "P k = (k = j)" if "k \<in> set [0..<m]" for k using assms(2) assms(3) [of k] that by auto
  then have "filter P [0..<m] = filter (\<lambda>k. k = j) [0..<m]" by (rule filter_cong [OF refl])
  also have "filter (\<lambda>k. k = j) [0..<m] = [j]" using assms(1) by (induction m) (auto simp: less_Suc_eq)
  finally show ?thesis .
qed

lemma find_append_skip: "\<forall>q \<in> set pre. \<not> P q \<Longrightarrow> P y \<Longrightarrow> find P (pre @ y # r) = Some y"
  by (induction pre) auto

lemma find_descending: "sorted_wrt (>) xs \<Longrightarrow> l \<in> set xs \<Longrightarrow> P l \<Longrightarrow> (\<And>k. P k \<Longrightarrow> k \<le> l) \<Longrightarrow> find P xs = Some (l :: int)"
  by (induction xs) force+

context hierarchy
begin

lemma base_facts:
  assumes "cards_only t0 n"
  shows "length (heap (groupTree t0 gs)) = top_addr" "nodeIndex (groupTree t0 gs) = int top_addr"
    and "x < top_addr \<Longrightarrow> Mask (nodeAt (groupTree t0 gs) x) = setMask (snd (desc x)) \<and> ntype (nodeAt (groupTree t0 gs) x) = fst (desc x)
      \<and> ID (Meta (nodeAt (groupTree t0 gs) x)) = int x \<and> Children (nodeAt (groupTree t0 gs) x) = []"
proof -
  have c: "length (heap t0) = n" "nodeIndex t0 = int n" using assms by (simp_all add: cards_only_def)
  then show l: "length (heap (groupTree t0 gs)) = top_addr" "nodeIndex (groupTree t0 gs) = int top_addr"
    by (simp_all add: groupTree_def top_addr_def)
  show "Mask (nodeAt (groupTree t0 gs) x) = setMask (snd (desc x)) \<and> ntype (nodeAt (groupTree t0 gs) x) = fst (desc x)
      \<and> ID (Meta (nodeAt (groupTree t0 gs) x)) = int x \<and> Children (nodeAt (groupTree t0 gs) x) = []" if x: "x < top_addr"
  proof (cases "x < n")
    case True
    then show ?thesis using assms c by (simp add: nodeAt_groupTree_card cards_only_def desc_def)
  next
    case False
    then obtain j where "j < length gs" "x = n + j" using group_addr [of x] x by auto
    then show ?thesis using nodeAt_groupTree [of j gs t0 n] c by (simp add: desc_group innerNode_def freshNode_def)
  qed
qed

lemma connect_fold:
  assumes "cards_only t0 n" "levels_rep n nodes gs"
  shows "linked (heap (groupTree t0 gs)) par X (heap t) \<Longrightarrow> \<forall>x \<in> X. par x \<noteq> top_addr \<Longrightarrow> self < top_addr \<Longrightarrow>
    up self = route n gs (snd (desc self)) ls @ [top_addr] \<Longrightarrow>
    \<exists>t' last X'. foldl (connectLevel nodes) (t, self) ls = (t', last) \<and> only_heap t t'
      \<and> X' = X \<union> set (butlast (self # route n gs (snd (desc self)) ls))
      \<and> linked (heap (groupTree t0 gs)) par X' (heap t') \<and> (\<forall>x \<in> X'. par x \<noteq> top_addr)"
proof (induction ls arbitrary: t self X)
  case Nil
  then show ?case by simp
next
  case (Cons l ls)
  note b = base_facts [OF assms(1)]
  have masks: "Mask (nodeAt t x) = Mask (nodeAt (groupTree t0 gs) x)" if "x < n + length gs" for x
    using Cons.prems(1) b(1) that by (simp add: linked_def top_addr_def)
  have "\<forall>j < length gs. snd (gs ! j) \<subseteq> {..<32}" using nth_ok assms(1) by (fastforce simp: cards_only_def)
  note f = find_level [OF assms(2) _ this masks, of "snd (desc self)" l]
  have self: "Mask (nodeAt t self) = setMask (snd (desc self))" using masks [of self] b(3) Cons.prems(3) by (simp add: top_addr_def)
  have len: "length (heap t0) = n" using assms(1) by (simp add: cards_only_def)
  show ?case
  proof (cases "groupOf gs l (snd (desc self))")
    case None
    then have "connectLevel nodes (t, self) l = (t, self)" using f [OF len] self by (simp add: connectLevel_def)
    then show ?thesis using Cons.IH [OF Cons.prems(1-3)] Cons.prems(4) None by simp
  next
    case (Some j)
    let ?y = "n + j"
    have j: "j < length gs" using groupOf_Some [OF Some] by simp
    then have y: "?y < top_addr" by (simp add: top_addr_def)
    have par: "par self = ?y" using Cons.prems(4) Some by (simp add: par_def)
    have upy: "up ?y = route n gs (snd (desc ?y)) ls @ [top_addr]"
      using Cons.prems(3)
    proof (cases rule: up_cases)
      case root
      then show ?thesis using Cons.prems(4) Some by simp
    next
      case (step z)
      then show ?thesis using Cons.prems(4) Some desc_group [OF j] by auto
    qed
    have "connectLevel nodes (t, self) l = (setParent t self (par self), ?y)"
      using f [OF len] self Some par by (simp add: connectLevel_def)
    moreover have "linked (heap (groupTree t0 gs)) par (insert self X) (heap (setParent t self (par self)))"
      by (rule linked_setParent [OF Cons.prems(1)])
        (use b Cons.prems(3) y par par_props(1) [OF Cons.prems(3)] in auto)
    moreover have "\<forall>x \<in> insert self X. par x \<noteq> top_addr" using Cons.prems(2) par y by auto
    ultimately show ?thesis
      using Cons.IH [OF _ _ y upy, of "insert self X" "setParent t self (par self)"] Some
      by (auto simp: desc_group j intro: only_heap_trans [OF only_heap_setParent])
  qed
qed

lemma route_below: "y \<in> set (route n gs S ls) \<Longrightarrow> n \<le> y \<and> y < top_addr"
  by (induction ls arbitrary: S) (auto simp: top_addr_def dest: groupOf_Some split: option.splits)

lemma up_card: "i < n \<Longrightarrow> up i = route n gs (snd (desc i)) upLevels @ [top_addr]"
proof -
  have "filter (\<lambda>l. 0 < l) upLevels = upLevels"
    by (simp add: upLevels_def topology_levels levelStep_def upt_rec)
  then show "i < n \<Longrightarrow> ?thesis" by (simp add: up_def desc_def)
qed

lemma connectLeaves:
  assumes "cards_only t0 n" "levels_rep n nodes gs" "k \<le> n"
  shows "\<exists>X. linked (heap (groupTree t0 gs)) par X (heap (foldl (connectLeaf nodes) (groupTree t0 gs) [0..<k]))
    \<and> only_heap (groupTree t0 gs) (foldl (connectLeaf nodes) (groupTree t0 gs) [0..<k])
    \<and> (\<forall>x \<in> X. par x \<noteq> top_addr) \<and> X \<subseteq> {..<top_addr}
    \<and> (\<forall>i < k. set (butlast (i # butlast (up i))) \<subseteq> X)"
  using assms(3)
proof (induction k)
  case 0
  then show ?case using linked_groupTree [OF assms(1)] by (intro exI [of _ "{}"]) simp
next
  case (Suc k)
  then obtain X where X: "linked (heap (groupTree t0 gs)) par X (heap (foldl (connectLeaf nodes) (groupTree t0 gs) [0..<k]))"
    "only_heap (groupTree t0 gs) (foldl (connectLeaf nodes) (groupTree t0 gs) [0..<k])"
    "\<forall>x \<in> X. par x \<noteq> top_addr" "X \<subseteq> {..<top_addr}" "\<forall>i < k. set (butlast (i # butlast (up i))) \<subseteq> X" by auto
  have k: "k < n" "k < top_addr" using Suc.prems by (simp_all add: top_addr_def)
  define X' where "X' = X \<union> set (butlast (k # route n gs (snd (desc k)) upLevels))"
  from connect_fold [OF assms(1,2) X(1,3) k(2) up_card [OF k(1)]]
  obtain t' la where t': "foldl (connectLevel nodes) (foldl (connectLeaf nodes) (groupTree t0 gs) [0..<k], k) upLevels = (t', la)"
    "only_heap (foldl (connectLeaf nodes) (groupTree t0 gs) [0..<k]) t'" "linked (heap (groupTree t0 gs)) par X' (heap t')"
    "\<forall>x \<in> X'. par x \<noteq> top_addr" unfolding X'_def by blast
  have route: "route n gs (snd (desc k)) upLevels = butlast (up k)" using up_card [OF k(1)] by simp
  have "y < top_addr" if "y \<in> set (butlast (up k))" for y
    using route_below that unfolding route [symmetric] by blast
  then have "X' \<subseteq> {..<top_addr}" using X(4) k(2) unfolding X'_def route by (auto dest: in_set_butlastD split: if_splits)
  moreover have "\<forall>i < Suc k. set (butlast (i # butlast (up i))) \<subseteq> X'"
    using X(5) unfolding X'_def route less_Suc_eq by blast
  moreover have "foldl (connectLeaf nodes) (groupTree t0 gs) [0..<Suc k] = t'"
    using t'(1) by (simp add: connectLeaf_def [of nodes "foldl (connectLeaf nodes) (groupTree t0 gs) [0..<k]" k])
  ultimately show ?case
    using t'(3,4) only_heap_trans [OF X(2) t'(2)] by (intro exI [of _ X']) simp
qed

text \<open>The tree once its root has adopted the node of all cards.\<close>

definition rooted :: "NvidiaTree \<Rightarrow> NvidiaTree \<Rightarrow> bool" where
  "rooted t0 t \<longleftrightarrow> linked (heap (groupTree t0 gs) @ [(freshNode (int top_addr))\<lparr>Mask := setMask {..<n}\<rparr>]) par {..<top_addr} (heap t)
     \<and> leaves t = leaves t0 \<and> query t = query t0 \<and> root t = Some top_addr"

lemma rooted_adopt:
  assumes "cards_only t0 n" "linked (heap (groupTree t0 gs)) par X (heap t)" "only_heap (groupTree t0 gs) t"
    and "\<forall>x \<in> X. par x \<noteq> top_addr" "X \<subseteq> {..<top_addr}" "\<And>x. x < top_addr \<Longrightarrow> x \<noteq> tp \<Longrightarrow> x \<in> X"
    and "tp < top_addr" "par tp = top_addr" "snd (desc tp) = {..<n}" "NewNvidiaNode t = (t2, r)"
  shows "r = top_addr \<and> leaves t2 = leaves t0 \<and> rooted t0 (rootAdopt r (t2\<lparr>root := Some r\<rparr>) tp)"
proof -
  note b = base_facts [OF assms(1)]
  have len: "length (heap t) = top_addr" using assms(2) b(1) by (simp add: linked_def)
  have "nodeIndex t = int top_addr" using assms(3) b(2) unfolding only_heap_def by (metis NvidiaTree.select_convs(8) NvidiaTree.surjective NvidiaTree.update_convs(1))
  then have t2: "t2 = t\<lparr>heap := heap t @ [freshNode (int top_addr)], nodeIndex := int top_addr + 1\<rparr>" "r = top_addr"
    using assms(10) len by (auto simp: NewNvidiaNode_def)
  have rest: "leaves t = leaves t0" "query t = query t0"
    using assms(3) unfolding only_heap_def by (metis NvidiaTree.select_convs(3,5) NvidiaTree.surjective NvidiaTree.update_convs(1) groupTree_def NvidiaTree.update_convs(8))+
  let ?B = "heap (groupTree t0 gs) @ [(freshNode (int top_addr))\<lparr>Mask := setMask {..<n}\<rparr>]"
  let ?u = "updNode (t2\<lparr>root := Some r\<rparr>) r (\<lambda>x. x\<lparr>Mask := Mask x OR Mask (nodeAt (t2\<lparr>root := Some r\<rparr>) tp)\<rparr>)"
  have tpmask: "Mask (nodeAt t tp) = setMask {..<n}"
    using assms(2,7,9) b(1) b(3) [OF assms(7)] by (simp add: linked_def)
  have "heap ?u = heap t @ [(freshNode (int top_addr))\<lparr>Mask := setMask {..<n}\<rparr>]"
    using t2 len assms(7) tpmask by (simp add: nth_append list_update_append freshNode_def)
  moreover have "linked ?B par X (heap t @ [(freshNode (int top_addr))\<lparr>Mask := setMask {..<n}\<rparr>])"
    using assms(2,4,5) b(1) len by (auto simp: linked_def nth_append freshNode_def less_Suc_eq)
  ultimately have u: "linked ?B par X (heap ?u)" by simp
  have "linked ?B par (insert tp X) (heap (setParent ?u tp (par tp)))"
    by (rule linked_setParent [OF u]) (use b assms(7,8) in \<open>auto simp: nth_append\<close>)
  moreover have "insert tp X = {..<top_addr}" using assms(5-7) by blast
  ultimately show ?thesis
    using t2 assms(8) rest by (simp add: rooted_def rootAdopt_def) (simp add: setParent_def Let_def)
qed

lemma rooted_children:
  assumes "rooted t0 t" "range_order ord" "c \<in> set (map snd (gorange ord (vchildren (nodeAt t x))))" "x \<le> top_addr" "cards_only t0 n"
  shows "c < top_addr \<and> par c = x"
proof -
  have x: "x < length (heap (groupTree t0 gs) @ [(freshNode (int top_addr))\<lparr>Mask := setMask {..<n}\<rparr>])"
    using base_facts(1) [OF assms(5)] assms(4) by simp
  have g: "gomap_ok (vchildren (nodeAt t x))" "\<And>k v. map_of (vchildren (nodeAt t x)) k = Some v \<Longrightarrow> v < top_addr \<and> par v = x"
    using assms(1) x unfolding rooted_def linked_def by blast+
  obtain k where "(k, c) \<in> set (vchildren (nodeAt t x))" using assms(3) set_gorange [OF assms(2) g(1)] by auto
  then show ?thesis using g by (auto simp: gomap_ok_def)
qed

text \<open>What \<^verbatim>\<open>buildTree\<close> leaves.\<close>

definition built :: "NvidiaTree \<Rightarrow> NvidiaTree \<Rightarrow> bool" where
  "built t0 t \<longleftrightarrow> length (heap t) = Suc top_addr \<and> root t = Some top_addr \<and> leaves t = [0..<n] \<and> query t = query t0
     \<and> (\<forall>x < top_addr. Parent (nodeAt t x) = Some (par x) \<and> Mask (nodeAt t x) = setMask (snd (desc x))
          \<and> ntype (nodeAt t x) = fst (desc x))
     \<and> (\<forall>i < n. Meta (nodeAt t i) = Meta (nodeAt t0 i) \<and> AllocatableMeta (nodeAt t i) = AllocatableMeta (nodeAt t0 i))
     \<and> Parent (nodeAt t top_addr) = None \<and> Mask (nodeAt t top_addr) = setMask {..<n} \<and> ntype (nodeAt t top_addr) = 60
     \<and> (\<forall>x \<le> top_addr. \<forall>c \<in> set (Children (nodeAt t x)). c < top_addr \<and> par c = x)"

lemma rooted_built:
  assumes "cards_only t0 n" "rooted t0 t" "only_heap t t'" "length (heap t') = length (heap t)"
    and "\<And>x. x < length (heap t) \<Longrightarrow> \<exists>cs. nodeAt t' x = (nodeAt t x)\<lparr>Children := cs\<rparr>
      \<and> (\<forall>c \<in> set cs. c < top_addr \<and> par c = x)"
  shows "built t0 t'"
proof -
  note b = base_facts [OF assms(1)]
  let ?B = "heap (groupTree t0 gs) @ [(freshNode (int top_addr))\<lparr>Mask := setMask {..<n}\<rparr>]"
  have l: "length (heap t) = Suc top_addr" "\<And>x. x < Suc top_addr \<Longrightarrow> Meta (nodeAt t x) = Meta (?B ! x) \<and> AllocatableMeta (nodeAt t x) = AllocatableMeta (?B ! x)
      \<and> Mask (nodeAt t x) = Mask (?B ! x) \<and> ntype (nodeAt t x) = ntype (?B ! x) \<and> Parent (nodeAt t x) = (if x < top_addr then Some (par x) else None)"
    using assms(2) b(1) by (simp_all add: rooted_def linked_def)
  have same: "Parent (nodeAt t' x) = Parent (nodeAt t x) \<and> Mask (nodeAt t' x) = Mask (nodeAt t x) \<and> ntype (nodeAt t' x) = ntype (nodeAt t x)
      \<and> Meta (nodeAt t' x) = Meta (nodeAt t x) \<and> AllocatableMeta (nodeAt t' x) = AllocatableMeta (nodeAt t x)
      \<and> (\<forall>c \<in> set (Children (nodeAt t' x)). c < top_addr \<and> par c = x)" if "x < Suc top_addr" for x
    using assms(5) [of x] l(1) that by auto
  have "n \<le> top_addr" by (simp add: top_addr_def)
  moreover have "leaves t' = leaves t" "query t' = query t" "root t' = root t"
    using assms(3) unfolding only_heap_def by (metis NvidiaTree.select_convs(2,3,5) NvidiaTree.surjective NvidiaTree.update_convs(1))+
  moreover have "Parent (nodeAt t' x) = Some (par x) \<and> Mask (nodeAt t' x) = setMask (snd (desc x)) \<and> ntype (nodeAt t' x) = fst (desc x)"
    if "x < top_addr" for x
    using same [of x] l(2) [of x] b(1) b(3) [of x] that by (simp add: nth_append)
  moreover have "Meta (nodeAt t' i) = Meta (nodeAt t0 i) \<and> AllocatableMeta (nodeAt t' i) = AllocatableMeta (nodeAt t0 i)" if "i < n" for i
    using same [of i] l(2) [of i] b(1) nodeAt_groupTree_card [of i t0 gs] that assms(1) by (simp add: nth_append top_addr_def cards_only_def)
  moreover have "Parent (nodeAt t' top_addr) = None" "Mask (nodeAt t' top_addr) = setMask {..<n}" "ntype (nodeAt t' top_addr) = 60"
    using same [of top_addr] l(2) [of top_addr] b(1) by (simp_all add: nth_append freshNode_def)
  moreover have "\<forall>c \<in> set (Children (nodeAt t' x)). c < top_addr \<and> par c = x" if "x \<le> top_addr" for x
    using same [of x] that by simp
  moreover have "leaves t = [0..<n]" "query t = query t0" "root t = Some top_addr"
    using assms(1,2) by (simp_all add: rooted_def cards_only_def)
  ultimately show ?thesis using assms(4) l(1) unfolding built_def by simp
qed

lemma rooted_no_children:
  assumes "cards_only t0 n" "rooted t0 t" "x < length (heap t)"
  shows "Children (nodeAt t x) = []" "length (heap t) = Suc top_addr"
proof -
  show len: "length (heap t) = Suc top_addr" using assms(2) base_facts(1) [OF assms(1)] by (simp add: rooted_def linked_def)
  then show "Children (nodeAt t x) = []"
    using assms(2,3) base_facts(1,3) [OF assms(1)] by (auto simp: rooted_def linked_def nth_append freshNode_def less_Suc_eq)
qed

text \<open>The level of the node that stands for all cards is the highest one in use.\<close>

lemma top_level:
  assumes "2 \<le> n" "levels_rep n nodes gs" "tp < top_addr" "snd (desc tp) = {..<n}" "up tp = [top_addr]"
  shows "\<exists>l. find (\<lambda>l. levelNodes nodes l \<noteq> []) (rev upLevels) = Some l \<and> levelNodes nodes l = [tp]"
proof -
  have "n \<le> tp"
  proof (rule ccontr)
    assume "\<not> n \<le> tp"
    then have "{..<n} = {tp}" using assms(4) by (simp add: desc_def)
    then have "card {..<n} = 1" by simp
    then show False using assms(1) by simp
  qed
  then obtain j where j: "j < length gs" "tp = n + j" using group_addr assms(3) by blast
  then have all: "snd (gs ! j) = {..<n}" using assms(4) by (simp add: desc_group)
  have meets: "snd (gs ! j) \<inter> snd (gs ! k) \<noteq> {}" "snd (gs ! k) \<inter> snd (gs ! j) \<noteq> {}" if "k < length gs" for k
    using nth_ok [OF that] all by auto
  have max: "fst (gs ! k) \<le> fst (gs ! j)" if k: "k < length gs" for k
  proof (rule ccontr)
    assume "\<not> fst (gs ! k) \<le> fst (gs ! j)"
    then have "n + k \<in> set (up tp)" using up_has [OF assms(3) k] meets [OF k] j by (simp add: desc_group)
    then show False using assms(5) k by (simp add: top_addr_def)
  qed
  have lv: "levelNodes nodes l = map ((+) n) (filter (\<lambda>j. fst (gs ! j) = l) [0..<length gs])" for l
    using assms(2) by (simp add: levels_rep_def)
  have "filter (\<lambda>k. fst (gs ! k) = fst (gs ! j)) [0..<length gs] = [j]"
    by (rule filter_single [OF j(1)]) (use j(1) unique meets in blast)+
  then have tpl: "levelNodes nodes (fst (gs ! j)) = [tp]" using lv j(2) by simp
  moreover have "k \<le> fst (gs ! j)" if "levelNodes nodes k \<noteq> []" for k
    using that max by (auto simp: lv filter_empty_conv)
  moreover have "sorted_wrt (>) (rev upLevels)" using upLevels_sorted by (simp add: sorted_wrt_rev)
  ultimately show ?thesis
    using find_descending [of "rev upLevels" "fst (gs ! j)" "\<lambda>l. levelNodes nodes l \<noteq> []"] nth_ok [OF j(1)] by auto
qed

lemma buildTree_built:
  assumes "cards_only t0 n" "levels_rep n nodes gs" "range_order ord"
  shows "\<exists>t. buildTree ord (groupTree t0 gs) nodes = Inr t \<and> built t0 t"
proof -
  have lv: "leaves (groupTree t0 gs) = [0..<n]" using assms(1) by (simp add: groupTree_def cards_only_def)
  define t1 where "t1 = foldl (connectLeaf nodes) (groupTree t0 gs) [0..<n]"
  obtain X where X: "linked (heap (groupTree t0 gs)) par X (heap t1)" "only_heap (groupTree t0 gs) t1"
    "\<forall>x \<in> X. par x \<noteq> top_addr" "X \<subseteq> {..<top_addr}" "\<forall>i < n. set (butlast (i # butlast (up i))) \<subseteq> X"
    using connectLeaves [OF assms(1,2) order.refl] unfolding t1_def by blast
  obtain t2 r where t2: "NewNvidiaNode t1 = (t2, r)" by fastforce
  obtain tp where tp: "tp < top_addr" "snd (desc tp) = {..<n}" "\<And>x. x < top_addr \<Longrightarrow> up x = [top_addr] \<longleftrightarrow> x = tp"
    using top_node by blast
  then have up: "up tp = [top_addr]" by blast
  have "x \<in> X" if "x < top_addr" "x \<noteq> tp" for x using passed [OF that(1)] tp(3) [OF that(1)] that(2) X(5) by blast
  note ad = rooted_adopt [OF assms(1) X(1-4) this tp(1) _ tp(2) t2]
  have ad: "r = top_addr" "leaves t2 = [0..<n]" "rooted t0 (rootAdopt r (t2\<lparr>root := Some r\<rparr>) tp)"
    using ad par_props(4) [OF tp(1)] up assms(1) unfolding cards_only_def by metis+
  define t3 where "t3 = rootAdopt r (t2\<lparr>root := Some r\<rparr>) tp"
  note nc = rooted_no_children [OF assms(1) ad(3) [folded t3_def]]
  show ?thesis
  proof (cases "n = 1")
    case True
    have gs: "gs = []" by (rule single [OF True])
    have top: "top_addr = 1" by (subst top_addr_def) (use True gs in simp)
    then have one: "gs = []" "top_addr = 1" "tp = 0" using gs tp(1) by simp_all
    then have "find (\<lambda>l. levelNodes nodes l \<noteq> []) (rev upLevels) = None"
      using assms(2) by (simp add: levels_rep_def find_None_iff)
    moreover have leaf: "leaves t2 = [0]" using ad(2) True by simp
    ultimately have run: "buildTree ord (groupTree t0 gs) nodes = Inr (updNode t3 r (\<lambda>x. x\<lparr>Children := Children x @ [0]\<rparr>))"
      using t2 leaf one(3) unfolding buildTree_def lv t1_def [symmetric] t3_def by (simp add: Let_def)
    have "built t0 (updNode t3 r (\<lambda>x. x\<lparr>Children := Children x @ [0]\<rparr>))"
    proof (rule rooted_built [OF assms(1) ad(3) [folded t3_def]])
      fix x assume x: "x < length (heap t3)"
      have "par 0 = top_addr" using up one(3) by (simp add: par_def)
      then show "\<exists>cs. nodeAt (updNode t3 r (\<lambda>x. x\<lparr>Children := Children x @ [0]\<rparr>)) x = (nodeAt t3 x)\<lparr>Children := cs\<rparr> \<and> (\<forall>c \<in> set cs. c < top_addr \<and> par c = x)"
        using x nc [OF x] ad(1) tp(1) one by (cases "x = r") (auto intro: exI [of _ "[]"] exI [of _ "[0]"] simp: nth_list_update)
    qed simp_all
    then show ?thesis using run by simp
  next
    case False
    then have "2 \<le> n" using pos by simp
    from top_level [OF this assms(2) tp(1,2) up] obtain l where l: "find (\<lambda>l. levelNodes nodes l \<noteq> []) (rev upLevels) = Some l"
      "levelNodes nodes l = [tp]" by blast
    let ?t4 = "foldl (\<lambda>t n. walkUp (fillChildren ord) (length (heap t)) t (Parent (nodeAt t n))) t3 (leaves t3)"
    have run: "buildTree ord (groupTree t0 gs) nodes = Inr ?t4"
      using t2 l by (simp add: buildTree_def lv t1_def [symmetric] t3_def Let_def)
    note fill = filled_all [of ord t3 "leaves t3"]
    have "built t0 ?t4"
    proof (rule rooted_built [OF assms(1) ad(3) [folded t3_def]])
      show "only_heap t3 ?t4" "length (heap ?t4) = length (heap t3)" using fill by (simp_all add: filled_def)
      fix x assume x: "x < length (heap t3)"
      then obtain cs where cs: "nodeAt ?t4 x = (nodeAt t3 x)\<lparr>Children := cs\<rparr>" "cs = [] \<or> cs = map snd (gorange ord (vchildren (nodeAt t3 x)))"
        using fill nc(1) [OF x] by (auto simp: filled_def)
      moreover have "c < top_addr \<and> par c = x" if "c \<in> set cs" for c
        using cs(2) rooted_children [OF ad(3) [folded t3_def] assms(3) _ _ assms(1), of c x] x nc(2) [OF x] that by auto
      ultimately show "\<exists>cs. nodeAt ?t4 x = (nodeAt t3 x)\<lparr>Children := cs\<rparr> \<and> (\<forall>c \<in> set cs. c < top_addr \<and> par c = x)" by blast
    qed
    then show ?thesis using run by blast
  qed
qed

section \<open>Well-formed\<close>

lemma built_levels:
  assumes "built t0 t"
  shows "levels_ok (heap t)"
proof -
  have "(case Parent (nodeAt t x) of None \<Rightarrow> True | Some p \<Rightarrow> p < length (heap t) \<and> ntype (nodeAt t x) < ntype (nodeAt t p))"
    if x: "x < length (heap t)" for x
  proof (cases "x = top_addr")
    case True
    then show ?thesis using assms by (simp add: built_def)
  next
    case False
    then have x: "x < top_addr" using x assms by (simp add: built_def)
    have low: "fst (desc x) < 60"
    proof (cases "x < n")
      case False
      then obtain j where "j < length gs" "x = n + j" using group_addr [of x] x by auto
      then show ?thesis using group_level [of j] by (simp add: desc_group)
    qed (simp add: desc_def)
    from x show ?thesis
    proof (cases rule: up_cases)
      case root
      then show ?thesis using assms x low by (simp add: built_def par_def)
    next
      case (step y)
      then show ?thesis using assms x by (simp add: built_def par_def)
    qed
  qed
  then show ?thesis by (simp add: levels_ok_def list_all_length)
qed

lemma built_chain:
  assumes "built t0 t" "x < top_addr"
  shows "chain (heap t) x = up x"
  using assms(2)
proof (induction "length (up x)" arbitrary: x rule: less_induct)
  case less
  note lo = built_levels [OF assms(1)]
  have b: "length (heap t) = Suc top_addr" "Parent (nodeAt t x) = Some (par x)" "Parent (nodeAt t top_addr) = None"
    using assms(1) less.prems by (simp_all add: built_def)
  have c: "chain (heap t) x = par x # chain (heap t) (par x)" using chain_unfold [OF lo, of x] b less.prems by simp
  from less.prems show ?case
  proof (cases rule: up_cases)
    case root
    then show ?thesis using c chain_unfold [OF lo, of top_addr] b by (simp add: par_def)
  next
    case (step y)
    then show ?thesis using c less.hyps [of y] by (simp add: par_def)
  qed
qed

lemma top_in_up: "top_addr \<in> set (up x)"
  by (simp add: up_def)

lemma built_masks_ok:
  assumes "built t0 t" "cards_only t0 n" "\<And>i. i < n \<Longrightarrow> Cores (AllocatableMeta (nodeAt t0 i)) = HundredCore"
  shows "masks_ok t"
proof -
  have b: "length (heap t) = Suc top_addr" "root t = Some top_addr" "leaves t = [0..<n]" "Mask (nodeAt t top_addr) = setMask {..<n}"
    "\<And>x. x < top_addr \<Longrightarrow> Mask (nodeAt t x) = setMask (snd (desc x))"
    "\<And>i. i < n \<Longrightarrow> AllocatableMeta (nodeAt t i) = AllocatableMeta (nodeAt t0 i)"
    using assms(1) by (simp_all add: built_def)
  have n: "n \<le> 32" "n \<le> top_addr" using assms(2) by (simp_all add: cards_only_def top_addr_def)
  have ch: "chain (heap t) (leaves t ! i) = up i" if "i < n" for i using built_chain [OF assms(1), of i] that n b(3) by simp
  have below: "i < n \<and> q \<in> set (up i)" if "q \<le> top_addr" "q \<notin> set (leaves t)" "bit (Mask (nodeAt t q)) i" for q i
  proof (cases "q = top_addr")
    case True
    then show ?thesis using that b(4) top_in_up by simp
  next
    case False
    then have q: "q < top_addr" "n \<le> q" using that b(3) by auto
    then obtain j where j: "j < length gs" "q = n + j" using group_addr by blast
    then have i: "i \<in> snd (gs ! j)" using that(3) b(5) [OF q(1)] by (simp add: desc_group)
    then have "i < n" using nth_ok [OF j(1)] by auto
    then show ?thesis using up_has [of i j] group_level [OF j(1)] i j n by (simp add: desc_def)
  qed
  have agree: "bit (Mask (nodeAt t p)) i = bit (Mask (nodeAt t top_addr)) i" if "i < n" "p \<in> set (up i)" for i p
  proof (cases "p = top_addr")
    case False
    then have "p < top_addr" "i \<in> snd (desc p)" using up_suffix [of i p] that n by (auto simp: desc_def)
    then show ?thesis using b(4,5) that n by simp
  qed simp
  have "list_all (\<lambda>q. q \<in> set (leaves t) \<or> list_all (\<lambda>i. bit (Mask (nodeAt t q)) i \<longrightarrow>
      i < length (leaves t) \<and> q \<in> set (chain (heap t) (leaves t ! i))) [0..<32]) [0..<length (heap t)]"
    unfolding list_all_iff using below ch b(1,3) by (metis atLeastLessThan_iff diff_zero length_upt less_Suc_eq_le set_upt)
  moreover have "list_all (\<lambda>i. list_all (\<lambda>p. bit (Mask (nodeAt t p)) i = bit (Mask (nodeAt t (the (root t)))) i)
      (chain (heap t) (leaves t ! i))) [0..<length (leaves t)]"
    unfolding list_all_iff using agree ch b(2,3) by simp
  moreover have "list_all (\<lambda>i. bit (Mask (nodeAt t (the (root t)))) i \<longrightarrow>
      Cores (AllocatableMeta (nodeAt t (leaves t ! i))) = HundredCore) [0..<length (leaves t)]"
    unfolding list_all_iff using assms(3) b(3,6) by simp
  ultimately show ?thesis unfolding masks_ok_def by blast
qed

lemma built_tree_ok:
  assumes "built t0 t" "cards_only t0 n" "distinct (map (\<lambda>i. MinorID (Meta (nodeAt t0 i))) [0..<n])"
    and "query t0 = map (\<lambda>i. (MinorName (nodeAt t0 i), i)) [0..<n]"
    and "\<And>i. i < n \<Longrightarrow> 0 \<le> MinorID (Meta (nodeAt t0 i)) \<and> MinorID (Meta (nodeAt t0 i)) < 2 ^ 31
      \<and> 0 \<le> TotalMemory (Meta (nodeAt t0 i)) \<and> TotalMemory (Meta (nodeAt t0 i)) < 2 ^ 62"
  shows "tree_ok t"
proof -
  have b: "length (heap t) = Suc top_addr" "root t = Some top_addr" "leaves t = [0..<n]" "query t = query t0" "n \<le> top_addr"
    "\<And>x. x < top_addr \<Longrightarrow> Parent (nodeAt t x) = Some (par x) \<and> Mask (nodeAt t x) = setMask (snd (desc x))"
    "\<And>i. i < n \<Longrightarrow> Meta (nodeAt t i) = Meta (nodeAt t0 i)" "Parent (nodeAt t top_addr) = None"
    "\<And>x c. x \<le> top_addr \<Longrightarrow> c \<in> set (Children (nodeAt t x)) \<Longrightarrow> c < top_addr \<and> par c = x"
    using assms(1) by (simp_all add: built_def top_addr_def)
  have c: "n \<le> 32" "\<And>i. i < n \<Longrightarrow> ID (Meta (nodeAt t0 i)) = int i" using assms(2) by (simp_all add: cards_only_def)
  have childless: "Children (nodeAt t i) = []" if "i < n" for i
  proof (rule ccontr)
    assume "Children (nodeAt t i) \<noteq> []"
    then obtain d where "d \<in> set (Children (nodeAt t i))" by (metis list.set_sel(1))
    then show False using b(5) b(9) [of i d] par_props(3) [of d] that by auto
  qed
  have "leaf_ok i (nodeAt t (leaves t ! i))" if "i < n" for i
    using that b(3,5,7) b(6) [of i] c childless assms(5) setMask_single [of i] by (simp add: leaf_ok_def desc_def)
  then have leaf: "list_all (\<lambda>i. leaf_ok i (nodeAt t (leaves t ! i))) [0..<length (leaves t)]" using b(3) by (simp add: list_all_iff)
  have "map (\<lambda>a. MinorID (Meta (nodeAt t a))) (leaves t) = map (\<lambda>i. MinorID (Meta (nodeAt t0 i))) [0..<n]" using b(3,7) by simp
  then have dist: "distinct (map (\<lambda>a. MinorID (Meta (nodeAt t a))) (leaves t))" using assms(3) by simp
  have qu: "query t = map (\<lambda>a. (MinorName (nodeAt t a), a)) (leaves t)" using b(3,4,7) assms(4) by (simp add: MinorName_def)
  have "d < length (heap t) \<and> Parent (nodeAt t d) = Some x" if "x < length (heap t)" "d \<in> set (Children (nodeAt t x))" for x d
    using b(9) [of x d] b(6) [of d] b(1) that by simp
  then have ch: "list_all (\<lambda>a. list_all (\<lambda>c. c < length (heap t) \<and> Parent (nodeAt t c) = Some a) (Children (nodeAt t a))) [0..<length (heap t)]"
    by (simp add: list_all_iff)
  have "Parent (nodeAt t x) \<noteq> Some a" if "x < length (heap t)" "a \<in> set (leaves t)" for x a
    using that b(1,3,8) b(6) [of x] par_props(3) [of x] by (cases "x = top_addr") auto
  then have pa: "list_all (\<lambda>n. list_all (\<lambda>a. Parent n \<noteq> Some a) (leaves t)) (heap t)"
    unfolding list_all_iff by (metis in_set_conv_nth)
  have "top_addr \<in> set (chain (heap t) a)" if "a < n" for a
    using built_chain [OF assms(1), of a] b(5) that top_in_up by simp
  then have ro: "case root t of None \<Rightarrow> False | Some r \<Rightarrow> r < length (heap t) \<and> r \<notin> set (leaves t)
      \<and> list_all (\<lambda>a. r \<in> set (chain (heap t) a)) (leaves t)"
    using b(1,2,3,5) by (simp add: list_all_iff)
  have "length (leaves t) \<le> 32" "distinct (leaves t)" "list_all (\<lambda>a. a < length (heap t)) (leaves t)"
    using b(1,3,5) c(1) by (simp_all add: list_all_iff)
  then show ?thesis unfolding tree_ok_def using built_levels [OF assms(1)] leaf dist qu ch pa ro by blast
qed

text \<open>The lowest node above two cards has the highest level that separates them.\<close>

lemma built_common:
  assumes "built t0 t" "a < n" "b < n" "a \<noteq> b" "j < length gs" "{a, b} \<subseteq> snd (gs ! j)"
    and "\<And>k. k < length gs \<Longrightarrow> {a, b} \<subseteq> snd (gs ! k) \<Longrightarrow> fst (gs ! j) \<le> fst (gs ! k)"
  shows "find (\<lambda>q. q \<in> set (chain (heap t) b)) (chain (heap t) a) = Some (n + j) \<and> ntype (nodeAt t (n + j)) = fst (gs ! j)"
proof -
  have ab: "a < top_addr" "b < top_addr" "n + j < top_addr" using assms(2,3,5) by (simp_all add: top_addr_def)
  have ch: "chain (heap t) a = up a" "chain (heap t) b = up b" using built_chain [OF assms(1)] ab by simp_all
  have "n + j \<in> set (up a)" "n + j \<in> set (up b)"
    using up_has [OF ab(1) assms(5)] up_has [OF ab(2) assms(5)] group_level [OF assms(5)] assms(2,3,6) by (simp_all add: desc_def)
  then obtain pre where pre: "up a = pre @ (n + j) # up (n + j)" "n + j \<in> set (up b)" using up_suffix [OF ab(1), of "n + j"] ab(3) by auto
  have "q \<notin> set (up b)" if q: "q \<in> set pre" for q
  proof
    assume qb: "q \<in> set (up b)"
    have low: "q \<noteq> top_addr" "fst (desc q) < fst (gs ! j)"
      using up_sorted [OF ab(1)] pre(1) q ab(3) assms(5) by (auto simp: sorted_wrt_append desc_group)
    then obtain pa where qa: "up a = pa @ q # up q" "n \<le> q" "q < top_addr" "snd (desc a) \<subseteq> snd (desc q)" "snd (desc b) \<subseteq> snd (desc q)"
      using up_suffix [OF ab(1), of q] up_suffix [OF ab(2) qb] q pre(1) by auto
    obtain k where k: "k < length gs" "q = n + k" using group_addr qa(2,3) by blast
    then have "{a, b} \<subseteq> snd (gs ! k)" using qa(4,5) assms(2,3) by (simp add: desc_def desc_group)
    then have "fst (gs ! j) \<le> fst (gs ! k)" using assms(7) [OF k(1)] by simp
    then show False using low(2) k by (simp add: desc_group)
  qed
  then have "find (\<lambda>q. q \<in> set (up b)) (up a) = Some (n + j)" using pre by (simp add: find_append_skip)
  then show ?thesis using assms(1,5) ab(3) by (simp add: ch built_def desc_group)
qed

end

section \<open>Machines\<close>

text \<open>The levels that the library reports are known ones and form a hierarchy: two cards are not further apart
  than the further of their levels to any third card.\<close>

definition topology_ok :: "nvml \<Rightarrow> nat \<Rightarrow> bool" where
  "topology_ok nv n \<longleftrightarrow>
     list_all (\<lambda>(a, b). snd (nvTopologyCommonAncestor nv (int a) (int b)) = NVML_SUCCESS
       \<and> snd (nvMultiGpuBoard nv (int a)) = NVML_SUCCESS \<and> cardLevel nv a b \<in> set upLevels) (cardPairs n)
     \<and> list_all (\<lambda>a. list_all (\<lambda>b. list_all (\<lambda>c. a = b \<or> b = c \<or> a = c
          \<or> cardLevel nv (min a c) (max a c) \<le> max (cardLevel nv (min a b) (max a b)) (cardLevel nv (min b c) (max b c)))
          [0..<n]) [0..<n]) [0..<n]"

definition cards_ok :: "nvml \<Rightarrow> nat \<Rightarrow> bool" where
  "cards_ok nv n \<longleftrightarrow> distinct (map (\<lambda>i. fst (nvMinorNumber nv (int i))) [0..<n])
     \<and> list_all (\<lambda>i. 0 \<le> fst (nvMinorNumber nv (int i)) \<and> fst (nvMinorNumber nv (int i)) < 2 ^ 31
          \<and> 0 \<le> fst (nvMemoryTotal nv (int i)) \<and> fst (nvMemoryTotal nv (int i)) < 2 ^ 62) [0..<n]"

definition machine_ok :: "nvml \<Rightarrow> nat \<Rightarrow> bool" where
  "machine_ok nv n \<longleftrightarrow> nvInit nv = NVML_SUCCESS \<and> nvDeviceGetCount nv = (int n, NVML_SUCCESS)
     \<and> 0 < n \<and> n \<le> 32 \<and> topology_ok nv n \<and> cards_ok nv n"

lemma topology_ultra:
  assumes "topology_ok nv n" "a < n" "b < n" "c < n" "a \<noteq> b" "b \<noteq> c" "a \<noteq> c"
  shows "cardLevel nv (min a c) (max a c) \<le> max (cardLevel nv (min a b) (max a b)) (cardLevel nv (min b c) (max b c))"
proof -
  have "\<forall>a \<in> set [0..<n]. \<forall>b \<in> set [0..<n]. \<forall>c \<in> set [0..<n]. a = b \<or> b = c \<or> a = c
      \<or> cardLevel nv (min a c) (max a c) \<le> max (cardLevel nv (min a b) (max a b)) (cardLevel nv (min b c) (max b c))"
    using conjunct2 [OF assms(1) [unfolded topology_ok_def list_all_iff]] .
  from this [rule_format, of a b c] show ?thesis using assms(2-) by simp
qed

text \<open>The distance of two cards, on other machines a constant.\<close>

definition cardDistance :: "nvml \<Rightarrow> nat \<Rightarrow> nat \<Rightarrow> nat \<Rightarrow> int" where
  "cardDistance nv n a b = (if topology_ok nv n then cardLevel nv (min a b) (max a b) else TOPOLOGY_SINGLE)"

interpretation topo: machine_levels "cardDistance nv (Suc m)" "Suc m" for nv m
proof
  show "cardDistance nv (Suc m) a b = cardDistance nv (Suc m) b a" for a b
    by (simp add: cardDistance_def min.commute max.commute)
  show "cardDistance nv (Suc m) a c \<le> max (cardDistance nv (Suc m) a b) (cardDistance nv (Suc m) b c)"
    if "a < Suc m" "b < Suc m" "c < Suc m" "a \<noteq> b" "b \<noteq> c" "a \<noteq> c" for a b c
    using topology_ultra [of nv "Suc m" a b c] that by (simp add: cardDistance_def)
  show "0 < Suc m" by simp
  show "cardDistance nv (Suc m) a b \<in> set upLevels" if "a < b" "b < Suc m" for a b
  proof (cases "topology_ok nv (Suc m)")
    case True
    moreover have "(a, b) \<in> set (cardPairs (Suc m))" using that by (simp add: set_cardPairs)
    ultimately show ?thesis using that by (auto simp: cardDistance_def topology_ok_def list_all_iff min_def max_def)
  next
    case False
    then show ?thesis by (simp add: cardDistance_def upLevels_def levelStep_def upt_rec)
  qed
qed

lemma joinAll_cong: "(\<And>a b. (a, b) \<in> set ps \<Longrightarrow> f a b = g a b) \<Longrightarrow> joinAll f gs ps = joinAll g gs ps"
  unfolding joinAll_def by (intro foldl_cong) auto

lemma machine_cards:
  assumes "machine_ok nv n"
  shows "cards_only (cardTree nv p n) n" and "i < n \<Longrightarrow> nodeAt (cardTree nv p n) i = cardNode nv i"
  using assms setMask_single
  by (simp_all add: cards_only_def cardTree_def newNvidiaTree_def machine_ok_def cardNode_def Let_def freshNode_def TOPOLOGY_INTERNAL_def)

lemma parseFromLibrary_built:
  assumes "machine_ok nv (Suc m)" "range_order ord"
  shows "\<exists>t. parseFromLibrary nv ord (newNvidiaTree (Some p) 0) = Inr (t, None) \<and> topo.built m nv (cardTree nv p (Suc m)) t"
proof -
  let ?n = "Suc m" and ?t0 = "cardTree nv p (Suc m)"
  have m: "nvInit nv = NVML_SUCCESS" "nvDeviceGetCount nv = (int ?n, NVML_SUCCESS)" "topology_ok nv ?n"
    "distinct (map (\<lambda>i. fst (nvMinorNumber nv (int i))) [0..<?n])"
    using assms(1) by (simp_all add: machine_ok_def cards_ok_def)
  note c = machine_cards(1) [OF assms(1), of p]
  have g0: "groupTree ?t0 [] = ?t0" using c by (simp add: groupTree_def)
  have "levels_rep ?n [] []" by (simp add: levels_rep_def levelNodes_def)
  moreover have "list_all (\<lambda>(a, b). a < ?n \<and> b < ?n \<and> snd (nvTopologyCommonAncestor nv (int a) (int b)) = NVML_SUCCESS
      \<and> snd (nvMultiGpuBoard nv (int a)) = NVML_SUCCESS) (cardPairs ?n)"
    using m(3) set_cardPairs [of ?n] by (auto simp: topology_ok_def list_all_iff)
  ultimately obtain nodes where j: "joinPairs nv (?t0, []) (cardPairs ?n) = Inr ((groupTree ?t0 (joinAll (cardLevel nv) [] (cardPairs ?n)), nodes), None)"
    "levels_rep ?n nodes (joinAll (cardLevel nv) [] (cardPairs ?n))"
    using joinPairs_groups [OF c, of "[]" "[]" nv "cardPairs ?n"] g0 by auto
  have "joinAll (cardLevel nv) [] (cardPairs ?n) = topo.grps nv m"
    unfolding topo.grps_def using m(3) by (intro joinAll_cong) (auto simp: set_cardPairs cardDistance_def min_def max_def)
  with j have j: "joinPairs nv (?t0, []) (cardPairs ?n) = Inr ((groupTree ?t0 (topo.grps nv m), nodes), None)"
    "levels_rep ?n nodes (topo.grps nv m)" by simp_all
  from topo.buildTree_built [OF c j(2) assms(2)] obtain t where "buildTree ord (groupTree ?t0 (topo.grps nv m)) nodes = Inr t" "topo.built m nv ?t0 t" by blast
  then show ?thesis
    using m(1,2) j(1) libraryLeaves [OF m(4), of p]
    by (simp add: parseFromLibrary_def Let_def del: upt_Suc of_nat_Suc replicate.simps)
qed

lemma built_ledger:
  assumes "machine_ok nv (Suc m)" "topo.built m nv (cardTree nv p (Suc m)) t"
  shows "tree_ledger t []" "devices t = Suc m" "\<And>i. i < Suc m \<Longrightarrow> Meta (nodeAt t (leaves t ! i)) = Meta (cardNode nv i)"
proof -
  let ?t0 = "cardTree nv p (Suc m)"
  note c = machine_cards [OF assms(1), where p = p]
  have k: "distinct (map (\<lambda>i. fst (nvMinorNumber nv (int i))) [0..<Suc m])"
    "\<And>i. i < Suc m \<Longrightarrow> 0 \<le> fst (nvMinorNumber nv (int i)) \<and> fst (nvMinorNumber nv (int i)) < 2 ^ 31
       \<and> 0 \<le> fst (nvMemoryTotal nv (int i)) \<and> fst (nvMemoryTotal nv (int i)) < 2 ^ 62"
    using assms(1) by (simp_all add: machine_ok_def cards_ok_def list_all_iff del: upt_Suc)
  have cn: "MinorID (Meta (cardNode nv i)) = fst (nvMinorNumber nv (int i))" "TotalMemory (Meta (cardNode nv i)) = fst (nvMemoryTotal nv (int i))"
    "AllocatableMeta (cardNode nv i) = \<lparr>Cores = HundredCore, Memory = i64 (fst (nvMemoryTotal nv (int i)))\<rparr>" for i
    by (simp_all add: cardNode_def Let_def)
  have b: "leaves t = [0..<Suc m]" "\<And>i. i < Suc m \<Longrightarrow> Meta (nodeAt t i) = Meta (cardNode nv i)"
    "\<And>i. i < Suc m \<Longrightarrow> AllocatableMeta (nodeAt t i) = AllocatableMeta (cardNode nv i)"
    using assms(2) c(2) by (simp_all add: topo.built_def del: upt_Suc)
  show "devices t = Suc m" "\<And>i. i < Suc m \<Longrightarrow> Meta (nodeAt t (leaves t ! i)) = Meta (cardNode nv i)"
    using b(1,2) by (simp_all add: devices_def del: upt_Suc)
  have mem: "i64 (fst (nvMemoryTotal nv (int i))) = fst (nvMemoryTotal nv (int i))" if "i < Suc m" for i
    using k(2) [OF that] by (intro i64_id) auto
  have "tree_ok t"
  proof (rule topo.built_tree_ok [OF assms(2) c(1)])
    have "map (\<lambda>i. MinorID (Meta (nodeAt ?t0 i))) [0..<Suc m] = map (\<lambda>i. fst (nvMinorNumber nv (int i))) [0..<Suc m]"
      using c(2) cn by (simp del: upt_Suc)
    then show "distinct (map (\<lambda>i. MinorID (Meta (nodeAt ?t0 i))) [0..<Suc m])" using k(1) by (simp only:)
    show "query ?t0 = map (\<lambda>i. (MinorName (nodeAt ?t0 i), i)) [0..<Suc m]"
      using c(2) by (simp add: cardTree_def del: upt_Suc)
  qed (use c(2) cn k(2) in auto)
  moreover have "masks_ok t" by (rule topo.built_masks_ok [OF assms(2) c(1)]) (use c(2) cn in auto)
  moreover have "alloc_ok t"
    using b cn mem k(2) by (simp add: alloc_ok_def list_all_iff HundredCore_def Let_def del: upt_Suc)
  moreover have "dvCores (devView t i) = 100 \<and> dvMemory (devView t i) = devTotal t i" if "i < Suc m" for i
    using b cn mem that by (simp add: devView_def devTotal_def HundredCore_def del: upt_Suc)
  ultimately show "tree_ledger t []"
    using b(1) by (simp add: tree_ledger_def pool_ok_def grants_ok_def list_all_iff devices_def del: upt_Suc)
qed

lemma tree_ledger_realMode: "tree_ledger (t\<lparr>realMode := r\<rparr>) L = tree_ledger t L"
  by (cases "root t") (simp_all add: tree_ledger_def pool_ok_def tree_ok_def masks_ok_def alloc_ok_def devices_def devView_def devTotal_def rootBit_def)

lemma Init_machine:
  assumes "machine_ok nv n" "range_order ord"
  obtains t m where "n = Suc m" "Init nv ord (newNvidiaTree (Some p) 0) input = Inr (t\<lparr>realMode := True\<rparr>)"
    "topo.built m nv (cardTree nv p n) t" "tree_ledger (t\<lparr>realMode := True\<rparr>) []"
proof -
  obtain m where m: "n = Suc m" using assms(1) by (cases n) (simp_all add: machine_ok_def)
  from parseFromLibrary_built [OF assms(1) [unfolded m] assms(2)] obtain t where
    t: "parseFromLibrary nv ord (newNvidiaTree (Some p) 0) = Inr (t, None)" "topo.built m nv (cardTree nv p (Suc m)) t" by blast
  then show thesis
    using that [OF m] built_ledger(1) [OF assms(1) [unfolded m] t(2)] m by (simp add: Init_def tree_ledger_realMode)
qed

text \<open>Claim C2: on a machine with at most 32 cards whose reported topology is a hierarchy, \<^verbatim>\<open>Init\<close> builds a
  well-formed tree with one leaf for every card, in which all cores and all memory of all cards are free, and
  in which the lowest common ancestor of two cards is a node of exactly the level that the library reports
  for them.\<close>

theorem Init_builds_topology:
  assumes "machine_ok nv n" "range_order ord"
  shows "\<exists>t. Init nv ord (newNvidiaTree (Some p) 0) input = Inr t \<and> tree_ledger t [] \<and> devices t = n
    \<and> (\<forall>a < n. \<forall>b < n. a \<noteq> b \<longrightarrow>
         (\<exists>q. find (\<lambda>q. q \<in> set (chain (heap t) (leaves t ! b))) (chain (heap t) (leaves t ! a)) = Some q
            \<and> ntype (nodeAt t q) = cardLevel nv (min a b) (max a b)))"
proof -
  obtain t m where t: "n = Suc m" "Init nv ord (newNvidiaTree (Some p) 0) input = Inr (t\<lparr>realMode := True\<rparr>)"
    "topo.built m nv (cardTree nv p n) t" "tree_ledger (t\<lparr>realMode := True\<rparr>) []"
    by (rule Init_machine [OF assms])
  let ?gs = "topo.grps nv m"
  have lv: "leaves t = [0..<n]" using t(1,3) by (simp add: topo.built_def del: upt_Suc)
  have top: "topology_ok nv (Suc m)" using assms(1) t(1) by (simp add: machine_ok_def)
  have "\<exists>q. find (\<lambda>q. q \<in> set (chain (heap t) b)) (chain (heap t) a) = Some q \<and> ntype (nodeAt t q) = cardLevel nv (min a b) (max a b)"
    if ab: "a < n" "b < n" "a \<noteq> b" for a b
  proof -
    define l where "l = cardDistance nv (Suc m) (min a b) (max a b)"
    have mm: "min a b < max a b" "max a b < Suc m" using ab t(1) by auto
    have l: "l = cardLevel nv (min a b) (max a b)" using top mm by (simp add: l_def cardDistance_def)
    have "(l, {c. topo.near nv m l (min a b) c}) \<in> set ?gs" using topo.grps_has [OF mm, of nv] by (simp add: l_def)
    then obtain j where j: "j < length ?gs" "?gs ! j = (l, {c. topo.near nv m l (min a b) c})" by (auto simp: in_set_conv_nth)
    have "topo.near nv m l (min a b) (min a b)" "topo.near nv m l (min a b) (max a b)"
      using mm(1) less_trans [OF mm] mm(2) by (simp_all add: topo.near_def l_def del: max_less_iff_conj)
    then have both: "{a, b} \<subseteq> snd (?gs ! j)" using j(2) by (auto simp: min_def max_def split: if_splits)
    have "l \<le> fst (?gs ! k)" if "k < length ?gs" "{a, b} \<subseteq> snd (?gs ! k)" for k
      using topo.grps_level [of "fst (?gs ! k)" "snd (?gs ! k)" nv m "min a b" "max a b"] that mm
      by (simp add: l_def min_def max_def split: if_splits)
    then show ?thesis using topo.built_common [OF t(3) [unfolded t(1)] _ _ _ j(1) both] ab t(1) j(2) l by auto
  qed
  then show ?thesis using t(1,2,4) built_ledger(2) [OF _ t(3) [unfolded t(1)]] assms(1) lv
    by (simp add: devices_def del: upt_Suc)
qed

theorem Init_builds_topology_witness:
  "\<exists>t. Init sampleNvml (\<lambda>ks. ks) (newNvidiaTree (Some 1) 0) [] = Inr t \<and> tree_ledger t [] \<and> devices t = 4
     \<and> (\<exists>q. find (\<lambda>q. q \<in> set (chain (heap t) (leaves t ! 2))) (chain (heap t) (leaves t ! 0)) = Some q \<and> ntype (nodeAt t q) = 30)"
proof -
  have m: "machine_ok sampleNvml 4" by code_simp
  have o: "range_order (\<lambda>ks :: int list. ks)" by simp
  from Init_builds_topology [OF m o, of 1 "[]"] obtain t where
    t: "Init sampleNvml (\<lambda>ks. ks) (newNvidiaTree (Some 1) 0) [] = Inr t" "tree_ledger t []" "devices t = 4"
    "\<And>a b. a < 4 \<Longrightarrow> b < 4 \<Longrightarrow> a \<noteq> b \<Longrightarrow>
       \<exists>q. find (\<lambda>q. q \<in> set (chain (heap t) (leaves t ! b))) (chain (heap t) (leaves t ! a)) = Some q
         \<and> ntype (nodeAt t q) = cardLevel sampleNvml (min a b) (max a b)" by blast
  have "cardLevel sampleNvml (min 0 2) (max 0 2) = 30" by code_simp
  then show ?thesis using t(1-3) t(4) [of 0 2] by (intro exI [of _ t]) auto
qed

end
