(* ===== verification/Restart_Laws.thy ===== *)
theory Restart_Laws
  imports Release_Theorems
begin

text \<open>
  What survives a restart. The checkpoint on the disk always holds the books of a state that was balanced on
  the cards of the machine, however the operations of the allocator are interrupted by failing writes; an
  allocator that recovers from such a file on the same cards is balanced again.
\<close>

section \<open>The cards of a tree\<close>

text \<open>The minor number and the memory of each card.\<close>

definition treeCards :: "NvidiaTree \<Rightarrow> (int \<times> int) list" where
  "treeCards t = map (\<lambda>a. (MinorID (Meta (nodeAt t a)), TotalMemory (Meta (nodeAt t a)))) (leaves t)"

lemma treeCards_shape: "tree_ok t \<Longrightarrow> same_shape t t' \<Longrightarrow> treeCards t' = treeCards t"
  using tree_okD(4) by (fastforce simp: treeCards_def same_shape_def)

lemma treeCards_eqD:
  assumes "treeCards t = treeCards t'"
  shows "devNames t = devNames t'" "devices t = devices t'" "i < devices t \<Longrightarrow> devTotal t i = devTotal t' i"
proof -
  have "devNames t = map (\<lambda>(k, _). minorPath k) (treeCards t)" for t
    by (simp add: devNames_def treeCards_def MinorName_def)
  then show "devNames t = devNames t'" using assms by simp
  show d: "devices t = devices t'" using arg_cong [OF assms, of length] by (simp add: treeCards_def devices_def)
  have "snd (treeCards t ! i) = devTotal t i" if "i < devices t" for t
    using that by (simp add: treeCards_def devTotal_def devices_def)
  then show "i < devices t \<Longrightarrow> devTotal t i = devTotal t' i" using assms d by metis
qed

section \<open>The file\<close>

definition saved_books :: "string \<Rightarrow> (int \<times> int) list \<Rightarrow> jval files \<Rightarrow> bool" where
  "saved_books path cards fs \<longleftrightarrow>
     (\<forall>j. map_of fs path = Some j \<longrightarrow> (\<exists>t c. books_ok t c \<and> treeCards t = cards \<and> j = encCache c))"

definition durable :: "Config \<Rightarrow> (int \<times> int) list \<Rightarrow> NvidiaTopoAllocator \<Rightarrow> bool" where
  "durable cfg cards ta \<longleftrightarrow>
     alloc_inv ta \<and> treeCards (taTree ta) = cards \<and> saved_books (CheckpointFile cfg) cards (taFiles ta)"

text \<open>The name of a temporary file starts with a dot, so that it is not the checkpoint.\<close>

definition temp_ok :: "string \<Rightarrow> env \<Rightarrow> bool" where
  "temp_ok path e \<longleftrightarrow> (\<forall>i. osTempFile (eOs e i) \<noteq> Inr path)"

lemma cleanUp_other: "q \<noteq> tmp \<Longrightarrow> map_of (fst (cleanUp os c tmp fs r)) q = map_of fs q"
  by (simp add: cleanUp_def removePath_def Let_def go_map split: option.split)

lemma ckWrite_path:
  assumes "osTempFile os \<noteq> Inr path"
  shows "map_of (fst (ckWrite os nodata fs path data)) path \<in> {Some data, map_of fs path}"
  using assms by (auto simp: ckWrite_def writeFile_def Let_def cleanUp_other go_map split: option.splits sum.splits)

lemma alloc_inv_tree_ok: "alloc_inv ta \<Longrightarrow> tree_ok (taTree ta)"
  using books_okD(6) [of "taTree ta" "taCache ta"] by (simp add: alloc_inv_def)

lemma evolves_durable:
  assumes "evolves cfg e ta ta'" "temp_ok (CheckpointFile cfg) e" "durable cfg cards ta"
  shows "durable cfg cards ta'"
  using assms(1,3)
proof (induction rule: evolves.induct)
  case (change ta ta1 ta2)
  then have d: "durable cfg cards ta1" by simp
  then have "tree_ok (taTree ta1)" using alloc_inv_tree_ok by (simp add: durable_def)
  from treeCards_shape [OF this change(3)] show ?case using d change(2,4) by (simp add: durable_def)
next
  case (store ta ta1)
  then have d: "durable cfg cards ta1" by simp
  let ?fs = "taFiles (writeCheckpoint cfg e ta1)"
  have "map_of ?fs (CheckpointFile cfg) \<in> {Some (encCache (taCache ta1)), map_of (taFiles ta1) (CheckpointFile cfg)}"
    using ckWrite_path [of "eOs e (now ta1)" "CheckpointFile cfg" JNull "taFiles ta1" "encCache (taCache ta1)"] assms(2)
    by (simp add: writeCheckpoint_def bump_def temp_ok_def)
  moreover have "books_ok (taTree ta1) (taCache ta1) \<and> treeCards (taTree ta1) = cards"
    using d by (simp add: durable_def alloc_inv_def)
  ultimately have "saved_books (CheckpointFile cfg) cards ?fs"
    using d unfolding durable_def saved_books_def by (metis insertE option.inject singletonD)
  then show ?case using d by (simp add: durable_def)
qed simp

section \<open>Recovery\<close>

lemma books_ok_empty: "tree_ledger t [] \<Longrightarrow> minors_ok t \<Longrightarrow> books_ok t NewAllocateCache"
  by (simp add: books_ok_def NewAllocateCache_def cacheGrants_def entries_ok_def cache_ok_def)

lemma derefPods_read:
  assumes "saved_books (CheckpointFile cfg) cards (taFiles ta)" "taCache ta = NewAllocateCache"
    and "tree_ledger (taTree ta) []" "minors_ok (taTree ta)" "treeCards (taTree ta) = cards"
  obtains t c where "derefPods (readCheckpoint cfg ta) = Some (PodGPUMapping c)" "books_ok t c" "treeCards t = cards"
proof (cases "map_of (taFiles ta) (CheckpointFile cfg)")
  case None
  then show thesis
    using that [OF _ books_ok_empty [OF assms(3,4)] assms(5)] assms(2)
    by (simp add: readCheckpoint_def ckRead_def NewAllocateCache_def)
next
  case (Some j)
  then obtain t c where "books_ok t c" "treeCards t = cards" "j = encCache c"
    using assms(1) by (auto simp: saved_books_def)
  then show thesis
    using that readCheckpoint_books [of t c ta cfg] Some assms(2) by (simp add: NewAllocateCache_def)
qed

text \<open>Recovering from the file of a balanced state, on the same cards.\<close>

lemma recoverInUsed_durable:
  assumes "saved_books (CheckpointFile cfg) cards (taFiles ta)" "taCache ta = NewAllocateCache" "taUnfinished ta = None"
    and "tree_ledger (taTree ta) []" "minors_ok (taTree ta)" "treeCards (taTree ta) = cards"
    and "range_order (eOrdS e)" "temp_ok (CheckpointFile cfg) e" "recoverInUsed cfg e ta = Inr ta'"
  shows "durable cfg cards ta'"
proof -
  obtain t c where r: "derefPods (readCheckpoint cfg ta) = Some (PodGPUMapping c)" "books_ok t c" "treeCards t = cards"
    by (rule derefPods_read [OF assms(1,2,4-6)])
  have same: "treeCards (taTree ta) = treeCards t" using r(3) assms(6) by simp
  note b = recoverTree_books [OF r(2) assms(7,4,5) treeCards_eqD(1) [OF same] treeCards_eqD(3) [OF same]]
  define ta1 where "ta1 = ta\<lparr>taCache := c, taTree := recoverTree e (taTree ta) c\<rparr>"
  have inv: "alloc_inv ta1" using b(1) assms(3) by (simp add: ta1_def alloc_inv_def unfinished_ok_def)
  have "tree_ok (taTree ta)" using ledger_ok [OF assms(4)] by simp
  then have d: "durable cfg cards ta1"
    using inv treeCards_shape [OF _ b(2)] assms(1,6) by (simp add: durable_def ta1_def)
  note ev = evolves.store [OF recycle_evolves [OF inv assms(7)], of cfg]
  have "recoverInUsed cfg e ta = checkAllocation cfg e (writeCheckpoint cfg e (recycle cfg e ta1))"
    by (simp add: recoverInUsed_def r(1) Let_def ta1_def)
  with checkAllocation_evolves [OF _ evolves_inv [OF ev inv] assms(7)] assms(9)
  have "evolves cfg e (writeCheckpoint cfg e (recycle cfg e ta1)) ta'" by simp
  from evolves_durable [OF evolves_trans [OF this ev] assms(8) d] show ?thesis .
qed

lemma recoverInUsed_no_panic:
  assumes "saved_books (CheckpointFile cfg) cards (taFiles ta)" "taCache ta = NewAllocateCache"
    and "tree_ledger (taTree ta) []" "minors_ok (taTree ta)" "treeCards (taTree ta) = cards"
  shows "recoverInUsed cfg e ta \<noteq> Inl Panic"
proof -
  obtain t c where r: "derefPods (readCheckpoint cfg ta) = Some (PodGPUMapping c)" "books_ok t c" "treeCards t = cards"
    by (rule derefPods_read [OF assms])
  show ?thesis unfolding recoverInUsed_def r(1) option.case Let_def by (rule checkAllocation_no_panic)
qed

end
