(* ===== verification/Server_Laws.thy ===== *)
theory Server_Laws
  imports Server Tree_Init Restart_Laws
begin

text \<open>
  The laws of the composed program: the contract of the tables of constructors, the contract of the plugin
  interface and its providers, the outcome of \<^verbatim>\<open>Run\<close>, and the states of the daemon from a fresh node on through
  calls, crashes and restarts, with the invariant of memory and disk.
\<close>

section \<open>The tables of constructors\<close>

text \<open>What \<^verbatim>\<open>Register\<close> and \<^verbatim>\<open>NewFuncForName\<close> promise to the packages that register their constructors when they
  are initialised: the first constructor of a name wins, so that the order of the packages only matters for
  equal names.\<close>

locale registry =
  fixes reg :: "string \<Rightarrow> 'f \<Rightarrow> 't \<Rightarrow> 't" and func :: "'t \<Rightarrow> string \<Rightarrow> 'f option"
  assumes func_reg: "func (reg n f t) k = (if k = n \<and> func t n = None then Some f else func t k)"
begin

lemma first_wins: "func t n = Some g \<Longrightarrow> func (reg n f t) = func t"
  by (rule ext) (simp add: func_reg)

lemma order_irrelevant: "n \<noteq> m \<Longrightarrow> func (reg n f (reg m g t)) = func (reg m g (reg n f t))"
  by (rule ext) (auto simp: func_reg)

lemma known: "func t k \<noteq> None \<Longrightarrow> func (reg n f t) k = func t k"
  by (auto simp: func_reg)

end

interpretation trees: registry RegisterTree TreeFuncForName
  by unfold_locales (simp add: RegisterTree_def TreeFuncForName_def go_map)

interpretation allocators: registry RegisterAllocator AllocatorFuncForName
  by unfold_locales (simp add: RegisterAllocator_def AllocatorFuncForName_def go_map)

lemma TreeFunc_names:
  "TreeFuncForName treeFactory d =
     (if d = ''nvidia'' then Some NewNvidiaTree else if d = ''dummy'' then Some NewDummyTree else None)"
  by (simp add: treeFactory_def trees.func_reg) (simp add: TreeFuncForName_def)

lemma AllocatorFunc_names:
  "AllocatorFuncForName allocFactory d =
     (if d = ''nvidia'' then Some NewNvidiaTopoAllocator else if d = ''dummy'' then Some NewDummyAllocator
      else if d = ''nvidia_test'' then Some NewNvidiaTopoAllocatorForTest else None)"
  by (simp add: allocFactory_def allocators.func_reg) (simp add: AllocatorFuncForName_def)

section \<open>Starting the allocator\<close>

definition ckptPath :: "AppConfig \<Rightarrow> string" where
  "ckptPath cfg = pathJoinAll [acCheckpointPath cfg, checkpointFileName]"

text \<open>The cards the library reports, and surroundings in which the machine has these cards.\<close>

definition nvCards :: "nvml \<Rightarrow> nat \<Rightarrow> (int \<times> int) list" where
  "nvCards nv n = map (\<lambda>i. (fst (nvMinorNumber nv (int i)), fst (nvMemoryTotal nv (int i)))) [0..<n]"

definition calls_ok :: "AppConfig \<Rightarrow> env \<Rightarrow> bool" where
  "calls_ok cfg e \<longleftrightarrow> env_ok e \<and> temp_ok (ckptPath cfg) e"

definition boot_ok :: "AppConfig \<Rightarrow> (int \<times> int) list \<Rightarrow> server_env \<Rightarrow> bool" where
  "boot_ok cfg cards e \<longleftrightarrow> calls_ok cfg (sAlloc e) \<and> machine_ok (eNvml (sAlloc e) 0) (length cards)
     \<and> cards = nvCards (eNvml (sAlloc e) 0) (length cards)"

definition svc_ok :: "AppConfig \<Rightarrow> (int \<times> int) list \<Rightarrow> GPUTopoService \<Rightarrow> bool" where
  "svc_ok cfg cards s \<longleftrightarrow>
     (case s of DummyAllocator \<Rightarrow> True | NvidiaAllocator c ta \<Rightarrow> CheckpointFile c = ckptPath cfg \<and> durable c cards ta)"

text \<open>The tree after \<^verbatim>\<open>Init\<close> and \<^verbatim>\<open>Update\<close>: all cards of the machine, all of them free.\<close>

lemma treeCards_realMode: "treeCards (t\<lparr>realMode := r\<rparr>) = treeCards t" "minors_ok (t\<lparr>realMode := r\<rparr>) = minors_ok t"
  by (simp_all add: treeCards_def minors_ok_def)

lemma fresh_tree:
  assumes "machine_ok nv n" "range_order ord"
  obtains t where "Init nv ord (newNvidiaTree (Some p) 0) input = Inr t" "tree_ledger (UpdateTree nv' t) []"
    "minors_ok (UpdateTree nv' t)" "treeCards (UpdateTree nv' t) = nvCards nv n"
proof -
  obtain t m where t: "n = Suc m" "Init nv ord (newNvidiaTree (Some p) 0) input = Inr (t\<lparr>realMode := True\<rparr>)"
    "topo.built m nv (cardTree nv p n) t" "tree_ledger (t\<lparr>realMode := True\<rparr>) []"
    by (rule Init_machine [OF assms])
  note b = built_ledger [OF assms(1) [unfolded t(1)] t(3) [unfolded t(1)]]
  have meta: "Meta (nodeAt t (leaves t ! i)) = Meta (cardNode nv i)" if "i < n" for i using b(3) that t(1) by simp
  have len: "length (leaves t) = n" using b(2) t(1) by (simp add: devices_def)
  have card: "MinorID (Meta (cardNode nv i)) = fst (nvMinorNumber nv (int i))"
    "TotalMemory (Meta (cardNode nv i)) = fst (nvMemoryTotal nv (int i))" for i
    by (simp_all add: cardNode_def Let_def)
  let ?t = "t\<lparr>realMode := True\<rparr>"
  have "treeCards t = nvCards nv n"
    by (rule nth_equalityI) (simp_all add: treeCards_def nvCards_def len meta card)
  moreover have "0 \<le> fst (nvMinorNumber nv (int i)) \<and> fst (nvMinorNumber nv (int i)) < 2 ^ 31" if "i < n" for i
    using assms(1) that by (simp add: machine_ok_def cards_ok_def list_all_iff)
  then have "minors_ok t" unfolding minors_ok_def list_all_length using len meta card by simp
  ultimately have c: "treeCards ?t = nvCards nv n" "minors_ok ?t" by (simp_all add: treeCards_realMode)
  have ok: "tree_ok ?t" "masks_ok ?t" using ledger_ok [OF t(4)] by auto
  have u: "upd_ok ?t (UpdateTree nv' ?t)" by (rule upd_ok_UpdateTree [OF ok])
  then have sh: "same_shape ?t (UpdateTree nv' ?t)" by (simp add: upd_ok_def)
  show thesis
    by (rule that [OF t(2) tree_ledger_upd [OF t(4) u]])
      (use devNames_shape(2) [OF ok(1) sh] treeCards_shape [OF ok(1) sh] c in simp_all)
qed

lemma startAllocator_ok:
  assumes "boot_ok cfg cards e" "saved_books (ckptPath cfg) cards (sFiles e)" "startAllocator e cfg g resp = Inr (Inr s)"
  shows "svc_ok cfg cards s"
proof (cases "acDriver cfg = ''nvidia''")
  case False
  then have "s = DummyAllocator"
    using assms(3) by (simp add: startAllocator_def TreeFunc_names AllocatorFunc_names NewDummyTree_def treeInit_def
        treeUpdate_def NewDummyAllocator_def split: if_splits)
  then show ?thesis by (simp add: svc_ok_def)
next
  case True
  let ?n = "length cards"
  have b: "env_ok (sAlloc e)" "temp_ok (ckptPath cfg) (sAlloc e)" "machine_ok (eNvml (sAlloc e) 0) ?n"
    "nvCards (eNvml (sAlloc e) 0) ?n = cards"
    using assms(1) by (simp_all add: boot_ok_def calls_ok_def)
  have ord: "range_order (eOrdS (sAlloc e))" "range_order (eOrdI (sAlloc e))" using b(1) by (simp_all add: env_ok_def)
  obtain t where t: "Init (eNvml (sAlloc e) 0) (eOrdI (sAlloc e)) (newNvidiaTree (Some (acSamplePeriod cfg)) 0) [] = Inr t"
    "tree_ledger (UpdateTree (eNvml (sAlloc e) 1) t) []" "minors_ok (UpdateTree (eNvml (sAlloc e) 1) t)"
    "treeCards (UpdateTree (eNvml (sAlloc e) 1) t) = cards"
    using fresh_tree [OF b(3) ord(2)] b(4) by metis
  obtain c ta w where r: "s = NvidiaAllocator c ta" "CheckpointFile c = ckptPath cfg"
    "recoverInUsed c (sAlloc e) (freshAllocator (UpdateTree (eNvml (sAlloc e) 1) t) resp (sFiles e) w) = Inr ta"
    using assms(3) True t(1)
    by (auto simp: startAllocator_def TreeFunc_names AllocatorFunc_names NewNvidiaTree_def treeInit_def treeUpdate_def
        NewNvidiaTopoAllocator_def Let_def allocConfig_def ckptPath_def map_sum_def split: if_splits sum.splits)
  have "durable c cards ta"
    by (rule recoverInUsed_durable [OF _ _ _ _ _ _ ord(1) _ r(3)])
      (use t b(2) assms(2) r(2) in \<open>simp_all add: freshAllocator_def\<close>)
  then show ?thesis using r(1,2) by (simp add: svc_ok_def)
qed

section \<open>The calls of the plugin interface\<close>

text \<open>The contract of a provider of the plugin interface: the calls that change its state keep an invariant.
  The allocators, the manager and the two servers provide it.\<close>

locale plugin_calls =
  fixes ok :: "env \<Rightarrow> bool" and inv :: "'s \<Rightarrow> bool"
    and allocate :: "env \<Rightarrow> 's \<Rightarrow> string list list \<Rightarrow> go_fault + 's \<times> (string + ContainerAllocateResponse list)"
    and prestart :: "env \<Rightarrow> 's \<Rightarrow> string list \<Rightarrow> go_fault + 's \<times> string option"
  assumes allocate_inv: "ok e \<Longrightarrow> inv s \<Longrightarrow> list_all (\<lambda>ids. length ids < 2 ^ 32) reqs \<Longrightarrow> allocate e s reqs = Inr (s', r) \<Longrightarrow> inv s'"
    and prestart_inv: "ok e \<Longrightarrow> inv s \<Longrightarrow> prestart e s ids = Inr (s', err) \<Longrightarrow> inv s'"
begin

text \<open>A client that holds the provider in a field keeps the invariant of the field.\<close>

lemma field_allocate:
  assumes "ok e" "inv s" "list_all (\<lambda>ids. length ids < 2 ^ 32) reqs"
    and "map_sum id (map_prod put id) (allocate e s reqs) = Inr (m, r)"
  shows "\<exists>s'. m = put s' \<and> inv s'"
  using assms allocate_inv by (cases "allocate e s reqs") auto

lemma field_prestart:
  assumes "ok e" "inv s" "map_sum id (map_prod put id) (prestart e s ids) = Inr (m, err)"
  shows "\<exists>s'. m = put s' \<and> inv s'"
  using assms prestart_inv by (cases "prestart e s ids") auto

end

lemma durable_evolves:
  "evolves c e ta ta' \<Longrightarrow> calls_ok cfg e \<Longrightarrow> CheckpointFile c = ckptPath cfg \<Longrightarrow> durable c cards ta \<Longrightarrow> durable c cards ta'"
  using evolves_durable by (simp add: calls_ok_def)

lemma calls_okD: "calls_ok cfg e \<Longrightarrow> env_ok e" "calls_ok cfg e \<Longrightarrow> range_order (eOrdS e)"
  by (simp_all add: calls_ok_def env_ok_def)

lemma svc_okD:
  assumes "svc_ok cfg cards (NvidiaAllocator c ta)"
  shows "CheckpointFile c = ckptPath cfg" "durable c cards ta" "alloc_inv ta"
    "saved_books (ckptPath cfg) cards (taFiles ta)"
proof -
  show d: "CheckpointFile c = ckptPath cfg" "durable c cards ta" using assms by (simp_all add: svc_ok_def)
  show "alloc_inv ta" "saved_books (ckptPath cfg) cards (taFiles ta)" using d(2) by (simp_all add: durable_def d(1))
qed

interpretation svc: plugin_calls "calls_ok cfg" "svc_ok cfg cards" svcAllocate svcPreStartContainer for cfg cards
proof unfold_locales
  show "svc_ok cfg cards s'" if h: "calls_ok cfg e" "svc_ok cfg cards s" "list_all (\<lambda>ids. length ids < 2 ^ 32) reqs"
    "svcAllocate e s reqs = Inr (s', r)" for e s reqs s' r
  proof (cases s)
    case (NvidiaAllocator c ta)
    then obtain ta' where a: "Allocate c e ta reqs = Inr (ta', r)" "s' = NvidiaAllocator c ta'"
      using h(4) by (cases "Allocate c e ta reqs") (auto simp: svcAllocate_def)
    note d = svc_okD [OF h(2) [unfolded NvidiaAllocator]]
    show ?thesis
      using durable_evolves [OF Allocate_evolves [OF d(3) calls_okD(1) [OF h(1)] h(3) a(1)] h(1) d(1,2)] a(2) d(1)
      by (simp add: svc_ok_def)
  qed (use h in \<open>simp add: svcAllocate_def\<close>)
  show "svc_ok cfg cards s'" if h: "calls_ok cfg e" "svc_ok cfg cards s" "svcPreStartContainer e s ids = Inr (s', err)" for e s ids s' err
  proof (cases s)
    case (NvidiaAllocator c ta)
    then obtain ta' where a: "PreStartContainer c e ta ids = Inr (ta', err)" "s' = NvidiaAllocator c ta'"
      using h(3) by (cases "PreStartContainer c e ta ids") (auto simp: svcPreStartContainer_def)
    note d = svc_okD [OF h(2) [unfolded NvidiaAllocator]]
    show ?thesis
      using durable_evolves [OF PreStartContainer_evolves [OF d(3) calls_okD(2) [OF h(1)] a(1)] h(1) d(1,2)] a(2) d(1)
      by (simp add: svc_ok_def)
  qed (use h in \<open>simp add: svcPreStartContainer_def\<close>)
qed

definition mgr_ok :: "AppConfig \<Rightarrow> (int \<times> int) list \<Rightarrow> managerImpl \<Rightarrow> bool" where
  "mgr_ok cfg cards m \<longleftrightarrow> (\<forall>s. mgAllocator m = Some s \<longrightarrow> svc_ok cfg cards s)"

lemma mgr_okI [intro]: "mgAllocator m = Some s \<Longrightarrow> svc_ok cfg cards s \<Longrightarrow> mgr_ok cfg cards m"
  by (simp add: mgr_ok_def)

interpretation mgr: plugin_calls "calls_ok cfg" "mgr_ok cfg cards" mgrAllocate mgrPreStartContainer for cfg cards
proof unfold_locales
  show "mgr_ok cfg cards m'" if "calls_ok cfg e" "mgr_ok cfg cards m" "list_all (\<lambda>ids. length ids < 2 ^ 32) reqs"
    "mgrAllocate e m reqs = Inr (m', r)" for e m reqs m' r
    using that svc.field_allocate [OF that(1) _ that(3)] by (fastforce simp: mgrAllocate_def withAllocator_def mgr_ok_def split: option.splits)
  show "mgr_ok cfg cards m'" if "calls_ok cfg e" "mgr_ok cfg cards m" "mgrPreStartContainer e m ids = Inr (m', err)" for e m ids m' err
    using that svc.field_prestart [OF that(1)] by (fastforce simp: mgrPreStartContainer_def withAllocator_def mgr_ok_def split: option.splits)
qed

interpretation server: plugin_calls "calls_ok cfg" "mgr_ok cfg cards" "\<lambda>e. rsAllocate e r" "\<lambda>e. rsPreStartContainer e r" for cfg cards r
proof unfold_locales
  show "mgr_ok cfg cards m'" if "calls_ok cfg e" "mgr_ok cfg cards m" "list_all (\<lambda>ids. length ids < 2 ^ 32) reqs"
    "rsAllocate e r m reqs = Inr (m', a)" for e m reqs m' a
    using that mgr.allocate_inv [OF that(1-3)] by (cases r) (auto simp: rsAllocate_def vcoreAllocate_def vmemoryAllocate_def)
  show "mgr_ok cfg cards m'" if "calls_ok cfg e" "mgr_ok cfg cards m" "rsPreStartContainer e r m ids = Inr (m', err)" for e m ids m' err
    using that mgr.prestart_inv [OF that(1,2)]
    by (cases r) (auto simp: rsPreStartContainer_def vcorePreStartContainer_def vmemoryPreStartContainer_def)
qed

section \<open>Running\<close>

lemma runResource_fields [simp]:
  "mgAllocator (runResource e m r) = mgAllocator m" "bundleServer (runResource e m r) = bundleServer m"
  "mgConfig (runResource e m r) = mgConfig m"
  by (simp_all add: runResource_def vcoreRun_def vmemoryRun_def serveAt_def split: ResourceServer.split option.split)

lemma runResources_fields [simp]:
  "mgAllocator (foldl (runResource e) m rs) = mgAllocator m" "bundleServer (foldl (runResource e) m rs) = bundleServer m"
  "mgConfig (foldl (runResource e) m rs) = mgConfig m"
  by (induction rs arbitrary: m) simp_all

lemma runServer_fields [simp]:
  "mgAllocator (fst (runServer e m)) = mgAllocator m" "bundleServer (fst (runServer e m)) = bundleServer m"
  "mgConfig (fst (runServer e m)) = mgConfig m"
  by (simp_all add: runServer_def serveAt_def split: option.split)

text \<open>A run ends before there is an allocator, or with the one it has started.\<close>

lemma RunManager_cases:
  assumes "RunManager e m = Inr (m', err)"
  obtains (refused) "mgAllocator m' = mgAllocator m" "bundleServer m' = bundleServer m" "err \<noteq> None"
  | (started) g resp s m1 where "startAllocator e (mgConfig m) g resp = Inr (Inr s)" "mgAllocator m' = Some s"
      "(m', err) = runServer e (setupGRPCService m1)" "mgConfig m1 = mgConfig m" "bundleServer m1 = bundleServer m"
      "mgListening m1 = mgListening m"
proof -
  note r = assms [unfolded RunManager_def Let_def]
  show thesis
  proof (cases "mgAllocator m' = mgAllocator m \<and> bundleServer m' = bundleServer m \<and> err \<noteq> None")
    case True
    then show thesis using refused by blast
  next
    case False
    then obtain g rm resp vm where s: "startVirtual e (mgConfig m) g rm = Inr (Inr (resp, vm))"
      "(case startAllocator e (mgConfig m) g resp of
          Inl f \<Rightarrow> Inl f
        | Inr (Inl err) \<Rightarrow> Inr (m\<lparr>mgVirtual := Some vm\<rparr>, Some err)
        | Inr (Inr s) \<Rightarrow> Inr (runServer e (setupGRPCService (m\<lparr>mgVirtual := Some vm, mgAllocator := Some s, mgDisplayer := Some rm\<rparr>)))) = Inr (m', err)"
      using r by (auto split: option.splits if_splits sum.splits prod.splits)
    then obtain sv where a: "startAllocator e (mgConfig m) g resp = Inr (Inr sv)"
      "runServer e (setupGRPCService (m\<lparr>mgVirtual := Some vm, mgAllocator := Some sv, mgDisplayer := Some rm\<rparr>)) = (m', err)"
      using False by (auto split: sum.splits)
    then have "mgAllocator m' = Some sv"
      using runServer_fields(1) [of e "setupGRPCService (m\<lparr>mgVirtual := Some vm, mgAllocator := Some sv, mgDisplayer := Some rm\<rparr>)"]
      by (simp add: setupGRPCService_def)
    then show thesis
      by (rule started [OF a(1) _ a(2) [symmetric]]) simp_all
  qed
qed

text \<open>The servers of a manager that got as far as starting them, and what is listened at.\<close>

lemma bundle_started:
  assumes "(m', err) = runServer e (setupGRPCService m)" "bundleServer m = []"
  shows "bundleServer m' = [(VCoreAnnotation, newVcoreServer (mgConfig m)), (VMemoryAnnotation, newVmemoryServer (mgConfig m))]"
proof -
  have "bundleServer m' = bundleServer (setupGRPCService m)" using runServer_fields(2) [of e "setupGRPCService m"] assms(1) by (metis fst_conv)
  then show ?thesis using assms(2) by (simp add: setupGRPCService_def VCoreAnnotation_def VMemoryAnnotation_def)
qed

lemma serveAt_listening: "set (mgListening (fst (serveAt e m socket))) = set (mgListening m) \<union> {s. s = socket \<and> listenAt e s = None}"
  by (auto simp: serveAt_def split: option.split)

lemma runResources_listening:
  "set (mgListening (foldl (runResource e) m rs)) = set (mgListening m) \<union> {s. s \<in> SocketName ` set rs \<and> listenAt e s = None}"
proof (induction rs arbitrary: m)
  case (Cons r rs)
  have "set (mgListening (runResource e m r)) = set (mgListening m) \<union> {s. s = SocketName r \<and> listenAt e s = None}"
    by (cases r) (simp_all add: runResource_def vcoreRun_def vmemoryRun_def serveAt_listening SocketName_def)
  then show ?case using Cons.IH by auto
qed simp

lemma runServer_listening:
  assumes "range_order (eOrdS (sAlloc e))" "gomap_ok (bundleServer m)" "mgListening m = []"
  shows "set (mgListening (fst (runServer e m)))
    = {s. s \<in> insert ManagerSocket (SocketName ` snd ` set (bundleServer m)) \<and> listenAt e s = None}"
  unfolding runServer_def serveAt_listening runResources_listening
  using set_gorange [OF assms(1,2)] assms(3) by (auto simp: image_image)

lemma RunManager_ok:
  assumes "boot_ok cfg cards e" "saved_books (ckptPath cfg) cards (sFiles e)" "RunManager e (NewManager cfg) = Inr (m', err)"
  shows "mgr_ok cfg cards m'"
  using assms(3)
proof (cases rule: RunManager_cases)
  case refused
  then show ?thesis by (simp add: mgr_ok_def NewManager_def)
next
  case (started g resp s m1)
  then show ?thesis using startAllocator_ok [OF assms(1,2)] by (auto simp: NewManager_def)
qed

section \<open>The life of the daemon\<close>

definition diskOf :: "jval files \<Rightarrow> managerImpl \<Rightarrow> jval files" where
  "diskOf fs m = (case mgAllocator m of Some (NvidiaAllocator c ta) \<Rightarrow> taFiles ta | _ \<Rightarrow> fs)"

text \<open>
  The states of the daemon and of the disk of its node, from a node without a checkpoint on. The daemon may be
  started, or killed and started again, at any time: it then finds the files of the last state, and it is
  configured and equipped with cards as before. A running daemon answers the kubelet at its two servers and the
  display service, its worker serves the queue, and its ticker checks the allocations. Each step has its own
  surroundings. A crash in the middle of an operation loses the memory and leaves the checkpoint that the operation
  has got to, any of those that \<open>evolves\<close> goes through; whatever else is on the disk does not matter.
\<close>

inductive daemon :: "AppConfig \<Rightarrow> (int \<times> int) list \<Rightarrow> jval files \<Rightarrow> managerImpl \<Rightarrow> bool" for cfg cards where
  node: "map_of fs (ckptPath cfg) = None \<Longrightarrow> daemon cfg cards fs (NewManager cfg)"
| start: "daemon cfg cards fs m \<Longrightarrow> boot_ok cfg cards e \<Longrightarrow> sFiles e = fs \<Longrightarrow> RunManager e (NewManager cfg) = Inr (m', err)
     \<Longrightarrow> daemon cfg cards (diskOf fs m') m'"
| allocate: "daemon cfg cards fs m \<Longrightarrow> calls_ok cfg e \<Longrightarrow> map_of (bundleServer m) name = Some r
     \<Longrightarrow> list_all (\<lambda>ids. length ids < 2 ^ 32) reqs \<Longrightarrow> rsAllocate e r m reqs = Inr (m', answer)
     \<Longrightarrow> daemon cfg cards (diskOf fs m') m'"
| prestart: "daemon cfg cards fs m \<Longrightarrow> calls_ok cfg e \<Longrightarrow> map_of (bundleServer m) name = Some r
     \<Longrightarrow> rsPreStartContainer e r m ids = Inr (m', err) \<Longrightarrow> daemon cfg cards (diskOf fs m') m'"
| worker: "daemon cfg cards fs m \<Longrightarrow> calls_ok cfg e \<Longrightarrow> mgAllocator m = Some (NvidiaAllocator c ta)
     \<Longrightarrow> processNextResult c e ta = (ta', d) \<Longrightarrow> m' = m\<lparr>mgAllocator := Some (NvidiaAllocator c ta')\<rparr>
     \<Longrightarrow> daemon cfg cards (diskOf fs m') m'"
| ticker: "daemon cfg cards fs m \<Longrightarrow> list_all (calls_ok cfg) ticks \<Longrightarrow> mgAllocator m = Some (NvidiaAllocator c ta)
     \<Longrightarrow> checkAllocationPeriodically c ticks ta = Inr ta' \<Longrightarrow> m' = m\<lparr>mgAllocator := Some (NvidiaAllocator c ta')\<rparr>
     \<Longrightarrow> daemon cfg cards (diskOf fs m') m'"
| crash: "daemon cfg cards fs m \<Longrightarrow> calls_ok cfg e \<Longrightarrow> mgAllocator m = Some (NvidiaAllocator c ta) \<Longrightarrow> evolves c e ta ta1
     \<Longrightarrow> map_of fs' (ckptPath cfg) = map_of (taFiles ta1) (ckptPath cfg) \<Longrightarrow> daemon cfg cards fs' (NewManager cfg)"
| display: "daemon cfg cards fs m \<Longrightarrow> mgrPrintGraph de m = Inr (m', graph) \<Longrightarrow> daemon cfg cards (diskOf fs m') m'"

lemma disk_saved: "mgr_ok cfg cards m \<Longrightarrow> saved_books (ckptPath cfg) cards fs \<Longrightarrow> saved_books (ckptPath cfg) cards (diskOf fs m)"
  by (auto simp: diskOf_def mgr_ok_def intro: svc_okD(4) split: option.split GPUTopoService.split)

lemma checkAllocationPeriodically_durable:
  assumes "CheckpointFile c = ckptPath cfg"
  shows "checkAllocationPeriodically c ticks ta = Inr ta' \<Longrightarrow> list_all (calls_ok cfg) ticks \<Longrightarrow> durable c cards ta
    \<Longrightarrow> durable c cards ta'"
proof (induction ticks arbitrary: ta)
  case (Cons e ticks)
  obtain ta1 where c: "checkAllocation c e ta = Inr ta1" "checkAllocationPeriodically c ticks ta1 = Inr ta'"
    using Cons.prems(1) by (auto split: sum.splits)
  have "alloc_inv ta" "calls_ok cfg e" using Cons.prems(2,3) by (simp_all add: durable_def)
  from durable_evolves [OF checkAllocation_evolves [OF c(1) this(1) calls_okD(2) [OF this(2)]] this(2) assms Cons.prems(3)]
  show ?case using Cons.IH [OF c(2)] Cons.prems(2) by simp
qed simp

text \<open>Printing the graph refreshes the tree of the allocator.\<close>

lemma mgrPrintGraph_ok:
  assumes "mgr_ok cfg cards m" "mgrPrintGraph de m = Inr (m', graph)"
  shows "mgr_ok cfg cards m'"
proof -
  obtain c ta where a: "mgAllocator m = Some (NvidiaAllocator c ta)"
    using assms(2) by (auto simp: mgrPrintGraph_def split: option.splits GPUTopoService.splits)
  note d = svc_okD [of cfg cards c ta]
  have s: "svc_ok cfg cards (NvidiaAllocator c ta)" using assms(1) a by (simp add: mgr_ok_def)
  then have b: "books_ok (taTree ta) (taCache ta)" using d(3) by (simp add: alloc_inv_def)
  obtain t w where t: "PrintGraph (UpdateTree (dNvml de) (taTree ta)) = Inr (t, w)" "upd_ok (taTree ta) t"
    using refresh_ok [OF b] by metis
  let ?ta = "ta\<lparr>taTree := t\<rparr>"
  have m': "mgAllocator m' = Some (NvidiaAllocator c ?ta)"
    using assms(2) a t(1) by (auto simp: mgrPrintGraph_def displayPrintGraph_def)
  have "alloc_inv ?ta" using alloc_inv_tree [OF d(3) [OF s] t(2), of ?ta] by simp
  then have "svc_ok cfg cards (NvidiaAllocator c ?ta)"
    using d(1,2) [OF s] treeCards_shape [OF books_okD(6) [OF b], of t] t(2) by (simp add: svc_ok_def durable_def upd_ok_def)
  with m' show ?thesis by blast
qed

lemma daemon_ok: "daemon cfg cards fs m \<Longrightarrow> mgr_ok cfg cards m \<and> saved_books (ckptPath cfg) cards fs"
proof (induction rule: daemon.induct)
  case (node fs)
  then show ?case by (simp add: mgr_ok_def NewManager_def saved_books_def)
next
  case (start fs m e m' err)
  then show ?case using RunManager_ok [of cfg cards e m' err] disk_saved by metis
next
  case (allocate fs m e name r reqs m' answer)
  then show ?case using server.allocate_inv [of cfg e cards m reqs r m' answer] disk_saved by metis
next
  case (prestart fs m e name r ids m' err)
  then show ?case using server.prestart_inv [of cfg e cards m r ids m' err] disk_saved by metis
next
  case (worker fs m e c ta ta' d m')
  then have s: "svc_ok cfg cards (NvidiaAllocator c ta)" by (simp add: mgr_ok_def)
  note d = svc_okD [OF s]
  have "durable c cards ta'"
    by (rule durable_evolves [OF processNextResult_evolves [OF d(3) calls_okD(2) [OF worker.hyps(2)] worker.hyps(4)] worker.hyps(2) d(1,2)])
  then have "mgr_ok cfg cards m'" using worker.hyps(5) d(1) by (simp add: mgr_ok_def svc_ok_def)
  then show ?case using disk_saved worker.IH by blast
next
  case (ticker fs m ticks c ta ta' m')
  then have s: "svc_ok cfg cards (NvidiaAllocator c ta)" by (simp add: mgr_ok_def)
  note d = svc_okD [OF s]
  have "durable c cards ta'" by (rule checkAllocationPeriodically_durable [OF d(1) ticker.hyps(4,2) d(2)])
  then have "mgr_ok cfg cards m'" using ticker.hyps(5) d(1) by (simp add: mgr_ok_def svc_ok_def)
  then show ?case using disk_saved ticker.IH by blast
next
  case (crash fs m e c ta ta1 fs')
  then have s: "svc_ok cfg cards (NvidiaAllocator c ta)" by (simp add: mgr_ok_def)
  note d = svc_okD [OF s]
  have "svc_ok cfg cards (NvidiaAllocator c ta1)"
    using durable_evolves [OF crash.hyps(4,2) d(1,2)] d(1) by (simp add: svc_ok_def)
  from svc_okD(4) [OF this] show ?case
    using crash.hyps(5) by (simp add: mgr_ok_def NewManager_def saved_books_def)
next
  case (display fs m de m' graph)
  then show ?case using mgrPrintGraph_ok disk_saved by metis
qed

end
