(* ===== verification/Server_Theorems.thy ===== *)
theory Server_Theorems
  imports Server_Laws App_Theorems Virtual_Theorems Volume_Theorems
begin

text \<open>
  The properties that span the whole program: no sequence of calls, crashes and restarts oversubscribes a card;
  the servers that are started are the ones registered with the kubelet; when the manager says it is ready; and what a
  memory scaling that is not a number leads to.
\<close>

section \<open>A sample node\<close>

text \<open>The sample machine with a runtime, an API server and a file system that answer every call.\<close>

definition sampleApp :: AppConfig where
  "sampleApp = \<lparr>acDriver = ''nvidia'', acExtraConfigPath = [], acQueryPort = 5678, acQueryAddr = ''localhost'',
     acKubeConfig = [], acSamplePeriod = second, acHostname = ''n'', acNodeLabels = [], acVirtualManagerPath = ''/etc/gpu-manager/vm'',
     acDevicePluginPath = ''/var/lib/kubelet/device-plugins'', acVolumeConfigPath = [], acEnableShare = True,
     acAllocationCheckPeriod = 30 * second, acCheckpointPath = ''/etc/gpu-manager/checkpoint'',
     acContainerRuntimeEndpoint = ''/var/run/dockershim.sock'', acCgroupDriver = ''cgroupfs'', acRequestTimeout = 5 * second,
     acDeviceMemoryScaling = Fin 1\<rparr>"

definition sampleBoot :: server_env where
  "sampleBoot = \<lparr>sExtraStat = Missing, sExtraFile = Inl NotExist, sVolumeFile = Inl NotExist, sVolumes = hostEnv,
     sVolumeFs = hostFs, sBuildConfig = None, sNewClient = None, sDialRuntime = (\<lambda>_. None), sRuntimeVersion = Inr ''docker'',
     sCgroup2 = False, sLabels = labelEnv, sUnmarshal = (\<lambda>_. None), sVirtual = quietVm, sVmFiles = [], sAlloc = sampleEnv,
     sEnsureDir = None, sFiles = [], sUnlink = (\<lambda>_. None), sListen = (\<lambda>_. None), sKubeletDial = (\<lambda>_. None),
     sKubeletRegister = (\<lambda>_. None)\<rparr>"

definition sampleAcfg :: Config where "sampleAcfg = allocConfig sampleApp [] [] []"

definition startTree :: NvidiaTree where
  "startTree =
     (case Init sampleNvml (\<lambda>ks. ks) (newNvidiaTree (Some second) 0) [] of Inr t \<Rightarrow> UpdateTree sampleNvml t | _ \<Rightarrow> newNvidiaTree None 0)"

lemma sample_recovered:
  "(case recoverInUsed sampleAcfg sampleEnv (freshAllocator startTree [] [] (startWorld\<lparr>tick := 2\<rparr>)) of
      Inr ta \<Rightarrow> (case Allocate sampleAcfg sampleEnv ta [sampleIds] of
                   Inr (ta', Inr [r]) \<Rightarrow> PodGPUMapping (taCache ta') = [(''u1'', [(''main'', sampleInfo)])]
                 | _ \<Rightarrow> False)
    | _ \<Rightarrow> False)"
  by code_simp

text \<open>The start does not look at the memory scaling: the same node with another one.\<close>

definition scaledApp :: "float64 \<Rightarrow> AppConfig" where "scaledApp x = sampleApp\<lparr>acDeviceMemoryScaling := x\<rparr>"

definition scaledAcfg :: "float64 \<Rightarrow> Config" where "scaledAcfg x = allocConfig (scaledApp x) [] [] []"

lemma scaled_one: "scaledApp (Fin 1) = sampleApp" "scaledAcfg (Fin 1) = sampleAcfg"
  by (simp_all add: scaledAcfg_def sampleAcfg_def) (simp_all add: scaledApp_def sampleApp_def)

lemma scaled_recovered:
  "(case recoverInUsed (scaledAcfg x) sampleEnv (freshAllocator startTree [] [] (startWorld\<lparr>tick := 2\<rparr>)) of
      Inr ta \<Rightarrow> True | _ \<Rightarrow> False)"
  by code_simp

lemma scaled_virtual:
  "map_sum id (map_sum id fst) (startVirtual sampleBoot (scaledApp x) \<lparr>dgMajor = 0, dgMinor = 0, dgLibrary = [], dgOriginLibrary = []\<rparr> rm)
     = Inr (Inr [])"
  by code_simp

lemma sample_labels:
  "snd (labelerRun (sLabels sampleBoot) (NewNodeLabeler (sLabels sampleBoot) (acHostname sampleApp) (acNodeLabels sampleApp)) []) = None"
  by code_simp

lemma sample_tree: "\<exists>t. Init sampleNvml (\<lambda>ks. ks) (newNvidiaTree (Some second) 0) [] = Inr t"
proof -
  have "(case Init sampleNvml (\<lambda>ks. ks) (newNvidiaTree (Some second) 0) [] of Inr t \<Rightarrow> True | _ \<Rightarrow> False)" by code_simp
  then show ?thesis by (auto split: sum.splits)
qed

lemmas sample_boot_simps = sampleBoot_def sampleEnv_def sampleApp_def

lemma scaled_fields: "acHostname (scaledApp x) = acHostname sampleApp" "acNodeLabels (scaledApp x) = acNodeLabels sampleApp"
  by (simp_all add: scaledApp_def)

lemma scaled_allocator:
  obtains ta where "startAllocator sampleBoot (scaledApp x) \<lparr>dgMajor = 0, dgMinor = 0, dgLibrary = [], dgOriginLibrary = []\<rparr> []
      = Inr (Inr (NvidiaAllocator (scaledAcfg x) ta))"
    "recoverInUsed (scaledAcfg x) sampleEnv (freshAllocator startTree [] [] (startWorld\<lparr>tick := 2\<rparr>)) = Inr ta"
proof -
  obtain t where t: "Init sampleNvml (\<lambda>ks. ks) (newNvidiaTree (Some second) 0) [] = Inr t" using sample_tree by blast
  obtain ta where ta: "recoverInUsed (scaledAcfg x) sampleEnv (freshAllocator startTree [] [] (startWorld\<lparr>tick := 2\<rparr>)) = Inr ta"
    using scaled_recovered [of x] by (auto split: sum.splits)
  have app: "acDriver (scaledApp x) = ''nvidia''" "acSamplePeriod (scaledApp x) = second" "acExtraConfigPath (scaledApp x) = []"
    by (simp_all add: scaledApp_def sampleApp_def)
  have boot: "sAlloc sampleBoot = sampleEnv" "sFiles sampleBoot = []" "sEnsureDir sampleBoot = None" "eNvml sampleEnv i = sampleNvml"
    "eOrdI sampleEnv = (\<lambda>ks. ks)" for i
    by (simp_all add: sampleBoot_def sampleEnv_def)
  have "startTree = UpdateTree sampleNvml t" by (simp add: startTree_def t)
  with ta have "startAllocator sampleBoot (scaledApp x) \<lparr>dgMajor = 0, dgMinor = 0, dgLibrary = [], dgOriginLibrary = []\<rparr> []
      = Inr (Inr (NvidiaAllocator (scaledAcfg x) ta))"
    by (simp add: startAllocator_def TreeFunc_names AllocatorFunc_names app boot NewNvidiaTree_def treeInit_def treeUpdate_def t
        NewNvidiaTopoAllocator_def loadExtraConfig_def Let_def scaledAcfg_def [symmetric])
  with ta show thesis using that by blast
qed

lemma scaled_run:
  obtains m ta where "RunManager sampleBoot (NewManager (scaledApp x)) = Inr (m, None)"
    "mgAllocator m = Some (NvidiaAllocator (scaledAcfg x) ta)"
    "recoverInUsed (scaledAcfg x) sampleEnv (freshAllocator startTree [] [] (startWorld\<lparr>tick := 2\<rparr>)) = Inr ta"
proof -
  let ?g = "\<lparr>dgMajor = 0, dgMinor = 0, dgLibrary = [], dgOriginLibrary = []\<rparr>"
  let ?rm = "\<lparr>cgroupDriver = acCgroupDriver (scaledApp x), runtimeName = ''docker'', isCGroupV2 = False\<rparr>"
  obtain ta where ta: "startAllocator sampleBoot (scaledApp x) ?g [] = Inr (Inr (NvidiaAllocator (scaledAcfg x) ta))"
    "recoverInUsed (scaledAcfg x) sampleEnv (freshAllocator startTree [] [] (startWorld\<lparr>tick := 2\<rparr>)) = Inr ta"
    by (rule scaled_allocator)
  obtain vm where vm: "startVirtual sampleBoot (scaledApp x) ?g ?rm = Inr (Inr ([], vm))"
    using scaled_virtual [of x ?rm] by (auto simp: map_sum_def split: sum.splits)
  obtain w where lab: "labelerRun (sLabels sampleBoot) (NewNodeLabeler (sLabels sampleBoot) (acHostname (scaledApp x)) (acNodeLabels (scaledApp x))) [] = (w, None)"
    using sample_labels by (metis prod.collapse scaled_fields)
  let ?m = "setupGRPCService ((NewManager (scaledApp x))\<lparr>mgVirtual := Some vm, mgAllocator := Some (NvidiaAllocator (scaledAcfg x) ta), mgDisplayer := Some ?rm\<rparr>)"
  have e: "acExtraConfigPath (scaledApp x) = []" "acDriver (scaledApp x) \<noteq> []" "startVolumes sampleBoot (scaledApp x) = Inr (Inr ?g)"
    "NewContainerRuntimeManager sampleBoot (acCgroupDriver (scaledApp x)) (acContainerRuntimeEndpoint (scaledApp x)) = Inr ?rm"
    "sBuildConfig sampleBoot = None" "sNewClient sampleBoot = None"
    by (simp_all add: startVolumes_def NewContainerRuntimeManager_def sampleBoot_def scaledApp_def sampleApp_def)
  have "RunManager sampleBoot (NewManager (scaledApp x)) = Inr (runServer sampleBoot ?m)"
    unfolding RunManager_def NewManager_def managerImpl.select_convs Let_def e
    by (simp add: validExtraConfig_def e lab vm ta(1))
  moreover have "snd (runServer sampleBoot ?m) = None"
    by (simp add: runServer_def serveAt_def listenAt_def sampleBoot_def)
  moreover have "mgAllocator (fst (runServer sampleBoot ?m)) = Some (NvidiaAllocator (scaledAcfg x) ta)"
    by (simp add: setupGRPCService_def)
  ultimately show thesis using that ta(2) by (metis prod.collapse)
qed

lemma sample_run:
  obtains m ta where "RunManager sampleBoot (NewManager sampleApp) = Inr (m, None)"
    "mgAllocator m = Some (NvidiaAllocator sampleAcfg ta)"
    "recoverInUsed sampleAcfg sampleEnv (freshAllocator startTree [] [] (startWorld\<lparr>tick := 2\<rparr>)) = Inr ta"
  by (rule scaled_run [of "Fin 1", unfolded scaled_one])

section \<open>The life of the daemon\<close>

text \<open>Claim C1: the daemon never oversubscribes a card, over its whole life. On a machine with at most 32 cards
  whose topology is a hierarchy, start from a node without a checkpoint and let the daemon be started, crash at
  any time, also in the middle of an operation, and be started again, let it answer any calls of the kubelet and of the display service, and let its
  worker and its ticker run, with arbitrary failures of the API server, of the file system and of the
  management library on the way. Whenever it runs, its tree has exactly the cards of the machine, the containers in its cache take at most a
  hundred cores and the memory of each card, and the tree shows exactly the rest as free.\<close>

theorem daemon_never_oversubscribes:
  assumes "daemon cfg cards fs m" "mgAllocator m = Some (NvidiaAllocator c ta)"
    "L = cacheGrants (devNames (taTree ta)) (taCache ta)" "i < length cards"
  shows "treeCards (taTree ta) = cards \<and> usedCores L i \<le> 100 \<and> usedMemory (snd (cards ! i)) L i \<le> snd (cards ! i)
    \<and> dvCores (devView (taTree ta) i) = 100 - usedCores L i
    \<and> dvMemory (devView (taTree ta) i) = snd (cards ! i) - usedMemory (snd (cards ! i)) L i"
proof -
  have "svc_ok cfg cards (NvidiaAllocator c ta)" using daemon_ok [OF assms(1)] assms(2) by (simp add: mgr_ok_def)
  note d = svc_okD(2,3) [OF this]
  have cards: "treeCards (taTree ta) = cards" using d(1) by (simp add: durable_def)
  then have i: "i < devices (taTree ta)" "devTotal (taTree ta) i = snd (cards ! i)"
    using assms(4) by (auto simp: treeCards_def devices_def devTotal_def)
  have l: "tp.ledger (taTree ta) L" using d(2) assms(3) by (simp add: alloc_inv_def books_ok_def tree_ledger_eq)
  show ?thesis using tp.ledger_bounds [OF l i(1)] l i cards by (simp add: tp.ledger_def)
qed

lemma sample_boot_ok: "boot_ok sampleApp (nvCards sampleNvml 4) sampleBoot" "calls_ok sampleApp sampleEnv"
proof -
  have "machine_ok sampleNvml 4" by code_simp
  moreover have "ckptPath sampleApp \<noteq> ''.tmp''" by code_simp
  ultimately show "boot_ok sampleApp (nvCards sampleNvml 4) sampleBoot" "calls_ok sampleApp sampleEnv"
    using sample_env_ok by (simp_all add: boot_ok_def calls_ok_def temp_ok_def nvCards_def sampleBoot_def sampleEnv_def quietOs_def)
qed

text \<open>The sample node after its first allocation.\<close>

lemma sample_daemon:
  obtains fs m ta where "daemon sampleApp (nvCards sampleNvml 4) fs m" "mgAllocator m = Some (NvidiaAllocator sampleAcfg ta)"
    "PodGPUMapping (taCache ta) = [(''u1'', [(''main'', sampleInfo)])]"
proof -
  obtain m ta where r: "RunManager sampleBoot (NewManager sampleApp) = Inr (m, None)"
    "mgAllocator m = Some (NvidiaAllocator sampleAcfg ta)"
    "recoverInUsed sampleAcfg sampleEnv (freshAllocator startTree [] [] (startWorld\<lparr>tick := 2\<rparr>)) = Inr ta"
    by (rule sample_run)
  have "daemon sampleApp (nvCards sampleNvml 4) [] (NewManager sampleApp)" by (rule daemon.node) simp
  then have d: "daemon sampleApp (nvCards sampleNvml 4) (diskOf [] m) m"
    by (rule daemon.start [OF _ sample_boot_ok(1) _ r(1)]) (simp add: sampleBoot_def)
  obtain ta' x where a: "Allocate sampleAcfg sampleEnv ta [sampleIds] = Inr (ta', x)" "PodGPUMapping (taCache ta') = [(''u1'', [(''main'', sampleInfo)])]"
    using sample_recovered unfolding r(3) by (auto split: sum.splits prod.splits list.splits)
  have "map_of (bundleServer m) VCoreAnnotation = Some (newVcoreServer sampleApp)"
    using r(1) by (cases rule: RunManager_cases) (use bundle_started in \<open>auto simp: NewManager_def\<close>)
  moreover have "rsAllocate sampleEnv (newVcoreServer sampleApp) m [sampleIds] = Inr (m\<lparr>mgAllocator := Some (NvidiaAllocator sampleAcfg ta')\<rparr>, x)"
    by (simp add: rsAllocate_def newVcoreServer_def vcoreAllocate_def mgrAllocate_def withAllocator_def r(2) svcAllocate_def a(1))
  ultimately have "daemon sampleApp (nvCards sampleNvml 4) (diskOf (diskOf [] m) (m\<lparr>mgAllocator := Some (NvidiaAllocator sampleAcfg ta')\<rparr>))
      (m\<lparr>mgAllocator := Some (NvidiaAllocator sampleAcfg ta')\<rparr>)"
    by (intro daemon.allocate [OF d sample_boot_ok(2)]) (simp_all add: sampleIds_def)
  then show thesis by (rule that [OF _ _ a(2)]) simp
qed

theorem daemon_never_oversubscribes_witness:
  "\<exists>fs m c ta. daemon sampleApp (nvCards sampleNvml 4) fs m \<and> mgAllocator m = Some (NvidiaAllocator c ta)
     \<and> cacheGet (taCache ta) ''u1'' ''main'' = Some sampleInfo
     \<and> dvCores (devView (taTree ta) 0) = 100 - usedCores (cacheGrants (devNames (taTree ta)) (taCache ta)) 0"
proof -
  obtain fs m ta where d: "daemon sampleApp (nvCards sampleNvml 4) fs m" "mgAllocator m = Some (NvidiaAllocator sampleAcfg ta)"
    "PodGPUMapping (taCache ta) = [(''u1'', [(''main'', sampleInfo)])]" by (rule sample_daemon)
  have "cacheGet (taCache ta) ''u1'' ''main'' = Some sampleInfo" by (simp add: cacheGet_def GetCache_def d(3))
  with d daemon_never_oversubscribes [OF d(1,2) refl, of 0] show ?thesis by (auto simp: nvCards_def)
qed

section \<open>Registration\<close>

text \<open>The requests for two servers, and which of them were sent.\<close>

lemma registerAll_two:
  "registerAll answer i [r, r'] =
     (case answer i of
        Some err \<Rightarrow> ([registerRequest r], Some err)
      | None \<Rightarrow> ([registerRequest r, registerRequest r'], answer (i + 1)))"
  by (simp split: option.split)

lemma mset_two: "mset xs = {#a, b#} \<Longrightarrow> xs = [a, b] \<or> xs = [b, a]"
  by (cases xs rule: list.exhaust; cases "tl xs") (auto simp: add_eq_conv_ex)

lemma pathBase_join:
  assumes "properSeg u"
  shows "pathBase (pathJoinAll [d, u]) = u"
proof -
  have u: "u \<noteq> []" "CHR ''/'' \<notin> set u" using assms by (auto simp: properSeg_def)
  obtain a x where x: "u = a @ [x]" "x \<noteq> CHR ''/''" using u by (cases u rule: rev_exhaust) auto
  have trim: "trimRight (p @ u) (\<lambda>c. c = CHR ''/'') = p @ u" for p
    using x by (simp add: trimRight_def)
  have pre: "joinPre d = [] \<or> (\<exists>p. joinPre d = p @ ''/'')" by (auto simp: joinPre_def)
  then have last: "lastIndexChar (joinPre d @ u) (CHR ''/'') = (if joinPre d = [] then None else Some (length (joinPre d) - 1))"
    using lastIndexChar_append [OF u(2)] lastIndexChar_None [OF u(2)] by auto
  show ?thesis
    using u(1) pre last unfolding pathJoinAll_pre [OF assms] by (auto simp: pathBase_def trim Let_def)
qed

lemma socketNames_proper: "properSeg vcoreSocketName" "properSeg vmemorySocketName"
  by (simp_all add: properSeg_def vcoreSocketName_def vmemorySocketName_def)

lemma started_bundle:
  assumes "RunManager e (NewManager cfg) = Inr (m, err)"
  shows "bundleServer m = (if mgAllocator m = None then []
    else [(VCoreAnnotation, newVcoreServer cfg), (VMemoryAnnotation, newVmemoryServer cfg)])"
  using assms
proof (cases rule: RunManager_cases)
  case (started g resp s m1)
  then show ?thesis using bundle_started [OF started(3)] by (simp add: NewManager_def)
qed (simp add: NewManager_def)

lemma RunManager_started: "RunManager e (NewManager cfg) = Inr (m, None) \<Longrightarrow> mgAllocator m \<noteq> None"
  by (cases rule: RunManager_cases) auto

definition requestOf :: "AppConfig \<Rightarrow> RegisterRequest \<Rightarrow> bool" where
  "requestOf cfg rq \<longleftrightarrow> rqVersion rq = pluginVersion \<and> PreStartRequired (rqOptions rq)
     \<and> (rqResourceName rq, rqEndpoint rq) \<in> {(VCoreAnnotation, vcoreSocketName), (VMemoryAnnotation, vmemorySocketName)}"

lemma registerRequests:
  "requestOf cfg (registerRequest (newVcoreServer cfg))" "rqResourceName (registerRequest (newVcoreServer cfg)) = VCoreAnnotation"
  "requestOf cfg (registerRequest (newVmemoryServer cfg))" "rqResourceName (registerRequest (newVmemoryServer cfg)) = VMemoryAnnotation"
  by (simp_all add: requestOf_def registerRequest_def newVcoreServer_def newVmemoryServer_def ResourceName_def SocketName_def
      pathBase_join socketNames_proper)

lemma registration_laws:
  assumes "RunManager e (NewManager cfg) = Inr (m, None)" "range_order (eOrdS (sAlloc e'))" "RegisterToKubelet e' m = (sent, err)"
  shows "list_all (requestOf cfg) sent \<and> distinct (map rqResourceName sent)
    \<and> (\<forall>rq \<in> set sent. \<exists>r. map_of (bundleServer m) (rqResourceName rq) = Some r
         \<and> SocketName r = pathJoinAll [acDevicePluginPath cfg, rqEndpoint rq])
    \<and> (err = None \<longrightarrow> set (map rqResourceName sent) = {VCoreAnnotation, VMemoryAnnotation})
    \<and> (err \<noteq> None \<and> sent \<noteq> [] \<longrightarrow> sKubeletRegister e' (length sent - 1) = err)"
proof -
  let ?v = "newVcoreServer cfg" and ?y = "newVmemoryServer cfg"
  have b: "bundleServer m = [(VCoreAnnotation, ?v), (VMemoryAnnotation, ?y)]"
    using started_bundle [OF assms(1)] RunManager_started [OF assms(1)] by simp
  have ne: "VCoreAnnotation \<noteq> VMemoryAnnotation" by (simp add: VCoreAnnotation_def VMemoryAnnotation_def)
  then have "gomap_ok (bundleServer m)" by (simp add: b gomap_ok_def)
  from mset_gorange [OF assms(2) this]
  have "mset (map snd (gorange (eOrdS (sAlloc e')) (bundleServer m))) = {#?v, ?y#}" unfolding mset_map by (simp add: b)
  from mset_two [OF this] have rs: "map snd (gorange (eOrdS (sAlloc e')) (bundleServer m)) \<in> {[?v, ?y], [?y, ?v]}" by simp
  have sock: "SocketName ?v = pathJoinAll [acDevicePluginPath cfg, vcoreSocketName]" "SocketName ?y = pathJoinAll [acDevicePluginPath cfg, vmemorySocketName]"
    "rqEndpoint (registerRequest ?v) = vcoreSocketName" "rqEndpoint (registerRequest ?y) = vmemorySocketName"
    by (simp_all add: newVcoreServer_def newVmemoryServer_def SocketName_def registerRequest_def pathBase_join socketNames_proper)
  have all: ?thesis if two: "(sent, err) = registerAll (sKubeletRegister e') 0 [r, r']" and r: "(r, r') \<in> {(?v, ?y), (?y, ?v)}" for r r'
  proof (cases "sKubeletRegister e' 0")
    case None
    then have "sent = [registerRequest r, registerRequest r']" "err = sKubeletRegister e' 1"
      using two unfolding registerAll_two by simp_all
    then show ?thesis using r registerRequests [of cfg] ne sock b by (elim insertE) (simp_all add: insert_commute)
  next
    case (Some x)
    then have "sent = [registerRequest r]" "err = Some x" using two unfolding registerAll_two by simp_all
    then show ?thesis using r Some registerRequests [of cfg] ne sock b by (elim insertE) simp_all
  qed
  show ?thesis
  proof (cases "sKubeletDial e' (pathJoinAll [acDevicePluginPath (mgConfig m), KubeletSocket])")
    case None
    then have "(sent, err) = registerAll (sKubeletRegister e') 0 (map snd (gorange (eOrdS (sAlloc e')) (bundleServer m)))"
      using assms(3) by (simp add: RegisterToKubelet_def)
    then show ?thesis using rs all [of ?v ?y] all [of ?y ?v] by (elim insertE) simp_all
  next
    case (Some x)
    then have "sent = []" "err = Some x" using assms(3) by (auto simp: RegisterToKubelet_def)
    then show ?thesis by simp
  qed
qed

lemma requests_complete:
  assumes "RunManager e (NewManager cfg) = Inr (m, None)" "range_order (eOrdS (sAlloc e'))" "RegisterToKubelet e' m = (sent, None)"
  shows "set (map rqResourceName sent) = {VCoreAnnotation, VMemoryAnnotation}"
  using registration_laws [OF assms] by blast

text \<open>Claim C3: what is registered is what is served. After a start without an error, \<^verbatim>\<open>RegisterToKubelet\<close> sends
  the kubelet at most one request for each of the two resources, in any order of the map: of the version of the
  interface, with the name of the socket at which the server of this very resource listens in the directory of
  the plugins. Without an error both are registered; otherwise it stops at the request that was refused and
  returns its error.\<close>

theorem registration_matches_servers:
  assumes "RunManager e (NewManager cfg) = Inr (m, None)" "range_order (eOrdS (sAlloc e'))" "RegisterToKubelet e' m = (sent, err)"
  shows "list_all (requestOf cfg) sent \<and> distinct (map rqResourceName sent)
    \<and> (\<forall>rq \<in> set sent. \<exists>r. map_of (bundleServer m) (rqResourceName rq) = Some r
         \<and> SocketName r = pathJoinAll [acDevicePluginPath cfg, rqEndpoint rq])
    \<and> (err = None \<longrightarrow> set (map rqResourceName sent) = {VCoreAnnotation, VMemoryAnnotation})
    \<and> (err \<noteq> None \<and> sent \<noteq> [] \<longrightarrow> sKubeletRegister e' (length sent - 1) = err)"
  by (rule registration_laws [OF assms])

theorem registration_matches_servers_witness:
  "\<exists>m sent. RunManager sampleBoot (NewManager sampleApp) = Inr (m, None) \<and> RegisterToKubelet sampleBoot m = (sent, None)
     \<and> set (map rqResourceName sent) = {VCoreAnnotation, VMemoryAnnotation}"
proof -
  obtain m ta where r: "RunManager sampleBoot (NewManager sampleApp) = Inr (m, None)" using sample_run by metis
  have answers: "registerAll (\<lambda>_. None) i rs = (map registerRequest rs, None)" for i rs
    by (induction rs arbitrary: i) auto
  have "range_order (eOrdS (sAlloc sampleBoot))" by (simp add: sampleBoot_def sampleEnv_def)
  moreover obtain sent where s: "RegisterToKubelet sampleBoot m = (sent, None)"
    by (simp add: RegisterToKubelet_def sampleBoot_def answers)
  ultimately have "set (map rqResourceName sent) = {VCoreAnnotation, VMemoryAnnotation}"
    using registration_matches_servers [OF r] by blast
  with r s show ?thesis by blast
qed

section \<open>Readiness\<close>

lemma readyFrom_blocking:
  assumes "\<And>s. s \<in> set sockets \<Longrightarrow> dial s = (if P s then Some True else None)"
  shows "readyFrom dial sockets n = (if list_all P sockets then Some (Some (n + length sockets)) else None)"
  using assms by (induction sockets arbitrary: n) auto

text \<open>Claim C4: when \<^verbatim>\<open>Ready\<close> answers. Dialling a socket succeeds if it is listened at and blocks otherwise, for
  \<^verbatim>\<open>WaitForServer\<close> dials with \<^verbatim>\<open>WithBlock\<close> and no deadline. Before the servers are set up \<^verbatim>\<open>Ready\<close> answers false. Afterwards
  it answers true if both servers listen; if the start of one has failed, whose error is dropped, it never
  answers, and then neither does the loop in \<^verbatim>\<open>Run\<close> of the command that waits for it, although that loop has a timer.\<close>

theorem Ready_exact:
  assumes "RunManager e (NewManager cfg) = Inr (m, err)" "range_order (eOrdS (sAlloc e))" "range_order ord"
    and "\<And>s. dial s = (if s \<in> set (mgListening m) then Some True else None)"
  shows "Ready ord dial m =
      (if mgAllocator m = None then Some False
       else if listenAt e (SocketName (newVcoreServer cfg)) = None \<and> listenAt e (SocketName (newVmemoryServer cfg)) = None
       then Some True else None)
    \<and> (Ready ord dial m = None \<longrightarrow> (\<forall>a k n. aReady a k = Ready ord dial m
         \<and> (\<forall>j < k. aReady a j = Some False \<and> \<not> aTimerFired a j) \<longrightarrow> waitReady n a 0 = None))"
proof -
  let ?ss = "map (SocketName \<circ> snd) (gorange ord (bundleServer m))"
  have "Ready ord dial m =
      (if mgAllocator m = None then Some False
       else if listenAt e (SocketName (newVcoreServer cfg)) = None \<and> listenAt e (SocketName (newVmemoryServer cfg)) = None
       then Some True else None)"
    using assms(1)
  proof (cases rule: RunManager_cases)
    case refused
    then have "bundleServer m = []" "mgAllocator m = None" by (simp_all add: NewManager_def)
    moreover have "mset (ord []) = mset []" using assms(3) by (simp only: range_order_def)
    ultimately show ?thesis by (simp add: Ready_def gorange_def)
  next
    case (started g resp s m1)
    have b: "bundleServer m = [(VCoreAnnotation, newVcoreServer cfg), (VMemoryAnnotation, newVmemoryServer cfg)]"
      using started_bundle [OF assms(1)] started(2) by simp
    have gm: "gomap_ok (bundleServer m)" by (simp add: b gomap_ok_def VCoreAnnotation_def VMemoryAnnotation_def)
    have bs: "bundleServer (setupGRPCService m1) = bundleServer m" "m = fst (runServer e (setupGRPCService m1))"
      using started(3) runServer_fields(2) [of e "setupGRPCService m1"] by (metis fst_conv, metis fst_conv)
    have "mgListening (setupGRPCService m1) = []" using started(6) by (simp add: setupGRPCService_def NewManager_def)
    note l = runServer_listening [OF assms(2) _ this, folded bs(2), unfolded bs(1), OF gm]
    have ss: "set ?ss = SocketName ` snd ` set (bundleServer m)" using set_gorange [OF assms(3) gm] by (simp add: image_comp)
    then have "dial s = (if listenAt e s = None then Some True else None)" if "s \<in> set ?ss" for s
      using that assms(4) [of s] l by auto
    note rd = readyFrom_blocking [of ?ss dial "\<lambda>s. listenAt e s = None", OF this, of 0]
    have len: "length ?ss = length (bundleServer m)" using mset_gorange [OF assms(3) gm] by (metis length_map mset_eq_length)
    have "list_all (\<lambda>s. listenAt e s = None) ?ss \<longleftrightarrow>
        listenAt e (SocketName (newVcoreServer cfg)) = None \<and> listenAt e (SocketName (newVmemoryServer cfg)) = None"
      unfolding list_all_iff ss by (simp add: b)
    then show ?thesis using rd len started(2) b by (simp add: Ready_def)
  qed
  moreover have "waitReady n a 0 = None"
    if "Ready ord dial m = None" "aReady a k = Ready ord dial m" "\<forall>j < k. aReady a j = Some False \<and> \<not> aTimerFired a j" for a k n
    using waitReady_hangs [of a 0 k n] that by simp
  ultimately show ?thesis by blast
qed

theorem Ready_exact_witness:
  "\<exists>m ta. RunManager sampleBoot (NewManager sampleApp) = Inr (m, None) \<and> mgAllocator m = Some ta
     \<and> Ready (\<lambda>ks. ks) (\<lambda>s. if s \<in> set (mgListening m) then Some True else None) m = Some True"
proof -
  obtain m ta where r: "RunManager sampleBoot (NewManager sampleApp) = Inr (m, None)" "mgAllocator m = Some (NvidiaAllocator sampleAcfg ta)"
    by (rule sample_run)
  have "range_order (eOrdS (sAlloc sampleBoot))" by (simp add: sampleBoot_def sampleEnv_def)
  moreover have "listenAt sampleBoot s = None" for s by (simp add: listenAt_def sampleBoot_def)
  ultimately show ?thesis
    using r Ready_exact [OF r(1) _ range_order_id refl] by auto
qed

section \<open>A scaling that is not a number\<close>

lemma startAllocator_config:
  assumes "startAllocator e cfg g resp = Inr (Inr s)" "acDriver cfg = ''nvidia''"
  shows "\<exists>c ta. s = NvidiaAllocator c ta \<and> DeviceMemoryScaling c = acDeviceMemoryScaling cfg"
  using assms
  by (auto simp: startAllocator_def TreeFunc_names AllocatorFunc_names NewNvidiaTree_def treeInit_def treeUpdate_def
      NewNvidiaTopoAllocator_def Let_def allocConfig_def map_sum_def split: if_splits sum.splits)

text \<open>The check of the configuration lets a memory scaling pass that is not a number, and the daemon
  panics with it. Wherever the program starts with a command line and without a configuration file, it also
  starts with the flag \<^verbatim>\<open>--device-memory-scaling=NaN\<close> in addition; but once its servers run for the driver
  \<^verbatim>\<open>nvidia\<close>, the first question of the kubelet for the devices, at either of them, is a panic: the
  number of memory blocks is negative, as the conversion of \<^verbatim>\<open>NaN\<close> to an integer gives on amd64.\<close>

lemma NaN_scaling_panics:
  assumes "aDeviceConfig a = Inl NotExist" "parseFlags args opt = Some opt1" "appConfig a opt1 = Inr cfg" "acDriver cfg = ''nvidia''"
  shows "parseFlags (args @ [(''device-memory-scaling'', FlagFloat NaN)]) opt = Some (opt1\<lparr>optDeviceMemoryScaling := NaN\<rparr>)
    \<and> appConfig a (opt1\<lparr>optDeviceMemoryScaling := NaN\<rparr>) = Inr (cfg\<lparr>acDeviceMemoryScaling := NaN\<rparr>)
    \<and> (\<forall>e m r. RunManager e (NewManager (cfg\<lparr>acDeviceMemoryScaling := NaN\<rparr>)) = Inr (m, None) \<longrightarrow> rsListAndWatch r m = Inl Panic)"
proof -
  define opt2 where "opt2 = opt1\<lparr>optDeviceMemoryScaling := NaN\<rparr>"
  define cfg' where "cfg' = cfg\<lparr>acDeviceMemoryScaling := NaN\<rparr>"
  have "parseFlags [(''device-memory-scaling'', FlagFloat NaN)] opt1 = Some opt2"
    by (simp add: AddFlags_def Float64Var_def opt2_def)
  then have "parseFlags (args @ [(''device-memory-scaling'', FlagFloat NaN)]) opt = Some opt2"
    unfolding parseFlags_append assms(2) by simp
  moreover have "appConfig a opt2 = Inr cfg'"
  proof -
    have c: "cfg = configOf opt1" "checkConfig a (configOf opt1) = None"
      using assms(1,3) by (simp_all add: appConfig_without_file)
    moreover have "configOf opt2 = (configOf opt1)\<lparr>acDeviceMemoryScaling := NaN\<rparr>" by (simp add: configOf_def opt2_def)
    ultimately show ?thesis
      using assms(1) by (auto simp: appConfig_without_file cfg'_def checkConfig_def split: if_splits option.splits)
  qed
  moreover have "rsListAndWatch r m = Inl Panic" if run: "RunManager e (NewManager cfg') = Inr (m, None)" for e m r
    using run
  proof (cases rule: RunManager_cases)
    case (started g resp s m1)
    have "acDriver (mgConfig (NewManager cfg')) = ''nvidia''" "acDeviceMemoryScaling (mgConfig (NewManager cfg')) = NaN"
      using assms(4) by (simp_all add: NewManager_def cfg'_def)
    with startAllocator_config [OF started(1)] obtain c ta where "s = NvidiaAllocator c ta" "DeviceMemoryScaling c = NaN" by auto
    then show ?thesis
      using started(2) capacity_NaN [of c]
      by (cases r) (simp_all add: rsListAndWatch_def vcoreListAndWatch_def vmemoryListAndWatch_def
          mgrListAndWatchWithResourceName_def withAllocator_def svcListAndWatchWithResourceName_def)
  qed simp
  ultimately show ?thesis unfolding opt2_def cfg'_def by blast
qed

definition sampleOptions :: Options where
  "sampleOptions = \<lparr>optDriver = ''nvidia'', optExtraPath = [], optVolumeConfigPath = [], optQueryPort = 5678,
     optQueryAddr = ''localhost'', optKubeConfigFile = [], optSamplePeriod = 1, optNodeLabels = [],
     optHostnameOverride = ''n'', optVirtualManagerPath = ''/etc/gpu-manager/vm'',
     optDevicePluginPath = ''/var/lib/kubelet/device-plugins'', optEnableShare = False,
     optAllocationCheckPeriod = 30, optDeviceMemoryScaling = Fin 1, optCheckpointPath = ''/etc/gpu-manager/checkpoint'',
     optContainerRuntimeEndpoint = ''/var/run/dockershim.sock'', optCgroupDriver = ''cgroupfs'',
     optRequestTimeout = 5 * second, optWaitTimeout = 60 * second\<rparr>"

text \<open>Such a start, on the sample node.\<close>

lemma NaN_scaling_panics_sample:
  "\<exists>opt cfg m. parseFlags [(''share-mode'', FlagBool True), (''device-memory-scaling'', FlagFloat NaN)] sampleOptions = Some opt
     \<and> appConfig appEnv opt = Inr cfg \<and> RunManager sampleBoot (NewManager cfg) = Inr (m, None)
     \<and> rsListAndWatch (newVmemoryServer cfg) m = Inl Panic"
proof -
  define opt where "opt = sampleOptions\<lparr>optEnableShare := True\<rparr>"
  have f: "parseFlags [(''share-mode'', FlagBool True)] sampleOptions = Some opt"
    by (simp add: AddFlags_def BoolVar_def opt_def)
  have "nodeLabelsOf [] = []" by code_simp
  then have c: "configOf opt = sampleApp"
    by (simp add: configOf_def opt_def sampleOptions_def sampleApp_def second_def i64_id)
  have no: "aDeviceConfig appEnv = Inl NotExist" by (simp add: appEnv_def)
  have "checkConfig appEnv sampleApp = None" by code_simp
  then have a: "appConfig appEnv opt = Inr sampleApp" unfolding appConfig_without_file [OF no] c by simp
  have "acDriver sampleApp = ''nvidia''" by (simp add: sampleApp_def)
  note p = NaN_scaling_panics [OF no f a this]
  obtain m where m: "RunManager sampleBoot (NewManager (scaledApp NaN)) = Inr (m, None)" by (rule scaled_run)
  show ?thesis
  proof (intro exI conjI)
    show "parseFlags [(''share-mode'', FlagBool True), (''device-memory-scaling'', FlagFloat NaN)] sampleOptions
        = Some (opt\<lparr>optDeviceMemoryScaling := NaN\<rparr>)" using p by simp
    show "appConfig appEnv (opt\<lparr>optDeviceMemoryScaling := NaN\<rparr>) = Inr (scaledApp NaN)" using p by (simp add: scaledApp_def)
    show "RunManager sampleBoot (NewManager (scaledApp NaN)) = Inr (m, None)" by (rule m)
    show "rsListAndWatch (newVmemoryServer (scaledApp NaN)) m = Inl Panic" using p m by (simp add: scaledApp_def)
  qed
qed

section \<open>Unknown drivers\<close>

text \<open>A driver that is not registered is not reported: the constructor of its tree is called although there is
  none, and \<^verbatim>\<open>Run\<close> panics before it looks for the allocator. \<^verbatim>\<open>nvidia_test\<close> has an allocator and no tree.\<close>

lemma unknown_driver_panics:
  assumes "acDriver cfg \<notin> {''nvidia'', ''dummy''}"
  shows "startAllocator e cfg g resp = Inl Panic"
  using assms by (simp add: startAllocator_def TreeFunc_names)

end
