(* ===== verification/Entry.thy ===== *)
theory Entry
  imports Server_Theorems
begin

text \<open>
  The entry point \<^verbatim>\<open>cmd/manager/nvidia-manager.go\<close> with the flags that are not options of the manager
  (\<^verbatim>\<open>pkg/flags/flags.go\<close>, \<^verbatim>\<open>pkg/version/verflags.go\<close>), and the run of the command over the manager of \<open>Server\<close>.
\<close>

section \<open>verflags.go and flags.go\<close>

datatype versionValue = VersionFalse | VersionTrue | VersionRaw

definition strRawVersion :: string where "strRawVersion = ''raw''"

text \<open>\<^verbatim>\<open>strconv.ParseBool\<close>, \<open>None\<close> for its error.\<close>

definition goParseBool :: "string \<Rightarrow> bool option" where
  "goParseBool s =
     (if s \<in> {''1'', ''t'', ''T'', ''TRUE'', ''true'', ''True''} then Some True
      else if s \<in> {''0'', ''f'', ''F'', ''FALSE'', ''false'', ''False''} then Some False else None)"

text \<open>\<^verbatim>\<open>Set\<close>: the value it leaves and whether it succeeds.\<close>

definition versionSet :: "string \<Rightarrow> versionValue \<times> bool" where
  "versionSet s =
     (if s = strRawVersion then (VersionRaw, True)
      else (if goParseBool s = Some True then VersionTrue else VersionFalse, goParseBool s \<noteq> None))"

definition versionValueString :: "versionValue \<Rightarrow> string" where
  "versionValueString v = (if v = VersionRaw then strRawVersion else if v = VersionTrue then ''true'' else ''false'')"

lemma versionSet_string: "versionSet (versionValueString v) = (v, True)"
  by (cases v) (simp_all add: versionSet_def versionValueString_def goParseBool_def strRawVersion_def)

text \<open>What is printed before the program exits, if it was asked for.\<close>

definition PrintAndExitIfRequested :: "versionValue \<Rightarrow> string option" where
  "PrintAndExitIfRequested v =
     (case v of
        VersionRaw \<Rightarrow> Some (''version.Info{Version:\"'' @ viVersion GetVersion @ ''\", Commit:\"'' @ viCommit GetVersion @ ''\"}'')
      | VersionTrue \<Rightarrow> Some (''Nvidia Manager '' @ versionString GetVersion)
      | VersionFalse \<Rightarrow> None)"

definition WordSepNormalizeFunc :: "string \<Rightarrow> string" where
  "WordSepNormalizeFunc name = (if CHR ''_'' \<in> set name then replaceChar name (CHR ''_'') (CHR ''-'') else name)"

lemma WordSep_idem [simp]: "WordSepNormalizeFunc (WordSepNormalizeFunc name) = WordSepNormalizeFunc name"
  by (auto simp: WordSepNormalizeFunc_def replaceChar_def)

text \<open>Every flag of the manager is in normal form, so that it is found under both spellings.\<close>

lemma AddFlags_normal: "list_all (\<lambda>(name, _). WordSepNormalizeFunc name = name) AddFlags"
  by (simp add: AddFlags_def WordSepNormalizeFunc_def)

section \<open>nvidia-manager.go\<close>

datatype main_end = Usage | Printed string | Ended app_end

text \<open>\<^verbatim>\<open>main\<close>: a flag that is not understood ends the program with the usage; the arguments are the value of the
  version flag, if it is given, and the other flags.\<close>

definition managerMain ::
  "nat \<Rightarrow> app_env \<Rightarrow> string option \<Rightarrow> (string \<times> flag_value) list \<Rightarrow> watch_event list \<Rightarrow> main_end option" where
  "managerMain n e ver args evs =
     (case parseFlags (map (\<lambda>(name, v). (WordSepNormalizeFunc name, v)) args) (NewOptions e) of
        None \<Rightarrow> Some Usage
      | Some opt \<Rightarrow>
          (case (case ver of None \<Rightarrow> (VersionFalse, True) | Some s \<Rightarrow> versionSet s) of
             (_, False) \<Rightarrow> Some Usage
           | (v, True) \<Rightarrow>
               (case PrintAndExitIfRequested v of
                  Some s \<Rightarrow> Some (Printed s)
                | None \<Rightarrow> map_option Ended (appRun n e opt evs))))"

text \<open>The command over the manager: it is restarted only after both servers were ready and both resources were
  registered with the kubelet.\<close>

lemma restart_after_registration:
  assumes "managerMain n e ver args evs = Some (Ended Restart)"
    and "RunManager se (NewManager cfg) = Inr (m, None)" "RegisterToKubelet se m = (sent, aRegister e)"
    and "range_order (eOrdS (sAlloc se))"
  shows "\<exists>i. aReady e i = Some True" "set (map rqResourceName sent) = {VCoreAnnotation, VMemoryAnnotation}"
proof -
  obtain opt where "appRun n e opt evs = Some Restart"
    using assms(1) by (auto simp: managerMain_def split: option.splits prod.splits bool.splits)
  then have r: "waitReady n e 0 = Some True" "aRegister e = None"
    by (auto simp: appRun_def appConfig_def split: option.splits sum.splits bool.splits)
  show "\<exists>i. aReady e i = Some True" using waitReady_true [OF r(1)] by blast
  show "set (map rqResourceName sent) = {VCoreAnnotation, VMemoryAnnotation}"
    using requests_complete [OF assms(2,4)] assms(3) r(2) by simp
qed

end
