(* ===== verification/Spec2Isabelle.thy ===== *)
theory Spec2Isabelle
  imports Tree_Theorems Evaluator_Theorems Store_Theorems Nodelock Watchdog Allocator_Theorems Release_Theorems
    Request_Theorems Virtual_Theorems Volume_Theorems Display_Theorems App_Theorems Server_Theorems Entry
begin

text \<open>
  gpu-manager is a Kubernetes device plugin that shares the NVIDIA cards of a node between containers. A
  container asks for hundredths of a card (the resource \<^verbatim>\<open>nvidia.com/vcuda-core\<close>) and for blocks of memory
  (\<^verbatim>\<open>nvidia.com/vcuda-memory\<close>). This library models the Go program under \<^verbatim>\<open>src/\<close> and proves it correct
  component by component and as a whole.

  \<^bold>\<open>The parts and how they interact.\<close> \<^verbatim>\<open>cmd/manager\<close> reads the options and starts the manager of \<^verbatim>\<open>pkg/server\<close>.
  The manager starts, in this order, the volume manager, the node labeller and annotator, the response manager,
  the virtual manager, the device tree and the allocator, then listens at one socket for each resource and
  registers both with the kubelet. The kubelet calls \<^verbatim>\<open>Allocate\<close> and \<^verbatim>\<open>PreStartContainer\<close> at these sockets. The
  allocator finds the pod a request belongs to by asking the API server, lets an evaluator choose cards in the
  device tree, marks them occupied, remembers the container in the pod cache, writes the cache to its checkpoint
  file and patches the pod through a work queue. Before a container starts it asks the virtual manager for a
  directory with a socket; the client \<^verbatim>\<open>cmd/client\<close> in the container reports itself at this socket, and the virtual
  manager writes the files that limit it. The volume manager has put the control library in the place of the
  driver's own before. The display service reads the tree and the annotations of the pods. After a restart the
  allocator replays the checkpoint on a fresh tree.

  \<^bold>\<open>Reading the model.\<close> A Go function is a HOL function with the same name where that is possible (a
  prefix or suffix tells apart methods of the same name); a method takes and returns its receiver. A struct is a
  record, an enumeration or an interface with several implementations a datatype. A panic, a call of
  \<^verbatim>\<open>klog.Fatal\<close> and a call that blocks for ever are the values \<open>Panic\<close>, \<open>Fatal\<close> and \<open>Hang\<close> of \<open>go_fault\<close>, errors are
  values in the result. Integers are HOL integers with the wrap-around of their width written out (\<open>i64\<close>,
  \<open>u64\<close>, \<open>i32\<close> in \<open>Go_Prelude\<close>), masks are 32-bit words, floats are rational numbers rounded after each
  operation, and the memory scaling, which comes from the command line, may also be infinite or not a number
  (\<open>float64\<close> in \<open>Go_Float\<close>); its conversion to an integer, which the language leaves open for such values, is that of
  amd64. A Go map is an association list and the order in which it is iterated over is an
  arbitrary permutation, a parameter that the theorems quantify over (\<open>range_order\<close>). \<^verbatim>\<open>sort.Sort\<close> is
  the insertion sort that Go uses for short slices, and the locale \<open>sort_contract\<close> states what holds of any
  sorting; \<^verbatim>\<open>Less\<close> methods that are not strict orders are kept as written. Shared mutable tree nodes live in a heap (a list indexed by addresses). What is not in the
  repository - the API server, the kubelet, the management library NVML, the container runtime, the operating
  system - is a record of answers, indexed by the number of calls made before, so that the same call may fail once
  and succeed later. Operations that the program runs under a mutex are atomic.

  \<^bold>\<open>The theories.\<close>
  \<^item> \<open>Go_Prelude\<close>, \<open>Go_Strings\<close>, \<open>Go_Paths\<close>, \<open>Go_Float\<close>, \<open>Json\<close> hold what the program uses of Go and its library;
    the collections \<open>go_map\<close> and \<open>go_path\<close> feed the simplifier.
  \<^item> \<open>Nvml\<close>, \<open>Nvidia_Node\<close>, \<open>Nvidia_Tree\<close>, \<open>Tree_Build\<close> model \<^verbatim>\<open>pkg/device/nvidia\<close>. \<open>Tree_Laws\<close> and \<open>Tree_Ops\<close> refine
    its operations to an abstract pool of devices; \<open>Device_Ledger\<close> states the pool as the locale
    \<open>device_pool\<close>, proves once that a ledger of grants stays balanced, and interprets it on the tree.
    \<open>Topology\<close> and \<open>Tree_Init\<close> show that \<^verbatim>\<open>Init\<close> builds the right tree: the locales \<open>levels\<close>, \<open>hierarchy\<close> and
    \<open>machine_levels\<close> describe levels that form an ultrametric, and the interpretation is the library's answer.
    \<open>Tree_Theorems\<close> has the sample machine and the theorems.
  \<^item> \<open>K8s_Types\<close>, \<open>Utils\<close> model \<^verbatim>\<open>pkg/types\<close> and \<^verbatim>\<open>pkg/utils/util.go\<close>; \<open>Kube_Api\<close>, \<open>Nodelock\<close> the polling of the
    API server and \<^verbatim>\<open>pkg/utils/nodelock\<close>; \<open>Watchdog\<close>, \<open>Node_Labels\<close> \<^verbatim>\<open>pkg/services/watchdog\<close>.
  \<^item> \<open>Evaluators\<close> models \<^verbatim>\<open>pkg/algorithm/nvidia\<close>; \<open>Evaluator_Laws\<close> states the interface of the evaluators as a
    locale with its three interpretations, \<open>Evaluator_Theorems\<close> what each chooses.
  \<^item> \<open>Stores\<close> models the pod cache, the checkpoint file, the response manager and the kubelet's checkpoint
    (\<^verbatim>\<open>pkg/services/allocator/cache\<close>, \<^verbatim>\<open>.../checkpoint\<close>, \<^verbatim>\<open>pkg/services/response\<close>); \<open>Store_Theorems\<close> has their locales and
    laws.
  \<^item> \<open>Allocator_State\<close>, \<open>Allocator\<close> model \<^verbatim>\<open>pkg/services/allocator/nvidia/allocator.go\<close>. \<open>Cache_Ledger\<close> reads the
    cache as a ledger, \<open>Allocator_Laws\<close>, \<open>Allocate_Laws\<close>, \<open>Recovery_Laws\<close> prove that every operation is a sequence of
    steps between balanced states and of checkpoint writes (\<open>evolves\<close>), \<open>Restart_Laws\<close> what therefore survives a
    restart. \<open>Sample_Machine\<close> is the concrete allocator of the witnesses; \<open>Allocator_Theorems\<close>, \<open>Release_Theorems\<close>,
    \<open>Request_Theorems\<close> have the theorems.
  \<^item> \<open>Cgroup\<close>, \<open>Runtime\<close>, \<open>Client\<close> model \<^verbatim>\<open>pkg/utils/cgroup\<close>, \<^verbatim>\<open>pkg/runtime\<close> and \<^verbatim>\<open>cmd/client\<close>; \<open>Virtual_Manager\<close>
    \<^verbatim>\<open>pkg/services/virtual-manager\<close> with its embedded C; \<open>Virtual_Laws\<close>, \<open>Virtual_Files\<close>, \<open>Virtual_Theorems\<close>,
    \<open>Client_Theorems\<close> their properties.
  \<^item> \<open>Ldcache\<close>, \<open>Volume\<close> model \<^verbatim>\<open>pkg/services/volume\<close>, on bytes and on a file system with inodes; \<open>Volume_Laws\<close>,
    \<open>Volume_Theorems\<close>, \<open>Ldcache_Theorems\<close> their properties.
  \<^item> \<open>Display\<close>, \<open>Display_Theorems\<close>: \<^verbatim>\<open>pkg/services/display\<close>.
  \<^item> \<open>App\<close>, \<open>App_Theorems\<close>: \<^verbatim>\<open>cmd/manager/options\<close>, \<^verbatim>\<open>cmd/manager/app\<close>, \<^verbatim>\<open>pkg/config\<close>; \<open>Plugin\<close>: the tables of
    constructors, the dummies and the construction of the allocator; \<open>Server\<close>: \<^verbatim>\<open>pkg/server\<close>; \<open>Entry\<close>: the
    entry point and the version flag.
  \<^item> \<open>Server_Laws\<close>, \<open>Server_Theorems\<close>: the composition, with the locale \<open>registry\<close> for the tables and \<open>plugin_calls\<close>
    for the plugin interface, interpreted on the allocators, the manager and the two servers; the relation
    \<open>daemon\<close> is the life of the program on its node.

  \<^bold>\<open>What is shown.\<close> The main theorem is \<open>daemon_never_oversubscribes\<close>: from a node without a checkpoint on,
  through any sequence of calls, work of the queue, periodic checks, crashes and restarts, and
  with any failures of the surroundings, the cards are never oversubscribed and the tree shows exactly what is
  free. It composes \<open>Init_builds_topology\<close> (the tree is the machine), the refinement of the tree to a pool, the
  contract of the evaluators, the balance of the allocator's books, the atomicity of the checkpoint and the recovery
  from it. Around it: what a successful allocation grants and that a failed one changes nothing; which pod a
  request is matched with; which cards the modes choose, and that they find some exactly when there are
  some; that waiting for the queue ends; the node lock; round trips between writer and reader (checkpoint, kubelet
  identities, cgroup paths and the client, loader cache, annotations and display, labels); that mirroring
  libraries never touches the files of the host; that the garbage collector spares active pods; readiness and
  registration; the number of devices that is reported to the kubelet and to the node;
  and error theorems for inputs on which the program misbehaves: a lock that is taken twice, a driver written with
  capital letters, a scaling that is not a number, a card that is gone, a server that is started twice.

  \<^bold>\<open>Bounds and fuel.\<close> \<^verbatim>\<open>serveUntil\<close> gives the queue \<open>eRounds\<close> rounds and \<^verbatim>\<open>wait.Poll\<close> its number of polls, as fields of
  the surroundings; \<open>enqueueAndWait_returns\<close> proves how many rounds are enough. Requests carry fewer than \<open>2 ^ 32\<close>
  identities and pods ask for fewer than \<open>2 ^ 32\<close> blocks, so that their size in bytes does not wrap; cards have minor
  numbers below \<open>2 ^ 31\<close> and memory below \<open>2 ^ 62\<close>, and below \<open>2 ^ 53\<close>, where
  \<^verbatim>\<open>float64\<close> is exact, where it is scaled; a machine has at most 32 cards, the width of the masks. Loops over
  data are structural or have a termination proof. \<^verbatim>\<open>waitReady\<close> takes the seconds it may wait as fuel, and not
  returning is the value \<open>None\<close>.

  \<^bold>\<open>Not modelled.\<close> Transport and encoding: gRPC and the generated messages (\<^verbatim>\<open>pkg/api\<close>; the messages the program fills
  are records), the HTTP gateway, profiling and metrics handlers, logging (\<^verbatim>\<open>pkg/logs\<close>). The informer behind the
  watchdog, the rate limit of the work queue and the timers are represented by their results. Interleavings
  inside an operation are not modelled: the worker and the periodic check take no lock in the program, which is
  recorded as a finding, and are steps of their own here. A process that dies inside an operation
  leaves one of the files \<open>evolves\<close> goes through, a step of \<open>daemon\<close>; one that dies while it starts is not a step.
  The file system of the volume manager is a flat table of full names, of which only the last element may be a link:
  directories of the volumes that are themselves symbolic links into the host are not modelled.
  The constructors and fakes that only tests use (\<^verbatim>\<open>response/fake.go\<close>,
  \<^verbatim>\<open>runtime_stub.go\<close>, the test constructors of the virtual manager and the watchdog) repeat modelled code.
\<close>

end
